(* ===== verification/Prelude.thy ===== *)
theory Prelude
  imports Main "HOL-Library.Word"
begin

text \<open>
  Shared vocabulary of the development: machine integers and byte strings, the results of
  fallible and of panicking code, the operations of Rust's \<open>str\<close> and slices that the sources
  call, decimal printing and parsing of integers, big-endian encodings, and the interface of a
  keyed store that the registries of the relay implement.

  A Rust \<open>str\<close> is its sequence of UTF-8 bytes, one \<^typ>\<open>char\<close> per byte, so \<open>length\<close> is
  \<open>str::len\<close> and byte offsets are list positions. \<open>to_lowercase\<close>, \<open>trim\<close> and
  \<open>is_alphanumeric\<close> act on ASCII bytes and leave or reject the bytes of non-ASCII code points.
\<close>

section \<open>Types\<close>

type_synonym u8 = "8 word"
type_synonym u16 = "16 word"
type_synonym u32 = "32 word"
type_synonym u64 = "64 word"
type_synonym u128 = "128 word"
type_synonym bytes = "u8 list"

text \<open>Rust's \<open>Result<T, E>\<close>; \<open>Err\<close> and \<open>Ok\<close> are its constructors.\<close>

type_synonym ('e, 'a) result = "'e + 'a"

abbreviation Err :: "'e \<Rightarrow> ('e, 'a) result" where
  "Err \<equiv> Inl"

abbreviation Ok :: "'a \<Rightarrow> ('e, 'a) result" where
  "Ok \<equiv> Inr"

definition is_ok :: "('e, 'a) result \<Rightarrow> bool" where
  "is_ok r = (case r of Err _ \<Rightarrow> False | Ok _ \<Rightarrow> True)"

lemma is_ok_simps [simp]: "is_ok (Ok x)" "\<not> is_ok (Err e)"
  by (simp_all add: is_ok_def)

lemma is_ok_iff: "is_ok r \<longleftrightarrow> (\<exists>x. r = Ok x)"
  by (cases r) auto

text \<open>A run of code that may panic: it returns a value or panics.\<close>

datatype 'a outcome = Returned 'a | Panicked

primrec and_then :: "'a outcome \<Rightarrow> ('a \<Rightarrow> 'b outcome) \<Rightarrow> 'b outcome" where
  "and_then (Returned x) f = f x"
| "and_then Panicked f = Panicked"

lemma and_then_ReturnedE:
  assumes "and_then x f = Returned y"
  obtains z where "x = Returned z" and "f z = Returned y"
  using assms by (cases x) simp_all

text \<open>Indexing and slicing panic out of range.\<close>

definition index_at :: "'a list \<Rightarrow> nat \<Rightarrow> 'a outcome" where
  "index_at xs i = (if i < length xs then Returned (xs ! i) else Panicked)"

definition slice_at :: "'a list \<Rightarrow> nat \<Rightarrow> nat \<Rightarrow> 'a list outcome" where
  "slice_at xs a b =
     (if a \<le> b \<and> b \<le> length xs then Returned (take (b - a) (drop a xs)) else Panicked)"

text \<open>\<open>Result::map_err\<close>, also the conversion that \<open>?\<close> applies to an error.\<close>

definition map_err :: "('e \<Rightarrow> 'f) \<Rightarrow> ('e, 'a) result \<Rightarrow> ('f, 'a) result" where
  "map_err f r = (case r of Err e \<Rightarrow> Err (f e) | Ok x \<Rightarrow> Ok x)"

lemma map_err_simps [simp]:
  "map_err f (Err e) = Err (f e)" "map_err f (Ok x) = Ok x"
  "map_err f r = Ok x \<longleftrightarrow> r = Ok x"
  by (auto simp: map_err_def split: sum.splits)

lemma index_at_append [simp]: "index_at (xs @ y # ys) (length xs) = Returned y"
  by (simp add: index_at_def)

lemma slice_at_append [simp]:
  "slice_at (xs @ ys @ zs) (length xs) (length xs + length ys) = Returned ys"
  by (simp add: slice_at_def)

named_theorems model_defs \<open>definitions of the model unfolded by the component proofs\<close>
named_theorems str_simps \<open>rewrite rules for the string operations\<close>

section \<open>Strings\<close>

definition starts_with :: "'a list \<Rightarrow> 'a list \<Rightarrow> bool" where
  "starts_with s p = (take (length p) s = p)"

definition ends_with :: "'a list \<Rightarrow> 'a list \<Rightarrow> bool" where
  "ends_with s p = (length p \<le> length s \<and> drop (length s - length p) s = p)"

text \<open>\<open>str::contains\<close> with a string pattern, and \<open>slice::windows(n).any(|w| w == p)\<close>.\<close>

fun contains_sub :: "'a list \<Rightarrow> 'a list \<Rightarrow> bool" where
  "contains_sub [] p = (p = [])"
| "contains_sub (x # xs) p = (starts_with (x # xs) p \<or> contains_sub xs p)"

text \<open>Byte offset of the first occurrence of a character, \<open>str::find(char)\<close>.\<close>

fun find_char :: "'a \<Rightarrow> 'a list \<Rightarrow> nat option" where
  "find_char c [] = None"
| "find_char c (x # xs) = (if x = c then Some 0 else map_option Suc (find_char c xs))"

fun split_once :: "'a \<Rightarrow> 'a list \<Rightarrow> ('a list \<times> 'a list) option" where
  "split_once c [] = None"
| "split_once c (x # xs) =
     (if x = c then Some ([], xs)
      else map_option (\<lambda>(a, b). (x # a, b)) (split_once c xs))"

text \<open>\<open>str::split(char)\<close>: never the empty list.\<close>

fun split_char :: "'a \<Rightarrow> 'a list \<Rightarrow> 'a list list" where
  "split_char c [] = [[]]"
| "split_char c (x # xs) =
     (if x = c then [] # split_char c xs
      else (case split_char c xs of [] \<Rightarrow> [[x]] | p # ps \<Rightarrow> (x # p) # ps))"

definition rsplit_once :: "'a \<Rightarrow> 'a list \<Rightarrow> ('a list \<times> 'a list) option" where
  "rsplit_once c s = map_option (\<lambda>(b, a). (rev a, rev b)) (split_once c (rev s))"

definition is_ascii_upper :: "char \<Rightarrow> bool" where
  "is_ascii_upper c \<longleftrightarrow> of_char c \<ge> (65::nat) \<and> of_char c \<le> (90::nat)"

definition is_ascii_lower :: "char \<Rightarrow> bool" where
  "is_ascii_lower c \<longleftrightarrow> of_char c \<ge> (97::nat) \<and> of_char c \<le> (122::nat)"

definition is_ascii_digit :: "char \<Rightarrow> bool" where
  "is_ascii_digit c \<longleftrightarrow> of_char c \<ge> (48::nat) \<and> of_char c \<le> (57::nat)"

definition is_alphanumeric :: "char \<Rightarrow> bool" where
  "is_alphanumeric c \<longleftrightarrow> is_ascii_upper c \<or> is_ascii_lower c \<or> is_ascii_digit c"

definition is_whitespace :: "char \<Rightarrow> bool" where
  "is_whitespace c \<longleftrightarrow> c = CHR '' '' \<or> (of_char c \<ge> (9::nat) \<and> of_char c \<le> (13::nat))"

definition lower_char :: "char \<Rightarrow> char" where
  "lower_char c = (if is_ascii_upper c then char_of ((of_char c :: nat) + 32) else c)"

definition to_lowercase :: "string \<Rightarrow> string" where
  "to_lowercase s = map lower_char s"

definition eq_ignore_ascii_case :: "string \<Rightarrow> string \<Rightarrow> bool" where
  "eq_ignore_ascii_case a b = (to_lowercase a = to_lowercase b)"

definition trim :: "string \<Rightarrow> string" where
  "trim s = rev (dropWhile is_whitespace (rev (dropWhile is_whitespace s)))"

text \<open>
  \<open>str::lines\<close>: the lines end at a line feed, one carriage return before it is dropped with it,
  and an empty last line is no line. A last line without a line feed keeps its carriage return.
\<close>

definition LF :: char where
  "LF = CHR 0x0A"

definition CR :: char where
  "CR = CHR 0x0D"

definition crlf :: string where
  "crlf = [CR, LF]"

definition strip_cr :: "string \<Rightarrow> string" where
  "strip_cr s = (if s \<noteq> [] \<and> last s = CR then butlast s else s)"

subsection \<open>Laws of the string operations\<close>

lemma starts_with_append [simp]: "starts_with (p @ s) p"
  by (simp add: starts_with_def)

lemma starts_with_iff: "starts_with s p \<longleftrightarrow> (\<exists>r. s = p @ r)"
  unfolding starts_with_def by (metis append_eq_conv_conj append_take_drop_id)

text \<open>\<open>trim_start_matches\<close> with a string pattern: the prefix is removed as often as it occurs.\<close>

function trim_start_matches :: "string \<Rightarrow> string \<Rightarrow> string" where
  "trim_start_matches p s =
     (if p \<noteq> [] \<and> starts_with s p then trim_start_matches p (drop (length p) s) else s)"
  by pat_completeness auto
termination
  by (relation "measure (\<lambda>(p, s). length s)") (auto simp: starts_with_iff)

declare trim_start_matches.simps [simp del]

lemma ends_with_iff: "ends_with s p \<longleftrightarrow> (\<exists>r. s = r @ p)"
proof
  assume "ends_with s p"
  then have "s = take (length s - length p) s @ p"
    unfolding ends_with_def by (metis append_take_drop_id)
  then show "\<exists>r. s = r @ p" ..
qed (auto simp: ends_with_def)

lemma contains_sub_iff: "contains_sub s p \<longleftrightarrow> (\<exists>a b. s = a @ p @ b)"
proof (induction s)
  case (Cons x xs)
  show ?case
    by (auto simp: starts_with_iff Cons.IH Cons_eq_append_conv)
qed simp

lemma contains_sub_single [simp]: "contains_sub s [c] \<longleftrightarrow> c \<in> set s"
  by (simp add: contains_sub_iff in_set_conv_decomp)

lemma find_char_None: "find_char c s = None \<longleftrightarrow> c \<notin> set s"
  by (induction s) auto

lemma split_once_None: "split_once c s = None \<longleftrightarrow> c \<notin> set s"
  by (induction s) auto

lemma split_once_Some: "split_once c s = Some (a, b) \<longleftrightarrow> s = a @ c # b \<and> c \<notin> set a"
proof (induction s arbitrary: a)
  case (Cons x xs)
  show ?case by (auto simp: Cons.IH Cons_eq_append_conv)
qed simp

function str_lines :: "string \<Rightarrow> string list" where
  "str_lines s =
     (case split_once LF s of
        None \<Rightarrow> if s = [] then [] else [s]
      | Some (l, rest) \<Rightarrow> strip_cr l # str_lines rest)"
  by pat_completeness auto
termination
  by (relation "measure length") (auto simp: split_once_Some)

declare str_lines.simps [simp del]

lemma str_lines_cons: "LF \<notin> set l \<Longrightarrow> str_lines (l @ LF # rest) = strip_cr l # str_lines rest"
proof -
  assume "LF \<notin> set l"
  then have "split_once LF (l @ LF # rest) = Some (l, rest)" by (simp add: split_once_Some)
  then show ?thesis by (subst str_lines.simps) simp
qed

lemma str_lines_crlf:
  "LF \<notin> set l \<Longrightarrow> str_lines (l @ crlf @ rest) = l # str_lines rest"
proof -
  assume "LF \<notin> set l"
  moreover have "CR \<noteq> LF" by (simp add: CR_def LF_def)
  ultimately show ?thesis
    using str_lines_cons [of "l @ [CR]" rest] by (simp add: crlf_def strip_cr_def)
qed

lemma find_char_split_once: "find_char c s = map_option (\<lambda>(a, b). length a) (split_once c s)"
proof (induction s)
  case (Cons x xs)
  then show ?case by (auto simp: option.map_comp comp_def case_prod_unfold)
qed simp

lemma find_char_Some:
  "find_char c s = Some i \<longleftrightarrow> (\<exists>a b. s = a @ c # b \<and> c \<notin> set a \<and> length a = i)"
  by (auto simp: find_char_split_once split_once_Some)

lemma split_char_not_Nil [simp]: "split_char c s \<noteq> []"
  by (induction s) (auto split: list.splits)

lemma hd_split_char: "hd (split_char c s) = takeWhile (\<lambda>x. x \<noteq> c) s"
proof (induction s)
  case (Cons x xs)
  then show ?case by (cases "split_char c xs") auto
qed simp

lemma split_char_sub: "p \<in> set (split_char c s) \<Longrightarrow> set p \<subseteq> set s \<and> c \<notin> set p"
proof (induction s arbitrary: p)
  case (Cons x xs)
  show ?case
  proof (cases "split_char c xs")
    case (Cons q qs)
    with Cons.IH Cons.prems show ?thesis by (fastforce split: if_splits)
  qed simp
qed simp

lemma length_to_lowercase [simp]: "length (to_lowercase s) = length s"
  by (simp add: to_lowercase_def)

lemma of_char_lower_char:
  "(of_char (lower_char c) :: nat) = (if is_ascii_upper c then of_char c + 32 else of_char c)"
  by (simp add: lower_char_def is_ascii_upper_def)

lemma lower_char_idem [simp]: "lower_char (lower_char c) = lower_char c"
proof -
  have "\<not> is_ascii_upper (lower_char c)"
    unfolding is_ascii_upper_def of_char_lower_char by (auto simp: is_ascii_upper_def)
  then show ?thesis by (simp add: lower_char_def [of "lower_char c"])
qed

lemma to_lowercase_idem [simp]: "to_lowercase (to_lowercase s) = to_lowercase s"
  by (simp add: to_lowercase_def)

lemma trim_sub: "set (trim s) \<subseteq> set s"
  by (auto simp: trim_def dest!: set_dropWhileD)

section \<open>Integers as text\<close>

text \<open>Decimal printing, the \<open>Display\<close> of the unsigned integer types.\<close>

fun show_nat :: "nat \<Rightarrow> string" where
  "show_nat n =
     (if n < 10 then [char_of (48 + n)]
      else show_nat (n div 10) @ [char_of (48 + n mod 10)])"

declare show_nat.simps [simp del]

fun digits_value :: "nat \<Rightarrow> string \<Rightarrow> nat option" where
  "digits_value acc [] = Some acc"
| "digits_value acc (c # cs) =
     (if is_ascii_digit c then digits_value (acc * 10 + (of_char c - 48)) cs else None)"

text \<open>
  \<open>str::parse::<uN>()\<close>: an optional leading \<open>+\<close>, at least one digit, only digits, and a
  value below \<open>2 ^ N\<close>.
\<close>

definition parse_uint :: "nat \<Rightarrow> string \<Rightarrow> nat option" where
  "parse_uint bits s =
     (let ds = (case s of c # cs \<Rightarrow> if c = CHR ''+'' then cs else s | [] \<Rightarrow> [])
      in if ds = [] then None
         else case digits_value 0 ds of
                None \<Rightarrow> None
              | Some n \<Rightarrow> if n < 2 ^ bits then Some n else None)"

definition parse_u8 :: "string \<Rightarrow> u8 option" where
  "parse_u8 s = map_option of_nat (parse_uint 8 s)"

definition parse_u16 :: "string \<Rightarrow> u16 option" where
  "parse_u16 s = map_option of_nat (parse_uint 16 s)"

lemma parse_uint_bound: "parse_uint bits s = Some n \<Longrightarrow> n < 2 ^ bits"
  by (auto simp: parse_uint_def Let_def split: list.splits if_splits option.splits)

lemma show_nat_not_Nil [simp]: "show_nat n \<noteq> []"
  by (subst show_nat.simps) simp

lemma is_ascii_digit_char_of: "d < 10 \<Longrightarrow> is_ascii_digit (char_of (48 + d :: nat))"
  by (simp add: is_ascii_digit_def)

lemma show_nat_digits: "c \<in> set (show_nat n) \<Longrightarrow> is_ascii_digit c"
proof (induction n arbitrary: c rule: show_nat.induct)
  case (1 n)
  then show ?case
    by (subst (asm) (2) show_nat.simps)
       (auto simp: is_ascii_digit_char_of split: if_splits)
qed

lemma digits_value_append:
  "digits_value acc (xs @ ys) = Option.bind (digits_value acc xs) (\<lambda>a. digits_value a ys)"
  by (induction xs arbitrary: acc) auto

lemma digits_value_show_nat: "digits_value 0 (show_nat n) = Some n"
proof (induction n rule: show_nat.induct)
  case (1 n)
  show ?case
  proof (cases "n < 10")
    case True
    then show ?thesis
      by (subst show_nat.simps) (simp add: is_ascii_digit_char_of)
  next
    case False
    with 1 show ?thesis
      by (subst show_nat.simps) (simp add: digits_value_append is_ascii_digit_char_of)
  qed
qed

lemma show_nat_head: "\<exists>d ds. show_nat n = d # ds \<and> is_ascii_digit d"
  by (metis list.exhaust list.set_intros(1) show_nat_digits show_nat_not_Nil)

lemma parse_uint_show_nat: "n < 2 ^ bits \<Longrightarrow> parse_uint bits (show_nat n) = Some n"
proof -
  assume n: "n < 2 ^ bits"
  obtain d ds where d: "show_nat n = d # ds" "is_ascii_digit d"
    using show_nat_head by blast
  have "d \<noteq> CHR ''+''" using d(2) by (auto simp: is_ascii_digit_def)
  then show ?thesis
    using n digits_value_show_nat [of n] unfolding d(1)
    by (simp add: parse_uint_def Let_def)
qed

lemma show_nat_inject [simp]: "show_nat m = show_nat n \<longleftrightarrow> m = n"
  by (metis digits_value_show_nat option.inject)

section \<open>Big-endian integers\<close>

text \<open>\<open>to_be_bytes\<close> and \<open>from_be_bytes\<close>; a list of the wrong length does not decode.\<close>

fun be_bytes :: "nat \<Rightarrow> nat \<Rightarrow> bytes" where
  "be_bytes 0 n = []"
| "be_bytes (Suc k) n = be_bytes k (n div 256) @ [of_nat (n mod 256)]"

fun be_value :: "nat \<Rightarrow> bytes \<Rightarrow> nat" where
  "be_value acc [] = acc"
| "be_value acc (b # bs) = be_value (acc * 256 + unat b) bs"

definition u32_to_be_bytes :: "u32 \<Rightarrow> bytes" where
  "u32_to_be_bytes w = be_bytes 4 (unat w)"

definition u32_from_be_bytes :: "bytes \<Rightarrow> u32" where
  "u32_from_be_bytes bs = of_nat (be_value 0 bs)"

definition u16_from_be_bytes :: "bytes \<Rightarrow> u16" where
  "u16_from_be_bytes bs = of_nat (be_value 0 bs)"

definition u16_to_be_bytes :: "u16 \<Rightarrow> bytes" where
  "u16_to_be_bytes w = be_bytes 2 (unat w)"

lemma be_value_append: "be_value acc (xs @ ys) = be_value (be_value acc xs) ys"
  by (induction xs arbitrary: acc) auto

lemma length_be_bytes [simp]: "length (be_bytes k n) = k"
  by (induction k arbitrary: n) auto

lemma unat_of_nat_mod_256 [simp]: "unat (of_nat (n mod 256) :: u8) = n mod 256"
  by (simp add: unat_of_nat)

lemma be_value_be_bytes: "n < 256 ^ k \<Longrightarrow> be_value 0 (be_bytes k n) = n"
proof (induction k arbitrary: n)
  case (Suc k)
  from Suc.prems have "n div 256 < 256 ^ k" by (simp add: less_mult_imp_div_less mult.commute)
  then show ?case by (simp add: be_value_append Suc.IH)
qed simp

lemma be_value_snoc_bound: "be_value 0 bs < 256 ^ length bs"
proof (induction bs rule: rev_induct)
  case (snoc b bs)
  have "unat b < 256" using unsigned_less [of b, where ?'a = nat] by simp
  with snoc show ?case by (simp add: be_value_append)
qed simp

lemma be_bytes_be_value: "be_bytes (length bs) (be_value 0 bs) = bs"
proof (induction bs rule: rev_induct)
  case (snoc b bs)
  have "unat b < 256" using unsigned_less [of b, where ?'a = nat] by simp
  with snoc show ?case by (simp add: be_value_append)
qed simp

lemma length_u32_to_be_bytes [simp]: "length (u32_to_be_bytes w) = 4"
  by (simp add: u32_to_be_bytes_def)

lemma u32_to_be_bytes_eval:
  "u32_to_be_bytes w =
     [of_nat (unat w div 256 div 256 div 256 mod 256), of_nat (unat w div 256 div 256 mod 256),
      of_nat (unat w div 256 mod 256), of_nat (unat w mod 256)]"
proof -
  have four: "(4::nat) = Suc (Suc (Suc (Suc 0)))" by simp
  show ?thesis unfolding u32_to_be_bytes_def four by simp
qed

lemma u32_be_roundtrip [simp]: "u32_from_be_bytes (u32_to_be_bytes w) = w"
  using unsigned_less [of w, where ?'a = nat]
  by (simp add: u32_to_be_bytes_def u32_from_be_bytes_def be_value_be_bytes)

lemma u32_be_inverse: "length bs = 4 \<Longrightarrow> u32_to_be_bytes (u32_from_be_bytes bs) = bs"
  using be_bytes_be_value [of bs] be_value_snoc_bound [of bs]
  by (simp add: u32_to_be_bytes_def u32_from_be_bytes_def unat_of_nat)

lemma u16_to_be_bytes_eval:
  "u16_to_be_bytes w = [of_nat (unat w div 256 mod 256), of_nat (unat w mod 256)]"
proof -
  have two: "(2::nat) = Suc (Suc 0)" by simp
  show ?thesis unfolding u16_to_be_bytes_def two by simp
qed

lemma length_u16_to_be_bytes [simp]: "length (u16_to_be_bytes w) = 2"
  by (simp add: u16_to_be_bytes_def)

lemma u16_be_roundtrip [simp]: "u16_from_be_bytes (u16_to_be_bytes w) = w"
  using unsigned_less [of w, where ?'a = nat]
  by (simp add: u16_to_be_bytes_def u16_from_be_bytes_def be_value_be_bytes)

section \<open>UTF-8\<close>

text \<open>
  \<open>String::from_utf8\<close>: the byte sequences of Unicode's table of well-formed UTF-8 (no overlong
  forms, no surrogates, nothing above U+10FFFF).
\<close>

definition utf8_cont :: "u8 \<Rightarrow> bool" where
  "utf8_cont b \<longleftrightarrow> 0x80 \<le> b \<and> b \<le> 0xBF"

fun utf8_valid :: "bytes \<Rightarrow> bool" where
  "utf8_valid [] = True"
| "utf8_valid (a # bs) =
     (if a < 0x80 then utf8_valid bs
      else if 0xC2 \<le> a \<and> a \<le> 0xDF then
        (case bs of b # rest \<Rightarrow> utf8_cont b \<and> utf8_valid rest | _ \<Rightarrow> False)
      else if 0xE0 \<le> a \<and> a \<le> 0xEF then
        (case bs of b # c # rest \<Rightarrow>
           (if a = 0xE0 then 0xA0 \<le> b \<and> b \<le> 0xBF
            else if a = 0xED then 0x80 \<le> b \<and> b \<le> 0x9F
            else utf8_cont b) \<and> utf8_cont c \<and> utf8_valid rest
         | _ \<Rightarrow> False)
      else if 0xF0 \<le> a \<and> a \<le> 0xF4 then
        (case bs of b # c # d # rest \<Rightarrow>
           (if a = 0xF0 then 0x90 \<le> b \<and> b \<le> 0xBF
            else if a = 0xF4 then 0x80 \<le> b \<and> b \<le> 0x8F
            else utf8_cont b) \<and> utf8_cont c \<and> utf8_cont d \<and> utf8_valid rest
         | _ \<Rightarrow> False)
      else False)"

definition char_of_byte :: "u8 \<Rightarrow> char" where
  "char_of_byte b = char_of (unat b)"

definition byte_of_char :: "char \<Rightarrow> u8" where
  "byte_of_char c = of_nat (of_char c)"

definition from_utf8 :: "bytes \<Rightarrow> string option" where
  "from_utf8 bs = (if utf8_valid bs then Some (map char_of_byte bs) else None)"

text \<open>\<open>str::as_bytes\<close>.\<close>

definition as_bytes :: "string \<Rightarrow> bytes" where
  "as_bytes s = map byte_of_char s"

lemma char_of_byte_of_char [simp]: "char_of_byte (byte_of_char c) = c"
proof -
  have "of_char c < (256::nat)" by (rule nat_of_char_less_256)
  then show ?thesis by (simp add: char_of_byte_def byte_of_char_def unat_of_nat)
qed

lemma byte_of_char_of_byte [simp]: "byte_of_char (char_of_byte b) = b"
proof -
  have "unat b < 256" using unsigned_less [of b, where ?'a = nat] by simp
  then show ?thesis by (simp add: char_of_byte_def byte_of_char_def)
qed

lemma length_as_bytes [simp]: "length (as_bytes s) = length s"
  by (simp add: as_bytes_def)

lemma map_char_of_byte_as_bytes [simp]: "map char_of_byte (as_bytes s) = s"
  by (simp add: as_bytes_def comp_def)

lemma as_bytes_from_utf8: "from_utf8 bs = Some s \<Longrightarrow> as_bytes s = bs"
  by (auto simp: from_utf8_def as_bytes_def comp_def split: if_splits)

text \<open>\<open>String::from_utf8_lossy\<close>: each maximal ill-formed part becomes one U+FFFD.\<close>

definition utf8_second :: "u8 \<Rightarrow> u8 \<Rightarrow> bool" where
  "utf8_second a b \<longleftrightarrow>
     (if a = 0xE0 then 0xA0 \<le> b \<and> b \<le> 0xBF
      else if a = 0xED then 0x80 \<le> b \<and> b \<le> 0x9F
      else if a = 0xF0 then 0x90 \<le> b \<and> b \<le> 0xBF
      else if a = 0xF4 then 0x80 \<le> b \<and> b \<le> 0x8F
      else utf8_cont b)"

fun utf8_lossy :: "bytes \<Rightarrow> bytes" where
  "utf8_lossy [] = []"
| "utf8_lossy (a # bs) =
     (if a < 0x80 then a # utf8_lossy bs
      else if 0xC2 \<le> a \<and> a \<le> 0xDF then
        (case bs of b # rest \<Rightarrow>
           if utf8_cont b then a # b # utf8_lossy rest else [0xEF, 0xBF, 0xBD] @ utf8_lossy bs
         | [] \<Rightarrow> [0xEF, 0xBF, 0xBD])
      else if 0xE0 \<le> a \<and> a \<le> 0xEF then
        (case bs of b # bs' \<Rightarrow>
           if \<not> utf8_second a b then [0xEF, 0xBF, 0xBD] @ utf8_lossy bs
           else (case bs' of c # rest \<Rightarrow>
                   if utf8_cont c then a # b # c # utf8_lossy rest
                   else [0xEF, 0xBF, 0xBD] @ utf8_lossy bs'
                 | [] \<Rightarrow> [0xEF, 0xBF, 0xBD])
         | [] \<Rightarrow> [0xEF, 0xBF, 0xBD])
      else if 0xF0 \<le> a \<and> a \<le> 0xF4 then
        (case bs of b # bs' \<Rightarrow>
           if \<not> utf8_second a b then [0xEF, 0xBF, 0xBD] @ utf8_lossy bs
           else (case bs' of c # bs'' \<Rightarrow>
                   if \<not> utf8_cont c then [0xEF, 0xBF, 0xBD] @ utf8_lossy bs'
                   else (case bs'' of d # rest \<Rightarrow>
                           if utf8_cont d then a # b # c # d # utf8_lossy rest
                           else [0xEF, 0xBF, 0xBD] @ utf8_lossy bs''
                         | [] \<Rightarrow> [0xEF, 0xBF, 0xBD])
                 | [] \<Rightarrow> [0xEF, 0xBF, 0xBD])
         | [] \<Rightarrow> [0xEF, 0xBF, 0xBD])
      else [0xEF, 0xBF, 0xBD] @ utf8_lossy bs)"

definition from_utf8_lossy :: "bytes \<Rightarrow> string" where
  "from_utf8_lossy bs = map char_of_byte (utf8_lossy bs)"

lemma utf8_lossy_ascii: "list_all (\<lambda>b. b < 0x80) bs \<Longrightarrow> utf8_lossy (bs @ cs) = bs @ utf8_lossy cs"
  by (induction bs) auto

lemma from_utf8_lossy_ascii:
  "list_all (\<lambda>b. b < 0x80) bs \<Longrightarrow>
     from_utf8_lossy (bs @ cs) = map char_of_byte bs @ from_utf8_lossy cs"
  by (simp add: from_utf8_lossy_def utf8_lossy_ascii)

lemma utf8_valid_ascii: "list_all (\<lambda>b. b < 0x80) bs \<Longrightarrow> utf8_valid bs"
  by (induction bs) auto

lemma byte_of_char_ascii: "of_char c < (128::nat) \<Longrightarrow> byte_of_char c < 0x80"
proof -
  assume "of_char c < (128::nat)"
  then have "unat (byte_of_char c) < 128" by (simp add: byte_of_char_def unat_of_nat)
  then show ?thesis by (simp add: word_less_nat_alt)
qed

lemma lossy_as_bytes:
  assumes "list_all (\<lambda>c. of_char c < (128::nat)) s"
  shows "from_utf8_lossy (as_bytes s @ body) = s @ from_utf8_lossy body"
proof -
  have "list_all (\<lambda>b. b < 0x80) (as_bytes s)"
    using assms by (simp add: as_bytes_def list_all_iff byte_of_char_ascii)
  then show ?thesis by (simp add: from_utf8_lossy_ascii)
qed

lemma trim_space: "trim (CHR '' '' # v) = trim v"
  by (simp add: trim_def is_whitespace_def)

lemma crlf_ascii: "list_all (\<lambda>c. of_char c < (128::nat)) crlf"
  by (simp add: crlf_def CR_def LF_def)

lemma from_utf8_as_bytes: "list_all (\<lambda>c. of_char c < (128::nat)) s \<Longrightarrow> from_utf8 (as_bytes s) = Some s"
  by (simp add: from_utf8_def utf8_valid_ascii as_bytes_def list_all_iff byte_of_char_ascii comp_def)

lemma byte_of_char_inject [simp]: "byte_of_char a = byte_of_char b \<longleftrightarrow> a = b"
  by (metis char_of_byte_of_char)

lemma as_bytes_append [simp]: "as_bytes (a @ b) = as_bytes a @ as_bytes b"
  by (simp add: as_bytes_def)

lemma is_ascii_digit_ascii: "is_ascii_digit c \<Longrightarrow> of_char c < (128::nat) \<and> c \<noteq> LF \<and> \<not> is_whitespace c"
  by (auto simp: is_ascii_digit_def LF_def is_whitespace_def)

lemma show_nat_ascii: "list_all (\<lambda>c. of_char c < (128::nat)) (show_nat n)" "LF \<notin> set (show_nat n)"
  using show_nat_digits [THEN is_ascii_digit_ascii] by (auto simp: list_all_iff)

lemma trim_no_whitespace: "list_all (\<lambda>c. \<not> is_whitespace c) s \<Longrightarrow> trim s = s"
proof -
  assume s: "list_all (\<lambda>c. \<not> is_whitespace c) s"
  then have "dropWhile is_whitespace s = s" by (cases s) auto
  moreover from s have "dropWhile is_whitespace (rev s) = rev s" by (cases "rev s") (auto simp: list_all_iff)
  ultimately show ?thesis by (simp add: trim_def)
qed

lemma trim_show_nat [simp]: "trim (show_nat n) = show_nat n"
  using show_nat_digits [THEN is_ascii_digit_ascii] by (intro trim_no_whitespace) (auto simp: list_all_iff)

section \<open>Saturating arithmetic\<close>

definition saturating_add :: "'a::len word \<Rightarrow> 'a word \<Rightarrow> 'a word" where
  "saturating_add a b = (if a \<le> a + b then a + b else - 1)"

definition saturating_sub :: "'a::len word \<Rightarrow> 'a word \<Rightarrow> 'a word" where
  "saturating_sub a b = (if b \<le> a then a - b else 0)"

lemma saturating_add_ge: "a \<le> saturating_add a b"
  by (simp add: saturating_add_def)

section \<open>Sorting\<close>

text \<open>
  \<open>Ord::cmp\<close>, \<open>Ordering::then\<close> and the stable \<open>slice::sort_by\<close>. For a comparison by keys it is
  the library's \<open>sort_key\<close>.
\<close>

datatype ordering = Less | Equal | Greater

definition cmp :: "'a::linorder \<Rightarrow> 'a \<Rightarrow> ordering" where
  "cmp a b = (if a < b then Less else if a = b then Equal else Greater)"

fun insert_by :: "('a \<Rightarrow> 'a \<Rightarrow> ordering) \<Rightarrow> 'a \<Rightarrow> 'a list \<Rightarrow> 'a list" where
  "insert_by c x [] = [x]"
| "insert_by c x (y # ys) = (if c x y = Greater then y # insert_by c x ys else x # y # ys)"

definition sort_by :: "('a \<Rightarrow> 'a \<Rightarrow> ordering) \<Rightarrow> 'a list \<Rightarrow> 'a list" where
  "sort_by c xs = foldr (insert_by c) xs []"

lemma cmp_simps [simp]:
  "cmp a b = Greater \<longleftrightarrow> b < a" "cmp a b = Less \<longleftrightarrow> a < b" "cmp a b = Equal \<longleftrightarrow> a = b"
  by (auto simp: cmp_def)

lemma set_insert_by: "set (insert_by c x ys) = insert x (set ys)"
  by (induction ys) auto

lemma set_sort_by [simp]: "set (sort_by c xs) = set xs"
  by (induction xs) (auto simp: sort_by_def set_insert_by)

lemma insert_by_insort_key:
  "\<forall>y \<in> set ys. (c x y = Greater \<longleftrightarrow> key y < key x) \<Longrightarrow> insert_by c x ys = insort_key key x ys"
  by (induction ys) (auto simp: not_le)

lemma sort_by_sort_key:
  assumes "\<forall>x \<in> set xs. \<forall>y \<in> set xs. (c x y = Greater \<longleftrightarrow> key y < key x)"
  shows "sort_by c xs = sort_key key xs"
  using assms
proof (induction xs)
  case (Cons x xs)
  then have "sort_by c xs = sort_key key xs" by simp
  moreover have "insert_by c x (sort_key key xs) = insort_key key x (sort_key key xs)"
    by (rule insert_by_insort_key) (use Cons.prems in auto)
  ultimately show ?case by (simp add: sort_by_def)
qed (simp add: sort_by_def)

text \<open>The head of a stable sort is the first of the least elements.\<close>

lemma hd_sort_key:
  assumes "xs \<noteq> []"
  shows "\<exists>as bs. xs = as @ hd (sort_key key xs) # bs \<and>
           (\<forall>a \<in> set as. key (hd (sort_key key xs)) < key a) \<and>
           (\<forall>b \<in> set bs. key (hd (sort_key key xs)) \<le> key b)"
  using assms
proof (induction xs)
  case (Cons x xs)
  show ?case
  proof (cases "xs = []")
    case True
    then show ?thesis by (intro exI [of _ "[]"]) simp
  next
    case False
    define h where "h = hd (sort_key key xs)"
    obtain as bs where h: "xs = as @ h # bs" "\<forall>a \<in> set as. key h < key a" "\<forall>b \<in> set bs. key h \<le> key b"
      using Cons.IH [OF False] unfolding h_def by blast
    have sk: "sort_key key xs \<noteq> []" using False by (metis length_0_conv length_sort)
    then have hd: "hd (sort_key key (x # xs)) = (if key x \<le> key h then x else h)"
      unfolding h_def by (cases "sort_key key xs") auto
    show ?thesis
    proof (cases "key x \<le> key h")
      case True
      with h have "\<forall>b \<in> set xs. key x \<le> key b" by fastforce
      with True hd show ?thesis by (intro exI [of _ "[]"] exI [of _ xs]) simp
    next
      case f: False
      have "x # xs = (x # as) @ h # bs" using h(1) by simp
      with f h hd show ?thesis by (intro exI [of _ "x # as"] exI [of _ bs]) auto
    qed
  qed
qed simp

section \<open>Keyed stores\<close>

text \<open>
  The registries of the relay (routes, wildcard routes, tunnel and agent connections, agents,
  pending requests, background tasks) are hash maps behind a lock or sharded locks, so each
  operation is one atomic step. The interface they share is a lookup, a store and a removal. Its
  consequence for a client is that a lookup returns the last write to its key, whatever the
  operations on other keys.
\<close>

datatype ('k, 'v) store_op = Put 'k 'v | Del 'k

fun last_write :: "('k, 'v) store_op list \<Rightarrow> 'k \<Rightarrow> 'v option \<Rightarrow> 'v option" where
  "last_write [] k v = v"
| "last_write (Put k' x # ops) k v = last_write ops k (if k' = k then Some x else v)"
| "last_write (Del k' # ops) k v = last_write ops k (if k' = k then None else v)"

locale keyed_store =
  fixes get :: "'s \<Rightarrow> 'k \<Rightarrow> 'v option"
    and put :: "'k \<Rightarrow> 'v \<Rightarrow> 's \<Rightarrow> 's"
    and del :: "'k \<Rightarrow> 's \<Rightarrow> 's"
  assumes get_put: "get (put k v s) k' = (if k' = k then Some v else get s k')"
    and get_del: "get (del k s) k' = (if k' = k then None else get s k')"
begin

fun run_ops :: "('k, 'v) store_op list \<Rightarrow> 's \<Rightarrow> 's" where
  "run_ops [] s = s"
| "run_ops (Put k v # ops) s = run_ops ops (put k v s)"
| "run_ops (Del k # ops) s = run_ops ops (del k s)"

lemma get_run_ops: "get (run_ops ops s) k = last_write ops k (get s k)"
proof (induction ops arbitrary: s)
  case (Cons op ops)
  then show ?case by (cases op) (auto simp: get_put get_del)
qed simp

lemma put_del_get: "get (put k v (del k s)) k' = get (put k v s) k'"
  by (simp add: get_put get_del)

lemma last_put_wins: "get (run_ops (ops @ [Put k v]) s) k = Some v"
proof -
  have "last_write (ops @ [Put k v]) k w = Some v" for w
  proof (induction ops arbitrary: w)
    case (Cons op ops)
    then show ?case by (cases op) auto
  qed simp
  then show ?thesis by (simp add: get_run_ops)
qed

end

end
