(* ===== verification/Mux.thy ===== *)
theory Mux
  imports Prelude
begin

unbundle bit_operations_syntax

text \<open>
  Multiplexing primitives, \<open>crates/localup-proto/src/mux.rs\<close>: frames and their wire encoding, and
  the multiplexer that hands out stream identifiers. Each method of \<open>Multiplexer\<close> holds its
  mutexes for its whole body, so it is one state transformer.
\<close>

section \<open>Frames\<close>

type_synonym StreamId = u32

datatype FrameType = FrameControl | FrameData | FrameClose | FrameWindowUpdate

datatype MuxError =
    InvalidFrameType u8
  | FrameTooLarge nat
  | IncompleteFrame
  | StreamNotFound StreamId
  | StreamAlreadyExists StreamId
  | NoAvailableStreamIds

definition MAX_FRAME_SIZE :: u32 where
  "MAX_FRAME_SIZE = 16 * 1024 * 1024"

definition CONTROL_STREAM_ID :: u32 where
  "CONTROL_STREAM_ID = 0"

fun frame_type_as_u8 :: "FrameType \<Rightarrow> u8" where
  "frame_type_as_u8 FrameControl = 0"
| "frame_type_as_u8 FrameData = 1"
| "frame_type_as_u8 FrameClose = 2"
| "frame_type_as_u8 FrameWindowUpdate = 3"

definition frame_type_try_from :: "u8 \<Rightarrow> (MuxError, FrameType) result" where
  "frame_type_try_from v =
     (if v = 0 then Ok FrameControl
      else if v = 1 then Ok FrameData
      else if v = 2 then Ok FrameClose
      else if v = 3 then Ok FrameWindowUpdate
      else Err (InvalidFrameType v))"

text \<open>\<open>FrameFlags\<close> wraps a byte.\<close>

type_synonym FrameFlags = u8

definition FIN :: u8 where "FIN = 1"

definition ACK :: u8 where "ACK = 2"

definition RST :: u8 where "RST = 4"

definition flags_new :: FrameFlags where "flags_new = 0"

definition with_fin :: "FrameFlags \<Rightarrow> FrameFlags" where "with_fin f = f OR FIN"

definition with_ack :: "FrameFlags \<Rightarrow> FrameFlags" where "with_ack f = f OR ACK"

definition with_rst :: "FrameFlags \<Rightarrow> FrameFlags" where "with_rst f = f OR RST"

definition has_fin :: "FrameFlags \<Rightarrow> bool" where "has_fin f \<longleftrightarrow> f AND FIN \<noteq> 0"

definition has_ack :: "FrameFlags \<Rightarrow> bool" where "has_ack f \<longleftrightarrow> f AND ACK \<noteq> 0"

definition has_rst :: "FrameFlags \<Rightarrow> bool" where "has_rst f \<longleftrightarrow> f AND RST \<noteq> 0"

record Frame =
  stream_id :: StreamId
  frame_type :: FrameType
  flags :: FrameFlags
  payload :: bytes

definition HEADER_SIZE :: nat where
  "HEADER_SIZE = 10"

definition frame_new :: "StreamId \<Rightarrow> FrameType \<Rightarrow> bytes \<Rightarrow> Frame" where
  "frame_new sid ft p = \<lparr>stream_id = sid, frame_type = ft, flags = flags_new, payload = p\<rparr>"

definition frame_control :: "bytes \<Rightarrow> Frame" where
  "frame_control p = frame_new CONTROL_STREAM_ID FrameControl p"

definition frame_data :: "StreamId \<Rightarrow> bytes \<Rightarrow> Frame" where
  "frame_data sid p = frame_new sid FrameData p"

definition frame_close :: "StreamId \<Rightarrow> Frame" where
  "frame_close sid = frame_new sid FrameClose []"

definition frame_with_flags :: "Frame \<Rightarrow> FrameFlags \<Rightarrow> Frame" where
  "frame_with_flags f fl = f\<lparr>flags := fl\<rparr>"

definition frame_encode :: "Frame \<Rightarrow> (MuxError, bytes) result" where
  "frame_encode f =
     (let payload_len = length (payload f)
      in if payload_len > unat MAX_FRAME_SIZE then Err (FrameTooLarge payload_len)
         else Ok (u32_to_be_bytes (stream_id f)
                  @ [frame_type_as_u8 (frame_type f), flags f]
                  @ u32_to_be_bytes (of_nat payload_len)
                  @ payload f))"

definition frame_decode :: "bytes \<Rightarrow> (MuxError, Frame) result" where
  "frame_decode buf =
     (if length buf < HEADER_SIZE then Err IncompleteFrame
      else let sid = u32_from_be_bytes (take 4 buf);
               fl = buf ! 5;
               len = u32_from_be_bytes (take 4 (drop 6 buf));
               rest = drop 10 buf
           in case frame_type_try_from (buf ! 4) of
                Err e \<Rightarrow> Err e
              | Ok ft \<Rightarrow>
                  if len > MAX_FRAME_SIZE then Err (FrameTooLarge (unat len))
                  else if length rest < unat len then Err IncompleteFrame
                  else Ok \<lparr>stream_id = sid, frame_type = ft, flags = fl,
                           payload = take (unat len) rest\<rparr>)"

section \<open>The multiplexer\<close>

datatype StreamState = Open | HalfClosed | Closed

record Multiplexer =
  next_stream_id :: StreamId
  streams :: "StreamId \<rightharpoonup> StreamState"

definition mux_new :: Multiplexer where
  "mux_new = \<lparr>next_stream_id = 1, streams = Map.empty\<rparr>"

text \<open>
  The search loop of \<open>allocate_stream\<close>. \<open>None\<close> is a loop that never returns; the mutexes stay
  locked then.
\<close>

partial_function (option) allocate_loop ::
  "StreamId \<Rightarrow> StreamId \<Rightarrow> (StreamId \<rightharpoonup> StreamState)
    \<Rightarrow> ((MuxError, StreamId) result \<times> Multiplexer) option" where
  "allocate_loop start_id i strs =
     (if i = CONTROL_STREAM_ID then allocate_loop start_id 1 strs
      else if strs i = None then
        Some (Ok i, \<lparr>next_stream_id = i + 1, streams = strs(i \<mapsto> Open)\<rparr>)
      else if i + 1 = start_id then
        Some (Err NoAvailableStreamIds, \<lparr>next_stream_id = i + 1, streams = strs\<rparr>)
      else allocate_loop start_id (i + 1) strs)"

definition allocate_stream ::
  "Multiplexer \<Rightarrow> ((MuxError, StreamId) result \<times> Multiplexer) option" where
  "allocate_stream m = allocate_loop (next_stream_id m) (next_stream_id m) (streams m)"

definition register_stream ::
  "StreamId \<Rightarrow> Multiplexer \<Rightarrow> (MuxError, unit) result \<times> Multiplexer" where
  "register_stream sid m =
     (if streams m sid \<noteq> None then (Err (StreamAlreadyExists sid), m)
      else (Ok (), m\<lparr>streams := (streams m)(sid \<mapsto> Open)\<rparr>))"

definition close_stream ::
  "StreamId \<Rightarrow> Multiplexer \<Rightarrow> (MuxError, unit) result \<times> Multiplexer" where
  "close_stream sid m =
     (if streams m sid = None then (Err (StreamNotFound sid), m)
      else (Ok (), m\<lparr>streams := (streams m)(sid \<mapsto> Closed)\<rparr>))"

definition remove_stream :: "StreamId \<Rightarrow> Multiplexer \<Rightarrow> Multiplexer" where
  "remove_stream sid m = m\<lparr>streams := (streams m)(sid := None)\<rparr>"

definition get_stream_state :: "StreamId \<Rightarrow> Multiplexer \<Rightarrow> StreamState option" where
  "get_stream_state sid m = streams m sid"

definition active_streams :: "Multiplexer \<Rightarrow> nat" where
  "active_streams m = card {sid. streams m sid = Some Open}"

text \<open>A client that opens \<open>n\<close> streams one after the other, collecting the identifiers.\<close>

fun allocate_many :: "nat \<Rightarrow> Multiplexer \<Rightarrow> (StreamId list \<times> Multiplexer) option" where
  "allocate_many 0 m = Some ([], m)"
| "allocate_many (Suc n) m =
     (case allocate_stream m of
        Some (Ok i, m') \<Rightarrow> map_option (\<lambda>(is, m''). (i # is, m'')) (allocate_many n m')
      | _ \<Rightarrow> None)"

section \<open>Frames: encoding and decoding\<close>

lemmas flag_defs = flags_new_def with_fin_def with_ack_def with_rst_def
  has_fin_def has_ack_def has_rst_def FIN_def ACK_def RST_def

lemma unat_MAX_FRAME_SIZE [simp]: "unat MAX_FRAME_SIZE = 16777216"
  by (simp add: MAX_FRAME_SIZE_def)

lemma frame_type_try_from_as_u8 [simp]: "frame_type_try_from (frame_type_as_u8 ft) = Ok ft"
  by (cases ft) (simp_all add: frame_type_try_from_def)

lemma frame_type_as_u8_try_from: "frame_type_try_from v = Ok ft \<Longrightarrow> frame_type_as_u8 ft = v"
  by (auto simp: frame_type_try_from_def split: if_splits)

lemma unat_of_nat_le_max: "n \<le> 16777216 \<Longrightarrow> unat (of_nat n :: u32) = n"
  by (simp add: unat_of_nat)

lemma of_nat_le_max: "n \<le> 16777216 \<Longrightarrow> (of_nat n :: u32) \<le> MAX_FRAME_SIZE"
  by (simp add: word_le_nat_alt unat_of_nat_le_max)

lemma frame_encode_Ok:
  "frame_encode f = Ok bs \<longleftrightarrow>
     length (payload f) \<le> 16777216 \<and>
     bs = u32_to_be_bytes (stream_id f) @ [frame_type_as_u8 (frame_type f), flags f]
          @ u32_to_be_bytes (of_nat (length (payload f))) @ payload f"
  by (auto simp: frame_encode_def Let_def)



lemma header_split:
  assumes "10 \<le> length buf"
  shows "take 10 buf = take 4 buf @ [buf ! 4, buf ! 5] @ take 4 (drop 6 buf)"
proof -
  obtain a b c d e f g h i j r where "buf = a # b # c # d # e # f # g # h # i # j # r"
    using assms by (auto simp: numeral_eq_Suc Suc_le_length_iff)
  then show ?thesis by simp
qed

lemma take_header:
  assumes "10 \<le> length buf"
  shows "take (10 + n) buf
           = take 4 buf @ [buf ! 4, buf ! 5] @ take 4 (drop 6 buf) @ take n (drop 10 buf)"
  using header_split [OF assms] by (simp add: take_add)

text \<open>
  Decoding is the inverse of encoding on the bytes it consumes: a buffer that decodes starts with
  the encoding of the frame it decodes to, so no two frames share an encoding and a decoded frame
  never carries more than the 16 MB limit.
\<close>

theorem frame_decode_encode:
  assumes "frame_decode buf = Ok f"
  shows "frame_encode f = Ok (take (HEADER_SIZE + length (payload f)) buf)"
proof -
  obtain ft where len: "10 \<le> length buf"
    and ft: "frame_type_try_from (buf ! 4) = Ok ft"
    and max: "unat (u32_from_be_bytes (take 4 (drop 6 buf))) \<le> 16777216"
    and rest: "unat (u32_from_be_bytes (take 4 (drop 6 buf))) \<le> length buf - 10"
    and f: "f = \<lparr>stream_id = u32_from_be_bytes (take 4 buf), frame_type = ft, flags = buf ! 5,
                 payload = take (unat (u32_from_be_bytes (take 4 (drop 6 buf)))) (drop 10 buf)\<rparr>"
    using assms
    by (auto simp: frame_decode_def Let_def HEADER_SIZE_def word_le_nat_alt not_less
        split: if_splits sum.splits)
  define n where "n = unat (u32_from_be_bytes (take 4 (drop 6 buf)))"
  have n: "of_nat n = u32_from_be_bytes (take 4 (drop 6 buf))" by (simp add: n_def)
  have len_n: "u32_to_be_bytes (of_nat n) = take 4 (drop 6 buf)"
    using len unfolding n by (intro u32_be_inverse) simp
  from len ft max rest show ?thesis
    unfolding frame_encode_Ok f n_def [symmetric]
    by (simp add: u32_be_inverse frame_type_as_u8_try_from HEADER_SIZE_def min_absorb2 take_header
        len_n)
qed

theorem frame_decode_encode_witness:
  "frame_encode \<lparr>stream_id = 0, frame_type = FrameClose, flags = 1, payload = []\<rparr>
     = Ok (take 10 [0, 0, 0, 0, 2, 1, 0, 0, 0, 0, 77])"
proof -
  have "frame_decode [0, 0, 0, 0, 2, 1, 0, 0, 0, 0, 77]
          = Ok \<lparr>stream_id = 0, frame_type = FrameClose, flags = 1, payload = []\<rparr>"
    by (simp add: frame_decode_def HEADER_SIZE_def frame_type_try_from_def u32_from_be_bytes_def)
  from frame_decode_encode [OF this] show ?thesis by (simp add: HEADER_SIZE_def)
qed

text \<open>Setting a flag sets that flag and no other.\<close>

lemma bit_flags:
  "has_fin f \<longleftrightarrow> bit f 0" "has_ack f \<longleftrightarrow> bit f 1" "has_rst f \<longleftrightarrow> bit f 2"
  using and_exp_eq_0_iff_not_bit [of f 0] and_exp_eq_0_iff_not_bit [of f 1]
    and_exp_eq_0_iff_not_bit [of f 2]
  by (simp_all add: flag_defs)

lemma bit_with_flags:
  "bit (with_fin f) i \<longleftrightarrow> bit f i \<or> i = 0"
  "bit (with_ack f) i \<longleftrightarrow> bit f i \<or> i = 1"
  "bit (with_rst f) i \<longleftrightarrow> bit f i \<or> i = 2"
  using bit_exp_iff [of 1 i, where ?'a = u8] bit_exp_iff [of 2 i, where ?'a = u8]
  by (auto simp: flag_defs bit_simps bit_1_iff)

text \<open>
  The flag setters are independent: each sets its own bit of the flags byte and leaves the two
  others as they were, and a fresh flags byte has none of them.
\<close>

lemma flags_independent:
  "has_fin (with_fin f) \<and> has_ack (with_fin f) = has_ack f \<and> has_rst (with_fin f) = has_rst f \<and>
   has_ack (with_ack f) \<and> has_fin (with_ack f) = has_fin f \<and> has_rst (with_ack f) = has_rst f \<and>
   has_rst (with_rst f) \<and> has_fin (with_rst f) = has_fin f \<and> has_ack (with_rst f) = has_ack f \<and>
   \<not> has_fin flags_new \<and> \<not> has_ack flags_new \<and> \<not> has_rst flags_new"
  by (simp add: bit_flags bit_with_flags) (simp add: flags_new_def)

section \<open>Stream allocation\<close>

lemma allocate_loop_skip [simp]: "allocate_loop s 0 strs = allocate_loop s 1 strs"
  by (subst allocate_loop.simps) (simp add: CONTROL_STREAM_ID_def)

lemma allocate_loop_vacant:
  "i \<noteq> 0 \<Longrightarrow> strs i = None \<Longrightarrow>
   allocate_loop s i strs = Some (Ok i, \<lparr>next_stream_id = i + 1, streams = strs(i \<mapsto> Open)\<rparr>)"
  by (subst allocate_loop.simps) (simp add: CONTROL_STREAM_ID_def)

lemma allocate_loop_taken:
  "i \<noteq> 0 \<Longrightarrow> strs i \<noteq> None \<Longrightarrow>
   allocate_loop s i strs =
     (if i + 1 = s then Some (Err NoAvailableStreamIds, \<lparr>next_stream_id = i + 1, streams = strs\<rparr>)
      else allocate_loop s (i + 1) strs)"
  by (subst allocate_loop.simps) (auto simp: CONTROL_STREAM_ID_def)

lemma unat_diff_Suc:
  fixes v i :: "'a::len word"
  assumes "v \<noteq> i"
  shows "unat (v - i) = Suc (unat (v - (i + 1)))"
proof -
  have "v - i \<noteq> 0" using assms by simp
  then have "unat (v - i - 1) = unat (v - i) - 1" "unat (v - i) \<noteq> 0"
    by (simp_all add: unat_minus_one unat_eq_0)
  then show ?thesis by (simp add: algebra_simps)
qed

lemma allocate_loop_finds:
  assumes "v \<noteq> 0" and "strs v = None"
    and "i = s \<or> unat (v - i) < unat (s - i)"
  shows "\<exists>j. allocate_loop s i strs
            = Some (Ok j, \<lparr>next_stream_id = j + 1, streams = strs(j \<mapsto> Open)\<rparr>)
          \<and> j \<noteq> 0 \<and> strs j = None"
  using assms(3)
proof (induction "unat (v - i)" arbitrary: i rule: less_induct)
  case less
  show ?case
  proof (cases "i \<noteq> 0 \<and> strs i = None")
    case True
    then show ?thesis using allocate_loop_vacant by blast
  next
    case False
    then have "v \<noteq> i" using assms(1,2) by auto
    then have dec: "unat (v - i) = Suc (unat (v - (i + 1)))" by (rule unat_diff_Suc)
    have next_ok: "i + 1 = s \<or> unat (v - (i + 1)) < unat (s - (i + 1))"
    proof (cases "i = s")
      case True
      have "v - (i + 1) \<noteq> -1" using \<open>v \<noteq> i\<close> by (simp add: algebra_simps)
      then have "v - (i + 1) < -1" by (simp add: order.not_eq_order_implies_strict)
      with True show ?thesis by (simp add: word_less_nat_alt)
    next
      case False
      with less.prems unat_diff_Suc [of s i] dec show ?thesis by auto
    qed
    from dec have smaller: "unat (v - (i + 1)) < unat (v - i)" by simp
    note IH = less.hyps [OF smaller next_ok]
    show ?thesis
    proof (cases "i = 0")
      case True
      with IH show ?thesis by simp
    next
      case i: False
      have "i + 1 \<noteq> s"
      proof
        assume s: "i + 1 = s"
        then have "i \<noteq> s" by auto
        with less.prems s dec show False by auto
      qed
      with i False IH show ?thesis by (simp add: allocate_loop_taken)
    qed
  qed
qed

text \<open>
  C25 \<open>allocate_stream\<close> returns whenever some non-control identifier is free, and then hands out an
  identifier that was free and is not the control stream, marks exactly it open and moves the cursor
  past it. So an error means that every non-control identifier is in use.
\<close>

theorem allocate_stream_total:
  assumes "v \<noteq> CONTROL_STREAM_ID" and "streams m v = None"
  shows "\<exists>i. allocate_stream m = Some (Ok i, \<lparr>next_stream_id = i + 1, streams = (streams m)(i \<mapsto> Open)\<rparr>)
           \<and> i \<noteq> CONTROL_STREAM_ID \<and> streams m i = None"
  using assms allocate_loop_finds [of v "streams m" "next_stream_id m" "next_stream_id m"]
  by (auto simp: allocate_stream_def CONTROL_STREAM_ID_def)

theorem allocate_stream_total_witness:
  "\<exists>i. allocate_stream \<lparr>next_stream_id = 0, streams = [1 \<mapsto> Open, 2 \<mapsto> Closed]\<rparr>
        = Some (Ok i, \<lparr>next_stream_id = i + 1, streams = [1 \<mapsto> Open, 2 \<mapsto> Closed, i \<mapsto> Open]\<rparr>)
      \<and> i \<noteq> CONTROL_STREAM_ID"
  using allocate_stream_total
    [of 3 "\<lparr>next_stream_id = 0, streams = [1 \<mapsto> Open, 2 \<mapsto> Closed]\<rparr>"]
  by (auto simp: CONTROL_STREAM_ID_def)

definition table_full :: "(StreamId \<rightharpoonup> StreamState) \<Rightarrow> bool" where
  "table_full strs \<longleftrightarrow> (\<forall>i. i \<noteq> CONTROL_STREAM_ID \<longrightarrow> strs i \<noteq> None)"

lemma table_fullD: "table_full strs \<Longrightarrow> i \<noteq> 0 \<Longrightarrow> strs i \<noteq> None"
  by (auto simp: table_full_def CONTROL_STREAM_ID_def)

lemma allocate_loop_full:
  assumes "table_full strs" and "s \<noteq> 1"
  shows "allocate_loop s i strs
           = Some (Err NoAvailableStreamIds, \<lparr>next_stream_id = s, streams = strs\<rparr>)"
proof (induction "unat (s - (i + 1))" arbitrary: i rule: less_induct)
  case less
  show ?case
  proof (cases "i + 1 = s")
    case True
    then have "i \<noteq> 0" using assms(2) by auto
    with True show ?thesis
      using table_fullD [OF assms(1)] by (simp add: allocate_loop_taken)
  next
    case False
    then have "unat (s - (i + 1 + 1)) < unat (s - (i + 1))"
      using unat_diff_Suc [of s "i + 1"] by simp
    then have "allocate_loop s (i + 1) strs
                 = Some (Err NoAvailableStreamIds, \<lparr>next_stream_id = s, streams = strs\<rparr>)"
      by (rule less.hyps)
    with False show ?thesis
      using table_fullD [OF assms(1)] by (cases "i = 0") (simp_all add: allocate_loop_taken)
  qed
qed

lemma allocate_loop_diverges:
  assumes "table_full strs"
  shows "allocate_loop 1 i strs = None"
proof (rule ccontr)
  assume "allocate_loop 1 i strs \<noteq> None"
  then obtain r where ret: "allocate_loop 1 i strs = Some r" by blast
  have "s = 1 \<longrightarrow> table_full t \<longrightarrow> False" if "allocate_loop s j t = Some r'" for s j t r'
  proof (rule allocate_loop.raw_induct [where P = "\<lambda>s j t r. s = 1 \<longrightarrow> table_full t \<longrightarrow> False",
        OF _ that])
    fix f s j t r
    assume IH: "\<And>s j t r. f s j t = Some r \<Longrightarrow> s = (1::StreamId) \<longrightarrow> table_full t \<longrightarrow> False"
      and eq: "(if j = CONTROL_STREAM_ID then f s 1 t
        else if t j = None then Some (Ok j, \<lparr>next_stream_id = j + 1, streams = t(j \<mapsto> Open)\<rparr>)
        else if j + 1 = s then
          Some (Err NoAvailableStreamIds, \<lparr>next_stream_id = j + 1, streams = t\<rparr>)
        else f s (j + 1) t) = Some r"
    show "s = 1 \<longrightarrow> table_full t \<longrightarrow> False"
      using eq IH table_fullD [of t j] by (auto simp: CONTROL_STREAM_ID_def split: if_splits)
  qed
  with ret assms show False by blast
qed

text \<open>
  When every non-control identifier is taken, \<open>allocate_stream\<close> reports
  \<open>NoAvailableStreamIds\<close> and changes no stream, except when the cursor stands at 1: then the guard
  \<open>*next_id == start_id\<close> is never reached, because the wrap-around goes from the control
  identifier to 1 without testing it, and the loop does not return.
\<close>

theorem allocate_stream_exhausted:
  assumes "table_full (streams m)"
  shows "allocate_stream m =
           (if next_stream_id m = 1 then None else Some (Err NoAvailableStreamIds, m))"
  using assms allocate_loop_full [of "streams m" "next_stream_id m" "next_stream_id m"]
    allocate_loop_diverges [of "streams m" 1]
  by (auto simp: allocate_stream_def)

theorem allocate_stream_exhausted_witness:
  "allocate_stream \<lparr>next_stream_id = 1, streams = (\<lambda>_. Some Open)\<rparr> = None \<and>
   allocate_stream \<lparr>next_stream_id = 9, streams = (\<lambda>_. Some Open)\<rparr>
     = Some (Err NoAvailableStreamIds, \<lparr>next_stream_id = 9, streams = (\<lambda>_. Some Open)\<rparr>)"
  using allocate_stream_exhausted [of "\<lparr>next_stream_id = 1, streams = (\<lambda>_. Some Open)\<rparr>"]
    allocate_stream_exhausted [of "\<lparr>next_stream_id = 9, streams = (\<lambda>_. Some Open)\<rparr>"]
  by (simp add: table_full_def)

lemma allocate_stream_Ok:
  assumes "allocate_stream m = Some (Ok i, m')"
  shows "i \<noteq> 0 \<and> streams m i = None \<and> streams m' = (streams m)(i \<mapsto> Open)"
proof (cases "table_full (streams m)")
  case True
  then show ?thesis
    using assms allocate_loop_full [of "streams m" "next_stream_id m" "next_stream_id m"]
      allocate_loop_diverges [of "streams m" 1]
    by (cases "next_stream_id m = 1") (auto simp: allocate_stream_def)
next
  case False
  then obtain v where "v \<noteq> 0" "streams m v = None"
    by (auto simp: table_full_def CONTROL_STREAM_ID_def)
  then show ?thesis
    using assms allocate_loop_finds [of v "streams m" "next_stream_id m" "next_stream_id m"]
    by (auto simp: allocate_stream_def)
qed

text \<open>
  Streams opened one after the other and not removed get pairwise distinct identifiers, none of
  them the control stream and none in use before, and all of them are open afterwards.
\<close>

theorem allocate_many_distinct:
  assumes "allocate_many n m = Some (is, m')"
  shows "length is = n \<and> distinct is \<and> CONTROL_STREAM_ID \<notin> set is \<and>
         set is \<inter> dom (streams m) = {} \<and>
         (\<forall>i. get_stream_state i m' = (if i \<in> set is then Some Open else get_stream_state i m))"
  using assms
proof (induction n arbitrary: m "is")
  case (Suc n)
  from Suc.prems obtain i m1 js where
    step: "allocate_stream m = Some (Ok i, m1)" and
    rest: "allocate_many n m1 = Some (js, m')" and "is": "is = i # js"
    by (auto split: option.splits sum.splits prod.splits)
  from allocate_stream_Ok [OF step] Suc.IH [OF rest] show ?case
    unfolding "is" by (auto simp: CONTROL_STREAM_ID_def get_stream_state_def)
qed (simp add: get_stream_state_def)

theorem allocate_many_distinct_witness:
  "allocate_many 2 mux_new = Some ([1, 2], \<lparr>next_stream_id = 3, streams = [1 \<mapsto> Open, 2 \<mapsto> Open]\<rparr>)
   \<and> distinct [1, 2 :: StreamId] \<and> CONTROL_STREAM_ID \<notin> {1, 2}"
proof -
  have two: "(2::nat) = Suc (Suc 0)" by simp
  have "allocate_many 2 mux_new
          = Some ([1, 2], \<lparr>next_stream_id = 3, streams = [1 \<mapsto> Open, 2 \<mapsto> Open]\<rparr>)"
    unfolding two
    by (simp add: mux_new_def allocate_stream_def allocate_loop_vacant)
  from this allocate_many_distinct [OF this] show ?thesis by simp
qed

end
