(* ===== verification/IpFilter.thy ===== *)
theory IpFilter
  imports Prelude
begin

unbundle bit_operations_syntax

text \<open>
  IP address filtering with CIDR support, \<open>crates/localup-proto/src/ip_filter.rs\<close>, with the textual
  syntax of \<open>std::net::IpAddr\<close> that the filter's entries are parsed with. The standard library's
  parser is a recursive descent over the bytes: a reader takes the remaining input and returns what
  it read with the input after it, or \<open>None\<close>, in which case the caller's input is untouched.
\<close>

section \<open>Parsing addresses\<close>

datatype IpAddr = V4 u32 | V6 u128

record SocketAddr =
  sa_ip :: IpAddr
  sa_port :: u16

definition to_digit :: "nat \<Rightarrow> char \<Rightarrow> nat option" where
  "to_digit radix c =
     (let n = of_char c;
          d = (if is_ascii_digit c then Some (n - 48)
               else if is_ascii_lower c then Some (n - 97 + 10)
               else if is_ascii_upper c then Some (n - 65 + 10) else None)
      in case d of Some v \<Rightarrow> if v < radix then Some v else None | None \<Rightarrow> None)"

text \<open>Digits read so far, their value, and the input after the last of them.\<close>

fun read_digits :: "nat \<Rightarrow> nat \<Rightarrow> nat \<Rightarrow> string \<Rightarrow> nat \<times> nat \<times> string" where
  "read_digits radix cnt acc [] = (cnt, acc, [])"
| "read_digits radix cnt acc (c # cs) =
     (case to_digit radix c of
        Some d \<Rightarrow> read_digits radix (Suc cnt) (acc * radix + d) cs
      | None \<Rightarrow> (cnt, acc, c # cs))"

definition read_number ::
  "nat \<Rightarrow> nat \<Rightarrow> bool \<Rightarrow> nat \<Rightarrow> string \<Rightarrow> (nat \<times> string) option" where
  "read_number radix max_digits allow_zero_prefix bound s =
     (case read_digits radix 0 0 s of
        (cnt, v, rest) \<Rightarrow>
          if cnt > max_digits \<or> cnt = 0 then None
          else if \<not> allow_zero_prefix \<and> starts_with s ''0'' \<and> cnt > 1 then None
          else if v < bound then Some (v, rest) else None)"

definition read_given_char :: "char \<Rightarrow> string \<Rightarrow> string option" where
  "read_given_char c s = (case s of x # xs \<Rightarrow> if x = c then Some xs else None | [] \<Rightarrow> None)"

definition read_separator ::
  "char \<Rightarrow> nat \<Rightarrow> (string \<Rightarrow> ('a \<times> string) option) \<Rightarrow> string \<Rightarrow> ('a \<times> string) option" where
  "read_separator sep index reader s =
     (if index > 0 then Option.bind (read_given_char sep s) reader else reader s)"

definition read_octet :: "nat \<Rightarrow> string \<Rightarrow> (nat \<times> string) option" where
  "read_octet i = read_separator CHR ''.'' i (read_number 10 3 False 256)"

definition read_ipv4_addr :: "string \<Rightarrow> (u32 \<times> string) option" where
  "read_ipv4_addr s =
     Option.bind (read_octet 0 s) (\<lambda>(a, s).
     Option.bind (read_octet 1 s) (\<lambda>(b, s).
     Option.bind (read_octet 2 s) (\<lambda>(c, s).
     Option.bind (read_octet 3 s) (\<lambda>(d, s).
       Some (of_nat (((a * 256 + b) * 256 + c) * 256 + d), s)))))"

text \<open>
  \<open>read_groups\<close>: up to \<open>limit - i\<close> more groups from position \<open>i\<close>, most recent first in the
  accumulator; an embedded IPv4 address fills two groups and ends the reading.
\<close>

fun read_groups ::
  "nat \<Rightarrow> nat \<Rightarrow> nat list \<Rightarrow> string \<Rightarrow> nat list \<times> bool \<times> string" where
  "read_groups 0 i acc s = (rev acc, False, s)"
| "read_groups (Suc n) i acc s =
     (case (if n > 0 then read_separator CHR '':'' i read_ipv4_addr s else None) of
        Some (v4, rest) \<Rightarrow>
          (rev acc @ [unat v4 div 65536, unat v4 mod 65536], True, rest)
      | None \<Rightarrow>
          (case read_separator CHR '':'' i (read_number 16 4 True 65536) s of
             Some (g, rest) \<Rightarrow> read_groups n (Suc i) (g # acc) rest
           | None \<Rightarrow> (rev acc, False, s)))"

definition groups_value :: "nat list \<Rightarrow> u128" where
  "groups_value gs = of_nat (fold (\<lambda>g acc. acc * 65536 + g) gs 0)"

definition read_ipv6_addr :: "string \<Rightarrow> (u128 \<times> string) option" where
  "read_ipv6_addr s =
     (case read_groups 8 0 [] s of
        (hd_groups, hd_v4, s1) \<Rightarrow>
          if length hd_groups = 8 then Some (groups_value hd_groups, s1)
          else if hd_v4 then None
          else Option.bind (Option.bind (read_given_char CHR '':'' s1) (read_given_char CHR '':''))
            (\<lambda>s2. case read_groups (8 - (length hd_groups + 1)) 0 [] s2 of
               (tl_groups, _, s3) \<Rightarrow>
                 Some (groups_value (hd_groups
                         @ replicate (8 - length hd_groups - length tl_groups) 0 @ tl_groups), s3)))"

definition ip_from_str :: "string \<Rightarrow> IpAddr option" where
  "ip_from_str s =
     (case read_ipv4_addr s of
        Some (v4, rest) \<Rightarrow> if rest = [] then Some (V4 v4) else None
      | None \<Rightarrow>
          (case read_ipv6_addr s of
             Some (v6, rest) \<Rightarrow> if rest = [] then Some (V6 v6) else None
           | None \<Rightarrow> None))"

section \<open>Networks and filters\<close>

datatype IpFilterError = InvalidIpAddress string | InvalidCidr string

record IpNetwork =
  addr :: IpAddr
  prefix_len :: u8

record IpFilter =
  allowlist :: "string list"
  networks :: "IpNetwork list"

definition max_prefix :: "IpAddr \<Rightarrow> u8" where
  "max_prefix a = (case a of V4 _ \<Rightarrow> 32 | V6 _ \<Rightarrow> 128)"

definition network_parse :: "string \<Rightarrow> (IpFilterError, IpNetwork) result" where
  "network_parse s =
     (case split_once CHR ''/'' s of
        Some (ip_str, prefix_str) \<Rightarrow>
          (case ip_from_str ip_str of
             None \<Rightarrow> Err (InvalidIpAddress s)
           | Some a \<Rightarrow>
               (case parse_u8 prefix_str of
                  None \<Rightarrow> Err (InvalidCidr s)
                | Some p \<Rightarrow>
                    if p > max_prefix a then Err (InvalidCidr s)
                    else Ok \<lparr>addr = a, prefix_len = p\<rparr>))
      | None \<Rightarrow>
          (case ip_from_str s of
             None \<Rightarrow> Err (InvalidIpAddress s)
           | Some a \<Rightarrow> Ok \<lparr>addr = a, prefix_len = max_prefix a\<rparr>))"

text \<open>
  \<open>!0u32 << (32 - prefix_len)\<close> and its IPv6 twin. The subtraction is on \<open>u8\<close>; a prefix length over
  the width would wrap it, which \<open>network_parse\<close> excludes.
\<close>

definition cidr_mask :: "u8 \<Rightarrow> u8 \<Rightarrow> 'a::len word" where
  "cidr_mask width prefix = push_bit (unat (width - prefix)) (- 1)"

definition network_contains :: "IpNetwork \<Rightarrow> IpAddr \<Rightarrow> bool" where
  "network_contains net ip =
     (case (addr net, ip) of
        (V4 net_bits, V4 test_bits) \<Rightarrow>
          if prefix_len net = 0 then True
          else net_bits AND cidr_mask 32 (prefix_len net)
                 = test_bits AND cidr_mask 32 (prefix_len net)
      | (V6 net_bits, V6 test_bits) \<Rightarrow>
          if prefix_len net = 0 then True
          else net_bits AND cidr_mask 128 (prefix_len net)
                 = test_bits AND cidr_mask 128 (prefix_len net)
      | _ \<Rightarrow> False)"

definition ip_filter_new :: IpFilter where
  "ip_filter_new = \<lparr>allowlist = [], networks = []\<rparr>"

text \<open>The loop shared by \<open>from_allowlist\<close> and \<open>init\<close>: it stops at the first invalid entry.\<close>

fun parse_entries ::
  "string list \<Rightarrow> IpNetwork list \<Rightarrow> (IpFilterError option) \<times> IpNetwork list" where
  "parse_entries [] ns = (None, ns)"
| "parse_entries (e # es) ns =
     (case network_parse e of
        Err x \<Rightarrow> (Some x, ns)
      | Ok n \<Rightarrow> parse_entries es (ns @ [n]))"

definition from_allowlist :: "string list \<Rightarrow> (IpFilterError, IpFilter) result" where
  "from_allowlist al =
     (case parse_entries al [] of
        (Some e, _) \<Rightarrow> Err e
      | (None, ns) \<Rightarrow> Ok \<lparr>allowlist = al, networks = ns\<rparr>)"

definition filter_is_allowed :: "IpFilter \<Rightarrow> IpAddr \<Rightarrow> bool" where
  "filter_is_allowed flt ip =
     (if networks flt = [] then True else \<exists>n \<in> set (networks flt). network_contains n ip)"

definition is_socket_allowed :: "IpFilter \<Rightarrow> SocketAddr \<Rightarrow> bool" where
  "is_socket_allowed flt sa = filter_is_allowed flt (sa_ip sa)"

definition filter_is_empty :: "IpFilter \<Rightarrow> bool" where
  "filter_is_empty flt = (allowlist flt = [])"

definition filter_len :: "IpFilter \<Rightarrow> nat" where
  "filter_len flt = length (allowlist flt)"

text \<open>\<open>init\<close> clears the parsed networks first, so a failing entry leaves the ones before it.\<close>

definition filter_init :: "IpFilter \<Rightarrow> (IpFilterError, unit) result \<times> IpFilter" where
  "filter_init flt =
     (case parse_entries (allowlist flt) [] of
        (Some e, ns) \<Rightarrow> (Err e, flt\<lparr>networks := ns\<rparr>)
      | (None, ns) \<Rightarrow> (Ok (), flt\<lparr>networks := ns\<rparr>))"

section \<open>Membership in a network\<close>

definition well_formed_network :: "IpNetwork \<Rightarrow> bool" where
  "well_formed_network n \<longleftrightarrow> prefix_len n \<le> max_prefix (addr n)"

text \<open>The abstract reading of a CIDR block: the leading \<open>p\<close> bits of the addresses agree.\<close>

definition same_leading_bits :: "nat \<Rightarrow> 'a::len word \<Rightarrow> 'a word \<Rightarrow> bool" where
  "same_leading_bits p a b \<longleftrightarrow> unat a div 2 ^ (LENGTH('a) - p) = unat b div 2 ^ (LENGTH('a) - p)"

lemma same_leading_bits_drop:
  "same_leading_bits p a b \<longleftrightarrow> drop_bit (LENGTH('a) - p) a = drop_bit (LENGTH('a) - p) (b :: 'a::len word)"
  unfolding same_leading_bits_def
  by (metis drop_bit_eq_div unat_drop_bit_eq unsigned_word_eqI)

lemma mask_agree_iff:
  fixes a b :: "'a::len word"
  shows "a AND NOT (mask n) = b AND NOT (mask n) \<longleftrightarrow> drop_bit n a = drop_bit n b"
proof -
  have low: "drop_bit n (w AND NOT (mask n)) = drop_bit n w" for w :: "'a word"
    by (rule bit_word_eqI) (auto simp: bit_simps dest: bit_imp_le_length)
  have high: "w AND NOT (mask n) = push_bit n (drop_bit n w)" for w :: "'a word"
    by (rule bit_word_eqI) (auto simp: bit_simps)
  show ?thesis by (metis low high)
qed

lemma unat_width_diff: "p \<le> w \<Longrightarrow> unat (w - p) = unat w - unat (p :: u8)"
  by (simp add: unat_sub)

lemma same_leading_bits_0 [simp]: "same_leading_bits 0 a b"
proof -
  have "unat a < 2 ^ LENGTH('a)" "unat b < 2 ^ LENGTH('a)" for a b :: "'a::len word"
    by simp_all
  then show ?thesis by (simp add: same_leading_bits_def del: unsigned_less)
qed

text \<open>
  C28 The mask comparison of \<open>contains\<close> is CIDR membership: an address belongs to a parsed network
  exactly when both are of the same family and their first \<open>prefix_len\<close> bits agree; \<open>/0\<close> contains
  the whole family and a full-length prefix only the address itself.
\<close>

theorem network_contains_spec:
  assumes "well_formed_network n"
  shows "network_contains n ip \<longleftrightarrow>
           (case (addr n, ip) of
              (V4 a, V4 b) \<Rightarrow> same_leading_bits (unat (prefix_len n)) a b
            | (V6 a, V6 b) \<Rightarrow> same_leading_bits (unat (prefix_len n)) a b
            | _ \<Rightarrow> False)"
  using assms
  by (auto simp: network_contains_def well_formed_network_def max_prefix_def cidr_mask_def
      mask_agree_iff same_leading_bits_drop unat_width_diff unat_eq_0 split: IpAddr.splits)

theorem network_contains_spec_witness:
  "network_contains \<lparr>addr = V4 0xC0A80100, prefix_len = 24\<rparr> (V4 0xC0A80163) \<longleftrightarrow>
     same_leading_bits 24 (0xC0A80100 :: u32) 0xC0A80163"
  using network_contains_spec [of "\<lparr>addr = V4 0xC0A80100, prefix_len = 24\<rparr>" "V4 0xC0A80163"]
  by (simp add: well_formed_network_def max_prefix_def)

section \<open>Filters\<close>

lemma network_parse_wf: "network_parse s = Ok n \<Longrightarrow> well_formed_network n"
  by (auto simp: network_parse_def well_formed_network_def not_less
      split: option.splits prod.splits if_splits)

lemma parse_entries_None:
  "parse_entries es ns = (None, ms) \<Longrightarrow> \<exists>ks. ms = ns @ ks \<and> list_all2 (\<lambda>e n. network_parse e = Ok n) es ks"
proof (induction es arbitrary: ns)
  case (Cons e es)
  from Cons.prems obtain n where n: "network_parse e = Ok n" "parse_entries es (ns @ [n]) = (None, ms)"
    by (auto split: sum.splits)
  from Cons.IH [OF n(2)] n(1) show ?case by auto
qed simp

lemma parse_entries_Some:
  "parse_entries es ns = (Some x, ms) \<Longrightarrow>
     \<exists>pre e post ks. es = pre @ e # post \<and> list_all2 (\<lambda>e n. network_parse e = Ok n) pre ks \<and>
        network_parse e = Err x \<and> ms = ns @ ks"
proof (induction es arbitrary: ns)
  case (Cons e es)
  show ?case
  proof (cases "network_parse e")
    case (Inl y)
    with Cons.prems have "e # es = [] @ e # es" "network_parse e = Err x" "ms = ns @ []" by simp_all
    then show ?thesis by blast
  next
    case (Inr n)
    with Cons.prems obtain pre d post ks where
      "es = pre @ d # post" "list_all2 (\<lambda>e n. network_parse e = Ok n) pre ks"
      "network_parse d = Err x" "ms = (ns @ [n]) @ ks"
      using Cons.IH [of "ns @ [n]"] by auto
    with Inr have "e # es = (e # pre) @ d # post"
      "list_all2 (\<lambda>e n. network_parse e = Ok n) (e # pre) (n # ks)" "ms = ns @ (n # ks)" by simp_all
    with \<open>network_parse d = Err x\<close> show ?thesis by blast
  qed
qed simp

lemma parse_entries_first_error:
  "list_all2 (\<lambda>e n. network_parse e = Ok n) pre ks \<Longrightarrow> network_parse e = Err x \<Longrightarrow>
   parse_entries (pre @ e # post) ns = (Some x, ns @ ks)"
  by (induction arbitrary: ns rule: list_all2_induct) auto

lemma parse_entries_all_ok:
  "list_all2 (\<lambda>e n. network_parse e = Ok n) es ks \<Longrightarrow> parse_entries es ns = (None, ns @ ks)"
  by (induction arbitrary: ns rule: list_all2_induct) auto

lemma from_allowlist_Ok:
  "from_allowlist al = Ok f \<longleftrightarrow>
     allowlist f = al \<and> list_all2 (\<lambda>e n. network_parse e = Ok n) al (networks f)"
proof
  assume "from_allowlist al = Ok f"
  then show "allowlist f = al \<and> list_all2 (\<lambda>e n. network_parse e = Ok n) al (networks f)"
    by (auto simp: from_allowlist_def split: prod.splits option.splits dest: parse_entries_None)
next
  assume "allowlist f = al \<and> list_all2 (\<lambda>e n. network_parse e = Ok n) al (networks f)"
  then show "from_allowlist al = Ok f"
    using parse_entries_all_ok [of al "networks f" "[]"] by (auto simp: from_allowlist_def)
qed

text \<open>
  A filter built from an allowlist admits an address exactly when the list is empty or some
  entry of it denotes a network that contains the address.
\<close>

theorem from_allowlist_is_allowed:
  assumes "from_allowlist al = Ok f"
  shows "is_socket_allowed f sa \<longleftrightarrow>
           al = [] \<or> (\<exists>e \<in> set al. \<exists>n. network_parse e = Ok n \<and> network_contains n (sa_ip sa))"
proof -
  from assms have all: "list_all2 (\<lambda>e n. network_parse e = Ok n) al (networks f)"
    by (simp add: from_allowlist_Ok)
  then have "al = [] \<longleftrightarrow> networks f = []" by auto
  moreover have "(\<exists>n \<in> set (networks f). network_contains n ip)
      \<longleftrightarrow> (\<exists>e \<in> set al. \<exists>n. network_parse e = Ok n \<and> network_contains n ip)" for ip
    using all by (induction rule: list_all2_induct) auto
  ultimately show ?thesis
    by (auto simp: is_socket_allowed_def filter_is_allowed_def)
qed

lemma network_parse_example:
  "network_parse ''10.0.0.0/8'' = Ok \<lparr>addr = V4 167772160, prefix_len = 8\<rparr>"
  by (simp add: network_parse_def ip_from_str_def read_ipv4_addr_def read_octet_def
      read_separator_def read_given_char_def read_number_def to_digit_def is_ascii_digit_def
      is_ascii_lower_def is_ascii_upper_def starts_with_def parse_u8_def parse_uint_def
      max_prefix_def Let_def)

theorem from_allowlist_is_allowed_witness:
  "is_socket_allowed \<lparr>allowlist = [''10.0.0.0/8''], networks = [\<lparr>addr = V4 167772160, prefix_len = 8\<rparr>]\<rparr>
     \<lparr>sa_ip = V4 167772161, sa_port = 80\<rparr>
   \<longleftrightarrow> (\<exists>n. network_parse ''10.0.0.0/8'' = Ok n \<and> network_contains n (V4 167772161))"
proof -
  have "from_allowlist [''10.0.0.0/8''] =
      Ok \<lparr>allowlist = [''10.0.0.0/8''], networks = [\<lparr>addr = V4 167772160, prefix_len = 8\<rparr>]\<rparr>"
    by (simp add: from_allowlist_Ok network_parse_example)
  from from_allowlist_is_allowed [OF this, of "\<lparr>sa_ip = V4 167772161, sa_port = 80\<rparr>"]
  show ?thesis by simp
qed

text \<open>
  Building a filter fails exactly when some entry is invalid, and reports the first one.
\<close>

lemma from_allowlist_error:
  "from_allowlist al = Err x \<longleftrightarrow>
     (\<exists>pre e post. al = pre @ e # post \<and> list_all (\<lambda>p. is_ok (network_parse p)) pre \<and>
        network_parse e = Err x)"
proof -
  have ok: "(\<exists>ks. list_all2 (\<lambda>e n. network_parse e = Ok n) pre ks)
      \<longleftrightarrow> list_all (\<lambda>p. is_ok (network_parse p)) pre" for pre
    by (induction pre) (auto simp: list_all2_Cons1 is_ok_iff)
  have "from_allowlist al = Err x \<longleftrightarrow> (\<exists>ms. parse_entries al [] = (Some x, ms))"
    by (auto simp: from_allowlist_def split: prod.splits option.splits)
  also have "\<dots> \<longleftrightarrow> (\<exists>pre e post ks. al = pre @ e # post \<and>
      list_all2 (\<lambda>e n. network_parse e = Ok n) pre ks \<and> network_parse e = Err x)"
    using parse_entries_Some [of al "[]" x] parse_entries_first_error [of _ _ _ x _ "[]"] by blast
  finally show ?thesis by (simp add: ok [symmetric])
qed

text \<open>
  The parsed networks are not serialised. A filter that came from \<open>from_allowlist\<close>, stripped of
  them, admits every address until \<open>init\<close> runs, and \<open>init\<close> restores exactly the original filter.
\<close>

theorem filter_init_restores:
  assumes "from_allowlist al = Ok f"
  shows "filter_is_allowed (f\<lparr>networks := []\<rparr>) ip \<and>
         filter_init (f\<lparr>networks := []\<rparr>) = (Ok (), f)"
  using assms parse_entries_all_ok [of al "networks f" "[]"]
  by (auto simp: filter_init_def filter_is_allowed_def from_allowlist_Ok)

theorem filter_init_restores_witness:
  "filter_init \<lparr>allowlist = [''10.0.0.0/8''], networks = []\<rparr> =
     (Ok (), \<lparr>allowlist = [''10.0.0.0/8''], networks = [\<lparr>addr = V4 167772160, prefix_len = 8\<rparr>]\<rparr>)"
proof -
  have "from_allowlist [''10.0.0.0/8''] =
      Ok \<lparr>allowlist = [''10.0.0.0/8''], networks = [\<lparr>addr = V4 167772160, prefix_len = 8\<rparr>]\<rparr>"
    by (simp add: from_allowlist_Ok network_parse_example)
  from filter_init_restores [OF this] show ?thesis by simp
qed

end
