(* ===== verification/Jwt.thy ===== *)
theory Jwt
  imports Prelude
begin

text \<open>
  Tokens, \<open>crates/localup-auth/src\<close>: the claims and their builders, the access check for reverse
  tunnels and the validator of \<open>jwt.rs\<close>, and the result type of \<open>validator.rs\<close>. Decoding and
  signature verification are the library \<open>jsonwebtoken\<close>: \<open>decode key validation token\<close> is a
  parameter. Timestamps are seconds; the clock is an argument.
\<close>

section \<open>Claims\<close>

record JwtClaims =
  sub :: string
  iat :: int
  exp :: int
  iss :: string
  aud :: string
  protocols :: "string list"
  regions :: "string list"
  reverse_tunnel :: "bool option"
  allowed_agents :: "string list option"
  allowed_addresses :: "string list option"
  claims_user_id :: "string option"
  team_id :: "string option"
  user_role :: "string option"
  team_role :: "string option"
  token_type :: "string option"

text \<open>The current time comes in nanoseconds and is cut to seconds, as \<open>timestamp\<close> does.\<close>

definition claims_new :: "int \<Rightarrow> string \<Rightarrow> string \<Rightarrow> string \<Rightarrow> int \<Rightarrow> JwtClaims" where
  "claims_new now_ns lid issuer audience validity_ns =
     \<lparr>sub = lid, iat = now_ns div 1000000000, exp = (now_ns + validity_ns) div 1000000000,
      iss = issuer, aud = audience, protocols = [], regions = [], reverse_tunnel = None,
      allowed_agents = None, allowed_addresses = None, claims_user_id = None, team_id = None,
      user_role = None, team_role = None, token_type = None\<rparr>"

definition with_protocols :: "string list \<Rightarrow> JwtClaims \<Rightarrow> JwtClaims" where
  "with_protocols ps c = c\<lparr>protocols := ps\<rparr>"

definition with_regions :: "string list \<Rightarrow> JwtClaims \<Rightarrow> JwtClaims" where
  "with_regions rs c = c\<lparr>regions := rs\<rparr>"

definition with_reverse_tunnel :: "bool \<Rightarrow> JwtClaims \<Rightarrow> JwtClaims" where
  "with_reverse_tunnel enabled c = c\<lparr>reverse_tunnel := Some enabled\<rparr>"

definition with_allowed_agents :: "string list \<Rightarrow> JwtClaims \<Rightarrow> JwtClaims" where
  "with_allowed_agents agents c = c\<lparr>allowed_agents := (if agents = [] then None else Some agents)\<rparr>"

definition with_allowed_addresses :: "string list \<Rightarrow> JwtClaims \<Rightarrow> JwtClaims" where
  "with_allowed_addresses addresses c =
     c\<lparr>allowed_addresses := (if addresses = [] then None else Some addresses)\<rparr>"

definition with_user_id :: "string \<Rightarrow> JwtClaims \<Rightarrow> JwtClaims" where
  "with_user_id u c = c\<lparr>claims_user_id := Some u\<rparr>"

definition with_team_id :: "string \<Rightarrow> JwtClaims \<Rightarrow> JwtClaims" where
  "with_team_id t c = c\<lparr>team_id := Some t\<rparr>"

definition with_user_role :: "string \<Rightarrow> JwtClaims \<Rightarrow> JwtClaims" where
  "with_user_role r c = c\<lparr>user_role := Some r\<rparr>"

definition with_team_role :: "string \<Rightarrow> JwtClaims \<Rightarrow> JwtClaims" where
  "with_team_role r c = c\<lparr>team_role := Some r\<rparr>"

definition with_token_type :: "string \<Rightarrow> JwtClaims \<Rightarrow> JwtClaims" where
  "with_token_type t c = c\<lparr>token_type := Some t\<rparr>"

definition is_expired :: "int \<Rightarrow> JwtClaims \<Rightarrow> bool" where
  "is_expired now c \<longleftrightarrow> now > exp c"

definition validate_reverse_localup_access ::
  "JwtClaims \<Rightarrow> string \<Rightarrow> string \<Rightarrow> (string, unit) result" where
  "validate_reverse_localup_access c agent_id remote_address =
     (if reverse_tunnel c = Some False then
        Err ''Reverse tunnel access is not allowed for this token''
      else if (case allowed_agents c of
                 Some agents \<Rightarrow> agents \<noteq> [] \<and> agent_id \<notin> set agents | None \<Rightarrow> False) then
        Err (''Access denied: agent '' @ [CHR 0x27] @ agent_id @ [CHR 0x27]
             @ '' is not in allowed agents list'')
      else if (case allowed_addresses c of
                 Some addresses \<Rightarrow> addresses \<noteq> [] \<and> remote_address \<notin> set addresses | None \<Rightarrow> False) then
        Err (''Access denied: address '' @ [CHR 0x27] @ remote_address @ [CHR 0x27]
             @ '' is not in allowed addresses list'')
      else Ok ())"

section \<open>Validation\<close>

datatype 'e JwtError = EncodingError 'e | TokenExpired | InvalidToken

datatype Algorithm = HS256 | RS256

text \<open>What the source sets of the library's \<open>Validation\<close>.\<close>

record Validation =
  algorithm :: Algorithm
  validate_exp :: bool
  validate_aud :: bool
  validate_nbf :: bool
  expected_aud :: "string list option"
  expected_iss :: "string list option"

record 'k JwtValidator =
  decoding_key :: 'k
  validation :: Validation

definition only_exp :: "Algorithm \<Rightarrow> Validation" where
  "only_exp alg = \<lparr>algorithm = alg, validate_exp = True, validate_aud = False, validate_nbf = False,
     expected_aud = None, expected_iss = None\<rparr>"

definition jwt_new :: "(bytes \<Rightarrow> 'k) \<Rightarrow> bytes \<Rightarrow> 'k JwtValidator" where
  "jwt_new from_secret secret = \<lparr>decoding_key = from_secret secret, validation = only_exp HS256\<rparr>"

definition from_rsa_pem ::
  "(bytes \<Rightarrow> ('e, 'k) result) \<Rightarrow> bytes \<Rightarrow> ('e JwtError, 'k JwtValidator) result" where
  "from_rsa_pem key_of_pem pem =
     (case key_of_pem pem of
        Err e \<Rightarrow> Err (EncodingError e)
      | Ok k \<Rightarrow> Ok \<lparr>decoding_key = k, validation = only_exp RS256\<rparr>)"

definition with_audience :: "string \<Rightarrow> 'k JwtValidator \<Rightarrow> 'k JwtValidator" where
  "with_audience a v = v\<lparr>validation := (validation v)\<lparr>expected_aud := Some [a]\<rparr>\<rparr>"

definition with_issuer :: "string \<Rightarrow> 'k JwtValidator \<Rightarrow> 'k JwtValidator" where
  "with_issuer i v = v\<lparr>validation := (validation v)\<lparr>expected_iss := Some [i]\<rparr>\<rparr>"

definition jwt_validate ::
  "('k \<Rightarrow> Validation \<Rightarrow> string \<Rightarrow> ('e, JwtClaims) result) \<Rightarrow> int \<Rightarrow> 'k JwtValidator \<Rightarrow> string
    \<Rightarrow> ('e JwtError, JwtClaims) result" where
  "jwt_validate decode now v token =
     (case decode (decoding_key v) (validation v) token of
        Err e \<Rightarrow> Err (EncodingError e)
      | Ok claims \<Rightarrow> if is_expired now claims then Err TokenExpired else Ok claims)"

section \<open>Authentication results\<close>

record AuthResult =
  auth_localup_id :: string
  auth_user_id :: "string option"
  allowed_protocols :: "string list"
  allowed_regions :: "string list"
  auth_metadata :: "string \<rightharpoonup> string"

definition auth_result_new :: "string \<Rightarrow> AuthResult" where
  "auth_result_new lid = \<lparr>auth_localup_id = lid, auth_user_id = None, allowed_protocols = [],
     allowed_regions = [], auth_metadata = Map.empty\<rparr>"

definition auth_with_user_id :: "string \<Rightarrow> AuthResult \<Rightarrow> AuthResult" where
  "auth_with_user_id u r = r\<lparr>auth_user_id := Some u\<rparr>"

definition auth_with_protocols :: "string list \<Rightarrow> AuthResult \<Rightarrow> AuthResult" where
  "auth_with_protocols ps r = r\<lparr>allowed_protocols := ps\<rparr>"

definition auth_with_regions :: "string list \<Rightarrow> AuthResult \<Rightarrow> AuthResult" where
  "auth_with_regions rs r = r\<lparr>allowed_regions := rs\<rparr>"

definition auth_with_metadata :: "string \<Rightarrow> string \<Rightarrow> AuthResult \<Rightarrow> AuthResult" where
  "auth_with_metadata k v r = r\<lparr>auth_metadata := (auth_metadata r)(k \<mapsto> v)\<rparr>"

definition is_protocol_allowed :: "AuthResult \<Rightarrow> string \<Rightarrow> bool" where
  "is_protocol_allowed r p \<longleftrightarrow> allowed_protocols r = [] \<or> p \<in> set (allowed_protocols r)"

definition is_region_allowed :: "AuthResult \<Rightarrow> string \<Rightarrow> bool" where
  "is_region_allowed r g \<longleftrightarrow> allowed_regions r = [] \<or> g \<in> set (allowed_regions r)"

definition get_metadata :: "AuthResult \<Rightarrow> string \<Rightarrow> string option" where
  "get_metadata r k = auth_metadata r k"

datatype AuthError =
    AuthInvalidToken string
  | AuthTokenExpired
  | AuthenticationFailed string
  | AuthUnauthorized string
  | InternalError string

definition show_int :: "int \<Rightarrow> string" where
  "show_int i = (if i < 0 then ''-'' @ show_nat (nat (- i)) else show_nat (nat i))"

definition auth_validate ::
  "('e \<Rightarrow> string) \<Rightarrow> ('k \<Rightarrow> Validation \<Rightarrow> string \<Rightarrow> ('e, JwtClaims) result) \<Rightarrow> int
    \<Rightarrow> 'k JwtValidator \<Rightarrow> string \<Rightarrow> (AuthError, AuthResult) result" where
  "auth_validate show_error decode now v token =
     (case jwt_validate decode now v token of
        Err TokenExpired \<Rightarrow> Err AuthTokenExpired
      | Err InvalidToken \<Rightarrow> Err (AuthInvalidToken ''Invalid JWT'')
      | Err (EncodingError e) \<Rightarrow> Err (AuthenticationFailed (show_error e))
      | Ok claims \<Rightarrow>
          Ok (auth_with_metadata ''exp'' (show_int (exp claims))
               (auth_with_metadata ''aud'' (aud claims)
                 (auth_with_metadata ''iss'' (iss claims)
                   (auth_with_regions (regions claims)
                     (auth_with_protocols (protocols claims) (auth_result_new (sub claims))))))))"

section \<open>Properties\<close>

lemmas claims_builders = claims_new_def with_protocols_def with_regions_def with_reverse_tunnel_def
  with_allowed_agents_def with_allowed_addresses_def

text \<open>
  The claims a token is built with are the access it grants: a client may reach an agent and an
  address exactly when reverse tunnels are enabled and the agent and the address are on the list
  given for them, an empty list standing for no restriction.
\<close>

lemma reverse_access_granted:
  "validate_reverse_localup_access
     (with_allowed_addresses addresses (with_allowed_agents agents (with_reverse_tunnel enabled
       (claims_new now lid issuer audience validity)))) agent addr = Ok ()
   \<longleftrightarrow> enabled \<and> (agents = [] \<or> agent \<in> set agents) \<and> (addresses = [] \<or> addr \<in> set addresses)"
  by (auto simp: validate_reverse_localup_access_def claims_builders split: if_splits)

text \<open>
  A token is accepted exactly when the library decodes it and it has not expired to the second,
  whatever leeway the library grants; the identity and the permissions in the result are those of
  its claims.
\<close>

theorem auth_validate_Ok:
  "auth_validate show_error decode now v token = Ok r \<longleftrightarrow>
     (\<exists>c. decode (decoding_key v) (validation v) token = Ok c \<and> now \<le> exp c \<and>
        auth_localup_id r = sub c \<and> auth_user_id r = None \<and> allowed_protocols r = protocols c \<and>
        allowed_regions r = regions c \<and>
        auth_metadata r = [''iss'' \<mapsto> iss c, ''aud'' \<mapsto> aud c, ''exp'' \<mapsto> show_int (exp c)])"
  by (cases r)
     (auto simp: auth_validate_def jwt_validate_def is_expired_def auth_with_metadata_def
       auth_with_regions_def auth_with_protocols_def auth_result_new_def
       split: sum.splits JwtError.splits if_splits)

end
