(* ===== verification/Messages.thy ===== *)
theory Messages
  imports Prelude
begin

text \<open>
  The protocol's message types, \<open>crates/localup-proto/src/messages.rs\<close>. A \<open>String\<close> is a
  \<^typ>\<open>string\<close>, a \<open>Vec<u8>\<close> is \<^typ>\<open>bytes\<close>, an \<open>Option\<close> is an option; struct variants carry their
  fields in the order of the source.
\<close>

datatype Protocol =
    Tcp u16
  | Tls u16 "string list"
  | Http "string option" "string option"
  | Https "string option" "string option"

record Endpoint =
  ep_protocol :: Protocol
  ep_public_url :: string
  ep_port :: "u16 option"

datatype HttpAuthConfig =
    AuthNone
  | AuthBasic "string list"
  | AuthBearerToken "string list"
  | AuthHeader string "string list"

datatype Region = UsEast | UsWest | EuWest | EuCentral | AsiaPacific | SouthAmerica

fun region_as_str :: "Region \<Rightarrow> string" where
  "region_as_str UsEast = ''us-east''"
| "region_as_str UsWest = ''us-west''"
| "region_as_str EuWest = ''eu-west''"
| "region_as_str EuCentral = ''eu-central''"
| "region_as_str AsiaPacific = ''asia-pacific''"
| "region_as_str SouthAmerica = ''south-america''"

datatype ExitNodeConfig =
    Auto
  | Nearest
  | Specific Region
  | MultiRegion "Region list"
  | Custom string

record TunnelConfig =
  local_host :: string
  local_port :: "u16 option"
  local_https :: bool
  exit_node :: ExitNodeConfig
  failover :: bool
  ip_allowlist :: "string list"
  enable_compression :: bool
  enable_multiplexing :: bool
  http_auth :: HttpAuthConfig

definition tunnel_config_default :: TunnelConfig where
  "tunnel_config_default =
     \<lparr>local_host = ''localhost'', local_port = None, local_https = False, exit_node = Auto,
      failover = True, ip_allowlist = [], enable_compression = False, enable_multiplexing = True,
      http_auth = AuthNone\<rparr>"

record AgentMetadata =
  am_hostname :: string
  am_platform :: string
  am_version :: string
  am_location :: "string option"

datatype (plugins only: size) TunnelMessage =
    Ping u64
  | Pong u64
  | Connect string string "Protocol list" TunnelConfig
  | Connected string "Endpoint list"
  | Disconnect string
  | DisconnectAck string
  | TcpConnect u32 string u16
  | TcpData u32 bytes
  | TcpClose u32
  | TlsConnect u32 string bytes
  | TlsData u32 bytes
  | TlsClose u32
  | HttpRequest u32 string string "(string \<times> string) list" "bytes option"
  | HttpResponse u32 u16 "(string \<times> string) list" "bytes option"
  | HttpChunk u32 bytes bool
  | HttpStreamConnect u32 string bytes
  | HttpStreamData u32 bytes
  | HttpStreamClose u32
  | AgentRegister string string string AgentMetadata
  | AgentRegistered string
  | AgentRejected string
  | ReverseTunnelRequest string string string "string option"
  | ReverseTunnelAccept string string
  | ReverseTunnelReject string string
  | ReverseConnect string u32 string
  | ValidateAgentToken "string option"
  | ValidateAgentTokenOk
  | ValidateAgentTokenReject string
  | ForwardRequest string u32 string "string option"
  | ForwardAccept string u32
  | ForwardReject string u32 string
  | ReverseData string u32 bytes
  | ReverseClose string u32 "string option"

lemma region_as_str_inject: "region_as_str a = region_as_str b \<longleftrightarrow> a = b"
  by (cases a; cases b) simp_all

end
