(* ===== verification/Agent.thy ===== *)
theory Agent
  imports IpFilter Jwt Messages
begin

text \<open>
  The agent that forwards into a private network (\<open>crates/localup-agent\<close>) and the agent-server
  (\<open>crates/localup-agent-server\<close>): which targets are allowed (\<open>access_control.rs\<close>,
  \<open>allowlist.rs\<close>), the table of active connections (\<open>connection.rs\<close>), what an agent answers to a
  forward request and on its control stream (\<open>agent.rs\<close>), and the agent-server's registration and
  its reconnection loop (\<open>server.rs\<close>). The network sets of the crates \<open>ipnet\<close> and \<open>ipnetwork\<close> are
  a parameter: a type of networks with their membership test. Socket addresses are parsed and shown
  as the standard library does it; the flow label and scope of IPv6 sockets are dropped.
\<close>

section \<open>Socket addresses\<close>

definition read_port :: "string \<Rightarrow> (u16 \<times> string) option" where
  "read_port s =
     Option.bind (read_given_char CHR '':'' s)
       (\<lambda>s. map_option (\<lambda>(p, rest). (of_nat p, rest)) (read_number 10 (length s) True 65536 s))"

definition read_scope_id :: "string \<Rightarrow> string" where
  "read_scope_id s =
     (case Option.bind (read_given_char CHR ''%'' s)
             (\<lambda>s. read_number 10 (length s) True (2 ^ 32) s) of
        Some (_, rest) \<Rightarrow> rest
      | None \<Rightarrow> s)"

definition read_socket_v4 :: "string \<Rightarrow> (SocketAddr \<times> string) option" where
  "read_socket_v4 s =
     Option.bind (read_ipv4_addr s) (\<lambda>(ip, s).
     Option.bind (read_port s) (\<lambda>(p, s). Some (\<lparr>sa_ip = V4 ip, sa_port = p\<rparr>, s)))"

definition read_socket_v6 :: "string \<Rightarrow> (SocketAddr \<times> string) option" where
  "read_socket_v6 s =
     Option.bind (read_given_char CHR ''['' s) (\<lambda>s.
     Option.bind (read_ipv6_addr s) (\<lambda>(ip, s).
     Option.bind (read_given_char CHR '']'' (read_scope_id s)) (\<lambda>s.
     Option.bind (read_port s) (\<lambda>(p, s). Some (\<lparr>sa_ip = V6 ip, sa_port = p\<rparr>, s)))))"

definition socket_from_str :: "string \<Rightarrow> SocketAddr option" where
  "socket_from_str s =
     (case (case read_socket_v4 s of Some r \<Rightarrow> Some r | None \<Rightarrow> read_socket_v6 s) of
        Some (a, rest) \<Rightarrow> if rest = [] then Some a else None
      | None \<Rightarrow> None)"

fun show_hex :: "nat \<Rightarrow> string" where
  "show_hex n =
     (let d = n mod 16; c = [char_of (if d < 10 then 48 + d else 87 + d)]
      in if n < 16 then c else show_hex (n div 16) @ c)"

declare show_hex.simps [simp del]

fun join_with :: "string \<Rightarrow> string list \<Rightarrow> string" where
  "join_with sep [] = []"
| "join_with sep [s] = s"
| "join_with sep (s # ss) = s @ sep @ join_with sep ss"

definition v4_display :: "u32 \<Rightarrow> string" where
  "v4_display w =
     join_with ''.'' (map (\<lambda>i. show_nat (unat (take_bit 8 (drop_bit (8 * i) w)))) [3, 2, 1, 0])"

definition v6_segments :: "u128 \<Rightarrow> nat list" where
  "v6_segments w = map (\<lambda>i. unat (take_bit 16 (drop_bit (16 * i) w))) [7, 6, 5, 4, 3, 2, 1, 0]"

definition zero_run :: "nat list \<Rightarrow> nat \<Rightarrow> nat" where
  "zero_run gs i = length (takeWhile (\<lambda>g. g = 0) (drop i gs))"

definition longest_zeros :: "nat list \<Rightarrow> nat \<times> nat" where
  "longest_zeros gs =
     foldl (\<lambda>(start, len) i. if zero_run gs i > len then (i, zero_run gs i) else (start, len))
       (0, 0) [0..<length gs]"

definition v6_display :: "u128 \<Rightarrow> string" where
  "v6_display w =
     (let gs = v6_segments w; groups = (\<lambda>hs. join_with '':'' (map show_hex hs))
      in if take 6 gs = [0, 0, 0, 0, 0, 65535] then ''::ffff:'' @ v4_display (ucast w)
         else (case longest_zeros gs of
                 (start, len) \<Rightarrow>
                   if len > 1 then groups (take start gs) @ ''::'' @ groups (drop (start + len) gs)
                   else groups gs))"

definition ip_display :: "IpAddr \<Rightarrow> string" where
  "ip_display a = (case a of V4 w \<Rightarrow> v4_display w | V6 w \<Rightarrow> v6_display w)"

definition socket_display :: "SocketAddr \<Rightarrow> string" where
  "socket_display a =
     (case sa_ip a of
        V4 w \<Rightarrow> v4_display w @ '':'' @ show_nat (unat (sa_port a))
      | V6 w \<Rightarrow> ''['' @ v6_display w @ '']:'' @ show_nat (unat (sa_port a)))"

section \<open>Access control of the agent-server\<close>

datatype AccessControlError =
    CidrNotAllowed IpAddr
  | PortNotAllowed u16
  | InvalidAddress string

fun access_error_display :: "AccessControlError \<Rightarrow> string" where
  "access_error_display (CidrNotAllowed ip) =
     ''Address '' @ ip_display ip @ '' is not in allowed CIDR ranges''"
| "access_error_display (PortNotAllowed p) =
     ''Port '' @ show_nat (unat p) @ '' is not in allowed port ranges''"
| "access_error_display (InvalidAddress s) = ''Invalid address format: '' @ s"

record PortRange =
  pr_start :: u16
  pr_end :: u16

definition port_range_single :: "u16 \<Rightarrow> PortRange" where
  "port_range_single p = \<lparr>pr_start = p, pr_end = p\<rparr>"

definition port_range_range :: "u16 \<Rightarrow> u16 \<Rightarrow> PortRange" where
  "port_range_range s e = \<lparr>pr_start = s, pr_end = e\<rparr>"

definition port_range_contains :: "PortRange \<Rightarrow> u16 \<Rightarrow> bool" where
  "port_range_contains r p \<longleftrightarrow> p \<ge> pr_start r \<and> p \<le> pr_end r"

text \<open>The text of an integer parse error is the standard library's, \<open>int_error\<close>.\<close>

definition port_range_from_str :: "(string \<Rightarrow> string) \<Rightarrow> string \<Rightarrow> (string, PortRange) result" where
  "port_range_from_str int_error s =
     (case split_once CHR ''-'' s of
        Some (start, e) \<Rightarrow>
          (case parse_u16 (trim start) of
             None \<Rightarrow> Err (''Invalid start port: '' @ int_error (trim start))
           | Some start' \<Rightarrow>
               (case parse_u16 (trim e) of
                  None \<Rightarrow> Err (''Invalid end port: '' @ int_error (trim e))
                | Some e' \<Rightarrow>
                    if start' > e' then
                      Err (''Start port '' @ show_nat (unat start') @ '' > end port '' @ show_nat (unat e'))
                    else Ok (port_range_range start' e')))
      | None \<Rightarrow>
          (case parse_u16 (trim s) of
             None \<Rightarrow> Err (''Invalid port: '' @ int_error (trim s))
           | Some p \<Rightarrow> Ok (port_range_single p)))"

record 'net AccessControl =
  allowed_cidrs :: "'net list"
  allowed_ports :: "PortRange list"

definition allow_all :: "'net AccessControl" where
  "allow_all = \<lparr>allowed_cidrs = [], allowed_ports = []\<rparr>"

definition access_is_allowed ::
    "('net \<Rightarrow> IpAddr \<Rightarrow> bool) \<Rightarrow> 'net AccessControl \<Rightarrow> SocketAddr \<Rightarrow> (AccessControlError, unit) result" where
  "access_is_allowed contains ac a =
     (if allowed_cidrs ac \<noteq> [] \<and> \<not> list_ex (\<lambda>n. contains n (sa_ip a)) (allowed_cidrs ac)
      then Err (CidrNotAllowed (sa_ip a))
      else if allowed_ports ac \<noteq> [] \<and> \<not> list_ex (\<lambda>r. port_range_contains r (sa_port a)) (allowed_ports ac)
      then Err (PortNotAllowed (sa_port a))
      else Ok ())"

definition validate_target ::
    "('net \<Rightarrow> IpAddr \<Rightarrow> bool) \<Rightarrow> 'net AccessControl \<Rightarrow> string \<Rightarrow> (AccessControlError, SocketAddr) result" where
  "validate_target contains ac target =
     (case socket_from_str target of
        None \<Rightarrow> Err (InvalidAddress target)
      | Some a \<Rightarrow> (case access_is_allowed contains ac a of Err e \<Rightarrow> Err e | Ok _ \<Rightarrow> Ok a))"

section \<open>The agent's allowlist\<close>

record 'net Allowlist =
  al_networks :: "'net list"
  al_ports :: "u16 list"

fun parse_networks ::
    "(string \<Rightarrow> (string, 'net) result) \<Rightarrow> string list \<Rightarrow> (string, 'net list) result" where
  "parse_networks parse [] = Ok []"
| "parse_networks parse (s # ss) =
     (case parse s of
        Err e \<Rightarrow> Err (''Invalid CIDR notation '' @ [CHR 0x27] @ s @ [CHR 0x27] @ '': '' @ e)
      | Ok n \<Rightarrow> (case parse_networks parse ss of Err e \<Rightarrow> Err e | Ok ns \<Rightarrow> Ok (n # ns)))"

definition allowlist_new ::
    "(string \<Rightarrow> (string, 'net) result) \<Rightarrow> string list \<Rightarrow> u16 list \<Rightarrow> (string, 'net Allowlist) result" where
  "allowlist_new parse ns ps =
     (case parse_networks parse ns of
        Err e \<Rightarrow> Err e
      | Ok ns' \<Rightarrow> Ok \<lparr>al_networks = ns', al_ports = ps\<rparr>)"

text \<open>\<open>rsplitn(2, ':')\<close>: the last colon separates the address from the port.\<close>

definition parse_address :: "string \<Rightarrow> (IpAddr \<times> u16) option" where
  "parse_address s =
     (case rsplit_once CHR '':'' s of
        None \<Rightarrow> None
      | Some (ip_str, port_str) \<Rightarrow>
          (case parse_u16 port_str of
             None \<Rightarrow> None
           | Some p \<Rightarrow> (case ip_from_str ip_str of None \<Rightarrow> None | Some ip \<Rightarrow> Some (ip, p))))"

definition allowlist_ip_allowed :: "('net \<Rightarrow> IpAddr \<Rightarrow> bool) \<Rightarrow> 'net Allowlist \<Rightarrow> IpAddr \<Rightarrow> bool" where
  "allowlist_ip_allowed contains al ip \<longleftrightarrow> al_networks al = [] \<or> list_ex (\<lambda>n. contains n ip) (al_networks al)"

definition allowlist_port_allowed :: "'net Allowlist \<Rightarrow> u16 \<Rightarrow> bool" where
  "allowlist_port_allowed al p \<longleftrightarrow> al_ports al = [] \<or> p \<in> set (al_ports al)"

definition allowlist_is_allowed :: "('net \<Rightarrow> IpAddr \<Rightarrow> bool) \<Rightarrow> 'net Allowlist \<Rightarrow> string \<Rightarrow> bool" where
  "allowlist_is_allowed contains al s =
     (case parse_address s of
        Some (ip, p) \<Rightarrow> allowlist_ip_allowed contains al ip \<and> allowlist_port_allowed al p
      | None \<Rightarrow> False)"

section \<open>Active connections\<close>

record ConnectionInfo =
  ci_localup_id :: string
  ci_stream_id :: u32
  ci_remote_address :: string
  ci_established_at :: nat

type_synonym connections = "u32 \<rightharpoonup> ConnectionInfo"

definition conn_mgr_register :: "u32 \<Rightarrow> ConnectionInfo \<Rightarrow> connections \<Rightarrow> connections" where
  "conn_mgr_register stream_id info cs = cs(stream_id \<mapsto> info)"

definition conn_mgr_unregister :: "u32 \<Rightarrow> connections \<Rightarrow> connections" where
  "conn_mgr_unregister stream_id cs = cs(stream_id := None)"

definition conn_mgr_get :: "connections \<Rightarrow> u32 \<Rightarrow> ConnectionInfo option" where
  "conn_mgr_get cs stream_id = cs stream_id"

definition conn_mgr_count :: "connections \<Rightarrow> nat" where
  "conn_mgr_count cs = card (dom cs)"

definition conn_mgr_clear :: "connections \<Rightarrow> connections" where
  "conn_mgr_clear cs = Map.empty"

interpretation conn_mgr: keyed_store conn_mgr_get conn_mgr_register conn_mgr_unregister
  by unfold_locales (auto simp: conn_mgr_get_def conn_mgr_register_def conn_mgr_unregister_def)

section \<open>The agent\<close>

datatype ForwarderError =
    RemoteConnectFailed string string
  | ForwarderTransport string
  | ForwarderIo string
  | AddressNotAllowed string

datatype AgentError =
    AgentTransport string
  | InvalidAllowlist string
  | AgentForwarder ForwarderError
  | RegistrationFailed string
  | MessageHandling string
  | AlreadyRunning
  | ConnectionNotEstablished
  | AddressResolution string

record AgentConfig =
  ac_agent_id :: string
  ac_relay_addr :: string
  ac_auth_token :: string
  ac_target_address :: string
  ac_local_address :: "string option"
  ac_insecure :: bool
  ac_jwt_secret :: "string option"

record AgentState =
  ag_config :: AgentConfig
  ag_connections :: connections
  ag_running :: bool
  ag_connection_active :: bool

definition agent_new :: "AgentConfig \<Rightarrow> (AgentError, AgentState) result" where
  "agent_new config =
     (if ac_target_address config = [] then
        Err (InvalidAllowlist ''Target address cannot be empty'')
      else if CHR '':'' \<notin> set (ac_target_address config) then
        Err (InvalidAllowlist
          (''Invalid target address format '' @ [CHR 0x27] @ ac_target_address config @ [CHR 0x27]
           @ ''. Expected '' @ [CHR 0x27] @ ''host:port'' @ [CHR 0x27] @ '' (e.g., ''
           @ [CHR 0x27] @ ''192.168.1.100:8080'' @ [CHR 0x27] @ '')''))
      else Ok \<lparr>ag_config = config, ag_connections = Map.empty, ag_running = False,
               ag_connection_active = False\<rparr>)"

text \<open>
  The token check of a forward request, also made for \<open>ValidateAgentToken\<close>: only an agent with a
  secret checks. The first component of an error is the answer to the relay, the second the error
  the agent logs. \<open>show_jwt_error\<close> is the text of a validation error.
\<close>

definition check_agent_token ::
    "('k \<Rightarrow> Validation \<Rightarrow> string \<Rightarrow> ('e, JwtClaims) result) \<Rightarrow> (bytes \<Rightarrow> 'k) \<Rightarrow> ('e JwtError \<Rightarrow> string) \<Rightarrow> int \<Rightarrow>
     string option \<Rightarrow> string option \<Rightarrow> (string \<times> string, unit) result" where
  "check_agent_token decode from_secret show_jwt_error now jwt_secret agent_token =
     (case jwt_secret of
        None \<Rightarrow> Ok ()
      | Some secret \<Rightarrow>
          (case agent_token of
             None \<Rightarrow> Err (''Authentication failed: agent token is required'',
                           ''Agent token is required but not provided'')
           | Some token \<Rightarrow>
               (case jwt_validate decode now (jwt_new from_secret (as_bytes secret)) token of
                  Ok _ \<Rightarrow> Ok ()
                | Err e \<Rightarrow> Err (''Authentication failed: invalid agent token: '' @ show_jwt_error e,
                                ''Token validation failed: '' @ show_jwt_error e))))"

definition validate_token_reply :: "(string \<times> string, unit) result \<Rightarrow> TunnelMessage" where
  "validate_token_reply checked =
     (case checked of
        Ok _ \<Rightarrow> ValidateAgentTokenOk
      | Err (reason, _) \<Rightarrow> ValidateAgentTokenReject reason)"

text \<open>
  \<open>handle_stream\<close> up to the forwarding: the messages it sends, the table with the connection
  registered, and either the result with which it returns or the address it goes on to forward to.
  \<open>send_ok\<close> is the result of sending the acceptance.
\<close>

datatype (plugins only: size) stream_step =
    StreamReturns "(AgentError, unit) result"
  | StreamForwards string u32 string

definition handle_stream ::
    "('k \<Rightarrow> Validation \<Rightarrow> string \<Rightarrow> ('e, JwtClaims) result) \<Rightarrow> (bytes \<Rightarrow> 'k) \<Rightarrow> ('e JwtError \<Rightarrow> string) \<Rightarrow>
     int \<Rightarrow> nat \<Rightarrow> string option \<Rightarrow> string \<Rightarrow> (string, TunnelMessage option) result \<Rightarrow>
     (string, unit) result \<Rightarrow> connections \<Rightarrow> TunnelMessage list \<times> connections \<times> stream_step" where
  "handle_stream decode from_secret show_jwt_error now instant jwt_secret target_address received send_ok cs =
     (case received of
        Err e \<Rightarrow> ([], cs, StreamReturns (Err (AgentTransport e)))
      | Ok (Some (ForwardRequest localup_id stream_id remote_address agent_token)) \<Rightarrow>
          (case check_agent_token decode from_secret show_jwt_error now jwt_secret agent_token of
             Err (reason, log) \<Rightarrow>
               ([ForwardReject localup_id stream_id reason], cs, StreamReturns (Err (MessageHandling log)))
           | Ok _ \<Rightarrow>
               if remote_address \<noteq> target_address then
                 ([ForwardReject localup_id stream_id
                     (''Address mismatch: this agent only forwards to '' @ target_address @ '', but ''
                      @ remote_address @ '' was requested'')], cs,
                  StreamReturns (Err (AgentForwarder (AddressNotAllowed remote_address))))
               else
                 (case send_ok of
                    Err e \<Rightarrow> ([], cs, StreamReturns (Err (AgentTransport e)))
                  | Ok _ \<Rightarrow>
                      ([ForwardAccept localup_id stream_id],
                       conn_mgr_register stream_id
                         \<lparr>ci_localup_id = localup_id, ci_stream_id = stream_id,
                          ci_remote_address = remote_address, ci_established_at = instant\<rparr> cs,
                       StreamForwards localup_id stream_id remote_address)))
      | Ok (Some _) \<Rightarrow> ([], cs, StreamReturns (Ok ()))
      | Ok None \<Rightarrow> ([], cs, StreamReturns (Ok ())))"

text \<open>After the forwarding: the connection leaves the table, whatever the result.\<close>

definition handle_stream_end ::
    "u32 \<Rightarrow> (ForwarderError, unit) result \<Rightarrow> connections \<Rightarrow> connections \<times> (AgentError, unit) result" where
  "handle_stream_end stream_id result cs =
     (conn_mgr_unregister stream_id cs, map_err AgentForwarder result)"

text \<open>What the agent makes of the relay's answer to its registration.\<close>

definition registration_result ::
    "(TunnelMessage \<Rightarrow> string) \<Rightarrow> (string, TunnelMessage option) result \<Rightarrow> (AgentError, unit) result" where
  "registration_result debug_text received =
     (case received of
        Err e \<Rightarrow> Err (AgentTransport e)
      | Ok (Some (AgentRegistered _)) \<Rightarrow> Ok ()
      | Ok (Some (AgentRejected reason)) \<Rightarrow> Err (RegistrationFailed reason)
      | Ok (Some (Disconnect reason)) \<Rightarrow> Err (RegistrationFailed reason)
      | Ok (Some msg) \<Rightarrow> Err (RegistrationFailed (''Unexpected response: '' @ debug_text msg))
      | Ok None \<Rightarrow> Err (RegistrationFailed ''Stream closed unexpectedly''))"

text \<open>
  One turn of the heartbeat task: a timer tick or a message of the relay. The answers sent, and
  whether the task goes on; \<open>send_ok\<close> is the result of sending.
\<close>

datatype (plugins only: size) control_event = Tick bool u64 | Received "(string, TunnelMessage option) result"

definition agent_control_step ::
    "(string option \<Rightarrow> (string \<times> string, unit) result) \<Rightarrow> bool \<Rightarrow> control_event \<Rightarrow> TunnelMessage list \<times> bool" where
  "agent_control_step check send_ok e =
     (case e of
        Tick running timestamp \<Rightarrow> if running then ([Ping timestamp], send_ok) else ([], False)
      | Received (Ok (Some (Ping timestamp))) \<Rightarrow> ([Pong timestamp], send_ok)
      | Received (Ok (Some (Pong _))) \<Rightarrow> ([], True)
      | Received (Ok (Some (ValidateAgentToken tok))) \<Rightarrow> ([validate_token_reply (check tok)], send_ok)
      | Received (Ok (Some (Disconnect _))) \<Rightarrow> ([], False)
      | Received (Ok (Some _)) \<Rightarrow> ([], True)
      | Received (Ok None) \<Rightarrow> ([], False)
      | Received (Err _) \<Rightarrow> ([], False))"

text \<open>\<open>start\<close>: the outcomes of connecting, registering and of the message loop are its arguments.\<close>

definition agent_start ::
    "(AgentError, unit) result \<Rightarrow> (AgentError, unit) result \<Rightarrow> (AgentState \<Rightarrow> AgentState \<times> (AgentError, unit) result) \<Rightarrow>
     AgentState \<Rightarrow> AgentState \<times> (AgentError, unit) result" where
  "agent_start connected registered messages s =
     (if ag_running s then (s, Err AlreadyRunning)
      else
        (let s1 = s\<lparr>ag_running := True\<rparr> in
         case connected of
           Err e \<Rightarrow> (s1\<lparr>ag_running := False\<rparr>, Err e)
         | Ok _ \<Rightarrow>
             (case registered of
                Err e \<Rightarrow> (s1\<lparr>ag_running := False, ag_connection_active := False\<rparr>, Err e)
              | Ok _ \<Rightarrow>
                  (case messages (s1\<lparr>ag_connection_active := True\<rparr>) of
                     (s2, r) \<Rightarrow>
                       (s2\<lparr>ag_running := False, ag_connection_active := False,
                           ag_connections := conn_mgr_clear (ag_connections s2)\<rparr>, r)))))"

section \<open>The agent-server\<close>

text \<open>
  \<open>handle_connection\<close>: the answer to the first message of a connection, and the target of an agent
  that was registered.
\<close>

definition agent_server_handle ::
    "('net \<Rightarrow> IpAddr \<Rightarrow> bool) \<Rightarrow> 'net AccessControl \<Rightarrow> TunnelMessage option \<Rightarrow>
     TunnelMessage list \<times> (string \<times> SocketAddr) option" where
  "agent_server_handle contains ac first =
     (case first of
        None \<Rightarrow> ([], None)
      | Some (AgentRegister agent_id _ target_address _) \<Rightarrow>
          (case validate_target contains ac target_address of
             Ok target \<Rightarrow> ([AgentRegistered agent_id], Some (agent_id, target))
           | Err e \<Rightarrow> ([AgentRejected (''Access denied: '' @ access_error_display e)], None))
      | Some _ \<Rightarrow> ([AgentRejected ''Expected AgentRegister message as first message''], None))"

text \<open>The loop that keeps a registered agent: one turn.\<close>

definition agent_forwarding_step ::
    "bool \<Rightarrow> (string, TunnelMessage option) result \<Rightarrow> TunnelMessage list \<times> bool" where
  "agent_forwarding_step send_ok received =
     (case received of
        Ok (Some (Ping timestamp)) \<Rightarrow> ([Pong timestamp], send_ok)
      | Ok (Some (Disconnect _)) \<Rightarrow> ([], False)
      | Ok None \<Rightarrow> ([], False)
      | Err _ \<Rightarrow> ([], False)
      | Ok (Some _) \<Rightarrow> ([], True))"

text \<open>
  The task that keeps the agent-server registered with a relay. One turn: the agent is created,
  which resets the delay, it runs until it ends, then the task sleeps and doubles the delay up to
  a minute (\<open>scale\<close> multiplies a duration by the floating-point factor). The result is the time
  slept and the delay of the next turn; durations are in nanoseconds.
\<close>

definition second :: nat where "second = 1000000000"

definition relay_turn ::
    "(nat \<Rightarrow> nat) \<Rightarrow> (AgentError, AgentState) result \<Rightarrow> nat \<Rightarrow> nat \<times> nat" where
  "relay_turn scale created current_backoff =
     (let current = (case created of Ok _ \<Rightarrow> 1 * second | Err _ \<Rightarrow> current_backoff)
      in (current, min (scale current) (60 * second)))"

fun relay_sleeps :: "(nat \<Rightarrow> nat) \<Rightarrow> (AgentError, AgentState) result \<Rightarrow> nat \<Rightarrow> nat \<Rightarrow> nat list" where
  "relay_sleeps scale created current_backoff 0 = []"
| "relay_sleeps scale created current_backoff (Suc n) =
     (case relay_turn scale created current_backoff of
        (slept, next_backoff) \<Rightarrow> slept # relay_sleeps scale created next_backoff n)"

section \<open>Reconnection\<close>

record ReconnectConfig =
  initial_backoff :: nat
  max_backoff :: nat
  max_attempts :: "nat option"

definition reconnect_default :: ReconnectConfig where
  "reconnect_default = \<lparr>initial_backoff = 1 * second, max_backoff = 60 * second, max_attempts = None\<rparr>"

datatype ReconnectError = MaxAttemptsReached | Cancelled

record ReconnectManager =
  rm_config :: ReconnectConfig
  current_backoff :: nat
  attempt :: nat

definition reconnect_new :: "ReconnectConfig \<Rightarrow> ReconnectManager" where
  "reconnect_new c = \<lparr>rm_config = c, current_backoff = initial_backoff c, attempt = 0\<rparr>"

text \<open>
  \<open>wait\<close>: the time slept, or the error. \<open>scale\<close> is \<open>from_secs_f64\<close> of the product with the
  configured multiplier, which panics when the product is negative or too large.
\<close>

definition reconnect_wait ::
    "(nat \<Rightarrow> nat outcome) \<Rightarrow> ReconnectManager \<Rightarrow> (ReconnectManager \<times> (ReconnectError, nat) result) outcome" where
  "reconnect_wait scale m =
     (let m1 = m\<lparr>attempt := attempt m + 1\<rparr>
      in if (case max_attempts (rm_config m) of Some n \<Rightarrow> attempt m1 > n | None \<Rightarrow> False)
         then Returned (m1, Err MaxAttemptsReached)
         else and_then (scale (current_backoff m1)) (\<lambda>next_backoff.
                Returned (m1\<lparr>current_backoff := min next_backoff (max_backoff (rm_config m1))\<rparr>,
                          Ok (current_backoff m1))))"

definition reconnect_reset :: "ReconnectManager \<Rightarrow> ReconnectManager" where
  "reconnect_reset m = m\<lparr>current_backoff := initial_backoff (rm_config m), attempt := 0\<rparr>"

section \<open>Printing and parsing addresses\<close>

lemma to_digit_decimal:
  "to_digit 10 c = (if is_ascii_digit c then Some (of_char c - 48) else None)"
  by (auto simp: to_digit_def is_ascii_digit_def is_ascii_lower_def is_ascii_upper_def Let_def)

definition no_digit_next :: "string \<Rightarrow> bool" where
  "no_digit_next s \<longleftrightarrow> s = [] \<or> \<not> is_ascii_digit (hd s)"

text \<open>A number that is followed by no further digit is read back.\<close>

lemma read_digits_digits:
  assumes "digits_value acc ds = Some n" "no_digit_next rest"
  shows "read_digits 10 cnt acc (ds @ rest) = (cnt + length ds, n, rest)"
  using assms(1)
proof (induction ds arbitrary: cnt acc)
  case Nil
  with assms(2) show ?case by (cases rest) (auto simp: to_digit_decimal no_digit_next_def)
next
  case (Cons d ds)
  then show ?case by (auto simp: to_digit_decimal split: if_splits)
qed

lemma read_digits_show_nat:
  assumes "no_digit_next rest"
  shows "read_digits 10 0 0 (show_nat n @ rest) = (length (show_nat n), n, rest)"
  using read_digits_digits [OF digits_value_show_nat assms] by simp

lemma show_nat_leading_zero: "starts_with (show_nat n) ''0'' \<Longrightarrow> n = 0"
proof (induction n rule: show_nat.induct)
  case (1 n)
  show ?case
  proof (cases "n < 10")
    case True
    with "1.prems" show ?thesis
      by (subst (asm) show_nat.simps) (auto simp: starts_with_def dest: arg_cong [of _ _ "of_char :: char \<Rightarrow> nat"])
  next
    case False
    with "1.prems" have "starts_with (show_nat (n div 10)) ''0''"
      by (subst (asm) show_nat.simps) (cases "show_nat (n div 10)"; auto simp: starts_with_def)
    with 1 False show ?thesis by auto
  qed
qed

lemma length_show_nat_small: "n < 1000 \<Longrightarrow> length (show_nat n) \<le> 3"
  by (subst show_nat.simps, subst show_nat.simps, subst show_nat.simps) auto

lemma read_octet_number:
  assumes "n < 256" "no_digit_next rest"
  shows "read_number 10 3 False 256 (show_nat n @ rest) = Some (n, rest)"
proof -
  have "starts_with (show_nat n @ rest) ''0'' \<Longrightarrow> starts_with (show_nat n) ''0''"
    by (cases "show_nat n") (auto simp: starts_with_def)
  then have "starts_with (show_nat n @ rest) ''0'' \<Longrightarrow> length (show_nat n) = 1"
    using show_nat_leading_zero [of n] by (auto simp: show_nat.simps)
  with assms(1) length_show_nat_small [of n] show ?thesis
    by (auto simp: read_number_def read_digits_show_nat [OF assms(2)])
qed

lemma read_octet_show:
  "n < 256 \<Longrightarrow> no_digit_next rest \<Longrightarrow>
     read_octet 0 (show_nat n @ rest) = Some (n, rest)"
  "n < 256 \<Longrightarrow> no_digit_next rest \<Longrightarrow> 0 < i \<Longrightarrow>
     read_octet i (CHR ''.'' # show_nat n @ rest) = Some (n, rest)"
  by (auto simp: read_octet_def read_separator_def read_given_char_def read_octet_number)

lemma no_digit_next_simps [simp]:
  "no_digit_next []" "no_digit_next (CHR ''.'' # s)" "no_digit_next (CHR '':'' # s)"
  by (simp_all add: no_digit_next_def is_ascii_digit_def)

lemma unat_octet: "unat (take_bit 8 (drop_bit k w) :: u32) = unat w div 2 ^ k mod 256"
  unfolding unsigned_take_bit_eq unat_drop_bit_eq by (simp add: take_bit_eq_mod drop_bit_eq_div)

lemma octets_value:
  "((n div 2 ^ 24 mod 256 * 256 + n div 2 ^ 16 mod 256) * 256 + n div 2 ^ 8 mod 256) * 256 + n div 2 ^ 0 mod 256 = n"
  if "n < 2 ^ 32" for n :: nat
proof -
  have "m = m div 256 * 256 + m mod 256" for m :: nat by simp
  note this [of n] this [of "n div 256"] this [of "n div 65536"]
  then show ?thesis using that by (simp flip: div_mult2_eq)
qed

lemma read_ipv4_display:
  assumes "no_digit_next rest"
  shows "read_ipv4_addr (v4_display w @ rest) = Some (w, rest)"
proof -
  define o1 where "o1 k = unat w div 2 ^ k mod 256" for k :: nat
  have o1: "o1 k < 256" for k by (simp add: o1_def)
  have disp: "v4_display w @ rest = show_nat (o1 24) @ CHR ''.'' # show_nat (o1 16) @ CHR ''.'' #
      show_nat (o1 8) @ CHR ''.'' # show_nat (o1 0) @ rest"
    using unat_octet [of 0 w] by (simp add: v4_display_def unat_octet o1_def)
  have "((o1 24 * 256 + o1 16) * 256 + o1 8) * 256 + o1 0 = unat w"
    unfolding o1_def by (rule octets_value) (use unsigned_less [of w] in simp)
  then have w: "of_nat (((o1 24 * 256 + o1 16) * 256 + o1 8) * 256 + o1 0) = w"
    by simp
  show ?thesis
    unfolding disp read_ipv4_addr_def
    using w by (simp add: read_octet_show o1 assms del: of_nat_add of_nat_mult)
qed


lemma unat_u16_bound [simp]: "unat (p :: u16) < 65536"
  using unsigned_less [of p, where ?'a = nat] by simp

lemma read_port_show: "read_port (CHR '':'' # show_nat (unat p)) = Some (p, [])"
proof -
  have "read_digits 10 0 0 (show_nat (unat p)) = (length (show_nat (unat p)), unat p, [])"
    using read_digits_show_nat [of "[]"] by simp
  then show ?thesis by (simp add: read_port_def read_given_char_def read_number_def unat_u16_bound)
qed

text \<open>
  An IPv4 socket address printed and parsed again is the same address, so the addresses that
  travel as strings in the agent's and the relay's messages keep their meaning.
\<close>

theorem socket_display_parse:
  assumes "sa_ip a = V4 w"
  shows "socket_from_str (socket_display a) = Some a"
  using assms
  by (cases a) (simp add: socket_display_def socket_from_str_def read_socket_v4_def read_ipv4_display read_port_show)

theorem socket_display_parse_witness:
  "socket_from_str (socket_display \<lparr>sa_ip = V4 0x0A000001, sa_port = 5432\<rparr>)
     = Some \<lparr>sa_ip = V4 0x0A000001, sa_port = 5432\<rparr>"
  by (rule socket_display_parse) simp

section \<open>Access decisions\<close>

lemma access_is_allowed_Ok:
  "access_is_allowed contains ac a = Ok u \<longleftrightarrow>
     (allowed_cidrs ac = [] \<or> (\<exists>n \<in> set (allowed_cidrs ac). contains n (sa_ip a))) \<and>
     (allowed_ports ac = [] \<or>
      (\<exists>r \<in> set (allowed_ports ac). pr_start r \<le> sa_port a \<and> sa_port a \<le> pr_end r))"
  unfolding access_is_allowed_def list_ex_iff port_range_contains_def by simp

lemma validate_target_Ok:
  "validate_target contains ac target = Ok a \<longleftrightarrow>
     socket_from_str target = Some a \<and>
     (allowed_cidrs ac = [] \<or> (\<exists>n \<in> set (allowed_cidrs ac). contains n (sa_ip a))) \<and>
     (allowed_ports ac = [] \<or>
      (\<exists>r \<in> set (allowed_ports ac). pr_start r \<le> sa_port a \<and> sa_port a \<le> pr_end r))"
  unfolding access_is_allowed_Ok [where u = "()", symmetric]
  by (cases "socket_from_str target"; cases "access_is_allowed contains ac (the (socket_from_str target))")
     (auto simp: validate_target_def)

text \<open>
  The agent-server registers an agent exactly when the address it wants to expose is a socket
  address in one of the allowed networks and port ranges, an empty list allowing everything; the
  token it presents, and so the configured secret, take no part.
\<close>

theorem agent_server_registers:
  "agent_server_handle contains ac (Some (AgentRegister agent_id token target metadata))
     = ([AgentRegistered agent_id], Some (agent_id, a)) \<longleftrightarrow>
   socket_from_str target = Some a \<and>
   (allowed_cidrs ac = [] \<or> (\<exists>n \<in> set (allowed_cidrs ac). contains n (sa_ip a))) \<and>
   (allowed_ports ac = [] \<or>
    (\<exists>r \<in> set (allowed_ports ac). pr_start r \<le> sa_port a \<and> sa_port a \<le> pr_end r))"
  unfolding validate_target_Ok [symmetric] by (auto simp: agent_server_handle_def split: sum.splits)

lemma rsplit_once_append: "c \<notin> set b \<Longrightarrow> rsplit_once c (a @ c # b) = Some (a, b)"
proof -
  assume "c \<notin> set b"
  then have "split_once c (rev (a @ c # b)) = Some (rev b, rev a)" by (simp add: split_once_Some)
  then show ?thesis by (simp add: rsplit_once_def)
qed

lemma colon_notin_show_nat: "CHR '':'' \<notin> set (show_nat n)"
  using show_nat_digits [of "CHR '':''" n] by (auto simp: is_ascii_digit_def)

lemma ip_from_str_bracket: "ip_from_str (CHR ''['' # s) = None"
proof -
  have d: "to_digit 10 CHR ''['' = None" "to_digit 16 CHR ''['' = None" by (simp_all add: to_digit_def is_ascii_digit_def is_ascii_lower_def is_ascii_upper_def)
  then have "read_ipv4_addr (CHR ''['' # s) = None"
    by (simp add: read_ipv4_addr_def read_octet_def read_separator_def read_number_def)
  moreover from this d have "read_groups (Suc n) 0 [] (CHR ''['' # s) = ([], False, CHR ''['' # s)" for n
    by (simp add: read_separator_def read_number_def)
  from this [of 7] have "read_groups 8 0 [] (CHR ''['' # s) = ([], False, CHR ''['' # s)" by simp
  then have "read_ipv6_addr (CHR ''['' # s) = None"
    by (simp add: read_ipv6_addr_def read_given_char_def)
  ultimately show ?thesis by (simp add: ip_from_str_def)
qed

lemma parse_address_display:
  "parse_address (socket_display a) =
     (case sa_ip a of V4 w \<Rightarrow> Some (V4 w, sa_port a) | V6 w \<Rightarrow> None)"
proof -
  have p: "parse_u16 (show_nat (unat (sa_port a))) = Some (sa_port a)"
    using unat_u16_bound [of "sa_port a"] by (simp add: parse_u16_def parse_uint_show_nat del: map_option_eq_Some)
  have ip: "ip_from_str (v4_display w) = Some (V4 w)" for w
    using read_ipv4_display [of "[]" w] by (simp add: ip_from_str_def)
  show ?thesis
    using rsplit_once_append [OF colon_notin_show_nat, of "CHR ''['' # v6_display w @ '']''" for w]
    by (cases "sa_ip a")
       (simp_all add: socket_display_def parse_address_def rsplit_once_append colon_notin_show_nat p ip
          ip_from_str_bracket)
qed

text \<open>
  The agent's own allowlist decides as the agent-server's access control with the same networks
  and ports does, on every IPv4 address; an IPv6 address in its standard form is refused whatever
  the lists say, even when both are empty.
\<close>

theorem allowlist_agrees:
  "allowlist_is_allowed contains \<lparr>al_networks = ns, al_ports = ps\<rparr> (socket_display a) \<longleftrightarrow>
     (\<exists>w. sa_ip a = V4 w) \<and>
     validate_target contains \<lparr>allowed_cidrs = ns, allowed_ports = map port_range_single ps\<rparr>
       (socket_display a) = Ok a"
proof (cases "sa_ip a")
  case (V4 w)
  then have "socket_from_str (socket_display a) = Some a"
    by (cases a) (simp add: socket_display_def socket_from_str_def read_socket_v4_def read_ipv4_display read_port_show)
  with V4 show ?thesis
    by (auto simp: allowlist_is_allowed_def parse_address_display validate_target_Ok allowlist_ip_allowed_def
        allowlist_port_allowed_def list_ex_iff port_range_single_def)
qed (simp add: allowlist_is_allowed_def parse_address_display)

section \<open>Forward requests\<close>

lemma check_agent_token_Ok:
  "check_agent_token decode from_secret sh now jwt_secret agent_token = Ok () \<longleftrightarrow>
     (\<forall>secret. jwt_secret = Some secret \<longrightarrow>
        (\<exists>token claims. agent_token = Some token \<and>
           decode (from_secret (as_bytes secret)) (only_exp HS256) token = Ok claims \<and> now \<le> exp claims))"
  by (auto simp: check_agent_token_def jwt_validate_def jwt_new_def is_expired_def
      split: option.splits sum.splits if_splits)

lemma handle_stream_forwards:
  "handle_stream decode from_secret sh now instant jwt_secret target
     (Ok (Some (ForwardRequest localup_id stream_id remote token))) send_ok cs
     = (ms, cs', StreamForwards localup_id' stream_id' dest) \<longleftrightarrow>
   check_agent_token decode from_secret sh now jwt_secret token = Ok () \<and> remote = target \<and>
   send_ok = Ok () \<and> localup_id' = localup_id \<and> stream_id' = stream_id \<and> dest = target \<and>
   ms = [ForwardAccept localup_id stream_id] \<and>
   cs' = conn_mgr_register stream_id
           \<lparr>ci_localup_id = localup_id, ci_stream_id = stream_id, ci_remote_address = target,
            ci_established_at = instant\<rparr> cs"
  by (cases "check_agent_token decode from_secret sh now jwt_secret token"; cases send_ok)
     (auto simp: handle_stream_def)

text \<open>
  C13 An agent connects to no address but its configured target: a forward request is granted exactly
  when it names that target, the acceptance could be sent and, if the agent has a secret, it carries
  a token that decodes under that secret and has not expired. Every other request is answered with a
  rejection or not at all.
\<close>

theorem agent_forwards_iff:
  "(\<exists>ms cs'. handle_stream decode from_secret sh now instant jwt_secret target
      (Ok (Some (ForwardRequest localup_id stream_id remote token))) send_ok cs
      = (ms, cs', StreamForwards localup_id stream_id dest)) \<longleftrightarrow>
   dest = target \<and> remote = target \<and> send_ok = Ok () \<and>
   (jwt_secret = None \<or>
    (\<exists>t claims. token = Some t \<and>
       decode (from_secret (as_bytes (the jwt_secret))) (only_exp HS256) t = Ok claims \<and> now \<le> exp claims))"
  unfolding handle_stream_forwards check_agent_token_Ok by (cases jwt_secret) auto

text \<open>
  The connections of an agent are keyed by the stream id the client chose, and every client counts
  from one: when two tunnels use one agent, the end of the first connection removes the entry of the
  second, which is still open.
\<close>

lemma agent_connection_clobbered:
  assumes "handle_stream decode from_secret sh now i secret target
      (Ok (Some (ForwardRequest tunnel1 stream_id target tok1))) (Ok ()) cs
        = (ms1, cs1, StreamForwards tunnel1 stream_id target)"
    and "handle_stream decode from_secret sh now' i' secret target
      (Ok (Some (ForwardRequest tunnel2 stream_id target tok2))) (Ok ()) cs1
        = (ms2, cs2, StreamForwards tunnel2 stream_id target)"
  shows "conn_mgr_get (fst (handle_stream_end stream_id r cs2)) stream_id = None"
  using assms by (simp add: handle_stream_end_def conn_mgr.get_del)

text \<open>When an agent's run ends, by error or not, it is stopped, inactive and has no connection
  left, unless it was running already.\<close>

lemma agent_start_stops:
  assumes "\<not> ag_running s" "ag_connections s = Map.empty" "\<not> ag_connection_active s"
    and "agent_start connected registered messages s = (s', r)"
  shows "\<not> ag_running s' \<and> \<not> ag_connection_active s' \<and> ag_connections s' = Map.empty"
  using assms
  by (cases connected; cases registered; cases "messages (s\<lparr>ag_running := True, ag_connection_active := True\<rparr>)")
     (auto simp: agent_start_def Let_def conn_mgr_clear_def split: prod.splits)

section \<open>Reconnection\<close>

text \<open>
  The agent-server's delay between attempts to reach its relay never grows: creating the agent
  succeeds before any connection is tried and resets the delay, so every pause lasts one second,
  whatever the factor and however often the relay refuses.
\<close>

theorem relay_backoff_constant:
  assumes "agent_new config = Ok a"
  shows "relay_sleeps scale (agent_new config) b n = replicate n second"
proof (induction n arbitrary: b)
  case (Suc n)
  then show ?case using assms by (simp add: relay_turn_def Let_def)
qed simp

definition demo_agent_config :: AgentConfig where
  "demo_agent_config = \<lparr>ac_agent_id = ''a'', ac_relay_addr = ''r:4443'', ac_auth_token = [],
     ac_target_address = ''localhost:8080'', ac_local_address = None, ac_insecure = True,
     ac_jwt_secret = None\<rparr>"

theorem relay_backoff_constant_witness:
  "relay_sleeps (\<lambda>d. 2 * d) (agent_new demo_agent_config) second 3 = [second, second, second]"
  using relay_backoff_constant [of demo_agent_config _ "\<lambda>d. 2 * d" second 3]
  by (simp add: agent_new_def demo_agent_config_def eval_nat_numeral)

text \<open>The sleeps of consecutive waits, up to the error.\<close>

fun reconnect_sleeps :: "(nat \<Rightarrow> nat outcome) \<Rightarrow> nat \<Rightarrow> ReconnectManager \<Rightarrow> nat list outcome" where
  "reconnect_sleeps scale 0 m = Returned []"
| "reconnect_sleeps scale (Suc n) m =
     and_then (reconnect_wait scale m) (\<lambda>(m', r).
       case r of
         Err _ \<Rightarrow> Returned []
       | Ok slept \<Rightarrow> and_then (reconnect_sleeps scale n m') (\<lambda>ds. Returned (slept # ds)))"

fun backoff_after :: "(nat \<Rightarrow> nat) \<Rightarrow> nat \<Rightarrow> nat \<Rightarrow> nat \<Rightarrow> nat" where
  "backoff_after g mx b 0 = b"
| "backoff_after g mx b (Suc k) = backoff_after g mx (min (g b) mx) k"

lemma reconnect_sleeps_from:
  assumes "\<And>d. d \<le> max (current_backoff m) (max_backoff (rm_config m)) \<Longrightarrow> scale d = Returned (g d)"
  shows "reconnect_sleeps scale n m = Returned (map (backoff_after g (max_backoff (rm_config m)) (current_backoff m))
           [0..<(case max_attempts (rm_config m) of None \<Rightarrow> n | Some k \<Rightarrow> min n (k - attempt m))])"
  using assms
proof (induction n arbitrary: m)
  case (Suc n)
  let ?mx = "max_backoff (rm_config m)"
  let ?over = "case max_attempts (rm_config m) of Some k \<Rightarrow> attempt m + 1 > k | None \<Rightarrow> False"
  let ?m' = "m\<lparr>current_backoff := min (g (current_backoff m)) ?mx, attempt := attempt m + 1\<rparr>"
  show ?case
  proof (cases ?over)
    case True
    then show ?thesis by (auto simp: reconnect_wait_def Let_def split: option.splits)
  next
    case False
    have w: "reconnect_wait scale m = Returned (?m', Ok (current_backoff m))"
      using False Suc.prems [of "current_backoff m"]
      by (cases "max_attempts (rm_config m)") (simp_all add: reconnect_wait_def Let_def)
    have shift: "map (backoff_after g ?mx (current_backoff m)) [0..<Suc k] =
        current_backoff m # map (backoff_after g ?mx (min (g (current_backoff m)) ?mx)) [0..<k]" for k
      by (simp add: upt_conv_Cons map_Suc_upt [symmetric] comp_def del: upt_Suc)
    have "reconnect_sleeps scale n ?m' = Returned (map (backoff_after g ?mx (min (g (current_backoff m)) ?mx))
           [0..<(case max_attempts (rm_config m) of None \<Rightarrow> n | Some k \<Rightarrow> min n (k - (attempt m + 1)))])"
      using Suc.IH [of ?m'] Suc.prems by (cases "max_attempts (rm_config m)") simp_all
    moreover have "(case max_attempts (rm_config m) of None \<Rightarrow> Suc n | Some k \<Rightarrow> min (Suc n) (k - attempt m)) =
        Suc (case max_attempts (rm_config m) of None \<Rightarrow> n | Some k \<Rightarrow> min n (k - (attempt m + 1)))"
      using False by (auto split: option.splits)
    ultimately show ?thesis using w shift by (simp del: upt_Suc)
  qed
qed (simp split: option.splits)

text \<open>
  C29 The reconnection manager allows exactly the configured number of attempts, and the k-th pause is
  the k-fold scaled initial delay, capped at the maximum after each scaling; it never panics when
  the scaling of delays up to the larger of both does not.
\<close>

theorem reconnect_schedule:
  assumes "\<And>d. d \<le> max (initial_backoff c) (max_backoff c) \<Longrightarrow> scale d = Returned (g d)"
    and "max_attempts c = Some k"
  shows "reconnect_sleeps scale (Suc k) (reconnect_new c)
           = Returned (map (backoff_after g (max_backoff c) (initial_backoff c)) [0..<k])"
  using reconnect_sleeps_from [of "reconnect_new c" scale g "Suc k"] assms by (simp add: reconnect_new_def)

theorem reconnect_schedule_witness:
  "reconnect_sleeps (\<lambda>d. Returned (2 * d)) 4
     (reconnect_new \<lparr>initial_backoff = 1 * second, max_backoff = 3 * second, max_attempts = Some 3\<rparr>)
     = Returned [second, 2 * second, 3 * second]"
  using reconnect_schedule
    [of "\<lparr>initial_backoff = 1 * second, max_backoff = 3 * second, max_attempts = Some 3\<rparr>"
        "\<lambda>d. Returned (2 * d)" "\<lambda>d. 2 * d" 3]
  by (simp add: upt_rec second_def)

end
