(* ===== verification/Forwarding.thy ===== *)
theory Forwarding
  imports Messages "HOL-Library.Sublist"
begin

text \<open>
  The forwarding loops that carry a visitor's bytes through a tunnel and back: the relay's side in
  \<open>crates/localup-server-tls/src/server.rs\<close> (TLS passthrough), \<open>http_passthrough.rs\<close> (plain HTTP),
  \<open>crates/localup-server-tcp-proxy/src/server.rs\<close> (TCP) and the \<open>proxy_transparent_stream\<close> of the
  two HTTP servers, and the client's side in \<open>crates/localup-client/src/localup.rs\<close>.

  One iteration of a loop is a step function: it takes what the awaited call returned together
  with the result of the write or send that follows, and yields its effects in order and whether
  the loop goes on. A failed \<open>write_all\<close> may have written a prefix. The loops of a connection run
  interleaved; \<open>select\<close> stops both when one ends, \<open>join\<close> lets each run to its own end.
  The tunnel's stream delivers messages in order, as QUIC does; what is delivered is a
  prefix of what was sent.
\<close>

section \<open>Loops and their effects\<close>

text \<open>\<open>Ok(0)\<close> is the empty read, \<open>Ok(n)\<close> the bytes read.\<close>

datatype read_result = ReadBytes bytes | ReadError

datatype (plugins only: size) recv_result = Message TunnelMessage | StreamEnd | RecvError

text \<open>\<open>write_all\<close> followed by \<open>flush\<close>: all written, written but not flushed, or a prefix written.\<close>

datatype write_result = Written | FlushFailed | WriteFailed nat

datatype (plugins only: size) effect =
    Count nat
  | Send TunnelMessage
  | Finish
  | Write bytes
  | Shutdown
  | AbortOther

fun run_loop :: "('e \<Rightarrow> effect list \<times> bool) \<Rightarrow> 'e list \<Rightarrow> effect list \<times> bool" where
  "run_loop f [] = ([], True)"
| "run_loop f (e # es) =
     (case f e of
        (out, go) \<Rightarrow>
          if go then (case run_loop f es of (out', go') \<Rightarrow> (out @ out', go')) else (out, False))"

fun sent :: "effect list \<Rightarrow> TunnelMessage list" where
  "sent [] = []"
| "sent (Send m # es) = m # sent es"
| "sent (_ # es) = sent es"

fun written :: "effect list \<Rightarrow> bytes" where
  "written [] = []"
| "written (Write b # es) = b @ written es"
| "written (_ # es) = written es"

text \<open>The byte counters are \<open>AtomicU64\<close>: \<open>fetch_add\<close> wraps.\<close>

fun counted :: "effect list \<Rightarrow> u64" where
  "counted [] = 0"
| "counted (Count n # es) = of_nat n + counted es"
| "counted (_ # es) = counted es"

definition send_if :: "bool \<Rightarrow> TunnelMessage \<Rightarrow> effect list" where
  "send_if ok m = (if ok then [Send m] else [])"

text \<open>The effect of \<open>write_all(data)\<close>, and of \<open>write_all(data)\<close> then \<open>flush\<close>.\<close>

fun write_all :: "bytes \<Rightarrow> write_result \<Rightarrow> effect list \<times> bool" where
  "write_all d (WriteFailed k) = ([Write (take k d)], False)"
| "write_all d _ = ([Write d], True)"

fun write_flush :: "bytes \<Rightarrow> write_result \<Rightarrow> effect list \<times> bool" where
  "write_flush d Written = ([Write d], True)"
| "write_flush d FlushFailed = ([Write d], False)"
| "write_flush d (WriteFailed k) = ([Write (take k d)], False)"

text \<open>An effect first, then the rest of the iteration.\<close>

definition after :: "effect list \<Rightarrow> effect list \<times> bool \<Rightarrow> effect list \<times> bool" where
  "after es r = (es @ fst r, snd r)"

section \<open>The relay's loops\<close>

text \<open>TLS passthrough, \<open>forward_via_transport_stream\<close>.\<close>

fun tls_client_to_tunnel :: "u32 \<Rightarrow> read_result \<times> bool \<Rightarrow> effect list \<times> bool" where
  "tls_client_to_tunnel stream_id (ReadBytes b, ok) =
     (if b = [] then (send_if ok (TlsClose stream_id), False)
      else (Count (length b) # send_if ok (TlsData stream_id b), ok))"
| "tls_client_to_tunnel stream_id (ReadError, ok) = (send_if ok (TlsClose stream_id), False)"

definition tls_tunnel_to_client :: "u32 \<Rightarrow> recv_result \<times> write_result \<Rightarrow> effect list \<times> bool" where
  "tls_tunnel_to_client stream_id e =
     (case e of
        (Message (TlsData msg_stream_id d), w) \<Rightarrow>
          if msg_stream_id \<noteq> stream_id then ([], True)
          else after [Count (length d)] (write_all d w)
      | (Message (TlsClose msg_stream_id), w) \<Rightarrow>
          if msg_stream_id = stream_id then ([Shutdown], False) else ([], True)
      | (Message _, w) \<Rightarrow> ([], True)
      | (StreamEnd, w) \<Rightarrow> ([], False)
      | (RecvError, w) \<Rightarrow> ([], False))"

text \<open>Plain HTTP over the TLS messages, \<open>forward_via_tunnel\<close> of \<open>http_passthrough.rs\<close>.\<close>

fun passthrough_client_to_tunnel :: "u32 \<Rightarrow> read_result \<times> bool \<Rightarrow> effect list \<times> bool" where
  "passthrough_client_to_tunnel stream_id (ReadBytes b, ok) =
     (if b = [] then (send_if ok (TlsClose stream_id), False)
      else (Count (length b) # send_if ok (TlsData stream_id b), ok))"
| "passthrough_client_to_tunnel stream_id (ReadError, ok) = (send_if ok (TlsClose stream_id), False)"

definition passthrough_tunnel_to_client ::
    "u32 \<Rightarrow> recv_result \<times> write_result \<Rightarrow> effect list \<times> bool" where
  "passthrough_tunnel_to_client stream_id e =
     (case e of
        (Message (TlsData msg_stream_id d), w) \<Rightarrow>
          if msg_stream_id \<noteq> stream_id then ([], True)
          else after [Count (length d)] (write_all d w)
      | (Message (TlsClose msg_stream_id), w) \<Rightarrow>
          if msg_stream_id = stream_id then ([Shutdown], False) else ([], True)
      | (Message _, w) \<Rightarrow> ([], True)
      | (StreamEnd, w) \<Rightarrow> ([], False)
      | (RecvError, w) \<Rightarrow> ([], False))"

text \<open>TCP, \<open>handle_tcp_connection\<close>: a read error ends the loop without a close message.\<close>

fun tcp_client_to_tunnel :: "u32 \<Rightarrow> read_result \<times> bool \<Rightarrow> effect list \<times> bool" where
  "tcp_client_to_tunnel stream_id (ReadBytes b, ok) =
     (if b = [] then (send_if ok (TcpClose stream_id) @ [Finish], False)
      else (Count (length b) # send_if ok (TcpData stream_id b), ok))"
| "tcp_client_to_tunnel stream_id (ReadError, ok) = ([], False)"

definition tcp_tunnel_to_client :: "recv_result \<times> write_result \<Rightarrow> effect list \<times> bool" where
  "tcp_tunnel_to_client e =
     (case e of
        (Message (TcpData _ d), w) \<Rightarrow>
          if d = [] then ([AbortOther], False)
          else after [Count (length d)] (write_flush d w)
      | (Message (TcpClose _), w) \<Rightarrow> ([], False)
      | (Message _, w) \<Rightarrow> ([], True)
      | (StreamEnd, w) \<Rightarrow> ([], False)
      | (RecvError, w) \<Rightarrow> ([], False))"

text \<open>
  The transparent HTTP stream, \<open>proxy_transparent_stream\<close>; the same code is in the HTTP server
  (\<open>localup-server-tcp\<close>) and in the HTTPS server.
\<close>

fun stream_client_to_tunnel :: "u32 \<Rightarrow> read_result \<times> bool \<Rightarrow> effect list \<times> bool" where
  "stream_client_to_tunnel stream_id (ReadBytes b, ok) =
     (if b = [] then (send_if ok (HttpStreamClose stream_id), False)
      else (send_if ok (HttpStreamData stream_id b), ok))"
| "stream_client_to_tunnel stream_id (ReadError, ok) = (send_if ok (HttpStreamClose stream_id), False)"

definition stream_tunnel_to_client :: "recv_result \<times> write_result \<Rightarrow> effect list \<times> bool" where
  "stream_tunnel_to_client e =
     (case e of
        (Message (HttpStreamData _ d), w) \<Rightarrow> write_flush d w
      | (Message (HttpStreamClose _), w) \<Rightarrow> ([], False)
      | (Message _, w) \<Rightarrow> ([], True)
      | (StreamEnd, w) \<Rightarrow> ([], False)
      | (RecvError, w) \<Rightarrow> ([], False))"

section \<open>The client's loops\<close>

text \<open>TCP, \<open>handle_tcp_stream\<close>.\<close>

fun tcp_local_to_quic :: "u32 \<Rightarrow> read_result \<times> bool \<Rightarrow> effect list \<times> bool" where
  "tcp_local_to_quic stream_id (ReadBytes b, ok) =
     (if b = [] then (send_if ok (TcpClose stream_id) @ [Finish], False)
      else (Count (length b) # send_if ok (TcpData stream_id b), ok))"
| "tcp_local_to_quic stream_id (ReadError, ok) = ([], False)"

definition tcp_quic_to_local :: "recv_result \<times> write_result \<Rightarrow> effect list \<times> bool" where
  "tcp_quic_to_local e =
     (case e of
        (Message (TcpData _ d), w) \<Rightarrow>
          if d = [] then ([], False) else after [Count (length d)] (write_flush d w)
      | (Message (TcpClose _), w) \<Rightarrow> ([], False)
      | (Message _, w) \<Rightarrow> ([], True)
      | (StreamEnd, w) \<Rightarrow> ([], False)
      | (RecvError, w) \<Rightarrow> ([], False))"

text \<open>TLS, \<open>handle_tls_stream\<close>.\<close>

fun tls_local_to_quic :: "u32 \<Rightarrow> read_result \<times> bool \<Rightarrow> effect list \<times> bool" where
  "tls_local_to_quic stream_id (ReadBytes b, ok) =
     (if b = [] then (send_if ok (TlsClose stream_id) @ [Finish], False)
      else (send_if ok (TlsData stream_id b), ok))"
| "tls_local_to_quic stream_id (ReadError, ok) = ([], False)"

definition tls_quic_to_local_step :: "recv_result \<times> write_result \<Rightarrow> effect list \<times> bool" where
  "tls_quic_to_local_step e =
     (case e of
        (Message (TlsData _ d), w) \<Rightarrow> if d = [] then ([], False) else write_flush d w
      | (Message (TlsClose _), w) \<Rightarrow> ([], False)
      | (Message _, w) \<Rightarrow> ([], True)
      | (StreamEnd, w) \<Rightarrow> ([], False)
      | (RecvError, w) \<Rightarrow> ([], False))"

text \<open>The task first writes the client's first bytes and ends when that fails.\<close>

definition tls_quic_to_local ::
    "bytes \<Rightarrow> write_result \<Rightarrow> (recv_result \<times> write_result) list \<Rightarrow> effect list \<times> bool" where
  "tls_quic_to_local client_hello w es =
     (case write_all client_hello w of
        (out, False) \<Rightarrow> (out, False)
      | (out, True) \<Rightarrow> after out (run_loop tls_quic_to_local_step es))"

text \<open>The raw HTTP stream, \<open>handle_raw_http_stream\<close>; the close message is sent after the loop.\<close>

fun raw_local_to_quic :: "u32 \<Rightarrow> read_result \<times> bool \<times> bool \<Rightarrow> effect list \<times> bool" where
  "raw_local_to_quic stream_id (ReadBytes b, ok, close_ok) =
     (if b = [] then (send_if close_ok (HttpStreamClose stream_id), False)
      else if ok then ([Send (HttpStreamData stream_id b)], True)
      else (send_if close_ok (HttpStreamClose stream_id), False))"
| "raw_local_to_quic stream_id (ReadError, ok, close_ok) =
     (send_if close_ok (HttpStreamClose stream_id), False)"

definition raw_quic_to_local :: "recv_result \<times> write_result \<Rightarrow> effect list \<times> bool" where
  "raw_quic_to_local e =
     (case e of
        (Message (HttpStreamData _ d), w) \<Rightarrow> write_all d w
      | (Message (HttpStreamClose _), w) \<Rightarrow> ([], False)
      | (StreamEnd, w) \<Rightarrow> ([], False)
      | (RecvError, w) \<Rightarrow> ([], False)
      | (Message _, w) \<Rightarrow> ([], True))"

section \<open>What a loop carries\<close>

lemma sent_append [simp]: "sent (xs @ ys) = sent xs @ sent ys"
  by (induction xs rule: sent.induct) auto

lemma written_append [simp]: "written (xs @ ys) = written xs @ written ys"
  by (induction xs rule: written.induct) auto

lemma counted_append [simp]: "counted (xs @ ys) = counted xs + counted ys"
  by (induction xs rule: counted.induct) (auto simp: add.assoc)

lemma sent_send_if [simp]: "sent (send_if ok m) = (if ok then [m] else [])"
  and written_send_if [simp]: "written (send_if ok m) = []"
  and counted_send_if [simp]: "counted (send_if ok m) = 0"
  by (simp_all add: send_if_def)

lemma after_simps [simp]: "fst (after es r) = es @ fst r" "snd (after es r) = snd r"
  by (simp_all add: after_def)

lemma write_all_simps [simp]:
  "snd (write_all d w) \<longleftrightarrow> (\<forall>k. w \<noteq> WriteFailed k)"
  "prefix (written (fst (write_all d w))) d"
  "snd (write_all d w) \<Longrightarrow> written (fst (write_all d w)) = d"
  by (cases w; simp add: take_is_prefix)+

lemma write_flush_simps [simp]:
  "snd (write_flush d w) \<longleftrightarrow> w = Written"
  "prefix (written (fst (write_flush d w))) d"
  "w = Written \<Longrightarrow> written (fst (write_flush d w)) = d"
  by (cases w; simp add: take_is_prefix)+

lemma run_loop_append:
  "run_loop f (es @ es') =
     (case run_loop f es of
        (out, go) \<Rightarrow> if go then after out (run_loop f es') else (out, False))"
  by (induction es) (auto simp: after_def split: prod.splits)

lemma run_loop_Cons_go: "snd (f e) \<Longrightarrow> run_loop f (e # es) = after (fst (f e)) (run_loop f es)"
  by (auto simp: after_def split: prod.splits)

lemma run_loop_Cons_stop: "\<not> snd (f e) \<Longrightarrow> run_loop f (e # es) = (fst (f e), False)"
  by (auto split: prod.splits)

lemmas run_loop_Cons = run_loop_Cons_go run_loop_Cons_stop

declare run_loop.simps(2) [simp del]

text \<open>
  A source is a loop that reads from a socket and sends what it reads: \<open>chunk\<close> says what an
  iteration has read and sent, if it goes on. A sink is a loop that receives messages and writes
  their contents to a socket. Both agree on the data message and the close message.
\<close>

locale source =
  fixes step :: "'e \<Rightarrow> effect list \<times> bool"
    and chunk :: "'e \<Rightarrow> bytes option"
    and data :: "bytes \<Rightarrow> TunnelMessage"
    and close :: TunnelMessage
  assumes step_goes_on: "snd (step e) \<longleftrightarrow> chunk e \<noteq> None"
    and step_chunk: "chunk e = Some b \<Longrightarrow> b \<noteq> [] \<and> sent (fst (step e)) = [data b]"
    and step_last: "chunk e = None \<Longrightarrow> sent (fst (step e)) \<in> {[], [close]}"
begin

text \<open>The chunks read and sent before the loop ends.\<close>

fun chunks :: "'e list \<Rightarrow> bytes list" where
  "chunks [] = []"
| "chunks (e # es) = (case chunk e of None \<Rightarrow> [] | Some b \<Rightarrow> b # chunks es)"

lemma chunks_not_Nil: "[] \<notin> set (chunks es)"
  by (induction es) (use step_chunk in \<open>force split: option.splits\<close>)+

lemma sent_run_loop:
  "\<exists>tail. sent (fst (run_loop step es)) = map data (chunks es) @ tail \<and> tail \<in> {[], [close]}"
proof (induction es)
  case (Cons e es)
  show ?case
  proof (cases "chunk e")
    case None
    then show ?thesis using step_last [of e] by (simp add: run_loop_Cons_stop step_goes_on)
  next
    case (Some b)
    with Cons.IH show ?thesis
      using step_chunk [OF Some] by (auto simp: run_loop_Cons_go step_goes_on)
  qed
qed simp

end

locale sink =
  fixes recv_step :: "recv_result \<times> write_result \<Rightarrow> effect list \<times> bool"
    and data :: "bytes \<Rightarrow> TunnelMessage"
    and close :: TunnelMessage
  assumes recv_data: "b \<noteq> [] \<Longrightarrow> prefix (written (fst (recv_step (Message (data b), w)))) b"
    and recv_data_Written:
      "b \<noteq> [] \<Longrightarrow> snd (recv_step (Message (data b), Written)) \<and>
         written (fst (recv_step (Message (data b), Written))) = b"
    and recv_data_go:
      "b \<noteq> [] \<Longrightarrow> snd (recv_step (Message (data b), w)) \<Longrightarrow>
         written (fst (recv_step (Message (data b), w))) = b"
    and recv_close: "written (fst (recv_step (Message close, w))) = [] \<and>
         \<not> snd (recv_step (Message close, w))"
begin

lemma written_data_prefix:
  assumes "[] \<notin> set bs" "prefix (map fst es) (map (\<lambda>b. Message (data b)) bs @ tail)"
    and "set tail \<subseteq> {Message close}"
  shows "prefix (written (fst (run_loop recv_step es))) (concat bs)"
  using assms(1,2)
proof (induction es arbitrary: bs)
  case (Cons e es)
  obtain r w where e: "e = (r, w)" by force
  show ?case
  proof (cases bs)
    case Nil
    with Cons.prems assms(3) have "r = Message close" by (cases tail) (auto simp: e)
    with recv_close [of w] Nil show ?thesis by (simp add: e run_loop_Cons_stop)
  next
    case (Cons b bs')
    with Cons.prems e have b: "b \<noteq> []" and r: "r = Message (data b)"
      and rest: "prefix (map fst es) (map (\<lambda>b. Message (data b)) bs' @ tail)" "[] \<notin> set bs'"
      by auto
    note IH = Cons.IH [OF rest(2,1)]
    show ?thesis
    proof (cases "snd (recv_step e)")
      case True
      then show ?thesis using IH recv_data_go [OF b, of w] r
        by (simp add: Cons e run_loop_Cons_go)
    next
      case False
      then show ?thesis using recv_data [OF b, of w] r
        by (simp add: Cons e run_loop_Cons_stop prefix_prefix)
    qed
  qed
qed simp

lemma written_data_all:
  assumes "[] \<notin> set bs" "tail \<in> {[], [close]}"
  shows "written (fst (run_loop recv_step (map (\<lambda>m. (Message m, Written)) (map data bs @ tail))))
           = concat bs"
  using assms(1)
proof (induction bs)
  case Nil
  show ?case using assms(2) recv_close [of Written] by (auto simp: run_loop_Cons_stop)
next
  case (Cons b bs)
  then have b: "b \<noteq> []" by auto
  with Cons show ?case using recv_data_Written [OF b] by (simp add: run_loop_Cons_go)
qed

end

text \<open>One direction of a tunnel: a source at one end, a sink at the other.\<close>

locale tunnel_leg = source step chunk data close + sink recv_step data close
  for step :: "'e \<Rightarrow> effect list \<times> bool" and chunk :: "'e \<Rightarrow> bytes option"
    and data :: "bytes \<Rightarrow> TunnelMessage" and close :: TunnelMessage
    and recv_step :: "recv_result \<times> write_result \<Rightarrow> effect list \<times> bool"
begin

text \<open>
  Whatever prefix of the messages is delivered and however the writes at the far end turn out, the
  far end has written a prefix of the bytes read; it has written all of them when everything was
  delivered and written.
\<close>

lemma transparent_prefix:
  assumes "prefix (map fst received) (map Message (sent (fst (run_loop step es))))"
  shows "prefix (written (fst (run_loop recv_step received))) (concat (chunks es))"
proof -
  obtain tail where tail: "sent (fst (run_loop step es)) = map data (chunks es) @ tail"
      "tail \<in> {[], [close]}"
    using sent_run_loop by blast
  show ?thesis
    by (rule written_data_prefix [OF chunks_not_Nil, of _ _ "map Message tail"])
       (use assms tail in \<open>auto simp: comp_def\<close>)
qed

lemma transparent:
  "written (fst (run_loop recv_step (map (\<lambda>m. (Message m, Written)) (sent (fst (run_loop step es))))))
     = concat (chunks es)"
proof -
  obtain tail where tail: "sent (fst (run_loop step es)) = map data (chunks es) @ tail"
      "tail \<in> {[], [close]}"
    using sent_run_loop by blast
  show ?thesis
    unfolding tail(1) by (rule written_data_all [OF chunks_not_Nil tail(2)])
qed

end

section \<open>The legs of the tunnels\<close>

text \<open>The bytes an iteration has read and sent, from the results of the read and of the send.\<close>

fun read_sent :: "read_result \<times> bool \<Rightarrow> bytes option" where
  "read_sent (ReadBytes b, ok) = (if b \<noteq> [] \<and> ok then Some b else None)"
| "read_sent (ReadError, ok) = None"

fun raw_read_sent :: "read_result \<times> bool \<times> bool \<Rightarrow> bytes option" where
  "raw_read_sent (ReadBytes b, ok, close_ok) = (if b \<noteq> [] \<and> ok then Some b else None)"
| "raw_read_sent (ReadError, ok, close_ok) = None"

lemmas sink_defs =
  tls_tunnel_to_client_def passthrough_tunnel_to_client_def tcp_tunnel_to_client_def
  stream_tunnel_to_client_def tcp_quic_to_local_def tls_quic_to_local_step_def raw_quic_to_local_def

lemma source_goes_on:
  "snd (tls_client_to_tunnel sid e) \<longleftrightarrow> read_sent e \<noteq> None"
  "snd (passthrough_client_to_tunnel sid e) \<longleftrightarrow> read_sent e \<noteq> None"
  "snd (tcp_client_to_tunnel sid e) \<longleftrightarrow> read_sent e \<noteq> None"
  "snd (stream_client_to_tunnel sid e) \<longleftrightarrow> read_sent e \<noteq> None"
  "snd (tls_local_to_quic sid e) \<longleftrightarrow> read_sent e \<noteq> None"
  "snd (tcp_local_to_quic sid e) \<longleftrightarrow> read_sent e \<noteq> None"
  by (cases e rule: read_sent.cases; simp)+

lemma raw_source_goes_on: "snd (raw_local_to_quic sid e) \<longleftrightarrow> raw_read_sent e \<noteq> None"
  by (cases e rule: raw_read_sent.cases) simp_all

interpretation tls_up: tunnel_leg "tls_client_to_tunnel sid" read_sent "TlsData sid" "TlsClose sid"
    tls_quic_to_local_step for sid
  by unfold_locales (simp only: source_goes_on, auto simp: sink_defs elim!: read_sent.elims split: if_splits)

interpretation tls_down: tunnel_leg "tls_local_to_quic sid" read_sent "TlsData sid" "TlsClose sid"
    "tls_tunnel_to_client sid" for sid
  by unfold_locales (simp only: source_goes_on, auto simp: sink_defs elim!: read_sent.elims split: if_splits)

interpretation passthrough_up: tunnel_leg "passthrough_client_to_tunnel sid" read_sent "TlsData sid"
    "TlsClose sid" tls_quic_to_local_step for sid
  by unfold_locales (simp only: source_goes_on, auto simp: sink_defs elim!: read_sent.elims split: if_splits)

interpretation passthrough_down: tunnel_leg "tls_local_to_quic sid" read_sent "TlsData sid"
    "TlsClose sid" "passthrough_tunnel_to_client sid" for sid
  by unfold_locales (simp only: source_goes_on, auto simp: sink_defs elim!: read_sent.elims split: if_splits)

interpretation tcp_up: tunnel_leg "tcp_client_to_tunnel sid" read_sent "TcpData sid" "TcpClose sid"
    tcp_quic_to_local for sid
  by unfold_locales (simp only: source_goes_on, auto simp: sink_defs elim!: read_sent.elims split: if_splits)

interpretation tcp_down: tunnel_leg "tcp_local_to_quic sid" read_sent "TcpData sid" "TcpClose sid"
    tcp_tunnel_to_client for sid
  by unfold_locales (simp only: source_goes_on, auto simp: sink_defs elim!: read_sent.elims split: if_splits)

interpretation stream_up: tunnel_leg "stream_client_to_tunnel sid" read_sent "HttpStreamData sid"
    "HttpStreamClose sid" raw_quic_to_local for sid
  by unfold_locales (simp only: source_goes_on, auto simp: sink_defs elim!: read_sent.elims split: if_splits)

interpretation stream_down: tunnel_leg "raw_local_to_quic sid" raw_read_sent "HttpStreamData sid"
    "HttpStreamClose sid" stream_tunnel_to_client for sid
  by unfold_locales (simp only: raw_source_goes_on, auto simp: sink_defs elim!: raw_read_sent.elims split: if_splits)

section \<open>Two loops of one connection\<close>

text \<open>What the two awaited calls of a connection return, in the order they complete.\<close>

datatype (plugins only: size) ('a, 'b) io_event =
    FromClient 'a
  | FromTunnel 'b

type_synonym socket_event = "(read_result \<times> bool, recv_result \<times> write_result) io_event"

fun client_events :: "('a, 'b) io_event list \<Rightarrow> 'a list" where
  "client_events [] = []"
| "client_events (FromClient a # es) = a # client_events es"
| "client_events (FromTunnel b # es) = client_events es"

fun tunnel_events :: "('a, 'b) io_event list \<Rightarrow> 'b list" where
  "tunnel_events [] = []"
| "tunnel_events (FromClient a # es) = tunnel_events es"
| "tunnel_events (FromTunnel b # es) = b # tunnel_events es"

text \<open>\<open>tokio::select!\<close> over two loops: the first that ends drops the other.\<close>

fun select_run ::
    "('a \<Rightarrow> effect list \<times> bool) \<Rightarrow> ('b \<Rightarrow> effect list \<times> bool) \<Rightarrow>
     ('a, 'b) io_event list \<Rightarrow> effect list \<times> effect list" where
  "select_run f g [] = ([], [])"
| "select_run f g (FromClient a # es) =
     (case f a of
        (out, go) \<Rightarrow>
          if go then (case select_run f g es of (up, down) \<Rightarrow> (out @ up, down)) else (out, []))"
| "select_run f g (FromTunnel b # es) =
     (case g b of
        (out, go) \<Rightarrow>
          if go then (case select_run f g es of (up, down) \<Rightarrow> (up, out @ down)) else ([], out))"

lemma select_run_simps:
  "snd (f a) \<Longrightarrow> select_run f g (FromClient a # es) =
     (fst (f a) @ fst (select_run f g es), snd (select_run f g es))"
  "\<not> snd (f a) \<Longrightarrow> select_run f g (FromClient a # es) = (fst (f a), [])"
  "snd (g b) \<Longrightarrow> select_run f g (FromTunnel b # es) =
     (fst (select_run f g es), fst (g b) @ snd (select_run f g es))"
  "\<not> snd (g b) \<Longrightarrow> select_run f g (FromTunnel b # es) = ([], fst (g b))"
  by (auto split: prod.splits)

text \<open>
  However the two loops interleave, each direction is the run of its own loop on its own results,
  up to the point where one of them ends.
\<close>

lemma select_run_split:
  "\<exists>n. fst (select_run f g es) = fst (run_loop f (client_events (take n es))) \<and>
       snd (select_run f g es) = fst (run_loop g (tunnel_events (take n es)))"
proof (induction es)
  case (Cons e es)
  then obtain n where n:
      "fst (select_run f g es) = fst (run_loop f (client_events (take n es)))"
      "snd (select_run f g es) = fst (run_loop g (tunnel_events (take n es)))" by blast
  show ?case
  proof (cases e)
    case (FromClient a)
    show ?thesis
    proof (cases "snd (f a)")
      case True
      with n show ?thesis
        by (intro exI [of _ "Suc n"]) (simp add: FromClient select_run_simps run_loop_Cons del: select_run.simps)
    next
      case False
      then show ?thesis
        by (intro exI [of _ 1]) (simp add: FromClient select_run_simps run_loop_Cons del: select_run.simps)
    qed
  next
    case (FromTunnel b)
    show ?thesis
    proof (cases "snd (g b)")
      case True
      with n show ?thesis
        by (intro exI [of _ "Suc n"]) (simp add: FromTunnel select_run_simps run_loop_Cons del: select_run.simps)
    next
      case False
      then show ?thesis
        by (intro exI [of _ 1]) (simp add: FromTunnel select_run_simps run_loop_Cons del: select_run.simps)
    qed
  qed
qed simp

text \<open>
  The relay's connections: the connect message, then both loops. \<open>stream_id\<close> is the next value of
  the server's counter; a failed connect ends the connection with an error.
\<close>

definition forward_via_transport_stream ::
    "u32 \<Rightarrow> bytes \<Rightarrow> bool \<Rightarrow> socket_event list \<Rightarrow> (effect list \<times> effect list) option" where
  "forward_via_transport_stream stream_id client_hello connect_ok es =
     (if \<not> connect_ok then None
      else case select_run (tls_client_to_tunnel stream_id) (tls_tunnel_to_client stream_id) es of
             (up, down) \<Rightarrow> Some (Send (TlsConnect stream_id ''unknown'' client_hello) # up, down))"

definition forward_via_tunnel ::
    "u32 \<Rightarrow> bytes \<Rightarrow> string \<Rightarrow> bool \<Rightarrow> socket_event list \<Rightarrow> (effect list \<times> effect list) option" where
  "forward_via_tunnel stream_id initial_data hostname connect_ok es =
     (if \<not> connect_ok then None
      else case select_run (passthrough_client_to_tunnel stream_id) (passthrough_tunnel_to_client stream_id) es of
             (up, down) \<Rightarrow> Some (Send (TlsConnect stream_id hostname initial_data) # up, down))"

text \<open>
  TCP: both loops are tasks of their own and \<open>join\<close> waits for both; only an empty data message
  from the tunnel aborts the other task. \<open>n\<close> is the number of reads completed before that abort
  takes effect.
\<close>

definition aborts :: "effect list \<Rightarrow> bool" where
  "aborts es = (AbortOther \<in> set es)"

definition tcp_forward ::
    "u32 \<Rightarrow> nat \<Rightarrow> (read_result \<times> bool) list \<Rightarrow> (recv_result \<times> write_result) list \<Rightarrow>
     effect list \<times> effect list" where
  "tcp_forward stream_id n reads recvs =
     (let down = fst (run_loop tcp_tunnel_to_client recvs);
          reads' = (if aborts down then take n reads else reads)
      in (fst (run_loop (tcp_client_to_tunnel stream_id) reads'), down))"

section \<open>Byte counters\<close>

text \<open>
  A counter of bytes written to a socket counts what was written, unless a write failed half-way.
\<close>

lemma counted_written_tls:
  assumes "\<forall>e \<in> set es. \<forall>k. snd e \<noteq> WriteFailed k"
  shows "counted (fst (run_loop (tls_tunnel_to_client sid) es))
           = of_nat (length (written (fst (run_loop (tls_tunnel_to_client sid) es))))"
  using assms
proof (induction es)
  case (Cons e es)
  have "counted (fst (tls_tunnel_to_client sid e)) = of_nat (length (written (fst (tls_tunnel_to_client sid e))))"
    using Cons.prems by (cases e; cases "snd e")
      (auto simp: tls_tunnel_to_client_def split: recv_result.splits TunnelMessage.splits)
  with Cons show ?case by (cases "snd (tls_tunnel_to_client sid e)") (simp_all add: run_loop_Cons)
qed simp


section \<open>Transparency end to end\<close>

text \<open>The bytes a loop has read and sent before it ended.\<close>

fun bytes_read :: "(read_result \<times> bool) list \<Rightarrow> bytes" where
  "bytes_read ((ReadBytes b, True) # es) = (if b = [] then [] else b @ bytes_read es)"
| "bytes_read _ = []"

fun raw_bytes_read :: "(read_result \<times> bool \<times> bool) list \<Rightarrow> bytes" where
  "raw_bytes_read ((ReadBytes b, True, _) # es) = (if b = [] then [] else b @ raw_bytes_read es)"
| "raw_bytes_read _ = []"

lemma read_not_sent [simp]: "read_sent (r, False) = None" "raw_read_sent (r, False, c) = None"
  by (cases r; simp)+

lemma concat_chunks [simp]:
  "concat (tls_up.chunks es) = bytes_read es"
  by (induction es rule: bytes_read.induct) auto

lemma concat_raw_chunks [simp]: "concat (stream_down.chunks es) = raw_bytes_read es"
  by (induction es rule: raw_bytes_read.induct) auto

text \<open>While the loop from the tunnel has not ended, the loop from the visitor is not dropped, and
  conversely.\<close>

lemma select_run_up:
  "snd (run_loop g (tunnel_events es)) \<Longrightarrow> fst (select_run f g es) = fst (run_loop f (client_events es))"
proof (induction es rule: tunnel_events.induct)
  case (2 a es)
  then show ?case by (cases "snd (f a)") (simp_all add: select_run_simps run_loop_Cons del: select_run.simps)
next
  case (3 b es)
  then show ?case by (cases "snd (g b)") (simp_all add: select_run_simps run_loop_Cons del: select_run.simps)
qed simp

lemma select_run_down:
  "snd (run_loop f (client_events es)) \<Longrightarrow> snd (select_run f g es) = fst (run_loop g (tunnel_events es))"
proof (induction es rule: tunnel_events.induct)
  case (2 a es)
  then show ?case by (cases "snd (f a)") (simp_all add: select_run_simps run_loop_Cons del: select_run.simps)
next
  case (3 b es)
  then show ?case by (cases "snd (g b)") (simp_all add: select_run_simps run_loop_Cons del: select_run.simps)
qed simp

text \<open>\<open>delivered msgs\<close>: every message arrives and every write succeeds.\<close>

definition delivered :: "TunnelMessage list \<Rightarrow> (recv_result \<times> write_result) list" where
  "delivered ms = map (\<lambda>m. (Message m, Written)) ms"

lemmas transparent_all [folded delivered_def] =
  tls_up.transparent tls_down.transparent passthrough_up.transparent passthrough_down.transparent
  tcp_up.transparent tcp_down.transparent stream_up.transparent stream_down.transparent


lemma tls_quic_to_local_Written:
  "tls_quic_to_local hello Written es = after [Write hello] (run_loop tls_quic_to_local_step es)"
  by (simp add: tls_quic_to_local_def)

lemma forward_via_transport_stream_Some:
  "forward_via_transport_stream sid hello ok es = Some (up, down) \<longleftrightarrow>
     ok \<and> up = Send (TlsConnect sid ''unknown'' hello) #
             fst (select_run (tls_client_to_tunnel sid) (tls_tunnel_to_client sid) es) \<and>
     down = snd (select_run (tls_client_to_tunnel sid) (tls_tunnel_to_client sid) es)"
  by (auto simp: forward_via_transport_stream_def split: prod.splits)

lemma forward_via_tunnel_Some:
  "forward_via_tunnel sid initial host ok es = Some (up, down) \<longleftrightarrow>
     ok \<and> up = Send (TlsConnect sid host initial) #
             fst (select_run (passthrough_client_to_tunnel sid) (passthrough_tunnel_to_client sid) es) \<and>
     down = snd (select_run (passthrough_client_to_tunnel sid) (passthrough_tunnel_to_client sid) es)"
  by (auto simp: forward_via_tunnel_def split: prod.splits)

lemma prefix_run_loop_take:
  assumes "\<And>xs. prefix (map fst xs) ms \<Longrightarrow> prefix (written (fst (run_loop g xs))) bs"
    and "prefix (map fst (tunnel_events es)) ms"
  shows "prefix (written (snd (select_run f g es))) bs"
proof -
  obtain n where n: "snd (select_run f g es) = fst (run_loop g (tunnel_events (take n es)))"
    using select_run_split by blast
  have "prefix (tunnel_events (take n es)) (tunnel_events es)"
    by (induction es arbitrary: n rule: tunnel_events.induct) (auto simp: take_Cons' )
  then have "prefix (map fst (tunnel_events (take n es))) ms"
    using assms(2) by (meson map_mono_prefix prefix_order.trans)
  with assms(1) show ?thesis by (simp add: n)
qed

text \<open>
  TLS passthrough is transparent towards the local service: when the messages of a forwarded
  connection are delivered and the local writes succeed, the client has written to the local
  service the ClientHello the relay peeked followed by exactly the bytes the visitor sent, in
  order, as long as the tunnel's side has not ended the connection.
\<close>

theorem tls_upload_transparent:
  assumes "forward_via_transport_stream sid hello True es = Some (up, down)"
    and "snd (run_loop (tls_tunnel_to_client sid) (tunnel_events es))"
  shows "written (fst (tls_quic_to_local hello Written (delivered (tl (sent up)))))
           = hello @ bytes_read (client_events es)"
  using assms
  by (simp add: forward_via_transport_stream_Some select_run_up tls_quic_to_local_Written transparent_all)

theorem tls_upload_transparent_witness:
  "written (fst (tls_quic_to_local [22, 3] Written (delivered (tl (sent
     [Send (TlsConnect 7 ''unknown'' [22, 3]), Count 2, Send (TlsData 7 [1, 2]), Send (TlsClose 7)])))))
     = [22, 3, 1, 2]"
  using tls_upload_transparent [of 7 "[22, 3]"
      "[FromClient (ReadBytes [1, 2], True), FromTunnel (Message (TlsData 7 [9]), Written), FromClient (ReadBytes [], True)]"
      "[Send (TlsConnect 7 ''unknown'' [22, 3]), Count 2, Send (TlsData 7 [1, 2]), Send (TlsClose 7)]"
      "[Count 1, Write [9]]"]
  by (simp add: forward_via_transport_stream_def tls_tunnel_to_client_def run_loop.simps after_def send_if_def)

text \<open>
  Towards the visitor TLS passthrough never invents, reorders or repeats a byte: whatever prefix
  of the client's messages arrives, however the two loops of the relay interleave and wherever
  writes fail, the visitor has received a prefix of what the client read from the local service.
\<close>

theorem tls_download_prefix:
  assumes "forward_via_transport_stream sid hello True es = Some (up, down)"
    and "prefix (map fst (tunnel_events es))
           (map Message (sent (fst (run_loop (tls_local_to_quic sid) reads))))"
  shows "prefix (written down) (bytes_read reads)"
proof -
  have "prefix (written (snd (select_run (tls_client_to_tunnel sid) (tls_tunnel_to_client sid) es)))
          (concat (tls_up.chunks reads))"
    by (rule prefix_run_loop_take [OF tls_down.transparent_prefix assms(2)])
  with assms(1) show ?thesis by (simp add: forward_via_transport_stream_Some)
qed

theorem tls_download_prefix_witness:
  "prefix (written [Count 2, Write [5]]) (bytes_read [(ReadBytes [5, 6], True), (ReadBytes [7], True)])"
  using tls_download_prefix [of 7 "[22]"
      "[FromTunnel (Message (TlsData 7 [5, 6]), WriteFailed 1)]"
      "[Send (TlsConnect 7 ''unknown'' [22])]" "[Count 2, Write [5]]"
      "[(ReadBytes [5, 6], True), (ReadBytes [7], True)]"]
  by (simp add: forward_via_transport_stream_def tls_tunnel_to_client_def run_loop.simps after_def send_if_def)

lemma aborts_append [simp]: "aborts (xs @ ys) \<longleftrightarrow> aborts xs \<or> aborts ys"
  by (auto simp: aborts_def)

lemma no_abort_delivered:
  "\<not> aborts (fst (run_loop tcp_tunnel_to_client (delivered (sent (fst (run_loop (tcp_local_to_quic sid) es))))))"
proof (induction es)
  case Nil
  show ?case by (simp add: delivered_def aborts_def)
next
  case (Cons e es)
  then show ?case
    by (cases e rule: read_sent.cases; cases "snd (tcp_local_to_quic sid e)")
       (auto simp: run_loop_Cons delivered_def aborts_def tcp_tunnel_to_client_def run_loop.simps
          after_def send_if_def split: if_splits prod.splits)
qed

text \<open>
  C6 A TCP tunnel is transparent in both directions at once: when the messages are delivered and
  written, the local service receives exactly what the visitor sent and the visitor exactly what the
  local service sent; each direction runs to its own end, so a side that has closed its
  half of the connection still receives the rest of the other's answer.
\<close>

theorem tcp_tunnel_transparent:
  assumes "tcp_forward sid n reads (delivered (sent (fst (run_loop (tcp_local_to_quic sid) local_reads))))
             = (up, down)"
  shows "written (fst (run_loop tcp_quic_to_local (delivered (sent up)))) = bytes_read reads \<and>
         written down = bytes_read local_reads"
proof -
  let ?d = "delivered (sent (fst (run_loop (tcp_local_to_quic sid) local_reads)))"
  have "\<not> aborts (fst (run_loop tcp_tunnel_to_client ?d))"
    by (rule no_abort_delivered)
  with assms show ?thesis
    by (auto simp: tcp_forward_def Let_def transparent_all)
qed

theorem tcp_tunnel_transparent_witness:
  "written (fst (run_loop tcp_quic_to_local (delivered (sent [Send (TcpClose 3), Finish])))) = bytes_read [(ReadBytes [], True)] \<and>
   written [Count 2, Write [1, 2]] = bytes_read [(ReadBytes [1, 2], True), (ReadBytes [], True)]"
  by (rule tcp_tunnel_transparent [of 3 0 "[(ReadBytes [], True)]"])
     (simp add: tcp_forward_def delivered_def tcp_tunnel_to_client_def run_loop.simps after_def send_if_def aborts_def)

text \<open>
  The transparent HTTP stream that carries WebSocket traffic is transparent in both directions:
  of the messages delivered each end has written, in order and without loss, exactly what the other
  end read and sent.
\<close>

theorem http_stream_transparent:
  "written (fst (run_loop raw_quic_to_local
     (delivered (sent (fst (run_loop (stream_client_to_tunnel sid) reads)))))) = bytes_read reads \<and>
   written (fst (run_loop stream_tunnel_to_client
     (delivered (sent (fst (run_loop (raw_local_to_quic sid) local_reads)))))) = raw_bytes_read local_reads"
  by (simp add: transparent_all)

text \<open>
  A visitor of the plain HTTP passthrough that closes its sending half right after the request
  gets nothing of the answer that is still under way: the loop that reads from the visitor ends, and
  with it the loop that would write the answer.
\<close>

theorem passthrough_half_close:
  "forward_via_tunnel sid req host True (FromClient (ReadBytes [], True) # es)
     = Some ([Send (TlsConnect sid host req), Send (TlsClose sid)], [])"
  by (simp add: forward_via_tunnel_def send_if_def)

end
