(* ===== verification/Reverse.thy ===== *)
theory Reverse
  imports Agent Forwarding
begin

text \<open>
  Reverse tunnels: a client opens a local port (\<open>crates/localup-client/src/reverse_tunnel.rs\<close>), each
  connection to it travels as messages over the relay (\<open>handle_reverse_stream\<close> of
  \<open>crates/localup-control/src/handler.rs\<close>) to an agent, which writes to its target
  (\<open>crates/localup-agent/src/forwarder.rs\<close>) and sends the answer back. The loops have the form of
  the theory of forwarding; the relay's loop turns messages into messages.
\<close>

section \<open>The client\<close>

datatype ReverseTunnelError =
    RtConnectionFailed string
  | RtRejected string
  | RtAgentNotAvailable string
  | RtTimeout string
  | RtIoError string
  | RtTransportError string
  | RtProtocolError string

record ReverseTunnelConfig =
  rt_relay_addr :: string
  rt_auth_token :: "string option"
  rt_remote_address :: string
  rt_agent_id :: string
  rt_agent_token :: "string option"
  rt_local_bind_address :: "string option"
  rt_insecure :: bool

definition reverse_config_new :: "string \<Rightarrow> string \<Rightarrow> string \<Rightarrow> ReverseTunnelConfig" where
  "reverse_config_new relay_addr remote_address agent_id =
     \<lparr>rt_relay_addr = relay_addr, rt_auth_token = None, rt_remote_address = remote_address,
      rt_agent_id = agent_id, rt_agent_token = None, rt_local_bind_address = None, rt_insecure = False\<rparr>"

definition reverse_request_message :: "ReverseTunnelConfig \<Rightarrow> string \<Rightarrow> TunnelMessage" where
  "reverse_request_message config localup_id =
     ReverseTunnelRequest localup_id (rt_remote_address config) (rt_agent_id config) (rt_agent_token config)"

text \<open>
  \<open>connect\<close> from the relay's answer on: \<open>None\<close> is the timeout. On acceptance the local port is
  bound, \<open>bind\<close> being the operating system's answer for an address.
\<close>

definition reverse_response ::
    "(TunnelMessage \<Rightarrow> string) \<Rightarrow> (string \<Rightarrow> (string, SocketAddr) result) \<Rightarrow> ReverseTunnelConfig \<Rightarrow>
     (string, TunnelMessage option) result option \<Rightarrow> (ReverseTunnelError, string \<times> SocketAddr) result" where
  "reverse_response debug_text bind config received =
     (case received of
        None \<Rightarrow> Err (RtTimeout ''Waiting for reverse tunnel response'')
      | Some (Err e) \<Rightarrow> Err (RtTransportError (''Failed to receive response: '' @ e))
      | Some (Ok None) \<Rightarrow> Err (RtConnectionFailed ''Connection closed by relay'')
      | Some (Ok (Some (ReverseTunnelAccept tid local_address))) \<Rightarrow>
          (case bind (case rt_local_bind_address config of Some a \<Rightarrow> a | None \<Rightarrow> ''127.0.0.1:0'') of
             Err e \<Rightarrow> Err (RtIoError e)
           | Ok local_addr \<Rightarrow> Ok (tid, local_addr))
      | Some (Ok (Some (ReverseTunnelReject _ reason))) \<Rightarrow>
          if contains_sub reason ''not available'' \<or> contains_sub reason ''not connected''
          then Err (RtAgentNotAvailable reason) else Err (RtRejected reason)
      | Some (Ok (Some other)) \<Rightarrow> Err (RtProtocolError (''Unexpected message: '' @ debug_text other)))"

text \<open>
  The local server: stream ids are handed out in order of acceptance and wrap; the control task
  answers pings and ends the server when the relay disconnects.
\<close>

datatype (plugins only: size) server_event =
    ShutdownSignal
  | ControlClosed
  | Accepted "(string, unit) result"

fun run_local_server :: "u32 \<Rightarrow> server_event list \<Rightarrow> u32 list \<times> bool" where
  "run_local_server counter [] = ([], True)"
| "run_local_server counter (ShutdownSignal # es) = ([], False)"
| "run_local_server counter (ControlClosed # es) = ([], False)"
| "run_local_server counter (Accepted (Err _) # es) = run_local_server counter es"
| "run_local_server counter (Accepted (Ok _) # es) =
     (case run_local_server (counter + 1) es of (ids, go) \<Rightarrow> (counter # ids, go))"

definition reverse_client_control ::
    "bool \<Rightarrow> (string, TunnelMessage option) result \<Rightarrow> TunnelMessage list \<times> string option \<times> bool" where
  "reverse_client_control send_ok received =
     (case received of
        Ok (Some (Ping timestamp)) \<Rightarrow> ([Pong timestamp], None, send_ok)
      | Ok (Some (Disconnect reason)) \<Rightarrow> ([], Some reason, False)
      | Ok None \<Rightarrow> ([], Some ''Control stream closed by relay'', False)
      | Err e \<Rightarrow> ([], Some (''Control stream error: '' @ e), False)
      | Ok (Some _) \<Rightarrow> ([], None, True))"

text \<open>The two tasks of \<open>handle_reverse_connection\<close>.\<close>

fun reverse_tcp_to_quic :: "string \<Rightarrow> u32 \<Rightarrow> read_result \<times> bool \<Rightarrow> effect list \<times> bool" where
  "reverse_tcp_to_quic localup_id stream_id (ReadBytes b, ok) =
     (if b = [] then (send_if ok (ReverseClose localup_id stream_id None), False)
      else (send_if ok (ReverseData localup_id stream_id b), ok))"
| "reverse_tcp_to_quic localup_id stream_id (ReadError, ok) = ([], False)"

definition reverse_quic_to_tcp :: "recv_result \<times> write_result \<Rightarrow> effect list \<times> bool" where
  "reverse_quic_to_tcp e =
     (case e of
        (Message (ReverseData _ _ d), w) \<Rightarrow> write_all d w
      | (Message (ReverseClose _ _ _), w) \<Rightarrow> ([], False)
      | (StreamEnd, w) \<Rightarrow> ([], False)
      | (RecvError, w) \<Rightarrow> ([], False)
      | (Message _, w) \<Rightarrow> ([], True))"

section \<open>The relay\<close>

text \<open>
  \<open>handle_reverse_stream\<close> up to the proxy loop. \<open>opened\<close> is the result of opening the agent's
  stream, \<open>sent_ok\<close> that of sending the request, \<open>answer\<close> the agent's answer. The result: the
  messages sent to the agent and to the client, and the stream id to proxy or the error.
\<close>

definition reverse_stream_open ::
    "(TunnelMessage \<Rightarrow> string) \<Rightarrow> string \<Rightarrow> string \<Rightarrow> string option \<Rightarrow> (string, TunnelMessage option) result \<Rightarrow>
     (string, unit) result \<Rightarrow> (string, unit) result \<Rightarrow> (string, TunnelMessage option) result \<Rightarrow>
     TunnelMessage list \<times> TunnelMessage list \<times> (string, u32) result" where
  "reverse_stream_open debug_text localup_id remote_address agent_token received opened sent_ok answer =
     (case received of
        Err e \<Rightarrow> ([], [], Err (''Failed to read ReverseConnect: '' @ e))
      | Ok None \<Rightarrow> ([], [], Err ''Stream closed before ReverseConnect'')
      | Ok (Some (ReverseConnect msg_localup_id stream_id msg_remote_address)) \<Rightarrow>
          if msg_localup_id \<noteq> localup_id then
            ([], [], Err (''localup_id mismatch: expected '' @ localup_id @ '', got '' @ msg_localup_id))
          else if msg_remote_address \<noteq> remote_address then
            ([], [], Err (''remote_address mismatch: expected '' @ remote_address @ '', got '' @ msg_remote_address))
          else
            (case opened of
               Err e \<Rightarrow> ([], [], Err (''Failed to open agent stream: '' @ e))
             | Ok _ \<Rightarrow>
                 (case sent_ok of
                    Err e \<Rightarrow> ([], [], Err (''Failed to send ForwardRequest: '' @ e))
                  | Ok _ \<Rightarrow>
                      (let request = [ForwardRequest localup_id stream_id remote_address agent_token] in
                       case answer of
                         Ok (Some (ForwardAccept _ _)) \<Rightarrow> (request, [], Ok stream_id)
                       | Ok (Some (ForwardReject _ _ reason)) \<Rightarrow>
                           (request, [ReverseClose localup_id stream_id (Some reason)],
                            Err (''Agent rejected: '' @ reason))
                       | Ok (Some msg) \<Rightarrow> (request, [], Err (''Unexpected agent response: '' @ debug_text msg))
                       | Ok None \<Rightarrow> (request, [], Err ''Agent stream closed before response'')
                       | Err e \<Rightarrow> (request, [], Err (''Failed to read agent response: '' @ e)))))
      | Ok (Some msg) \<Rightarrow> ([], [], Err (''Expected ReverseConnect, got '' @ debug_text msg)))"

text \<open>
  The proxy loop of the relay, one branch for each direction: it re-labels the data with the tunnel
  and stream it has checked. The second component of an event is the result of the send.
\<close>

definition reverse_from_client :: "string \<Rightarrow> u32 \<Rightarrow> recv_result \<times> bool \<Rightarrow> effect list \<times> bool" where
  "reverse_from_client localup_id stream_id e =
     (case e of
        (Message (ReverseData _ _ d), ok) \<Rightarrow> (send_if ok (ReverseData localup_id stream_id d), ok)
      | (Message (ReverseClose _ _ _), ok) \<Rightarrow> (send_if ok (ReverseClose localup_id stream_id None), False)
      | (StreamEnd, ok) \<Rightarrow> ([], False)
      | (RecvError, ok) \<Rightarrow> ([], False)
      | (Message _, ok) \<Rightarrow> ([], True))"

definition reverse_from_agent :: "string \<Rightarrow> u32 \<Rightarrow> recv_result \<times> bool \<Rightarrow> effect list \<times> bool" where
  "reverse_from_agent localup_id stream_id e =
     (case e of
        (Message (ReverseData _ _ d), ok) \<Rightarrow> (send_if ok (ReverseData localup_id stream_id d), ok)
      | (Message (ReverseClose _ _ _), ok) \<Rightarrow> (send_if ok (ReverseClose localup_id stream_id None), False)
      | (StreamEnd, ok) \<Rightarrow> ([], False)
      | (RecvError, ok) \<Rightarrow> ([], False)
      | (Message _, ok) \<Rightarrow> ([], True))"

text \<open>One loop with both branches: the first that breaks ends the loop. The effects towards the
  agent and towards the client.\<close>

definition reverse_proxy ::
    "string \<Rightarrow> u32 \<Rightarrow> (recv_result \<times> bool, recv_result \<times> bool) io_event list \<Rightarrow> effect list \<times> effect list" where
  "reverse_proxy localup_id stream_id es =
     select_run (reverse_from_client localup_id stream_id) (reverse_from_agent localup_id stream_id) es"

section \<open>The agent's forwarder\<close>

definition forwarder_to_remote :: "recv_result \<times> write_result \<Rightarrow> effect list \<times> bool" where
  "forwarder_to_remote e =
     (case e of
        (Message (ReverseData _ _ d), w) \<Rightarrow>
          if d = [] then ([Shutdown], False)
          else (case write_all d w of
                  (out, True) \<Rightarrow> (out @ [Count (length d)], True)
                | (out, False) \<Rightarrow> (out, False))
      | (Message (ReverseClose _ _ _), w) \<Rightarrow> ([Shutdown], False)
      | (StreamEnd, w) \<Rightarrow> ([Shutdown], False)
      | (RecvError, w) \<Rightarrow> ([], False)
      | (Message _, w) \<Rightarrow> ([], True))"

text \<open>A send error returns at once; a closed connection sends the close message and finishes.\<close>

fun forwarder_to_tunnel :: "u32 \<Rightarrow> read_result \<times> bool \<Rightarrow> effect list \<times> bool" where
  "forwarder_to_tunnel stream_id (ReadBytes b, ok) =
     (if b = [] then (send_if ok (ReverseClose [] stream_id None) @ [Finish], False)
      else if ok then ([Send (ReverseData [] stream_id b), Count (length b)], True)
      else ([], False))"
| "forwarder_to_tunnel stream_id (ReadError, ok) = ([], False)"

text \<open>
  The results of the two loops when they have ended: the bytes counted or the error, and the result
  of \<open>copy_bidirectional\<close>, in which an error of the first loop takes precedence. The payload of an
  error names the failed call; the text of the underlying error is not modelled.
\<close>

fun to_remote_result ::
    "u64 \<Rightarrow> (recv_result \<times> write_result) list \<Rightarrow> (ForwarderError, u64) result option" where
  "to_remote_result total_bytes [] = None"
| "to_remote_result total_bytes (e # es) =
     (case forwarder_to_remote e of
        (out, True) \<Rightarrow> to_remote_result (total_bytes + counted out) es
      | (out, False) \<Rightarrow>
          (case e of
             (RecvError, _) \<Rightarrow> Some (Err (ForwarderTransport ''recv''))
           | (_, _) \<Rightarrow> if Shutdown \<in> set out then Some (Ok total_bytes) else Some (Err (ForwarderIo ''write''))))"

fun to_tunnel_result ::
    "u32 \<Rightarrow> u64 \<Rightarrow> (read_result \<times> bool) list \<Rightarrow> (ForwarderError, u64) result option" where
  "to_tunnel_result stream_id total_bytes [] = None"
| "to_tunnel_result stream_id total_bytes (e # es) =
     (case forwarder_to_tunnel stream_id e of
        (out, True) \<Rightarrow> to_tunnel_result stream_id (total_bytes + counted out) es
      | (out, False) \<Rightarrow>
          (case e of
             (ReadError, _) \<Rightarrow> Some (Err (ForwarderIo ''read''))
           | (ReadBytes b, _) \<Rightarrow>
               if b = [] then Some (Ok total_bytes) else Some (Err (ForwarderTransport ''send''))))"

definition copy_bidirectional ::
    "u32 \<Rightarrow> (recv_result \<times> write_result) list \<Rightarrow> (read_result \<times> bool) list \<Rightarrow>
     (ForwarderError, u64 \<times> u64) result option" where
  "copy_bidirectional stream_id recvs reads =
     (case (to_remote_result 0 recvs, to_tunnel_result stream_id 0 reads) of
        (Some r1, Some r2) \<Rightarrow>
          Some (case r1 of
                  Err e \<Rightarrow> Err e
                | Ok to_remote \<Rightarrow> (case r2 of Err e \<Rightarrow> Err e | Ok to_tunnel \<Rightarrow> Ok (to_remote, to_tunnel)))
      | _ \<Rightarrow> None)"

definition forwarder_forward ::
    "(string, unit) result \<Rightarrow> u32 \<Rightarrow> string \<Rightarrow> (recv_result \<times> write_result) list \<Rightarrow>
     (read_result \<times> bool) list \<Rightarrow> (ForwarderError, unit) result option" where
  "forwarder_forward connected stream_id remote_address recvs reads =
     (case connected of
        Err e \<Rightarrow> Some (Err (RemoteConnectFailed remote_address e))
      | Ok _ \<Rightarrow>
          map_option (\<lambda>r. case r of Err e \<Rightarrow> Err e | Ok _ \<Rightarrow> Ok ())
            (copy_bidirectional stream_id recvs reads))"

section \<open>A leg with a relay in the middle\<close>

text \<open>
  A relay passes data messages on, re-labelled, and ends on the close message. A relayed leg is a
  source, a relay and a sink that agree on the messages between them.
\<close>

locale message_relay =
  fixes relay_step :: "recv_result \<times> bool \<Rightarrow> effect list \<times> bool"
    and data :: "bytes \<Rightarrow> TunnelMessage" and close :: TunnelMessage
    and data' :: "bytes \<Rightarrow> TunnelMessage" and close' :: TunnelMessage
  assumes relay_data: "snd (relay_step (Message (data b), ok)) = ok"
      "sent (fst (relay_step (Message (data b), ok))) = (if ok then [data' b] else [])"
    and relay_close: "\<not> snd (relay_step (Message close, ok))"
      "sent (fst (relay_step (Message close, ok))) = (if ok then [close'] else [])"
begin

lemma sent_relay_prefix:
  assumes "prefix (map fst es) (map (\<lambda>b. Message (data b)) bs @ tail)" "set tail \<subseteq> {Message close}"
  shows "prefix (sent (fst (run_loop relay_step es))) (map data' bs @ [close'])"
  using assms(1)
proof (induction es arbitrary: bs)
  case (Cons e es)
  obtain r ok where e: "e = (r, ok)" by force
  show ?case
  proof (cases bs)
    case Nil
    with Cons.prems assms(2) have "r = Message close" by (cases tail) (auto simp: e)
    with relay_close [of ok] Nil show ?thesis by (simp add: e run_loop_Cons_stop)
  next
    case (Cons b bs')
    with Cons.prems e have r: "r = Message (data b)"
      and rest: "prefix (map fst es) (map (\<lambda>b. Message (data b)) bs' @ tail)" by auto
    with Cons.IH [OF rest] Cons relay_data [of b ok] show ?thesis
      by (cases ok) (simp_all add: e run_loop_Cons)
  qed
qed simp

lemma sent_relay_all:
  assumes "tail \<in> {[], [close]}"
  shows "sent (fst (run_loop relay_step (map (\<lambda>m. (Message m, True)) (map data bs @ tail))))
           = map data' bs @ (if tail = [] then [] else [close'])"
proof (induction bs)
  case Nil
  show ?case using assms relay_close [of True] by (auto simp: run_loop_Cons_stop)
next
  case (Cons b bs)
  with relay_data [of b True] show ?case by (simp add: run_loop_Cons_go)
qed

end

locale relayed_leg =
  source step chunk data close + message_relay relay_step data close data' close' +
  far: sink recv_step data' close'
  for step :: "'e \<Rightarrow> effect list \<times> bool" and chunk :: "'e \<Rightarrow> bytes option"
    and data :: "bytes \<Rightarrow> TunnelMessage" and close :: TunnelMessage
    and relay_step :: "recv_result \<times> bool \<Rightarrow> effect list \<times> bool"
    and data' :: "bytes \<Rightarrow> TunnelMessage" and close' :: TunnelMessage
    and recv_step :: "recv_result \<times> write_result \<Rightarrow> effect list \<times> bool"
begin

lemma relayed_prefix:
  assumes "prefix (map fst relayed) (map Message (sent (fst (run_loop step es))))"
    and "prefix (map fst received) (map Message (sent (fst (run_loop relay_step relayed))))"
  shows "prefix (written (fst (run_loop recv_step received))) (concat (chunks es))"
proof -
  obtain tail where tail: "sent (fst (run_loop step es)) = map data (chunks es) @ tail"
      "tail \<in> {[], [close]}"
    using sent_run_loop by blast
  have "prefix (sent (fst (run_loop relay_step relayed))) (map data' (chunks es) @ [close'])"
    by (rule sent_relay_prefix [of _ _ "map Message tail"]) (use assms(1) tail in \<open>auto simp: comp_def\<close>)
  then have "prefix (map Message (sent (fst (run_loop relay_step relayed))))
      (map (\<lambda>b. Message (data' b)) (chunks es) @ [Message close'])"
    using map_mono_prefix [of _ _ Message] by (fastforce simp: comp_def)
  then show ?thesis
    using assms(2) by (intro far.written_data_prefix [OF chunks_not_Nil, of _ _ "[Message close']"])
      (auto dest: prefix_order.trans)
qed

lemma relayed_transparent:
  "written (fst (run_loop recv_step (map (\<lambda>m. (Message m, Written))
     (sent (fst (run_loop relay_step (map (\<lambda>m. (Message m, True)) (sent (fst (run_loop step es)))))))))) 
     = concat (chunks es)"
proof -
  obtain tail where tail: "sent (fst (run_loop step es)) = map data (chunks es) @ tail"
      "tail \<in> {[], [close]}"
    using sent_run_loop by blast
  have "\<exists>t \<in> {[], [close']}. sent (fst (run_loop relay_step (map (\<lambda>m. (Message m, True)) (sent (fst (run_loop step es))))))
      = map data' (chunks es) @ t"
    unfolding tail(1) using sent_relay_all [OF tail(2)] by auto
  then obtain t where t: "t \<in> {[], [close']}"
    "sent (fst (run_loop relay_step (map (\<lambda>m. (Message m, True)) (sent (fst (run_loop step es)))))) = map data' (chunks es) @ t"
    by blast
  show ?thesis unfolding t(2) by (rule far.written_data_all [OF chunks_not_Nil t(1)])
qed

end

lemma reverse_sources_go_on:
  "snd (reverse_tcp_to_quic lid sid e) \<longleftrightarrow> read_sent e \<noteq> None"
  "snd (forwarder_to_tunnel sid e) \<longleftrightarrow> read_sent e \<noteq> None"
  by (cases e rule: read_sent.cases; simp)+

lemmas reverse_defs = reverse_from_client_def reverse_from_agent_def forwarder_to_remote_def
  reverse_quic_to_tcp_def

lemma forwarder_to_remote_data:
  "b \<noteq> [] \<Longrightarrow> forwarder_to_remote (Message (ReverseData lid sid b), w) =
     (case w of WriteFailed k \<Rightarrow> ([Write (take k b)], False) | _ \<Rightarrow> ([Write b, Count (length b)], True))"
  by (cases w) (simp_all add: forwarder_to_remote_def)

lemma forwarder_to_remote_close: "forwarder_to_remote (Message (ReverseClose lid sid r), w) = ([Shutdown], False)"
  by (simp add: forwarder_to_remote_def)

interpretation reverse_up: relayed_leg "reverse_tcp_to_quic lid sid" read_sent "ReverseData lid sid"
    "ReverseClose lid sid None" "reverse_from_client lid sid" "ReverseData lid sid"
    "ReverseClose lid sid None" forwarder_to_remote for lid sid
  by unfold_locales
     (simp only: reverse_sources_go_on,
      auto simp: reverse_from_client_def forwarder_to_remote_data forwarder_to_remote_close take_is_prefix
        elim!: read_sent.elims split: if_splits write_result.splits)

interpretation reverse_down: relayed_leg "forwarder_to_tunnel asid" read_sent "ReverseData [] asid"
    "ReverseClose [] asid None" "reverse_from_agent lid sid" "ReverseData lid sid"
    "ReverseClose lid sid None" reverse_quic_to_tcp for asid lid sid
  by unfold_locales (simp only: reverse_sources_go_on, auto simp: reverse_defs elim!: read_sent.elims split: if_splits)

section \<open>Properties\<close>

text \<open>\<open>passed msgs\<close>: every message arrives at the relay and can be sent on.\<close>

definition passed :: "TunnelMessage list \<Rightarrow> (recv_result \<times> bool) list" where
  "passed ms = map (\<lambda>m. (Message m, True)) ms"


lemma prefix_client_events: "prefix (client_events (take n es)) (client_events es)"
  by (induction es arbitrary: n rule: client_events.induct) (auto simp: take_Cons')

lemma prefix_tunnel_events: "prefix (tunnel_events (take n es)) (tunnel_events es)"
  by (induction es arbitrary: n rule: tunnel_events.induct) (auto simp: take_Cons')

text \<open>
  Whatever is lost, however the relay's two directions interleave and wherever a send or a write
  fails, the target has received a prefix of what the local application sent and the application a
  prefix of what the target answered: no byte is invented, repeated, reordered or carried over
  from another connection.
\<close>

theorem reverse_tunnel_prefix:
  assumes "prefix (map fst (client_events es))
             (map Message (sent (fst (run_loop (reverse_tcp_to_quic lid sid) reads))))"
    and "prefix (map fst (tunnel_events es))
             (map Message (sent (fst (run_loop (forwarder_to_tunnel asid) remote_reads))))"
    and "reverse_proxy lid sid es = (up, down)"
    and "prefix (map fst at_agent) (map Message (sent up))"
    and "prefix (map fst at_client) (map Message (sent down))"
  shows "prefix (written (fst (run_loop forwarder_to_remote at_agent))) (bytes_read reads) \<and>
         prefix (written (fst (run_loop reverse_quic_to_tcp at_client))) (bytes_read remote_reads)"
proof -
  obtain n where up: "up = fst (run_loop (reverse_from_client lid sid) (client_events (take n es)))"
    and down: "down = fst (run_loop (reverse_from_agent lid sid) (tunnel_events (take n es)))"
    using select_run_split [of "reverse_from_client lid sid" "reverse_from_agent lid sid" es] assms(3)
    by (force simp: reverse_proxy_def)
  have "prefix (map fst (client_events (take n es)))
          (map Message (sent (fst (run_loop (reverse_tcp_to_quic lid sid) reads))))"
    using prefix_client_events assms(1) by (meson map_mono_prefix prefix_order.trans)
  from reverse_up.relayed_prefix [OF this] assms(4) up
  have 1: "prefix (written (fst (run_loop forwarder_to_remote at_agent))) (bytes_read reads)" by simp
  have "prefix (map fst (tunnel_events (take n es)))
          (map Message (sent (fst (run_loop (forwarder_to_tunnel asid) remote_reads))))"
    using prefix_tunnel_events assms(2) by (meson map_mono_prefix prefix_order.trans)
  from reverse_down.relayed_prefix [OF this] assms(5) down
  have 2: "prefix (written (fst (run_loop reverse_quic_to_tcp at_client))) (bytes_read remote_reads)" by simp
  from 1 2 show ?thesis ..
qed

theorem reverse_tunnel_prefix_witness:
  "prefix (written (fst (run_loop forwarder_to_remote [(Message (ReverseData ''t'' 1 [7, 8]), WriteFailed 1)])))
     (bytes_read [(ReadBytes [7, 8], True), (ReadBytes [], True)]) \<and>
   prefix (written (fst (run_loop reverse_quic_to_tcp [])))
     (bytes_read [(ReadBytes [9], True)])"
  by (rule reverse_tunnel_prefix [of "[FromClient (Message (ReverseData ''t'' 1 [7, 8]), True),
        FromTunnel (Message (ReverseData [] 44 [9]), True)]" "''t''" 1 _ 44 _
        "[Send (ReverseData ''t'' 1 [7, 8])]" "[Send (ReverseData ''t'' 1 [9])]"])
     (simp_all add: reverse_proxy_def reverse_from_client_def reverse_from_agent_def run_loop.simps send_if_def)

text \<open>
  C14 The relay asks the agent for no connection but the one that was granted: a stream reaches the
  proxy loop only if it names the tunnel and the address the tunnel was opened for, and the agent
  has accepted exactly that address; the agent's own check then lets it through.
\<close>

theorem reverse_stream_authorised:
  assumes "reverse_stream_open dbg localup_id remote_address agent_token received opened sent_ok answer
             = (to_agent, to_client, Ok stream_id)"
  shows "received = Ok (Some (ReverseConnect localup_id stream_id remote_address)) \<and>
         to_agent = [ForwardRequest localup_id stream_id remote_address agent_token] \<and> to_client = [] \<and>
         (\<exists>l s. answer = Ok (Some (ForwardAccept l s)))"
  using assms unfolding reverse_stream_open_def
  by (auto simp: Let_def split: sum.splits option.splits TunnelMessage.splits if_splits)

theorem reverse_stream_authorised_witness:
  "Ok (Some (ReverseConnect ''t'' 1 ''10.0.0.1:80'')) = (Ok (Some (ReverseConnect ''t'' 1 ''10.0.0.1:80'')) :: (string, _) result) \<and>
   [ForwardRequest ''t'' 1 ''10.0.0.1:80'' None] = [ForwardRequest ''t'' 1 ''10.0.0.1:80'' None] \<and>
   ([] :: TunnelMessage list) = [] \<and>
   (\<exists>l s. Ok (Some (ForwardAccept ''t'' 1)) = (Ok (Some (ForwardAccept l s)) :: (string, _) result))"
  by (rule reverse_stream_authorised [of "\<lambda>_. []" _ _ _ _ "Ok ()" "Ok ()"])
     (simp add: reverse_stream_open_def)

text \<open>The stream numbers of a reverse tunnel's connections are distinct until the counter wraps.\<close>

lemma run_local_server_ids:
  "\<exists>k. fst (run_local_server c es) = map (\<lambda>i. c + of_nat i) [0..<k] \<and> k \<le> length es"
proof (induction c es rule: run_local_server.induct)
  case (5 c u es)
  then obtain k where k: "fst (run_local_server (c + 1) es) = map (\<lambda>i. c + 1 + of_nat i) [0..<k]" "k \<le> length es"
    by blast
  have "c # map (\<lambda>i. c + 1 + of_nat i) [0..<k] = map (\<lambda>i. c + of_nat i) [0..<Suc k]"
    by (simp add: upt_conv_Cons map_Suc_upt [symmetric] comp_def algebra_simps del: upt_Suc)
  with k show ?case by (intro exI [of _ "Suc k"]) (auto split: prod.splits simp del: upt_Suc)
qed (auto intro: le_SucI)

lemma reverse_stream_ids_distinct:
  assumes "length es \<le> 2 ^ 32"
  shows "distinct (fst (run_local_server c es))"
proof -
  obtain k where k: "fst (run_local_server c es) = map (\<lambda>i. c + of_nat i) [0..<k]" "k \<le> length es"
    using run_local_server_ids by blast
  have "inj_on (\<lambda>i. c + of_nat i :: u32) {0..<k}"
    using k(2) assms by (auto simp: inj_on_def of_nat_inverse word_of_nat_eq_iff take_bit_nat_eq_self)
  with k(1) show ?thesis by (simp add: distinct_map)
qed

end
