(* ===== verification/Discovery.thy ===== *)
theory Discovery
  imports IpFilter "HOL-Library.Product_Lexorder" "HOL-Library.List_Lexorder" "HOL-Library.Char_ord"
begin

text \<open>
  How a client finds a relay and a transport: the discovery document of
  \<open>crates/localup-proto/src/discovery.rs\<close>, the client that fetches it and selects a transport,
  \<open>crates/localup-client/src/transport_discovery.rs\<close>, and the selection among the relays of the
  embedded configuration, \<open>crates/localup-client/src/relay_discovery.rs\<close>.

  Parameters: the network (the bytes a server sends in answer to a URL, or why it could not be
  asked), the JSON parser and its error texts, and the parsed relay configuration.
\<close>

section \<open>The discovery document\<close>

datatype TransportProtocol = Quic | WebSocket | H2

fun default_port :: "TransportProtocol \<Rightarrow> u16" where
  "default_port Quic = 4443"
| "default_port WebSocket = 443"
| "default_port H2 = 443"

definition is_udp :: "TransportProtocol \<Rightarrow> bool" where
  "is_udp p = (p = Quic)"

fun priority :: "TransportProtocol \<Rightarrow> u8" where
  "priority Quic = 100"
| "priority WebSocket = 50"
| "priority H2 = 25"

fun transport_display :: "TransportProtocol \<Rightarrow> string" where
  "transport_display Quic = ''quic''"
| "transport_display WebSocket = ''websocket''"
| "transport_display H2 = ''h2''"

definition transport_from_str :: "string \<Rightarrow> (string, TransportProtocol) result" where
  "transport_from_str s =
     (let l = to_lowercase s
      in if l = ''quic'' then Ok Quic
         else if l = ''websocket'' \<or> l = ''ws'' \<or> l = ''wss'' then Ok WebSocket
         else if l = ''h2'' \<or> l = ''http2'' then Ok H2
         else Err (''Unknown transport protocol: '' @ s))"

record TransportEndpoint =
  te_protocol :: TransportProtocol
  te_port :: u16
  te_path :: "string option"
  te_enabled :: bool

definition PROTOCOL_VERSION :: u32 where
  "PROTOCOL_VERSION = 1"

record ProtocolDiscoveryResponse =
  pd_version :: u32
  pd_relay_id :: "string option"
  transports :: "TransportEndpoint list"
  pd_protocol_version :: u32

definition discovery_default :: ProtocolDiscoveryResponse where
  "discovery_default =
     \<lparr>pd_version = 1, pd_relay_id = None, transports = [], pd_protocol_version = PROTOCOL_VERSION\<rparr>"

definition quic_only :: "u16 \<Rightarrow> ProtocolDiscoveryResponse" where
  "quic_only port =
     \<lparr>pd_version = 1, pd_relay_id = None,
      transports = [\<lparr>te_protocol = Quic, te_port = port, te_path = None, te_enabled = True\<rparr>],
      pd_protocol_version = PROTOCOL_VERSION\<rparr>"

definition with_transport ::
    "TransportEndpoint \<Rightarrow> ProtocolDiscoveryResponse \<Rightarrow> ProtocolDiscoveryResponse" where
  "with_transport e r = r\<lparr>transports := transports r @ [e]\<rparr>"

definition with_quic :: "u16 \<Rightarrow> ProtocolDiscoveryResponse \<Rightarrow> ProtocolDiscoveryResponse" where
  "with_quic port =
     with_transport \<lparr>te_protocol = Quic, te_port = port, te_path = None, te_enabled = True\<rparr>"

definition with_websocket ::
    "u16 \<Rightarrow> string \<Rightarrow> ProtocolDiscoveryResponse \<Rightarrow> ProtocolDiscoveryResponse" where
  "with_websocket port path =
     with_transport \<lparr>te_protocol = WebSocket, te_port = port, te_path = Some path, te_enabled = True\<rparr>"

definition with_h2 :: "u16 \<Rightarrow> ProtocolDiscoveryResponse \<Rightarrow> ProtocolDiscoveryResponse" where
  "with_h2 port =
     with_transport \<lparr>te_protocol = H2, te_port = port, te_path = None, te_enabled = True\<rparr>"

definition with_relay_id :: "string \<Rightarrow> ProtocolDiscoveryResponse \<Rightarrow> ProtocolDiscoveryResponse" where
  "with_relay_id i r = r\<lparr>pd_relay_id := Some i\<rparr>"

definition sorted_transports :: "ProtocolDiscoveryResponse \<Rightarrow> TransportEndpoint list" where
  "sorted_transports r =
     sort_by (\<lambda>a b. cmp (priority (te_protocol b)) (priority (te_protocol a)))
       (filter te_enabled (transports r))"

definition best_transport :: "ProtocolDiscoveryResponse \<Rightarrow> TransportEndpoint option" where
  "best_transport r = (case sorted_transports r of [] \<Rightarrow> None | e # _ \<Rightarrow> Some e)"

definition find_transport ::
    "ProtocolDiscoveryResponse \<Rightarrow> TransportProtocol \<Rightarrow> TransportEndpoint option" where
  "find_transport r p = find (\<lambda>t. te_protocol t = p \<and> te_enabled t) (transports r)"

section \<open>Fetching the document\<close>

definition WELL_KNOWN_PATH :: string where
  "WELL_KNOWN_PATH = ''/.well-known/localup-protocols''"

datatype TransportDiscoveryError =
    ConnectionFailed string
  | FetchFailed string
  | InvalidResponse string
  | NoTransports
  | DiscoveryTimeout

text \<open>\<open>read_line\<close>: the bytes up to and with the next line feed, or all that is left.\<close>

fun next_line :: "bytes \<Rightarrow> bytes \<times> bytes" where
  "next_line [] = ([], [])"
| "next_line (b # bs) =
     (if b = byte_of_char LF then ([b], bs)
      else (case next_line bs of (l, rest) \<Rightarrow> (b # l, rest)))"

lemma next_line_append: "next_line bs = (l, rest) \<Longrightarrow> bs = l @ rest"
  by (induction bs arbitrary: l) (auto split: prod.splits if_splits)

lemma next_line_Nil: "next_line bs = ([], rest) \<Longrightarrow> bs = []"
  by (cases bs) (auto split: prod.splits if_splits)

definition content_length_of :: "string \<Rightarrow> nat option \<Rightarrow> nat option" where
  "content_length_of line old =
     (if starts_with (to_lowercase line) ''content-length:''
      then (case split_char CHR '':'' line of
              _ # len_str # _ \<Rightarrow> parse_uint 64 (trim len_str)
            | _ \<Rightarrow> old)
      else old)"

function read_headers ::
    "bytes \<Rightarrow> string \<Rightarrow> nat option \<Rightarrow>
     (TransportDiscoveryError, string \<times> nat option \<times> bytes) result" where
  "read_headers bs headers content_length =
     (case next_line bs of
        (l, rest) \<Rightarrow>
          (case from_utf8 l of
             None \<Rightarrow> Err (FetchFailed ''stream did not contain valid UTF-8'')
           | Some line \<Rightarrow>
               if line = crlf \<or> line = [] then Ok (headers, content_length, rest)
               else read_headers rest (headers @ line) (content_length_of line content_length)))"
  by pat_completeness auto
termination
proof (relation "measure (\<lambda>(bs, _, _). length bs)", goal_cases)
  case (2 bs headers cl l rest line)
  then have "l \<noteq> []" by (auto simp: from_utf8_def)
  moreover have "bs = l @ rest" using 2 by (simp add: next_line_append)
  ultimately show ?case by simp
qed simp

declare read_headers.simps [simp del]

text \<open>
  The answer of a server: the headers, then the body by its declared length or up to the end.
  A declared length above \<open>isize::MAX\<close> makes the allocation of the buffer panic.
\<close>

definition read_discovery ::
    "(string \<Rightarrow> (string, ProtocolDiscoveryResponse) result) \<Rightarrow> (bytes \<Rightarrow> string) \<Rightarrow> bytes \<Rightarrow>
     (TransportDiscoveryError, ProtocolDiscoveryResponse) result outcome" where
  "read_discovery parse_json utf8_text answer =
     (case read_headers answer [] None of
        Err e \<Rightarrow> Returned (Err e)
      | Ok (headers, content_length, rest) \<Rightarrow>
          if \<not> starts_with headers ''HTTP/1.1 200'' \<and> \<not> starts_with headers ''HTTP/1.0 200'' then
            Returned (Err (FetchFailed
              (''HTTP error: '' @ (case str_lines headers of [] \<Rightarrow> ''unknown'' | l # _ \<Rightarrow> l))))
          else
            (case content_length of
               Some len \<Rightarrow>
                 if 2 ^ 63 \<le> len then Panicked
                 else if length rest < len then Returned (Err (FetchFailed ''early eof''))
                 else (case from_utf8 (take len rest) of
                         None \<Rightarrow> Returned (Err (InvalidResponse (utf8_text (take len rest))))
                       | Some body \<Rightarrow> Returned (map_err InvalidResponse (parse_json body)))
             | None \<Rightarrow>
                 (case from_utf8 rest of
                    None \<Rightarrow> Returned (Err (FetchFailed ''stream did not contain valid UTF-8''))
                  | Some body \<Rightarrow> Returned (map_err InvalidResponse (parse_json body)))))"

definition fetch_discovery ::
    "(string \<Rightarrow> (TransportDiscoveryError, bytes) result) \<Rightarrow>
     (string \<Rightarrow> (string, ProtocolDiscoveryResponse) result) \<Rightarrow> (bytes \<Rightarrow> string) \<Rightarrow> string \<Rightarrow>
     (TransportDiscoveryError, ProtocolDiscoveryResponse) result outcome" where
  "fetch_discovery net parse_json utf8_text url =
     (case net url of
        Err e \<Rightarrow> Returned (Err e)
      | Ok answer \<Rightarrow> read_discovery parse_json utf8_text answer)"

definition ports_to_try :: "u16 \<Rightarrow> u16 list" where
  "ports_to_try port = [port, 3080, 8080, 18080, 80, 443, 8443, 18443]"

definition discovery_url :: "string \<Rightarrow> string \<Rightarrow> u16 \<Rightarrow> string" where
  "discovery_url scheme host port =
     scheme @ ''://'' @ host @ '':'' @ show_nat (unat port) @ WELL_KNOWN_PATH"

definition discovery_urls :: "string \<Rightarrow> u16 \<Rightarrow> string list" where
  "discovery_urls host port =
     concat (map (\<lambda>p. [discovery_url ''https'' host p, discovery_url ''http'' host p])
                 (ports_to_try port))"

fun try_urls ::
    "(string \<Rightarrow> (TransportDiscoveryError, ProtocolDiscoveryResponse) result outcome) \<Rightarrow>
     string list \<Rightarrow> ProtocolDiscoveryResponse option outcome" where
  "try_urls fetch [] = Returned None"
| "try_urls fetch (u # us) =
     (case fetch u of
        Panicked \<Rightarrow> Panicked
      | Returned (Ok r) \<Rightarrow> Returned (Some r)
      | Returned (Err _) \<Rightarrow> try_urls fetch us)"

definition discover ::
    "(string \<Rightarrow> (TransportDiscoveryError, ProtocolDiscoveryResponse) result outcome) \<Rightarrow>
     string \<Rightarrow> u16 \<Rightarrow> (TransportDiscoveryError, ProtocolDiscoveryResponse) result outcome" where
  "discover fetch host port =
     and_then (try_urls fetch (discovery_urls host port))
       (\<lambda>found. Returned (Ok (case found of Some r \<Rightarrow> r | None \<Rightarrow> quic_only port)))"

record DiscoveredTransport =
  dt_protocol :: TransportProtocol
  dt_address :: SocketAddr
  dt_path :: "string option"
  dt_full_response :: "ProtocolDiscoveryResponse option"

definition at_endpoint ::
    "ProtocolDiscoveryResponse \<Rightarrow> SocketAddr \<Rightarrow> TransportEndpoint \<Rightarrow> DiscoveredTransport" where
  "at_endpoint response base_addr e =
     \<lparr>dt_protocol = te_protocol e, dt_address = \<lparr>sa_ip = sa_ip base_addr, sa_port = te_port e\<rparr>,
      dt_path = te_path e, dt_full_response = Some response\<rparr>"

definition select_best ::
    "ProtocolDiscoveryResponse \<Rightarrow> SocketAddr \<Rightarrow> TransportProtocol option \<Rightarrow>
     (TransportDiscoveryError, DiscoveredTransport) result" where
  "select_best response base_addr preferred =
     (case Option.bind preferred (find_transport response) of
        Some e \<Rightarrow> Ok (at_endpoint response base_addr e)
      | None \<Rightarrow>
          (case best_transport response of
             None \<Rightarrow> Err NoTransports
           | Some e \<Rightarrow> Ok (at_endpoint response base_addr e)))"

definition discover_and_select ::
    "(string \<Rightarrow> (TransportDiscoveryError, ProtocolDiscoveryResponse) result outcome) \<Rightarrow>
     string \<Rightarrow> u16 \<Rightarrow> SocketAddr \<Rightarrow> TransportProtocol option \<Rightarrow>
     (TransportDiscoveryError, DiscoveredTransport) result outcome" where
  "discover_and_select fetch host port base_addr preferred =
     and_then (discover fetch host port)
       (\<lambda>r. Returned (case r of Err e \<Rightarrow> Err e
                      | Ok response \<Rightarrow> select_best response base_addr preferred))"

section \<open>Choosing a relay\<close>

record RelayEndpoint =
  re_protocol :: string
  re_address :: string
  re_capacity :: u32
  re_priority :: u32

record Location =
  city :: string
  state :: string
  country :: string
  continent :: string

record RelayInfo =
  ri_id :: string
  ri_name :: string
  ri_region :: string
  ri_location :: Location
  ri_endpoints :: "RelayEndpoint list"
  ri_status :: string
  ri_tags :: "string list"

record SelectionPolicy =
  prefer_same_region :: bool
  fallback_to_nearest :: bool
  consider_capacity :: bool
  only_active :: bool
  include_tags :: "string list"
  exclude_tags :: "string list"

record RegionGroup =
  rg_name :: string
  rg_regions :: "string list"
  rg_fallback_order :: "string list"

record GlobalConfig =
  gc_default_protocol :: string
  gc_connection_timeout :: u64
  gc_health_check_interval :: u64

record RelayConfig =
  rc_version :: u32
  rc_config :: GlobalConfig
  relays :: "RelayInfo list"
  region_groups :: "RegionGroup list"
  selection_policies :: "string \<rightharpoonup> SelectionPolicy"

datatype RelayError = NoMatchingRelay | InvalidProtocol string

definition relays_by_region :: "RelayConfig \<Rightarrow> string \<Rightarrow> RelayInfo list" where
  "relays_by_region c region =
     filter (\<lambda>r. ri_region r = region \<and> ri_status r = ''active'') (relays c)"

definition relays_by_tag :: "RelayConfig \<Rightarrow> string \<Rightarrow> RelayInfo list" where
  "relays_by_tag c tag = filter (\<lambda>r. tag \<in> set (ri_tags r) \<and> ri_status r = ''active'') (relays c)"

definition endpoint_for :: "string \<Rightarrow> RelayInfo \<Rightarrow> RelayEndpoint option" where
  "endpoint_for protocol r = find (\<lambda>e. re_protocol e = protocol) (ri_endpoints r)"

definition relay_matches :: "SelectionPolicy \<Rightarrow> string \<Rightarrow> RelayInfo \<Rightarrow> bool" where
  "relay_matches policy protocol r =
     (if only_active policy \<and> ri_status r \<noteq> ''active'' then False
      else if include_tags policy \<noteq> [] \<and> \<not> list_ex (\<lambda>tag. tag \<in> set (ri_tags r)) (include_tags policy)
        then False
      else if list_ex (\<lambda>tag. tag \<in> set (ri_tags r)) (exclude_tags policy) then False
      else list_ex (\<lambda>e. re_protocol e = protocol) (ri_endpoints r))"

text \<open>The comparison unwraps both endpoints, which exist for every candidate.\<close>

definition relay_cmp :: "SelectionPolicy \<Rightarrow> string \<Rightarrow> RelayInfo \<Rightarrow> RelayInfo \<Rightarrow> ordering" where
  "relay_cmp policy protocol a b =
     (case (endpoint_for protocol a, endpoint_for protocol b) of
        (Some x, Some y) \<Rightarrow>
          (case cmp (re_priority x) (re_priority y) of
             Equal \<Rightarrow> if consider_capacity policy then cmp (re_capacity y) (re_capacity x) else Equal
           | other \<Rightarrow> other)
      | _ \<Rightarrow> Equal)"

definition candidates ::
    "RelayConfig \<Rightarrow> SelectionPolicy \<Rightarrow> string \<Rightarrow> string option \<Rightarrow> RelayInfo list" where
  "candidates c policy protocol preferred_region =
     (let matching = filter (relay_matches policy protocol) (relays c)
      in case preferred_region of
           Some region \<Rightarrow>
             if prefer_same_region policy then
               (let same = filter (\<lambda>r. ri_region r = region) matching
                in if same \<noteq> [] then same else matching)
             else matching
         | None \<Rightarrow> matching)"

definition select_relay ::
    "RelayConfig \<Rightarrow> string \<Rightarrow> string option \<Rightarrow> string option \<Rightarrow> (RelayError, string) result" where
  "select_relay c protocol preferred_region policy_name =
     (case selection_policies c (case policy_name of None \<Rightarrow> ''auto'' | Some n \<Rightarrow> n) of
        None \<Rightarrow> Err NoMatchingRelay
      | Some policy \<Rightarrow>
          if filter (relay_matches policy protocol) (relays c) = [] then Err NoMatchingRelay
          else (case sort_by (relay_cmp policy protocol) (candidates c policy protocol preferred_region) of
                  [] \<Rightarrow> Err NoMatchingRelay
                | best # _ \<Rightarrow>
                    (case endpoint_for protocol best of
                       None \<Rightarrow> Err (InvalidProtocol protocol)
                     | Some e \<Rightarrow> Ok (re_address e))))"

definition default_protocol :: "RelayConfig \<Rightarrow> string" where
  "default_protocol c = gc_default_protocol (rc_config c)"

definition list_regions :: "RelayConfig \<Rightarrow> string list" where
  "list_regions c =
     remdups_adj (sort (map ri_region (filter (\<lambda>r. ri_status r = ''active'') (relays c))))"

definition get_relay_by_id :: "RelayConfig \<Rightarrow> string \<Rightarrow> RelayInfo option" where
  "get_relay_by_id c i = find (\<lambda>r. ri_id r = i) (relays c)"

definition get_fallback_regions :: "RelayConfig \<Rightarrow> string \<Rightarrow> string list" where
  "get_fallback_regions c region =
     (case find (\<lambda>g. region \<in> set (rg_regions g)) (region_groups c) of
        None \<Rightarrow> []
      | Some g \<Rightarrow> rg_fallback_order g)"

section \<open>Selecting a transport\<close>

lemma transport_str_roundtrip: "transport_from_str (transport_display p) = Ok p"
  by (cases p)
    (simp_all add: transport_from_str_def Let_def to_lowercase_def lower_char_def is_ascii_upper_def)

lemma find_transport_Some:
  "find_transport r p = Some e \<longleftrightarrow>
     (\<exists>as bs. transports r = as @ e # bs \<and> te_enabled e \<and> te_protocol e = p \<and>
        (\<forall>x \<in> set as. te_enabled x \<longrightarrow> te_protocol x \<noteq> p))"
  unfolding find_transport_def find_Some_iff2 [symmetric]
proof
  assume "find (\<lambda>t. te_protocol t = p \<and> te_enabled t) (transports r) = Some e"
  then obtain i where i: "i < length (transports r)" "te_protocol (transports r ! i) = p"
      "te_enabled (transports r ! i)" "e = transports r ! i"
      "\<forall>j<i. \<not> (te_protocol (transports r ! j) = p \<and> te_enabled (transports r ! j))"
    by (auto simp: find_Some_iff)
  from i(1,4) have "transports r = take i (transports r) @ e # drop (Suc i) (transports r)"
    by (simp add: id_take_nth_drop)
  moreover have "\<forall>x \<in> set (take i (transports r)). te_enabled x \<longrightarrow> te_protocol x \<noteq> p"
    using i(5) by (auto simp: in_set_conv_nth)
  ultimately show "\<exists>as bs. transports r = as @ e # bs \<and> te_enabled e \<and> te_protocol e = p \<and>
      (\<forall>x \<in> set as. te_enabled x \<longrightarrow> te_protocol x \<noteq> p)"
    using i(2-4) by blast
next
  have find_append: "find P (xs @ ys) = (case find P xs of None \<Rightarrow> find P ys | Some x \<Rightarrow> Some x)"
    for P :: "TransportEndpoint \<Rightarrow> bool" and xs ys by (induction xs) auto
  assume "\<exists>as bs. transports r = as @ e # bs \<and> te_enabled e \<and> te_protocol e = p \<and>
      (\<forall>x \<in> set as. te_enabled x \<longrightarrow> te_protocol x \<noteq> p)"
  then obtain as bs where *: "transports r = as @ e # bs" "te_enabled e" "te_protocol e = p"
      "\<forall>x \<in> set as. te_enabled x \<longrightarrow> te_protocol x \<noteq> p" by blast
  then have "find (\<lambda>t. te_protocol t = p \<and> te_enabled t) as = None"
    by (auto simp: find_None_iff)
  with * show "find (\<lambda>t. te_protocol t = p \<and> te_enabled t) (transports r) = Some e"
    by (simp add: find_append)
qed

lemma find_transport_None:
  "find_transport r p = None \<longleftrightarrow> (\<forall>x \<in> set (transports r). te_enabled x \<longrightarrow> te_protocol x \<noteq> p)"
  by (auto simp: find_transport_def find_None_iff)

lemma filter_split:
  "filter P xs = as @ e # bs \<Longrightarrow>
     \<exists>as' bs'. xs = as' @ e # bs' \<and> filter P as' = as \<and> filter P bs' = bs"
proof (induction xs arbitrary: as)
  case (Cons x xs)
  show ?case
  proof (cases "P x")
    case True
    show ?thesis
    proof (cases as)
      case Nil
      with Cons.prems True show ?thesis by (intro exI [of _ "[]"] exI [of _ xs]) simp
    next
      case (Cons a as')
      with Cons.prems True Cons.IH [of as'] obtain u v where
        "xs = u @ e # v" "filter P u = as'" "filter P v = bs" by auto
      with True Cons Cons.prems show ?thesis by (intro exI [of _ "x # u"] exI [of _ v]) simp
    qed
  next
    case False
    with Cons.prems Cons.IH [of as] obtain u v where
      "xs = u @ e # v" "filter P u = as" "filter P v = bs" by auto
    with False show ?thesis by (intro exI [of _ "x # u"] exI [of _ v]) simp
  qed
qed simp

lemma sorted_transports_sort_key:
  "sorted_transports r =
     sort_key (\<lambda>e. - int (unat (priority (te_protocol e)))) (filter te_enabled (transports r))"
  unfolding sorted_transports_def
  by (rule sort_by_sort_key) (simp add: word_less_def)

lemma best_transport_None:
  "best_transport r = None \<longleftrightarrow> (\<forall>e \<in> set (transports r). \<not> te_enabled e)"
proof -
  have "best_transport r = None \<longleftrightarrow> set (sorted_transports r) = {}"
    by (auto simp: best_transport_def split: list.splits)
  then show ?thesis by (auto simp: sorted_transports_def)
qed

lemma best_transport_Some:
  assumes "best_transport r = Some e"
  shows "\<exists>as bs. transports r = as @ e # bs \<and> te_enabled e \<and>
    (\<forall>x \<in> set as. te_enabled x \<longrightarrow> priority (te_protocol x) < priority (te_protocol e)) \<and>
    (\<forall>x \<in> set bs. te_enabled x \<longrightarrow> priority (te_protocol x) \<le> priority (te_protocol e))"
proof -
  let ?on = "filter te_enabled (transports r)"
  let ?key = "\<lambda>e. - int (unat (priority (te_protocol e)))"
  from assms have e: "sort_key ?key ?on \<noteq> []" "hd (sort_key ?key ?on) = e"
    by (auto simp: best_transport_def sorted_transports_sort_key split: list.splits)
  then have "?on \<noteq> []" by auto
  from hd_sort_key [OF this, of ?key] e(2) obtain as bs where on: "?on = as @ e # bs"
    and as: "\<forall>a \<in> set as. ?key e < ?key a" and bs: "\<forall>b \<in> set bs. ?key e \<le> ?key b" by auto
  from filter_split [OF on] obtain as' bs' where ts: "transports r = as' @ e # bs'"
    and f: "filter te_enabled as' = as" "filter te_enabled bs' = bs" by blast
  have "e \<in> set ?on" by (simp add: on)
  then have "te_enabled e" by simp
  moreover have "\<forall>x \<in> set as'. te_enabled x \<longrightarrow> priority (te_protocol x) < priority (te_protocol e)"
    using as f(1) by (auto simp: word_less_def)
  moreover have "\<forall>x \<in> set bs'. te_enabled x \<longrightarrow> priority (te_protocol x) \<le> priority (te_protocol e)"
    using bs f(2) by (auto simp: word_le_def)
  ultimately show ?thesis using ts by blast
qed

text \<open>
  Transport selection: it fails only when no endpoint is enabled; it takes the first enabled
  endpoint of the preferred protocol when there is one, and otherwise the first of the enabled
  endpoints with the highest priority, at the relay's address and the endpoint's port.
\<close>

theorem select_best_spec:
  "(\<forall>x. select_best r a pref = Err x \<longleftrightarrow>
      x = NoTransports \<and> (\<forall>e \<in> set (transports r). \<not> te_enabled e)) \<and>
   (\<forall>d. select_best r a pref = Ok d \<longrightarrow>
      (\<exists>as e bs. transports r = as @ e # bs \<and> te_enabled e \<and> d = at_endpoint r a e \<and>
         (if \<exists>x \<in> set (transports r). te_enabled x \<and> pref = Some (te_protocol x)
          then pref = Some (te_protocol e) \<and>
               (\<forall>x \<in> set as. te_enabled x \<longrightarrow> te_protocol x \<noteq> te_protocol e)
          else (\<forall>x \<in> set as. te_enabled x \<longrightarrow> priority (te_protocol x) < priority (te_protocol e)) \<and>
               (\<forall>x \<in> set bs. te_enabled x \<longrightarrow> priority (te_protocol x) \<le> priority (te_protocol e)))))"
proof (cases "Option.bind pref (find_transport r)")
  case (Some e)
  then obtain p where p: "pref = Some p" "find_transport r p = Some e" by (cases pref) auto
  then obtain as bs where e: "transports r = as @ e # bs" "te_enabled e" "te_protocol e = p"
      "\<forall>x \<in> set as. te_enabled x \<longrightarrow> te_protocol x \<noteq> p"
    by (auto simp: find_transport_Some)
  have "select_best r a pref = Ok (at_endpoint r a e)" by (simp add: select_best_def Some)
  moreover have "\<exists>x \<in> set (transports r). te_enabled x \<and> pref = Some (te_protocol x)"
    using e p by auto
  ultimately show ?thesis using e p by (auto intro!: exI [of _ as])
next
  case None
  then have none: "\<not> (\<exists>x \<in> set (transports r). te_enabled x \<and> pref = Some (te_protocol x))"
    by (cases pref) (auto simp: find_transport_None)
  show ?thesis
  proof (cases "best_transport r")
    case None': None
    then have "select_best r a pref = Err NoTransports" by (simp add: select_best_def None)
    with None' show ?thesis by (auto simp: best_transport_None)
  next
    case (Some e)
    then have "\<exists>x \<in> set (transports r). te_enabled x"
      using best_transport_None [of r] by auto
    moreover have "select_best r a pref = Ok (at_endpoint r a e)" by (simp add: select_best_def None Some)
    ultimately show ?thesis using best_transport_Some [OF Some] none by auto
  qed
qed

definition demo_response :: ProtocolDiscoveryResponse where
  "demo_response = with_h2 8443 (with_websocket 443 ''/localup'' (with_quic 4443 discovery_default))"

theorem select_best_spec_witness:
  "\<exists>d. select_best demo_response \<lparr>sa_ip = V4 0x7F000001, sa_port = 9\<rparr> (Some H2) = Ok d \<and>
       dt_protocol d = H2 \<and> sa_ip (dt_address d) = V4 0x7F000001"
proof -
  let ?a = "\<lparr>sa_ip = V4 0x7F000001, sa_port = 9\<rparr>"
  have ts: "transports demo_response =
      [\<lparr>te_protocol = Quic, te_port = 4443, te_path = None, te_enabled = True\<rparr>,
       \<lparr>te_protocol = WebSocket, te_port = 443, te_path = Some ''/localup'', te_enabled = True\<rparr>,
       \<lparr>te_protocol = H2, te_port = 8443, te_path = None, te_enabled = True\<rparr>]"
    by (simp add: demo_response_def with_h2_def with_websocket_def with_quic_def with_transport_def
          discovery_default_def)
  note S = select_best_spec [of demo_response ?a "Some H2"]
  from S obtain d where d: "select_best demo_response ?a (Some H2) = Ok d"
    by (cases "select_best demo_response ?a (Some H2)") (auto simp: ts)
  have ex: "\<exists>x \<in> set (transports demo_response). te_enabled x \<and> Some H2 = Some (te_protocol x)"
    by (simp add: ts)
  from mp [OF spec [OF conjunct2 [OF S]] d] obtain e where
    "d = at_endpoint demo_response ?a e" "Some H2 = Some (te_protocol e)"
    unfolding if_P [OF ex] by blast
  with d show ?thesis by (simp add: at_endpoint_def)
qed

section \<open>Discovery\<close>

lemma try_urls_cases:
  assumes "\<forall>u \<in> set us. fetch u \<noteq> Panicked"
  shows "(\<exists>as u bs r. us = as @ u # bs \<and> fetch u = Returned (Ok r) \<and>
            (\<forall>x \<in> set as. \<exists>e. fetch x = Returned (Err e)) \<and> try_urls fetch us = Returned (Some r)) \<or>
         (try_urls fetch us = Returned None \<and> (\<forall>x \<in> set us. \<exists>e. fetch x = Returned (Err e)))"
  using assms
proof (induction us)
  case (Cons u us)
  consider (ok) r where "fetch u = Returned (Ok r)" | (err) e where "fetch u = Returned (Err e)"
    using Cons.prems by (cases "fetch u") (auto, metis sumE)
  then show ?case
  proof cases
    case ok
    then show ?thesis
      by (intro disjI1 exI [of _ "[]"] exI [of _ u] exI [of _ us] exI [of _ r]) simp
  next
    case err
    with Cons have IH: "(\<exists>as u bs r. us = as @ u # bs \<and> fetch u = Returned (Ok r) \<and>
            (\<forall>x \<in> set as. \<exists>e. fetch x = Returned (Err e)) \<and> try_urls fetch us = Returned (Some r)) \<or>
         (try_urls fetch us = Returned None \<and> (\<forall>x \<in> set us. \<exists>e. fetch x = Returned (Err e)))"
      by simp
    then show ?thesis
    proof (elim disjE exE conjE)
      fix as v bs r
      assume "us = as @ v # bs" "fetch v = Returned (Ok r)"
        "\<forall>x \<in> set as. \<exists>e. fetch x = Returned (Err e)" "try_urls fetch us = Returned (Some r)"
      with err show ?thesis
        by (intro disjI1 exI [of _ "u # as"] exI [of _ v] exI [of _ bs] exI [of _ r]) auto
    qed (use err in auto)
  qed
qed simp

text \<open>
  Discovery never fails unless it panics: it returns the document of the first of the sixteen
  URLs that answers with one, and the QUIC-only document for the given port when none does.
\<close>

theorem discover_first_answer:
  assumes "\<forall>u \<in> set (discovery_urls host port). fetch u \<noteq> Panicked"
  shows "\<exists>r. discover fetch host port = Returned (Ok r) \<and>
    ((\<exists>us u vs. discovery_urls host port = us @ u # vs \<and> fetch u = Returned (Ok r) \<and>
        (\<forall>x \<in> set us. \<exists>e. fetch x = Returned (Err e))) \<or>
     r = quic_only port \<and> (\<forall>x \<in> set (discovery_urls host port). \<exists>e. fetch x = Returned (Err e)))"
  using try_urls_cases [OF assms]
proof (elim disjE exE conjE)
  fix us u vs r
  assume "discovery_urls host port = us @ u # vs" "fetch u = Returned (Ok r)"
    "\<forall>x \<in> set us. \<exists>e. fetch x = Returned (Err e)"
    "try_urls fetch (discovery_urls host port) = Returned (Some r)"
  then show ?thesis unfolding discover_def by (intro exI [of _ r] conjI disjI1) (simp, blast)
qed (simp add: discover_def)

theorem discover_first_answer_witness:
  "\<exists>r. discover (\<lambda>u. Returned (Err DiscoveryTimeout)) ''relay'' 4443 = Returned (Ok r) \<and>
       r = quic_only 4443"
proof -
  have "discovery_urls ''relay'' 4443 \<noteq> []" by (simp add: discovery_urls_def ports_to_try_def)
  then show ?thesis
    using discover_first_answer [of "''relay''" 4443 "\<lambda>u. Returned (Err DiscoveryTimeout)"] by auto
qed

section \<open>Reading the answer\<close>

lemma next_line_crlf:
  "LF \<notin> set l \<Longrightarrow> next_line (as_bytes (l @ crlf) @ rest) = (as_bytes (l @ crlf), rest)"
proof (induction l)
  case Nil
  show ?case by (simp add: as_bytes_def crlf_def CR_def LF_def)
next
  case (Cons c l)
  then show ?case by (auto simp: as_bytes_def)
qed

lemma read_headers_line:
  assumes "LF \<notin> set l" "list_all (\<lambda>c. of_char c < (128::nat)) l" "l \<noteq> []"
  shows "read_headers (as_bytes (l @ crlf) @ rest) headers cl =
           read_headers rest (headers @ l @ crlf) (content_length_of (l @ crlf) cl)"
proof -
  have "from_utf8 (as_bytes (l @ crlf)) = Some (l @ crlf)"
    by (rule from_utf8_as_bytes) (use assms crlf_ascii in simp)
  moreover have "l @ crlf \<noteq> crlf" using assms(3) by simp
  ultimately show ?thesis
    by (subst read_headers.simps) (simp add: next_line_crlf [OF assms(1)] assms(3) del: as_bytes_append)
qed

lemma read_headers_end: "read_headers (as_bytes crlf @ rest) headers cl = Ok (headers, cl, rest)"
proof -
  have "next_line (as_bytes crlf @ rest) = (as_bytes crlf, rest)" using next_line_crlf [of "[]"] by simp
  moreover have "from_utf8 (as_bytes crlf) = Some crlf" by (rule from_utf8_as_bytes [OF crlf_ascii])
  ultimately show ?thesis by (subst read_headers.simps) simp
qed

lemma trim_append_crlf: "trim (s @ crlf) = trim s"
proof -
  have ws: "dropWhile is_whitespace crlf = []" "dropWhile is_whitespace (rev crlf) = []"
    by (simp_all add: crlf_def is_whitespace_def CR_def LF_def)
  show ?thesis
  proof (cases "\<forall>x \<in> set s. is_whitespace x")
    case True
    moreover from this ws(1) have "\<forall>x \<in> set (s @ crlf). is_whitespace x"
      by (auto simp: dropWhile_eq_Nil_conv)
    ultimately have "dropWhile is_whitespace s = []" "dropWhile is_whitespace (s @ crlf) = []"
      by (simp_all add: dropWhile_eq_Nil_conv)
    then show ?thesis unfolding trim_def by (simp only:)
  next
    case False
    then have "dropWhile is_whitespace (s @ crlf) = dropWhile is_whitespace s @ crlf"
      by (auto intro: dropWhile_append1)
    moreover have "dropWhile is_whitespace (rev (u @ crlf)) = dropWhile is_whitespace (rev u)" for u
      using ws by (simp add: dropWhile_append2 crlf_def is_whitespace_def CR_def LF_def)
    ultimately show ?thesis by (simp add: trim_def)
  qed
qed

lemma content_length_of_line:
  "n < 2 ^ 64 \<Longrightarrow> content_length_of (''Content-Length: '' @ show_nat n @ crlf) old = Some n"
proof -
  assume n: "n < 2 ^ 64"
  have low: "starts_with (to_lowercase (''Content-Length: '' @ show_nat n @ crlf)) ''content-length:''"
  proof -
    have "to_lowercase ''Content-Length: '' = ''content-length: ''" by code_simp
    then have "to_lowercase (''Content-Length: '' @ show_nat n @ crlf)
        = ''content-length: '' @ to_lowercase (show_nat n @ crlf)"
      by (simp only: to_lowercase_def map_append)
    then show ?thesis by (simp add: starts_with_def)
  qed
  have nocolon: "CHR '':'' \<notin> set ('' '' @ show_nat n @ crlf)"
    using show_nat_digits [of "CHR '':''" n] by (auto simp: is_ascii_digit_def crlf_def CR_def LF_def)
  then have "split_char CHR '':'' ('' '' @ show_nat n @ crlf) = ['' '' @ show_nat n @ crlf]"
  proof -
    have "CHR '':'' \<notin> set s \<Longrightarrow> split_char CHR '':'' s = [s]" for s by (induction s) auto
    then show ?thesis using nocolon by blast
  qed
  then have "split_char CHR '':'' (''Content-Length: '' @ show_nat n @ crlf)
      = [''Content-Length'', '' '' @ show_nat n @ crlf]" by simp
  moreover have "trim ('' '' @ show_nat n @ crlf) = show_nat n"
    using trim_append_crlf [of "'' '' @ show_nat n"] by (simp add: trim_space)
  ultimately show ?thesis
    using low n unfolding content_length_of_def by (simp only: if_True list.case parse_uint_show_nat)
qed

definition answer_200 :: "nat \<Rightarrow> bytes \<Rightarrow> bytes" where
  "answer_200 n body =
     as_bytes (''HTTP/1.1 200 OK'' @ crlf) @ as_bytes ((''Content-Length: '' @ show_nat n) @ crlf) @
     as_bytes crlf @ body"

text \<open>
  A successful answer that declares its length is parsed from exactly that many bytes of its
  body; too short a body is an error, and a length above the largest allocation makes the client
  panic.
\<close>

theorem read_discovery_answer:
  assumes "n < 2 ^ 64" "utf8_valid (take n body)"
  shows "read_discovery parse_json utf8_text (answer_200 n body) =
    (if 2 ^ 63 \<le> n then Panicked
     else if length body < n then Returned (Err (FetchFailed ''early eof''))
     else Returned (map_err InvalidResponse (parse_json (map char_of_byte (take n body)))))"
proof -
  let ?st = "''HTTP/1.1 200 OK''" and ?cl = "''Content-Length: '' @ show_nat n"
  have st: "content_length_of (?st @ crlf) None = None"
  proof -
    have "to_lowercase ?st = ''http/1.1 200 ok''" by code_simp
    then have "to_lowercase (?st @ crlf) = ''http/1.1 200 ok'' @ to_lowercase crlf"
      by (simp only: to_lowercase_def map_append)
    then show ?thesis by (simp add: content_length_of_def starts_with_def)
  qed
  have cl: "content_length_of (?cl @ crlf) None = Some n"
    using content_length_of_line [OF assms(1)] by simp
  have "read_headers (answer_200 n body) [] None =
      read_headers (as_bytes (?cl @ crlf) @ as_bytes crlf @ body) (?st @ crlf) None"
  proof -
    have l: "LF \<notin> set ?st" "list_all (\<lambda>c. of_char c < (128::nat)) ?st" "?st \<noteq> []"
      by (simp_all add: LF_def)
    show ?thesis unfolding answer_200_def by (simp only: read_headers_line [OF l] st append_Nil)
  qed
  also have "\<dots> = read_headers (as_bytes crlf @ body) ((?st @ crlf) @ ?cl @ crlf) (Some n)"
  proof -
    have l: "LF \<notin> set ?cl" "list_all (\<lambda>c. of_char c < (128::nat)) ?cl" "?cl \<noteq> []"
      using show_nat_ascii [of n] by (simp_all add: LF_def)
    show ?thesis by (simp only: read_headers_line [OF l] cl)
  qed
  finally have h: "read_headers (answer_200 n body) [] None
      = Ok ((?st @ crlf) @ ?cl @ crlf, Some n, body)"
    by (simp only: read_headers_end)
  have "starts_with ((?st @ crlf) @ ?cl @ crlf) ''HTTP/1.1 200''" by (simp add: starts_with_def)
  then show ?thesis
    using assms(2) by (simp add: read_discovery_def h from_utf8_def)
qed

theorem read_discovery_answer_witness:
  "read_discovery (\<lambda>s. Ok discovery_default) (\<lambda>b. []) (answer_200 2 (as_bytes ''{}'')) =
     Returned (Ok discovery_default) \<and>
   read_discovery (\<lambda>s. Ok discovery_default) (\<lambda>b. []) (answer_200 (2 ^ 63) []) = Panicked"
proof -
  have "utf8_valid (take 2 (as_bytes ''{}''))" by (simp add: as_bytes_def byte_of_char_def)
  from read_discovery_answer [OF _ this, of "\<lambda>s. Ok discovery_default" "\<lambda>b. []"]
    read_discovery_answer [of "2 ^ 63" "[]" "\<lambda>s. Ok discovery_default" "\<lambda>b. []"]
  show ?thesis by simp
qed

section \<open>Selecting a relay\<close>

lemma relay_matches_endpoint: "relay_matches policy protocol r \<Longrightarrow> \<exists>e. endpoint_for protocol r = Some e"
  by (cases "endpoint_for protocol r")
     (auto simp: endpoint_for_def find_None_iff relay_matches_def list_ex_iff split: if_splits)

lemma candidates_sub:
  "set (candidates c policy protocol region) \<subseteq> {r \<in> set (relays c). relay_matches policy protocol r}"
  by (auto simp: candidates_def Let_def split: option.splits if_splits)

lemma candidates_Nil:
  "candidates c policy protocol region = [] \<longleftrightarrow> filter (relay_matches policy protocol) (relays c) = []"
  by (auto simp: candidates_def Let_def filter_empty_conv split: option.splits)

text \<open>The key the candidates are ordered by: priority, then capacity downwards if it counts.\<close>

definition relay_key :: "SelectionPolicy \<Rightarrow> string \<Rightarrow> RelayInfo \<Rightarrow> int \<times> int" where
  "relay_key policy protocol r =
     (case endpoint_for protocol r of
        Some e \<Rightarrow> (uint (re_priority e), if consider_capacity policy then - uint (re_capacity e) else 0)
      | None \<Rightarrow> (0, 0))"

lemma relay_cmp_key:
  assumes "endpoint_for protocol a = Some x" "endpoint_for protocol b = Some y"
  shows "relay_cmp policy protocol a b = Greater \<longleftrightarrow> relay_key policy protocol b < relay_key policy protocol a"
  using assms
  by (auto simp: relay_cmp_def relay_key_def cmp_def less_prod_def word_less_def word_uint_eq_iff)

text \<open>
  Relay selection: it fails exactly when the policy is unknown or no relay satisfies it and
  serves the protocol; otherwise the address belongs to a candidate of the preferred region, when
  there is one there, whose priority value is lowest and, if capacity counts, whose capacity is
  largest among those.
\<close>

theorem select_relay_spec:
  "(\<forall>x. select_relay c protocol region pname = Err x \<longleftrightarrow>
      x = NoMatchingRelay \<and>
      (case selection_policies c (case pname of None \<Rightarrow> ''auto'' | Some n \<Rightarrow> n) of
         None \<Rightarrow> True
       | Some policy \<Rightarrow> \<not> list_ex (relay_matches policy protocol) (relays c))) \<and>
   (\<forall>addr. select_relay c protocol region pname = Ok addr \<longrightarrow>
      (\<exists>policy r e.
         selection_policies c (case pname of None \<Rightarrow> ''auto'' | Some n \<Rightarrow> n) = Some policy \<and>
         r \<in> set (candidates c policy protocol region) \<and>
         endpoint_for protocol r = Some e \<and> addr = re_address e \<and>
         (\<forall>r' \<in> set (candidates c policy protocol region). \<exists>e'.
            endpoint_for protocol r' = Some e' \<and> re_priority e \<le> re_priority e' \<and>
            (consider_capacity policy \<and> re_priority e = re_priority e' \<longrightarrow>
               re_capacity e' \<le> re_capacity e))))"
proof (cases "selection_policies c (case pname of None \<Rightarrow> ''auto'' | Some n \<Rightarrow> n)")
  case None
  then show ?thesis by (auto simp: select_relay_def)
next
  case (Some policy)
  let ?cs = "candidates c policy protocol region"
  show ?thesis
  proof (cases "filter (relay_matches policy protocol) (relays c) = []")
    case True
    then have "\<not> list_ex (relay_matches policy protocol) (relays c)"
      by (auto simp: list_ex_iff filter_empty_conv)
    with True show ?thesis by (auto simp: select_relay_def Some)
  next
    case False
    then have ex: "list_ex (relay_matches policy protocol) (relays c)"
      by (auto simp: list_ex_iff filter_empty_conv)
    have cs: "?cs \<noteq> []" using False by (simp add: candidates_Nil)
    have ep: "\<exists>e. endpoint_for protocol r = Some e" if "r \<in> set ?cs" for r
      using candidates_sub that relay_matches_endpoint by blast
    have sorted: "sort_by (relay_cmp policy protocol) ?cs = sort_key (relay_key policy protocol) ?cs"
      by (rule sort_by_sort_key) (metis ep relay_cmp_key)
    define best where "best = hd (sort_key (relay_key policy protocol) ?cs)"
    have best: "sort_by (relay_cmp policy protocol) ?cs = best # tl (sort_key (relay_key policy protocol) ?cs)"
      unfolding sorted best_def using cs by (metis length_0_conv length_sort list.collapse)
    from hd_sort_key [OF cs, of "relay_key policy protocol"] obtain as bs where
      dec: "?cs = as @ best # bs" and
      le: "\<forall>a \<in> set as. relay_key policy protocol best < relay_key policy protocol a"
          "\<forall>b \<in> set bs. relay_key policy protocol best \<le> relay_key policy protocol b"
      unfolding best_def [symmetric] by blast
    have bcs: "best \<in> set ?cs" by (subst dec) simp
    then obtain e where e: "endpoint_for protocol best = Some e" using ep by blast
    have min: "relay_key policy protocol best \<le> relay_key policy protocol r'" if "r' \<in> set ?cs" for r'
      using that le by (subst (asm) dec) (auto simp: less_imp_le)
    have "\<exists>e'. endpoint_for protocol r' = Some e' \<and> re_priority e \<le> re_priority e' \<and>
            (consider_capacity policy \<and> re_priority e = re_priority e' \<longrightarrow>
               re_capacity e' \<le> re_capacity e)" if r': "r' \<in> set ?cs" for r'
    proof -
      obtain e' where e': "endpoint_for protocol r' = Some e'" using ep r' by blast
      then show ?thesis using min [OF r'] e
        by (auto simp: relay_key_def less_eq_prod_def word_le_def split: if_splits)
    qed
    moreover have "select_relay c protocol region pname = Ok (re_address e)"
      using False by (simp add: select_relay_def Some best e)
    ultimately show ?thesis using Some bcs e ex by auto
  qed
qed

definition demo_relay :: "string \<Rightarrow> string \<Rightarrow> u32 \<Rightarrow> RelayInfo" where
  "demo_relay i a prio =
     \<lparr>ri_id = i, ri_name = i, ri_region = ''eu-west'',
      ri_location = \<lparr>city = [], state = [], country = [], continent = []\<rparr>,
      ri_endpoints = [\<lparr>re_protocol = ''https'', re_address = a, re_capacity = 10, re_priority = prio\<rparr>],
      ri_status = ''active'', ri_tags = []\<rparr>"

definition demo_policy :: SelectionPolicy where
  "demo_policy =
     \<lparr>prefer_same_region = True, fallback_to_nearest = True, consider_capacity = True,
      only_active = True, include_tags = [], exclude_tags = []\<rparr>"

definition demo_relays :: RelayConfig where
  "demo_relays =
     \<lparr>rc_version = 1,
      rc_config = \<lparr>gc_default_protocol = ''https'', gc_connection_timeout = 30, gc_health_check_interval = 60\<rparr>,
      relays = [demo_relay ''a'' ''a.io:443'' 2, demo_relay ''b'' ''b.io:443'' 1],
      region_groups = [], selection_policies = [''auto'' \<mapsto> demo_policy]\<rparr>"

theorem select_relay_spec_witness: "select_relay demo_relays ''https'' None None = Ok ''b.io:443''"
proof -
  have m: "relay_matches demo_policy ''https'' (demo_relay i a p)" for i a p
    by (simp add: relay_matches_def demo_policy_def demo_relay_def)
  have c: "candidates demo_relays demo_policy ''https'' None =
      [demo_relay ''a'' ''a.io:443'' 2, demo_relay ''b'' ''b.io:443'' 1]"
    by (simp add: candidates_def demo_relays_def m)
  have e: "endpoint_for ''https'' (demo_relay i a p) =
      Some \<lparr>re_protocol = ''https'', re_address = a, re_capacity = 10, re_priority = p\<rparr>" for i a p
    by (simp add: endpoint_for_def demo_relay_def)
  note S = select_relay_spec [of demo_relays "''https''" None None]
  have "list_ex (relay_matches demo_policy ''https'') (relays demo_relays)"
    by (simp add: demo_relays_def m)
  then obtain ad where a: "select_relay demo_relays ''https'' None None = Ok ad"
    using conjunct1 [OF S]
    by (cases "select_relay demo_relays ''https'' None None") (auto simp: demo_relays_def)
  have p: "selection_policies demo_relays ''auto'' = Some policy \<longleftrightarrow> policy = demo_policy" for policy
    by (auto simp: demo_relays_def)
  from mp [OF spec [OF conjunct2 [OF S]] a] show ?thesis
    using a by (auto simp: p c e word_le_nat_alt)
qed

end
