(* ===== verification/ClientTunnel.thy ===== *)
theory ClientTunnel
  imports Discovery Agent Forwarding
begin

text \<open>
  The tunnel client (\<open>crates/localup-client\<close>): its configuration and builder (\<open>config.rs\<close>), its
  errors (\<open>client.rs\<close>), and of \<open>localup.rs\<close> the tunnel's identifier, the relay's address, the choice
  of relay and transport, the Connect message and the relay's answer, the control stream, and the
  dispatch of incoming streams to the local service. The hash is \<open>DefaultHasher\<close>, a function of
  the bytes fed to it, on a little-endian 64-bit machine; name resolution is a parameter.
\<close>

section \<open>Configuration\<close>

datatype ProtocolConfig =
    PcTcp u16 "u16 option"
  | PcTls u16 "string list" "u16 option"
  | PcHttp u16 "string option" "string option"
  | PcHttps u16 "string option" "string option"

record ClientConfig =
  cc_local_host :: string
  cc_protocols :: "ProtocolConfig list"
  cc_auth_token :: string
  cc_exit_node :: ExitNodeConfig
  cc_failover :: bool
  cc_connection_timeout :: nat
  cc_preferred_transport :: "TransportProtocol option"
  cc_http_auth :: HttpAuthConfig
  cc_ip_allowlist :: "string list"

definition client_config_default :: ClientConfig where
  "client_config_default =
     \<lparr>cc_local_host = ''localhost'', cc_protocols = [], cc_auth_token = [], cc_exit_node = Auto,
      cc_failover = True, cc_connection_timeout = 30 * second, cc_preferred_transport = None,
      cc_http_auth = AuthNone, cc_ip_allowlist = []\<rparr>"

definition builder_protocol :: "ProtocolConfig \<Rightarrow> ClientConfig \<Rightarrow> ClientConfig" where
  "builder_protocol p c = c\<lparr>cc_protocols := cc_protocols c @ [p]\<rparr>"

definition builder_auth_token :: "string \<Rightarrow> ClientConfig \<Rightarrow> ClientConfig" where
  "builder_auth_token t c = c\<lparr>cc_auth_token := t\<rparr>"

definition builder_build :: "ClientConfig \<Rightarrow> (string, ClientConfig) result" where
  "builder_build c =
     (if cc_auth_token c = [] then Err ''auth_token is required''
      else if cc_protocols c = [] then Err ''at least one protocol must be configured''
      else Ok c)"

datatype TunnelError =
    ConnectionError string
  | ConfigError string
  | TunnelAuthenticationFailed string
  | NetworkError string
  | ProtocolError string
  | TunnelClosed string

definition is_non_recoverable :: "TunnelError \<Rightarrow> bool" where
  "is_non_recoverable e \<longleftrightarrow>
     (case e of TunnelAuthenticationFailed _ \<Rightarrow> True | ConfigError _ \<Rightarrow> True | _ \<Rightarrow> False)"

section \<open>The tunnel's identifier\<close>

text \<open>What the \<open>Hash\<close> implementations of the standard library feed to a hasher.\<close>

definition hash_str :: "string \<Rightarrow> bytes" where
  "hash_str s = as_bytes s @ [0xFF]"

definition hash_u16 :: "u16 \<Rightarrow> bytes" where
  "hash_u16 w = rev (u16_to_be_bytes w)"

definition hash_u32 :: "u32 \<Rightarrow> bytes" where
  "hash_u32 w = rev (u32_to_be_bytes w)"

definition hash_option :: "('a \<Rightarrow> bytes) \<Rightarrow> 'a option \<Rightarrow> bytes" where
  "hash_option h x =
     (case x of
        None \<Rightarrow> [0, 0, 0, 0, 0, 0, 0, 0]
      | Some v \<Rightarrow> [1, 0, 0, 0, 0, 0, 0, 0] @ h v)"

fun hash_protocol :: "ProtocolConfig \<Rightarrow> bytes" where
  "hash_protocol (PcHttp port subdomain custom_domain) =
     hash_str ''http'' @ hash_u16 port @ hash_option hash_str subdomain @ hash_option hash_str custom_domain"
| "hash_protocol (PcHttps port subdomain custom_domain) =
     hash_str ''https'' @ hash_u16 port @ hash_option hash_str subdomain @ hash_option hash_str custom_domain"
| "hash_protocol (PcTcp port remote_port) =
     hash_str ''tcp'' @ hash_u16 port @ hash_option hash_u16 remote_port"
| "hash_protocol (PcTls port sni_hostnames http_port) =
     hash_str ''tls'' @ hash_u16 port @ hash_option hash_u16 http_port @ concat (map hash_str sni_hostnames)"

text \<open>\<open>{:0wx}\<close> of a number below \<open>16 ^ w\<close>.\<close>

definition hex_digit :: "nat \<Rightarrow> char" where
  "hex_digit d = char_of (if d < 10 then 48 + d else 87 + d)"

fun hex_fixed :: "nat \<Rightarrow> nat \<Rightarrow> string" where
  "hex_fixed 0 n = []"
| "hex_fixed (Suc k) n = hex_fixed k (n div 16) @ [hex_digit (n mod 16)]"

definition localup_id_of_hash :: "u64 \<Rightarrow> string" where
  "localup_id_of_hash h =
     (let n = unat h in
      hex_fixed 8 (n div 2 ^ 32) @ ''-'' @ hex_fixed 4 (n div 2 ^ 16 mod 2 ^ 16) @ ''-''
      @ hex_fixed 4 (n mod 2 ^ 16) @ ''-'' @ hex_fixed 4 (n div 2 ^ 48 mod 2 ^ 16) @ ''-''
      @ hex_fixed 12 (n mod 2 ^ 48))"

definition generate_localup_id :: "(bytes \<Rightarrow> u64) \<Rightarrow> string \<Rightarrow> ProtocolConfig list \<Rightarrow> string" where
  "generate_localup_id hasher token ps =
     localup_id_of_hash (hasher (hash_str token @ concat (map hash_protocol ps)))"

definition generate_short_id :: "(bytes \<Rightarrow> u64) \<Rightarrow> u32 \<Rightarrow> string" where
  "generate_short_id hasher stream_id = hex_fixed 8 (unat (hasher (hash_u32 stream_id)) mod 2 ^ 32)"

section \<open>Relay and transport\<close>

fun relay_error_display :: "RelayError \<Rightarrow> string" where
  "relay_error_display NoMatchingRelay = ''No relay found matching criteria''"
| "relay_error_display (InvalidProtocol p) = ''Invalid protocol: '' @ p"

definition relay_protocol :: "ProtocolConfig \<Rightarrow> string" where
  "relay_protocol p = (case p of PcHttp _ _ _ \<Rightarrow> ''https'' | PcHttps _ _ _ \<Rightarrow> ''https'' | _ \<Rightarrow> ''tcp'')"

text \<open>The relay's address: given, or chosen from the built-in list (\<open>relay_list\<close>, when it parses).\<close>

definition choose_relay ::
    "(string, RelayConfig) result \<Rightarrow> ClientConfig \<Rightarrow> (TunnelError, string) result" where
  "choose_relay relay_list c =
     (case cc_exit_node c of
        Custom a \<Rightarrow> Ok a
      | _ \<Rightarrow>
          (case relay_list of
             Err e \<Rightarrow> Err (ConnectionError (''Failed to initialize relay discovery: '' @ e))
           | Ok rc \<Rightarrow>
               (case cc_protocols c of
                  [] \<Rightarrow> Err (ConnectionError ''No protocol configured'')
                | p # _ \<Rightarrow>
                    (case select_relay rc (relay_protocol p) None None of
                       Err e \<Rightarrow> Err (ConnectionError (''Failed to select relay: '' @ relay_error_display e))
                     | Ok a \<Rightarrow> Ok a))))"

definition strip_scheme :: "string \<Rightarrow> string" where
  "strip_scheme s =
     trim_start_matches ''quic://'' (trim_start_matches ''http://'' (trim_start_matches ''https://'' s))"

definition is_ipv4 :: "SocketAddr \<Rightarrow> bool" where
  "is_ipv4 a = (case sa_ip a of V4 _ \<Rightarrow> True | V6 _ \<Rightarrow> False)"

definition prefer_ipv4 :: "SocketAddr list \<Rightarrow> SocketAddr option" where
  "prefer_ipv4 as =
     (case find is_ipv4 as of
        Some a \<Rightarrow> Some a
      | None \<Rightarrow> (case as of [] \<Rightarrow> None | a # _ \<Rightarrow> Some a))"

definition parse_relay_address ::
    "(string \<Rightarrow> (string, SocketAddr list) result) \<Rightarrow> string \<Rightarrow> (TunnelError, string \<times> SocketAddr) result" where
  "parse_relay_address lookup_host addr_str =
     (let a = strip_scheme addr_str in
      case socket_from_str a of
        Some sock \<Rightarrow> Ok (ip_display (sa_ip sock), sock)
      | None \<Rightarrow>
          (let host_port =
             (case rsplit_once CHR '':'' a of
                Some (host, port_str) \<Rightarrow>
                  (case parse_u16 port_str of
                     None \<Rightarrow> Err (ConnectionError (''Invalid port '' @ [CHR 0x27] @ port_str @ [CHR 0x27]
                               @ '' in relay address '' @ [CHR 0x27] @ addr_str @ [CHR 0x27]))
                   | Some p \<Rightarrow> Ok (host, p))
              | None \<Rightarrow> Ok (a, 4443))
           in case host_port of
                Err e \<Rightarrow> Err e
              | Ok (hostname, port) \<Rightarrow>
                  (case lookup_host (hostname @ '':'' @ show_nat (unat port)) of
                     Err e \<Rightarrow> Err (ConnectionError (''Failed to resolve hostname '' @ [CHR 0x27] @ hostname
                               @ [CHR 0x27] @ '': '' @ e))
                   | Ok addrs \<Rightarrow>
                       (case prefer_ipv4 addrs of
                          None \<Rightarrow> Err (ConnectionError (''No addresses found for hostname '' @ [CHR 0x27]
                                    @ hostname @ [CHR 0x27]))
                        | Some sock \<Rightarrow> Ok (hostname, sock)))))"

text \<open>
  The transport: what discovery selects, and QUIC at the relay's address when it fails. WebSocket is
  refused; for the others \<open>dial\<close> is the result of connecting and opening the control stream.
\<close>

definition choose_transport ::
    "(string \<Rightarrow> (TransportDiscoveryError, ProtocolDiscoveryResponse) result outcome) \<Rightarrow> ClientConfig \<Rightarrow>
     string \<Rightarrow> SocketAddr \<Rightarrow> DiscoveredTransport outcome" where
  "choose_transport fetch c hostname relay_addr =
     and_then (discover_and_select fetch hostname (sa_port relay_addr) relay_addr (cc_preferred_transport c))
       (\<lambda>r. Returned (case r of
                Ok d \<Rightarrow> d
              | Err _ \<Rightarrow> \<lparr>dt_protocol = Quic, dt_address = relay_addr, dt_path = None, dt_full_response = None\<rparr>))"

definition open_control ::
    "(TransportProtocol \<Rightarrow> SocketAddr \<Rightarrow> string \<Rightarrow> (string, unit) result) \<Rightarrow> DiscoveredTransport \<Rightarrow> string \<Rightarrow>
     (TunnelError, TransportProtocol) result" where
  "open_control dial d hostname =
     (case dt_protocol d of
        WebSocket \<Rightarrow> Err (ConnectionError ''WebSocket transport not yet implemented'')
      | p \<Rightarrow>
          (case dial p (dt_address d) hostname of
             Err e \<Rightarrow> Err (ConnectionError e)
           | Ok _ \<Rightarrow> Ok p))"

section \<open>Connecting\<close>

fun protocol_of_config :: "ProtocolConfig \<Rightarrow> Protocol" where
  "protocol_of_config (PcHttp _ subdomain custom_domain) = Http subdomain custom_domain"
| "protocol_of_config (PcHttps _ subdomain custom_domain) = Https subdomain custom_domain"
| "protocol_of_config (PcTcp _ remote_port) = Tcp (case remote_port of Some p \<Rightarrow> p | None \<Rightarrow> 0)"
| "protocol_of_config (PcTls _ sni_hostnames _) =
     Tls 8443 (if sni_hostnames = [] then [''*''] else sni_hostnames)"

definition connect_message :: "(bytes \<Rightarrow> u64) \<Rightarrow> ClientConfig \<Rightarrow> TunnelMessage" where
  "connect_message hasher c =
     Connect (generate_localup_id hasher (cc_auth_token c) (cc_protocols c)) (cc_auth_token c)
       (map protocol_of_config (cc_protocols c))
       \<lparr>local_host = cc_local_host c, local_port = None, local_https = False, exit_node = cc_exit_node c,
        failover = cc_failover c, ip_allowlist = cc_ip_allowlist c, enable_compression = False,
        enable_multiplexing = True, http_auth = cc_http_auth c\<rparr>"

definition connect_response ::
    "(string, TunnelMessage option) result \<Rightarrow> (TunnelError, string \<times> Endpoint list) result" where
  "connect_response received =
     (case received of
        Ok (Some (Connected tid endpoints)) \<Rightarrow> Ok (tid, endpoints)
      | Ok (Some (Disconnect reason)) \<Rightarrow>
          if list_ex (contains_sub reason)
               [''Authentication failed'', ''JWT'', ''InvalidToken'', ''authentication'']
          then Err (TunnelAuthenticationFailed reason) else Err (ConnectionError reason)
      | Ok (Some _) \<Rightarrow> Err (ConnectionError ''Unexpected response'')
      | Ok None \<Rightarrow> Err (ConnectionError ''Connection closed'')
      | Err e \<Rightarrow> Err (ConnectionError e))"

text \<open>
  \<open>connect\<close>, with the network's part as parameters: \<open>exchange\<close> is the answer to the Connect message
  over the opened control stream, or the error of sending it.
\<close>

definition client_tunnel_connect ::
    "(string, RelayConfig) result \<Rightarrow> (string \<Rightarrow> (string, SocketAddr list) result) \<Rightarrow>
     (string \<Rightarrow> (TransportDiscoveryError, ProtocolDiscoveryResponse) result outcome) \<Rightarrow>
     (TransportProtocol \<Rightarrow> SocketAddr \<Rightarrow> string \<Rightarrow> (string, unit) result) \<Rightarrow>
     (TransportProtocol \<Rightarrow> TunnelMessage \<Rightarrow> (string, (string, TunnelMessage option) result) result) \<Rightarrow>
     (bytes \<Rightarrow> u64) \<Rightarrow> ClientConfig \<Rightarrow> (TunnelError, string \<times> Endpoint list) result outcome" where
  "client_tunnel_connect relay_list lookup_host fetch dial exchange hasher c =
     (case choose_relay relay_list c of
        Err e \<Rightarrow> Returned (Err e)
      | Ok relay_addr_str \<Rightarrow>
          (case parse_relay_address lookup_host relay_addr_str of
             Err e \<Rightarrow> Returned (Err e)
           | Ok (hostname, relay_addr) \<Rightarrow>
               and_then (choose_transport fetch c hostname relay_addr) (\<lambda>d.
                 Returned
                   (case open_control dial d hostname of
                      Err e \<Rightarrow> Err e
                    | Ok transport \<Rightarrow>
                        (case exchange transport (connect_message hasher c) of
                           Err e \<Rightarrow> Err (ConnectionError (''Failed to send Connect: '' @ e))
                         | Ok received \<Rightarrow> connect_response received)))))"

section \<open>The running tunnel\<close>

text \<open>
  The control stream's task, one turn: the shutdown signal sends a disconnect and ends the task
  (after waiting for the acknowledgement), a ping is answered.
\<close>

datatype (plugins only: size) client_control_event =
    ShutdownRequested
  | ControlMessage "(string, TunnelMessage option) result"

definition client_control_step :: "bool \<Rightarrow> client_control_event \<Rightarrow> TunnelMessage list \<times> bool" where
  "client_control_step send_ok e =
     (case e of
        ShutdownRequested \<Rightarrow> ([Disconnect ''Client shutdown''], False)
      | ControlMessage (Ok (Some (Ping timestamp))) \<Rightarrow> ([Pong timestamp], send_ok)
      | ControlMessage (Ok (Some (Disconnect _))) \<Rightarrow> ([], False)
      | ControlMessage (Ok (Some _)) \<Rightarrow> ([], True)
      | ControlMessage (Ok None) \<Rightarrow> ([], False)
      | ControlMessage (Err _) \<Rightarrow> ([], False))"

text \<open>The main loop: it ends with an error when no further stream can be accepted.\<close>

definition accept_result :: "(string, unit option) result \<Rightarrow> (TunnelError, unit) result" where
  "accept_result r =
     (case r of
        Ok (Some _) \<Rightarrow> Ok ()
      | Ok None \<Rightarrow> Err (ConnectionError ''Relay server closed connection'')
      | Err e \<Rightarrow> Err (ConnectionError (''Stream error: '' @ e)))"

text \<open>
  The first message of an accepted stream decides what is done with it: nothing, a reply and nothing
  more, or serving it from a local address. \<open>over_h2\<close>: the tunnel runs over HTTP/2, which the byte
  streams do not support.
\<close>

datatype (plugins only: size) stream_action =
    Ignored
  | Replied TunnelMessage
  | ServeHttpRequest u32 string string "(string \<times> string) list" "bytes option"
  | ServeTransparent u32 string bytes
  | ServeTcp u32 string
  | ServeTls u32 string bytes

definition http_local_port :: "ClientConfig \<Rightarrow> u16 option" where
  "http_local_port c =
     (case find (\<lambda>p. case p of PcHttp _ _ _ \<Rightarrow> True | PcHttps _ _ _ \<Rightarrow> True | _ \<Rightarrow> False) (cc_protocols c) of
        Some (PcHttp p _ _) \<Rightarrow> Some p
      | Some (PcHttps p _ _) \<Rightarrow> Some p
      | _ \<Rightarrow> None)"

definition tcp_local_port :: "ClientConfig \<Rightarrow> u16 option" where
  "tcp_local_port c = (case cc_protocols c of PcTcp p _ # _ \<Rightarrow> Some p | _ \<Rightarrow> None)"

definition http_methods :: "string list" where
  "http_methods = [''GET '', ''POST '', ''PUT '', ''DELETE '', ''HEAD '', ''OPTIONS '', ''PATCH '', ''CONNECT '']"

definition starts_with_any :: "string list \<Rightarrow> bytes \<Rightarrow> bool" where
  "starts_with_any ps d = list_ex (\<lambda>p. starts_with d (as_bytes p)) ps"

definition tls_local_port :: "ClientConfig \<Rightarrow> bytes \<Rightarrow> u16 option" where
  "tls_local_port c client_hello =
     (case cc_protocols c of
        PcTls tls_port _ http_port # _ \<Rightarrow>
          Some (if starts_with_any http_methods client_hello
                then (case http_port of Some p \<Rightarrow> p | None \<Rightarrow> tls_port) else tls_port)
      | _ \<Rightarrow> None)"

definition local_addr :: "ClientConfig \<Rightarrow> u16 \<Rightarrow> string" where
  "local_addr c port = cc_local_host c @ '':'' @ show_nat (unat port)"

definition dispatch_stream ::
    "ClientConfig \<Rightarrow> bool \<Rightarrow> (string, TunnelMessage option) result \<Rightarrow> stream_action" where
  "dispatch_stream c over_h2 received =
     (case received of
        Ok (Some (HttpRequest stream_id req_method uri headers body)) \<Rightarrow>
          ServeHttpRequest stream_id req_method uri headers body
      | Ok (Some (HttpStreamConnect stream_id _ initial_data)) \<Rightarrow>
          if over_h2 then Ignored
          else (case http_local_port c of
                  None \<Rightarrow> Replied (HttpStreamClose stream_id)
                | Some p \<Rightarrow> ServeTransparent stream_id (local_addr c p) initial_data)
      | Ok (Some (TcpConnect stream_id _ _)) \<Rightarrow>
          if over_h2 then Ignored
          else (case tcp_local_port c of
                  None \<Rightarrow> Ignored
                | Some p \<Rightarrow> ServeTcp stream_id (local_addr c p))
      | Ok (Some (TlsConnect stream_id _ client_hello)) \<Rightarrow>
          if over_h2 then Ignored
          else (case tls_local_port c client_hello of
                  None \<Rightarrow> Replied (TlsClose stream_id)
                | Some p \<Rightarrow> ServeTls stream_id (local_addr c p) client_hello)
      | _ \<Rightarrow> Ignored)"

section \<open>Identifiers\<close>

text \<open>A Rust string is UTF-8, which never contains the byte \<open>0xFF\<close> that ends a hashed string.\<close>

definition no_ff :: "string \<Rightarrow> bool" where
  "no_ff s \<longleftrightarrow> 0xFF \<notin> set (as_bytes s)"

lemma as_bytes_inject: "as_bytes s = as_bytes t \<longleftrightarrow> s = t"
  by (metis map_char_of_byte_as_bytes)

lemma hash_str_cancel:
  assumes "no_ff s" "no_ff t"
  shows "hash_str s @ xs = hash_str t @ ys \<longleftrightarrow> s = t \<and> xs = ys"
proof
  assume eq: "hash_str s @ xs = hash_str t @ ys"
  have tw: "takeWhile (\<lambda>b. b \<noteq> 0xFF) (hash_str u @ zs) = as_bytes u" if "no_ff u" for u zs
    using that unfolding hash_str_def no_ff_def append_assoc by (subst takeWhile_append2) auto
  have "as_bytes s = as_bytes t" using tw [OF assms(1), of xs] tw [OF assms(2), of ys] eq by simp
  with eq show "s = t \<and> xs = ys" by (simp add: as_bytes_inject)
qed simp

lemma hash_u16_cancel: "hash_u16 v @ xs = hash_u16 w @ ys \<longleftrightarrow> v = w \<and> xs = ys"
proof -
  have "length (hash_u16 v) = length (hash_u16 w)" by (simp add: hash_u16_def)
  moreover have "hash_u16 v = hash_u16 w \<longleftrightarrow> v = w"
    unfolding hash_u16_def by (metis rev_rev_ident u16_be_roundtrip)
  ultimately show ?thesis by simp
qed

lemma hash_option_cancel:
  assumes "\<And>v w xs ys. P v \<Longrightarrow> P w \<Longrightarrow> h v @ xs = h w @ ys \<longleftrightarrow> v = w \<and> xs = ys"
    and "pred_option P x" "pred_option P y"
  shows "hash_option h x @ xs = hash_option h y @ ys \<longleftrightarrow> x = y \<and> xs = ys"
  using assms by (cases x; cases y) (simp_all add: hash_option_def)

lemmas hash_option_str_cancel = hash_option_cancel [where P = no_ff and h = hash_str, OF hash_str_cancel]

lemma hash_option_u16_cancel:
  "hash_option hash_u16 x @ xs = hash_option hash_u16 y @ ys \<longleftrightarrow> x = y \<and> xs = ys"
  by (cases x; cases y) (simp_all add: hash_option_def hash_u16_cancel)

definition protocol_tags :: "string list" where
  "protocol_tags = [''http'', ''https'', ''tcp'', ''tls'']"

fun hashable :: "ProtocolConfig \<Rightarrow> bool" where
  "hashable (PcHttp _ s d) \<longleftrightarrow> pred_option no_ff s \<and> pred_option no_ff d"
| "hashable (PcHttps _ s d) \<longleftrightarrow> pred_option no_ff s \<and> pred_option no_ff d"
| "hashable (PcTcp _ _) \<longleftrightarrow> True"
| "hashable (PcTls _ hs _) \<longleftrightarrow> (\<forall>h \<in> set hs. no_ff h \<and> h \<notin> set protocol_tags)"

fun tag_of :: "ProtocolConfig \<Rightarrow> string" where
  "tag_of (PcHttp _ _ _) = ''http''"
| "tag_of (PcHttps _ _ _) = ''https''"
| "tag_of (PcTcp _ _) = ''tcp''"
| "tag_of (PcTls _ _ _) = ''tls''"

fun fields_of :: "ProtocolConfig \<Rightarrow> bytes" where
  "fields_of (PcHttp p s d) = hash_u16 p @ hash_option hash_str s @ hash_option hash_str d"
| "fields_of (PcHttps p s d) = hash_u16 p @ hash_option hash_str s @ hash_option hash_str d"
| "fields_of (PcTcp p r) = hash_u16 p @ hash_option hash_u16 r"
| "fields_of (PcTls p hs r) = hash_u16 p @ hash_option hash_u16 r @ concat (map hash_str hs)"

lemma hash_protocol_split: "hash_protocol p = hash_str (tag_of p) @ fields_of p"
  by (cases p) simp_all

lemma tag_of_tags: "tag_of p \<in> set protocol_tags"
  by (cases p) (simp_all add: protocol_tags_def)

lemma tag_no_ff: "no_ff (tag_of p)"
  by (cases p) (simp_all add: no_ff_def as_bytes_def byte_of_char_def)

lemma hash_str_not_Nil [simp]: "hash_str s \<noteq> []"
  by (simp add: hash_str_def)

text \<open>The host names of a TLS protocol are not confused with the protocol that follows.\<close>

lemma hash_names_cancel:
  assumes "\<forall>h \<in> set hs. no_ff h \<and> h \<notin> set protocol_tags"
    and "\<forall>h \<in> set hs'. no_ff h \<and> h \<notin> set protocol_tags"
    and "concat (map hash_str hs) @ concat (map hash_protocol ps)
           = concat (map hash_str hs') @ concat (map hash_protocol qs)"
  shows "hs = hs' \<and> concat (map hash_protocol ps) = concat (map hash_protocol qs)"
proof -
  have clash: False
    if "no_ff h" "h \<notin> set protocol_tags" "hash_str h @ xs = concat (map hash_protocol rs)" for h xs rs
    using that tag_of_tags tag_no_ff
    by (cases rs) (auto simp: hash_protocol_split hash_str_cancel)
  show ?thesis
    using assms
  proof (induction hs arbitrary: hs')
    case Nil
    show ?case
    proof (cases hs')
      case (Cons h t)
      with Nil.prems have "hash_str h @ (concat (map hash_str t) @ concat (map hash_protocol qs))
          = concat (map hash_protocol ps)" by simp
      with clash [of h] Nil.prems Cons show ?thesis by auto
    qed (use Nil.prems in simp)
  next
    case (Cons h hs)
    show ?case
    proof (cases hs')
      case Nil
      with Cons.prems have "hash_str h @ (concat (map hash_str hs) @ concat (map hash_protocol ps))
          = concat (map hash_protocol qs)" by simp
      with clash [of h] Cons.prems show ?thesis by auto
    next
      case (Cons h' t)
      with Cons.prems have "h = h'" "concat (map hash_str hs) @ concat (map hash_protocol ps)
          = concat (map hash_str t) @ concat (map hash_protocol qs)"
        by (simp_all add: hash_str_cancel)
      with Cons.IH [of t] Cons.prems Cons show ?thesis by simp
    qed
  qed
qed

lemma hash_protocol_cancel:
  assumes "hashable p" "hashable q"
    and "hash_protocol p @ concat (map hash_protocol ps) = hash_protocol q @ concat (map hash_protocol qs)"
  shows "p = q \<and> concat (map hash_protocol ps) = concat (map hash_protocol qs)"
proof -
  have tag: "tag_of p = tag_of q"
    and f: "fields_of p @ concat (map hash_protocol ps) = fields_of q @ concat (map hash_protocol qs)"
    using assms(3) by (simp_all add: hash_protocol_split hash_str_cancel tag_no_ff)
  show ?thesis
  proof (cases p)
    case (PcTls a hs r)
    with tag obtain b hs' r' where q: "q = PcTls b hs' r'" by (cases q) simp_all
    from f have "a = b" "r = r'" "concat (map hash_str hs) @ concat (map hash_protocol ps)
        = concat (map hash_str hs') @ concat (map hash_protocol qs)"
      by (simp_all add: PcTls q hash_u16_cancel hash_option_u16_cancel)
    with hash_names_cancel [of hs hs' ps qs] assms(1,2) show ?thesis by (simp add: PcTls q)
  qed (use tag f assms(1,2) in \<open>cases q; simp add: hash_u16_cancel hash_option_str_cancel hash_option_u16_cancel\<close>)+
qed

lemma hash_protocols_inject:
  assumes "list_all hashable ps" "list_all hashable qs"
    and "concat (map hash_protocol ps) = concat (map hash_protocol qs)"
  shows "ps = qs"
  using assms
proof (induction ps arbitrary: qs)
  case Nil
  then show ?case by (cases qs) (auto simp: hash_protocol_split)
next
  case (Cons p ps)
  show ?case
  proof (cases qs)
    case Nil
    with Cons.prems show ?thesis by (simp add: hash_protocol_split)
  next
    case (Cons q qs')
    with Cons.prems have "p = q \<and> concat (map hash_protocol ps) = concat (map hash_protocol qs')"
      by (intro hash_protocol_cancel) simp_all
    with Cons.IH [of qs'] Cons.prems Cons show ?thesis by simp
  qed
qed

lemma length_hex_fixed [simp]: "length (hex_fixed k n) = k"
  by (induction k arbitrary: n) auto

lemma hex_digit_inject: "a < 16 \<Longrightarrow> b < 16 \<Longrightarrow> hex_digit a = hex_digit b \<longleftrightarrow> a = b"
proof -
  assume ab: "a < 16" "b < 16"
  have inv: "(of_char (hex_digit d) :: nat) = (if d < 10 then 48 + d else 87 + d)" if "d < 16" for d
    using that by (simp add: hex_digit_def)
  show ?thesis
  proof
    assume "hex_digit a = hex_digit b"
    then have "(of_char (hex_digit a) :: nat) = of_char (hex_digit b)" by simp
    with ab show "a = b" by (simp add: inv split: if_splits)
  qed simp
qed

lemma hex_fixed_inject: "hex_fixed k m = hex_fixed k n \<Longrightarrow> m mod 16 ^ k = n mod 16 ^ k"
proof (induction k arbitrary: m n)
  case (Suc k)
  then have "hex_fixed k (m div 16) = hex_fixed k (n div 16)" "hex_digit (m mod 16) = hex_digit (n mod 16)"
    by simp_all
  then have "m div 16 mod 16 ^ k = n div 16 mod 16 ^ k" "m mod 16 = n mod 16"
    using Suc.IH [of "m div 16" "n div 16"] by (simp_all add: hex_digit_inject)
  then show ?case by (simp add: mod_mult2_eq)
qed simp

lemma localup_id_inject: "localup_id_of_hash g = localup_id_of_hash h \<longleftrightarrow> g = h"
proof
  assume eq: "localup_id_of_hash g = localup_id_of_hash h"
  let ?m = "unat g" and ?n = "unat h"
  have bound: "?m < 2 ^ 64" "?n < 2 ^ 64" using unsigned_less [of g, where ?'a = nat] unsigned_less [of h, where ?'a = nat] by simp_all
  from eq have "hex_fixed 8 (?m div 2 ^ 32) = hex_fixed 8 (?n div 2 ^ 32)"
    "hex_fixed 12 (?m mod 2 ^ 48) = hex_fixed 12 (?n mod 2 ^ 48)"
    by (simp_all add: localup_id_of_hash_def Let_def)
  then have hi: "?m div 2 ^ 32 = ?n div 2 ^ 32" and lo: "?m mod 2 ^ 48 = ?n mod 2 ^ 48"
    using bound by (auto dest!: hex_fixed_inject)
  have "?m mod 2 ^ 48 mod 2 ^ 32 = ?m mod 2 ^ 32" "?n mod 2 ^ 48 mod 2 ^ 32 = ?n mod 2 ^ 32"
    by (simp_all add: mod_mod_cancel)
  with lo have "?m mod 2 ^ 32 = ?n mod 2 ^ 32" by simp
  with hi have "?m = ?n" by (metis div_mult_mod_eq)
  then show "g = h" by (rule unsigned_word_eqI)
qed simp

text \<open>
  The tunnel's identifier depends on the token and on every parameter of every protocol: two
  configurations get the same identifier exactly when they are equal or the 64-bit hash itself
  collides, for UTF-8 strings and host names that are not one of the words http, https, tcp and tls.
\<close>

theorem localup_id_unique:
  assumes "no_ff token" "no_ff token'" "list_all hashable ps" "list_all hashable ps'"
  shows "generate_localup_id hasher token ps = generate_localup_id hasher token' ps' \<longleftrightarrow>
     (token = token' \<and> ps = ps') \<or>
     (let input = hash_str token @ concat (map hash_protocol ps);
          input' = hash_str token' @ concat (map hash_protocol ps')
      in input \<noteq> input' \<and> hasher input = hasher input')"
  using hash_protocols_inject [OF assms(3,4)] hash_str_cancel [OF assms(1,2)]
  by (auto simp: generate_localup_id_def localup_id_inject Let_def)

theorem localup_id_unique_witness:
  "generate_localup_id (\<lambda>bs. of_nat (length bs)) ''tok'' [PcTcp 80 None] =
   generate_localup_id (\<lambda>bs. of_nat (length bs)) ''tok'' [PcTcp 80 (Some 9)] \<longleftrightarrow> False"
  using localup_id_unique [of "''tok''" "''tok''" "[PcTcp 80 None]" "[PcTcp 80 (Some 9)]" "\<lambda>bs. of_nat (length bs)"]
  by (simp add: no_ff_def as_bytes_def byte_of_char_def hash_str_def hash_u16_def hash_option_def)

section \<open>Relay addresses\<close>

lemma trim_start_matches_prefix:
  "p \<noteq> [] \<Longrightarrow> trim_start_matches p (p @ s) = trim_start_matches p s"
  by (subst trim_start_matches.simps) simp

lemma trim_start_matches_other: "\<not> starts_with s p \<Longrightarrow> trim_start_matches p s = s"
  by (subst trim_start_matches.simps) simp

lemma trim_no_slash:
  assumes "CHR ''/'' \<notin> set s" "CHR ''/'' \<in> set p"
  shows "trim_start_matches p s = s"
  using assms by (intro trim_start_matches_other) (auto simp: starts_with_iff)

lemma strip_scheme_host:
  assumes "CHR ''/'' \<notin> set s" "scheme \<in> {[], ''https://'', ''http://'', ''quic://''}"
  shows "strip_scheme (scheme @ s) = s"
proof -
  note t = trim_no_slash [OF assms(1)]
  have 1: "trim_start_matches ''https://'' (''https://'' @ s) = s"
    "trim_start_matches ''http://'' (''http://'' @ s) = s"
    "trim_start_matches ''quic://'' (''quic://'' @ s) = s"
    by (subst trim_start_matches_prefix; simp add: t)+
  have 2: "trim_start_matches ''https://'' (''http://'' @ s) = ''http://'' @ s"
    "trim_start_matches ''https://'' (''quic://'' @ s) = ''quic://'' @ s"
    "trim_start_matches ''http://'' (''quic://'' @ s) = ''quic://'' @ s"
    by (rule trim_start_matches_other; simp add: starts_with_def)+
  from assms(2) show ?thesis
    unfolding strip_scheme_def using 1 2 t by auto
qed

text \<open>
  A relay given as host and port, with or without one of the three schemes, is resolved under
  that host name and port, and an IPv4 address is preferred; without a port it is 4443.
\<close>

theorem relay_address_resolved:
  fixes port :: "u16 option"
  assumes "scheme \<in> {[], ''https://'', ''http://'', ''quic://''}"
    and "CHR ''/'' \<notin> set host" "CHR '':'' \<notin> set host"
    and "tail = (case port of None \<Rightarrow> [] | Some p \<Rightarrow> CHR '':'' # show_nat (unat p))"
    and "socket_from_str (host @ tail) = None"
    and "lookup_host (host @ '':'' @ show_nat (unat (case port of None \<Rightarrow> 4443 | Some p \<Rightarrow> p))) = Ok addrs"
    and "prefer_ipv4 addrs = Some sock"
  shows "parse_relay_address lookup_host (scheme @ host @ tail) = Ok (host, sock)"
proof -
  have "CHR ''/'' \<notin> set (host @ tail)"
    using assms(2,4) show_nat_digits [of "CHR ''/''"] by (auto simp: is_ascii_digit_def split: option.splits)
  then have strip: "strip_scheme (scheme @ host @ tail) = host @ tail"
    using assms(1) by (rule strip_scheme_host)
  show ?thesis
  proof (cases port)
    case None
    have "rsplit_once CHR '':'' host = None"
      using assms(3) by (simp add: rsplit_once_def split_once_None)
    then show ?thesis using assms None strip by (simp add: parse_relay_address_def Let_def)
  next
    case (Some p)
    have "rsplit_once CHR '':'' (host @ tail) = Some (host, show_nat (unat p))"
      using Some assms(4) by (simp add: rsplit_once_append colon_notin_show_nat)
    moreover have "parse_u16 (show_nat (unat p)) = Some p"
      using unat_u16_bound [of p] by (simp add: parse_u16_def parse_uint_show_nat del: map_option_eq_Some)
    ultimately show ?thesis using assms Some strip by (simp add: parse_relay_address_def Let_def)
  qed
qed

theorem relay_address_resolved_witness:
  "parse_relay_address (\<lambda>_. Ok [\<lparr>sa_ip = V6 1, sa_port = 9\<rparr>, \<lparr>sa_ip = V4 5, sa_port = 9\<rparr>]) ''https://h:9''
     = Ok (''h'', \<lparr>sa_ip = V4 5, sa_port = 9\<rparr>)"
proof -
  have s: "show_nat 9 = ''9''" by (simp add: show_nat.simps char_of_def bit_simps)
  have n: "socket_from_str ''h:9'' = None"
    by (simp add: socket_from_str_def read_socket_v4_def read_socket_v6_def read_ipv4_addr_def read_octet_def
        read_separator_def read_number_def read_given_char_def to_digit_def is_ascii_digit_def is_ascii_lower_def is_ascii_upper_def)
  show ?thesis
    using relay_address_resolved [of "''https://''" "''h''" "'':9''" "Some 9"
        "\<lambda>_. Ok [\<lparr>sa_ip = V6 1, sa_port = 9\<rparr>, \<lparr>sa_ip = V4 5, sa_port = 9\<rparr>]"
        "[\<lparr>sa_ip = V6 1, sa_port = 9\<rparr>, \<lparr>sa_ip = V4 5, sa_port = 9\<rparr>]" "\<lparr>sa_ip = V4 5, sa_port = 9\<rparr>"]
    by (simp add: s n prefer_ipv4_def is_ipv4_def)
qed

section \<open>Transports\<close>

text \<open>
  The client cannot reach a relay that offers WebSocket and HTTP/2 but not QUIC, unless HTTP/2 is
  preferred explicitly: the selection takes WebSocket for its priority, and that is refused as not
  implemented although the HTTP/2 transport would work.
\<close>

theorem websocket_blocks_h2:
  assumes "choose_relay relay_list c = Ok relay" "parse_relay_address lookup_host relay = Ok (hostname, a)"
    and "discover fetch hostname (sa_port a) = Returned (Ok response)"
    and "\<forall>e \<in> set (transports response). te_enabled e \<longrightarrow> te_protocol e \<noteq> Quic"
    and "\<exists>e \<in> set (transports response). te_enabled e \<and> te_protocol e = WebSocket"
    and "cc_preferred_transport c \<noteq> Some H2"
  shows "client_tunnel_connect relay_list lookup_host fetch dial exchange hasher c
           = Returned (Err (ConnectionError ''WebSocket transport not yet implemented''))"
proof -
  have best: "best_transport response \<noteq> None" using assms(5) by (auto simp: best_transport_None)
  have "\<exists>d. select_best response a (cc_preferred_transport c) = Ok d \<and> dt_protocol d = WebSocket"
  proof (cases "Option.bind (cc_preferred_transport c) (find_transport response)")
    case (Some e)
    then obtain p where "cc_preferred_transport c = Some p" "find_transport response p = Some e"
      by (cases "cc_preferred_transport c") auto
    then have "te_enabled e" "te_protocol e = p" "e \<in> set (transports response)" "p \<noteq> H2"
      using assms(6) by (auto simp: find_transport_Some)
    with assms(4) have "te_protocol e = WebSocket" by (cases p) auto
    with Some show ?thesis by (simp add: select_best_def at_endpoint_def)
  next
    case None
    from best obtain e where e: "best_transport response = Some e" by blast
    from assms(5) obtain ws where ws: "ws \<in> set (transports response)" "te_enabled ws" "te_protocol ws = WebSocket"
      by blast
    from best_transport_Some [OF e] obtain as bs where split: "transports response = as @ e # bs" "te_enabled e"
      "\<forall>x \<in> set as. te_enabled x \<longrightarrow> priority (te_protocol x) < priority (te_protocol e)"
      "\<forall>x \<in> set bs. te_enabled x \<longrightarrow> priority (te_protocol x) \<le> priority (te_protocol e)" by blast
    have "priority WebSocket \<le> priority (te_protocol e)"
      using ws split(3,4) [THEN bspec, of ws] split(1) by auto
    with split(1,2) have "e \<in> set (transports response)" "te_enabled e" "te_protocol e \<noteq> H2" by auto
    with assms(4) have "te_protocol e = WebSocket" by (cases "te_protocol e") auto
    with None e show ?thesis by (simp add: select_best_def at_endpoint_def)
  qed
  with assms(1-3) show ?thesis
    by (auto simp: client_tunnel_connect_def choose_transport_def discover_and_select_def open_control_def)
qed

section \<open>Dispatch\<close>

text \<open>
  Only the first protocol of a configuration can be a TCP tunnel: a TCP protocol further down is
  announced to the relay, which opens a port for it, but every connection to that port is dropped
  by the client without an answer.
\<close>

theorem later_tcp_dropped:
  assumes "cc_protocols c = p # ps" "PcTcp lport rport \<in> set ps" "\<And>l r. p \<noteq> PcTcp l r"
  shows "\<exists>protos cfg. connect_message hasher c = Connect (generate_localup_id hasher (cc_auth_token c) (cc_protocols c))
           (cc_auth_token c) protos cfg \<and> Tcp (case rport of Some r \<Rightarrow> r | None \<Rightarrow> 0) \<in> set protos \<and>
         dispatch_stream c over_h2 (Ok (Some (TcpConnect stream_id remote remote_port))) = Ignored"
proof -
  have "Tcp (case rport of Some r \<Rightarrow> r | None \<Rightarrow> 0) \<in> set (map protocol_of_config (cc_protocols c))"
    using assms(1,2) by (force simp: image_iff intro: bexI [of _ "PcTcp lport rport"])
  moreover have "tcp_local_port c = None"
    using assms(1,3) by (cases p) (auto simp: tcp_local_port_def)
  ultimately show ?thesis by (simp add: connect_message_def dispatch_stream_def)
qed

definition demo_client_config :: ClientConfig where
  "demo_client_config = client_config_default\<lparr>cc_auth_token := ''t'', cc_exit_node := Custom ''r'',
     cc_protocols := [PcHttp 3000 (Some ''app'') None, PcTcp 5432 (Some 7000)]\<rparr>"

theorem later_tcp_dropped_witness:
  "\<exists>protos cfg. connect_message (\<lambda>_. 0) demo_client_config =
       Connect (generate_localup_id (\<lambda>_. 0) ''t'' (cc_protocols demo_client_config)) ''t'' protos cfg \<and>
     Tcp 7000 \<in> set protos \<and>
     dispatch_stream demo_client_config False (Ok (Some (TcpConnect 1 ''1.2.3.4'' 9))) = Ignored"
  using later_tcp_dropped [of demo_client_config "PcHttp 3000 (Some ''app'') None" "[PcTcp 5432 (Some 7000)]"
      5432 "Some 7000" "\<lambda>_. 0" False 1 "''1.2.3.4''" 9]
  by (simp add: demo_client_config_def client_config_default_def)




definition no_quic_response :: ProtocolDiscoveryResponse where
  "no_quic_response = with_h2 8443 (with_websocket 443 ''/localup'' discovery_default)"

theorem websocket_blocks_h2_witness:
  "client_tunnel_connect (Err []) (\<lambda>_. Ok [\<lparr>sa_ip = V4 5, sa_port = 9\<rparr>]) (\<lambda>_. Returned (Ok no_quic_response))
     (\<lambda>_ _ _. Ok ()) (\<lambda>_ _. Ok (Ok None)) (\<lambda>_. 0) demo_client_config
     = Returned (Err (ConnectionError ''WebSocket transport not yet implemented''))"
proof (rule websocket_blocks_h2)
  show "choose_relay (Err []) demo_client_config = Ok ''r''"
    by (simp add: choose_relay_def demo_client_config_def)
  show "parse_relay_address (\<lambda>_. Ok [\<lparr>sa_ip = V4 5, sa_port = 9\<rparr>]) ''r'' = Ok (''r'', \<lparr>sa_ip = V4 5, sa_port = 9\<rparr>)"
    by code_simp
  show "discover (\<lambda>_. Returned (Ok no_quic_response)) ''r'' (sa_port \<lparr>sa_ip = V4 5, sa_port = 9\<rparr>)
      = Returned (Ok no_quic_response)"
    by (simp add: discover_def discovery_urls_def ports_to_try_def)
qed (simp_all add: no_quic_response_def with_h2_def with_websocket_def with_transport_def discovery_default_def
      demo_client_config_def client_config_default_def)

end
