(* ===== verification/HttpAuth.thy ===== *)
theory HttpAuth
  imports Messages
begin

text \<open>
  HTTP authentication of visitors, \<open>crates/localup-http-auth/src\<close>: \<open>lib.rs\<close> (the provider trait,
  the authenticator and the header parser), \<open>basic.rs\<close>, \<open>bearer.rs\<close> and \<open>header.rs\<close>. Base64
  decoding is a library the crate calls and is the parameter \<open>b64\<close> of the Basic provider.
\<close>

datatype AuthResult = Authenticated | Unauthorized bytes

type_synonym headers = "(string \<times> string) list"

section \<open>No authentication\<close>

definition no_auth_authenticate :: "headers \<Rightarrow> AuthResult" where
  "no_auth_authenticate hs = Authenticated"

definition no_auth_response :: bytes where
  "no_auth_response =
     as_bytes (''HTTP/1.1 401 Unauthorized'' @ crlf @ ''Content-Length: 12'' @ crlf @ crlf @ ''Unauthorized'')"

section \<open>Basic\<close>

record BasicAuthProvider =
  valid_credentials :: "string set"
  realm :: string

definition basic_new :: "string list \<Rightarrow> BasicAuthProvider" where
  "basic_new credentials = \<lparr>valid_credentials = set credentials, realm = ''localup''\<rparr>"

definition basic_with_realm :: "string list \<Rightarrow> string \<Rightarrow> BasicAuthProvider" where
  "basic_with_realm credentials r = \<lparr>valid_credentials = set credentials, realm = r\<rparr>"

definition extract_credentials :: "(string \<Rightarrow> bytes option) \<Rightarrow> string \<Rightarrow> string option" where
  "extract_credentials b64 auth_header =
     (if \<not> starts_with (to_lowercase auth_header) ''basic '' then None
      else case b64 (trim (drop 6 auth_header)) of
             None \<Rightarrow> None
           | Some decoded \<Rightarrow> from_utf8 decoded)"

definition validate_credentials :: "BasicAuthProvider \<Rightarrow> string \<Rightarrow> bool" where
  "validate_credentials p credentials \<longleftrightarrow> credentials \<in> valid_credentials p"

definition quote_escaped :: "string \<Rightarrow> string" where
  "quote_escaped s = concat (map (\<lambda>c. if c = CHR 0x22 then [CHR 0x5C, CHR 0x22] else [c]) s)"

definition basic_response :: "BasicAuthProvider \<Rightarrow> bytes" where
  "basic_response p =
     as_bytes (''HTTP/1.1 401 Unauthorized'' @ crlf
       @ ''WWW-Authenticate: Basic realm='' @ [CHR 0x22] @ quote_escaped (realm p) @ [CHR 0x22] @ crlf
       @ ''Content-Type: text/plain'' @ crlf
       @ ''Content-Length: 32'' @ crlf @ crlf
       @ ''Authentication required (Basic)'')"

fun basic_authenticate ::
  "(string \<Rightarrow> bytes option) \<Rightarrow> BasicAuthProvider \<Rightarrow> headers \<Rightarrow> AuthResult" where
  "basic_authenticate b64 p [] = Unauthorized (basic_response p)"
| "basic_authenticate b64 p ((name, v) # hs) =
     (if to_lowercase name = ''authorization'' then
        (case extract_credentials b64 v of
           Some credentials \<Rightarrow>
             if validate_credentials p credentials then Authenticated else basic_authenticate b64 p hs
         | None \<Rightarrow> basic_authenticate b64 p hs)
      else basic_authenticate b64 p hs)"

section \<open>Bearer token\<close>

record BearerTokenProvider =
  valid_tokens :: "string set"

definition bearer_new :: "string list \<Rightarrow> BearerTokenProvider" where
  "bearer_new tokens = \<lparr>valid_tokens = set tokens\<rparr>"

definition extract_token :: "string \<Rightarrow> string option" where
  "extract_token auth_header =
     (if \<not> starts_with (to_lowercase auth_header) ''bearer '' then None
      else let token = trim (drop 7 auth_header) in if token = [] then None else Some token)"

definition bearer_response :: bytes where
  "bearer_response =
     as_bytes (''HTTP/1.1 401 Unauthorized'' @ crlf
       @ ''WWW-Authenticate: Bearer'' @ crlf
       @ ''Content-Type: text/plain'' @ crlf
       @ ''Content-Length: 33'' @ crlf @ crlf
       @ ''Authentication required (Bearer)'')"

fun bearer_authenticate :: "BearerTokenProvider \<Rightarrow> headers \<Rightarrow> AuthResult" where
  "bearer_authenticate p [] = Unauthorized bearer_response"
| "bearer_authenticate p ((name, v) # hs) =
     (if to_lowercase name = ''authorization'' then
        (case extract_token v of
           Some token \<Rightarrow> if token \<in> valid_tokens p then Authenticated else bearer_authenticate p hs
         | None \<Rightarrow> bearer_authenticate p hs)
      else bearer_authenticate p hs)"

section \<open>Custom header\<close>

record HeaderAuthProvider =
  header_name :: string
  valid_values :: "string set"

definition header_auth_new :: "string \<Rightarrow> string list \<Rightarrow> HeaderAuthProvider" where
  "header_auth_new name vs = \<lparr>header_name = name, valid_values = set vs\<rparr>"

definition header_response :: "HeaderAuthProvider \<Rightarrow> bytes" where
  "header_response p =
     as_bytes (''HTTP/1.1 401 Unauthorized'' @ crlf
       @ ''Content-Type: text/plain'' @ crlf
       @ ''Content-Length: 44'' @ crlf @ crlf
       @ ''Authentication required (header: '' @ header_name p @ '')'')"

fun header_authenticate :: "HeaderAuthProvider \<Rightarrow> headers \<Rightarrow> AuthResult" where
  "header_authenticate p [] = Unauthorized (header_response p)"
| "header_authenticate p ((name, v) # hs) =
     (if to_lowercase name = to_lowercase (header_name p) then
        if v \<in> valid_values p then Authenticated else header_authenticate p hs
      else header_authenticate p hs)"

section \<open>The authenticator\<close>

datatype HttpAuthenticator =
    NoAuthProvider
  | BasicProvider BasicAuthProvider
  | BearerProvider BearerTokenProvider
  | HeaderProvider HeaderAuthProvider

fun from_config :: "HttpAuthConfig \<Rightarrow> HttpAuthenticator" where
  "from_config AuthNone = NoAuthProvider"
| "from_config (AuthBasic credentials) = BasicProvider (basic_new credentials)"
| "from_config (AuthBearerToken tokens) = BearerProvider (bearer_new tokens)"
| "from_config (AuthHeader name vs) = HeaderProvider (header_auth_new name vs)"

fun authenticate :: "(string \<Rightarrow> bytes option) \<Rightarrow> HttpAuthenticator \<Rightarrow> headers \<Rightarrow> AuthResult" where
  "authenticate b64 NoAuthProvider hs = no_auth_authenticate hs"
| "authenticate b64 (BasicProvider p) hs = basic_authenticate b64 p hs"
| "authenticate b64 (BearerProvider p) hs = bearer_authenticate p hs"
| "authenticate b64 (HeaderProvider p) hs = header_authenticate p hs"

fun auth_type :: "HttpAuthenticator \<Rightarrow> string" where
  "auth_type NoAuthProvider = ''none''"
| "auth_type (BasicProvider _) = ''basic''"
| "auth_type (BearerProvider _) = ''bearer''"
| "auth_type (HeaderProvider _) = ''header''"

fun unauthorized_response :: "HttpAuthenticator \<Rightarrow> bytes" where
  "unauthorized_response NoAuthProvider = no_auth_response"
| "unauthorized_response (BasicProvider p) = basic_response p"
| "unauthorized_response (BearerProvider p) = bearer_response"
| "unauthorized_response (HeaderProvider p) = header_response p"

definition requires_auth :: "HttpAuthenticator \<Rightarrow> bool" where
  "requires_auth a \<longleftrightarrow> auth_type a \<noteq> ''none''"

section \<open>Headers of a raw request\<close>

fun header_lines :: "string list \<Rightarrow> headers" where
  "header_lines [] = []"
| "header_lines (line # ls) =
     (if line = [] then []
      else case find_char CHR '':'' line of
             Some colon_pos \<Rightarrow>
               (trim (take colon_pos line), trim (drop (colon_pos + 1) line)) # header_lines ls
           | None \<Rightarrow> header_lines ls)"

definition parse_headers_from_request :: "bytes \<Rightarrow> headers" where
  "parse_headers_from_request data = header_lines (drop 1 (str_lines (from_utf8_lossy data)))"

section \<open>The contract of a provider\<close>

text \<open>
  Every provider decides header by header: a request passes when authentication is not required or
  when some header is accepted, and is answered with the provider's 401 otherwise.
\<close>

locale http_auth_provider =
  fixes auth :: "'p \<Rightarrow> headers \<Rightarrow> AuthResult"
    and response :: "'p \<Rightarrow> bytes"
    and required :: "'p \<Rightarrow> bool"
    and accepts :: "'p \<Rightarrow> string \<times> string \<Rightarrow> bool"
  assumes auth_eq: "auth p hs =
    (if \<not> required p \<or> (\<exists>h \<in> set hs. accepts p h) then Authenticated else Unauthorized (response p))"
begin

lemma auth_iff: "auth p hs = Authenticated \<longleftrightarrow> \<not> required p \<or> (\<exists>h \<in> set hs. accepts p h)"
  by (simp add: auth_eq)

text \<open>Extra headers, before or after, never revoke a verdict; the order of headers is irrelevant.\<close>

lemma auth_mono: "auth p hs = Authenticated \<Longrightarrow> set hs \<subseteq> set hs' \<Longrightarrow> auth p hs' = Authenticated"
  by (auto simp: auth_iff)

lemma auth_set_cong: "set hs = set hs' \<Longrightarrow> auth p hs = auth p hs'"
  by (simp add: auth_eq)

lemma auth_no_headers: "required p \<Longrightarrow> auth p [] = Unauthorized (response p)"
  by (simp add: auth_eq)

end

fun basic_accepts :: "(string \<Rightarrow> bytes option) \<Rightarrow> string set \<Rightarrow> string \<times> string \<Rightarrow> bool" where
  "basic_accepts b64 creds (name, v) \<longleftrightarrow>
     to_lowercase name = ''authorization'' \<and> (\<exists>c \<in> creds. extract_credentials b64 v = Some c)"

fun bearer_accepts :: "string set \<Rightarrow> string \<times> string \<Rightarrow> bool" where
  "bearer_accepts toks (name, v) \<longleftrightarrow>
     to_lowercase name = ''authorization'' \<and> (\<exists>t \<in> toks. extract_token v = Some t)"

fun header_accepts :: "string \<Rightarrow> string set \<Rightarrow> string \<times> string \<Rightarrow> bool" where
  "header_accepts hname vs (name, v) \<longleftrightarrow> to_lowercase name = to_lowercase hname \<and> v \<in> vs"

interpretation no_auth: http_auth_provider
  "\<lambda>_::unit. no_auth_authenticate" "\<lambda>_. no_auth_response" "\<lambda>_. False" "\<lambda>_ _. False"
  by unfold_locales (simp add: no_auth_authenticate_def)

interpretation basic: http_auth_provider
  "basic_authenticate b64" basic_response "\<lambda>_. True" "\<lambda>p. basic_accepts b64 (valid_credentials p)"
proof
  fix p and hs :: headers
  show "basic_authenticate b64 p hs =
    (if \<not> True \<or> (\<exists>h \<in> set hs. basic_accepts b64 (valid_credentials p) h) then Authenticated
     else Unauthorized (basic_response p))"
    by (induction hs rule: basic_authenticate.induct)
       (simp_all add: validate_credentials_def split: option.splits)
qed

interpretation bearer: http_auth_provider
  bearer_authenticate "\<lambda>_. bearer_response" "\<lambda>_. True" "\<lambda>p. bearer_accepts (valid_tokens p)"
proof
  fix p and hs :: headers
  show "bearer_authenticate p hs =
    (if \<not> True \<or> (\<exists>h \<in> set hs. bearer_accepts (valid_tokens p) h) then Authenticated
     else Unauthorized bearer_response)"
    by (induction hs rule: bearer_authenticate.induct) (simp_all split: option.splits)
qed

interpretation header_auth: http_auth_provider
  header_authenticate header_response "\<lambda>_. True" "\<lambda>p. header_accepts (header_name p) (valid_values p)"
proof
  fix p and hs :: headers
  show "header_authenticate p hs =
    (if \<not> True \<or> (\<exists>h \<in> set hs. header_accepts (header_name p) (valid_values p) h) then Authenticated
     else Unauthorized (header_response p))"
    by (induction p hs rule: header_authenticate.induct) simp_all
qed

text \<open>The authenticator is itself a provider, with the verdicts of the one it wraps.\<close>

fun auth_accepts :: "(string \<Rightarrow> bytes option) \<Rightarrow> HttpAuthenticator \<Rightarrow> string \<times> string \<Rightarrow> bool" where
  "auth_accepts b64 NoAuthProvider h = False"
| "auth_accepts b64 (BasicProvider p) h = basic_accepts b64 (valid_credentials p) h"
| "auth_accepts b64 (BearerProvider p) h = bearer_accepts (valid_tokens p) h"
| "auth_accepts b64 (HeaderProvider p) h = header_accepts (header_name p) (valid_values p) h"

interpretation authenticator: http_auth_provider
  "authenticate b64" unauthorized_response requires_auth "auth_accepts b64"
proof
  fix a hs
  show "authenticate b64 a hs =
    (if \<not> requires_auth a \<or> (\<exists>h \<in> set hs. auth_accepts b64 a h) then Authenticated
     else Unauthorized (unauthorized_response a))"
    by (cases a) (simp_all add: requires_auth_def no_auth_authenticate_def basic.auth_eq bearer.auth_eq
        header_auth.auth_eq)
qed

section \<open>Properties\<close>

text \<open>
  C19 A tunnel's configuration decides who passes: without authentication everyone; with Basic or
  Bearer exactly the requests with some Authorization header that carries a configured credential
  or token; with a custom header exactly those with one of the configured values under that name,
  in any letter case. Everyone else gets the 401 response of the configured scheme.
\<close>

theorem authenticate_config:
  "authenticate b64 (from_config cfg) hs =
     (if (case cfg of
            AuthNone \<Rightarrow> True
          | AuthBasic creds \<Rightarrow>
              \<exists>name v c. (name, v) \<in> set hs \<and> to_lowercase name = ''authorization'' \<and>
                extract_credentials b64 v = Some c \<and> c \<in> set creds
          | AuthBearerToken toks \<Rightarrow>
              \<exists>name v t. (name, v) \<in> set hs \<and> to_lowercase name = ''authorization'' \<and>
                extract_token v = Some t \<and> t \<in> set toks
          | AuthHeader hname vs \<Rightarrow>
              \<exists>name v. (name, v) \<in> set hs \<and> to_lowercase name = to_lowercase hname \<and> v \<in> set vs)
      then Authenticated else Unauthorized (unauthorized_response (from_config cfg)))"
  unfolding authenticator.auth_eq
  by (cases cfg)
     (auto simp: requires_auth_def basic_new_def bearer_new_def header_auth_new_def Bex_def)

subsection \<open>Headers survive the wire\<close>

definition render_headers :: "headers \<Rightarrow> string" where
  "render_headers hs = concat (map (\<lambda>(n, v). n @ '': '' @ v @ crlf) hs)"

definition render_request :: "string \<Rightarrow> headers \<Rightarrow> bytes \<Rightarrow> bytes" where
  "render_request line hs body = as_bytes (line @ crlf @ render_headers hs @ crlf) @ body"

definition header_text :: "string \<Rightarrow> bool" where
  "header_text s \<longleftrightarrow> list_all (\<lambda>c. of_char c < (128::nat) \<and> c \<noteq> LF) s"

definition plain_header :: "string \<times> string \<Rightarrow> bool" where
  "plain_header = (\<lambda>(n, v). header_text n \<and> header_text v \<and> CHR '':'' \<notin> set n \<and> trim n = n \<and> trim v = v)"

lemma header_text_LF: "header_text s \<Longrightarrow> LF \<notin> set s"
  by (auto simp: header_text_def list_all_iff)

lemma header_lines_plain:
  assumes "plain_header (n, v)"
  shows "header_lines ((n @ '': '' @ v) # ls) = (n, v) # header_lines ls"
proof -
  have "find_char CHR '':'' (n @ '': '' @ v) = Some (length n)"
    using assms by (auto simp: find_char_Some plain_header_def)
  then show ?thesis
    using assms by (simp add: plain_header_def trim_space)
qed

lemma str_lines_headers:
  "list_all plain_header hs \<Longrightarrow>
     header_lines (str_lines (render_headers hs @ crlf @ rest)) = hs"
proof (induction hs)
  case Nil
  show ?case using str_lines_crlf [of "[]"] by (simp add: render_headers_def)
next
  case (Cons h hs)
  obtain n v where h: "h = (n, v)" by (cases h)
  have plain: "plain_header (n, v)" using Cons.prems h by simp
  moreover have "LF \<noteq> CHR '':''" "LF \<noteq> CHR '' ''" by (simp_all add: LF_def)
  ultimately have "LF \<notin> set (n @ '': '' @ v)"
    by (auto simp: plain_header_def dest: header_text_LF)
  from str_lines_crlf [OF this] show ?case
    using Cons by (simp add: h render_headers_def header_lines_plain [OF plain, simplified])
qed

lemma header_text_ascii: "header_text s \<Longrightarrow> list_all (\<lambda>c. of_char c < (128::nat)) s"
  by (simp add: header_text_def list_all_iff)

lemma render_headers_ascii:
  "list_all plain_header hs \<Longrightarrow> list_all (\<lambda>c. of_char c < (128::nat)) (render_headers hs)"
proof (induction hs)
  case (Cons h hs)
  obtain n v where h: "h = (n, v)" by (cases h)
  have "list_all (\<lambda>c. of_char c < (128::nat)) n" "list_all (\<lambda>c. of_char c < (128::nat)) v"
    using Cons.prems by (simp_all add: h plain_header_def header_text_ascii)
  with Cons crlf_ascii show ?case by (simp add: h render_headers_def)
qed (simp add: render_headers_def)

lemma lossy_render_request:
  assumes "header_text line" and "list_all plain_header hs"
  shows "from_utf8_lossy (render_request line hs body) =
    line @ crlf @ render_headers hs @ crlf @ from_utf8_lossy body"
proof -
  have "list_all (\<lambda>c. of_char c < (128::nat)) (line @ crlf @ render_headers hs @ crlf)"
    using render_headers_ascii [OF assms(2)] header_text_ascii [OF assms(1)] crlf_ascii by simp
  then show ?thesis by (simp add: render_request_def lossy_as_bytes)
qed

text \<open>
  The header parser inverts the wire format: whatever the request line and whatever bytes the
  body holds, the headers of a well-formed request come back in order, names and values intact, and
  nothing of the body is taken for a header.
\<close>

theorem parse_headers_roundtrip:
  assumes "header_text line" and "list_all plain_header hs"
  shows "parse_headers_from_request (render_request line hs body) = hs"
  using str_lines_headers [OF assms(2)] header_text_LF [OF assms(1)]
  by (simp add: parse_headers_from_request_def lossy_render_request [OF assms] str_lines_crlf)

theorem parse_headers_roundtrip_witness:
  "parse_headers_from_request
     (render_request ''GET / HTTP/1.1'' [(''Host'', ''a.b''), (''Authorization'', ''Bearer k:1'')] [10, 88, 58, 255])
   = [(''Host'', ''a.b''), (''Authorization'', ''Bearer k:1'')]"
  by (rule parse_headers_roundtrip)
     (simp_all add: header_text_def plain_header_def trim_def is_whitespace_def LF_def)

text \<open>
  The 401 response of the custom-header scheme declares a body of 44 bytes whatever the header is
  called, so the declared length is right exactly for header names of ten bytes.
\<close>

lemma header_response_length:
  "\<exists>head body. header_response p = as_bytes (head @ ''Content-Length: 44'' @ crlf @ crlf @ body) \<and>
     body = ''Authentication required (header: '' @ header_name p @ '')'' \<and>
     (length body = 44 \<longleftrightarrow> length (header_name p) = 10)"
  by (rule exI [of _ "''HTTP/1.1 401 Unauthorized'' @ crlf @ ''Content-Type: text/plain'' @ crlf"])
     (simp add: header_response_def)

text \<open>The fixed responses of the other two schemes are off by one.\<close>

lemma fixed_response_lengths:
  "length ''Authentication required (Basic)'' = 31" "length ''Authentication required (Bearer)'' = 32"
  by simp_all

end
