(* ===== verification/Metrics.thy ===== *)
theory Metrics
  imports HttpAuth
begin

text \<open>
  The client's metrics store, \<open>crates/localup-client/src/metrics.rs\<close>: the recorded HTTP requests
  and TCP connections, the cached statistics and the events broadcast to subscribers.

  The fields behind the store's locks are one record; every operation takes all the locks it
  needs before it changes anything, so it is one step. The identifier and the times an operation
  draws are its arguments. The histogram of durations and the JSON parser are parameters; counters
  are machine words. The optional database mirror is not modelled: its results are ignored.
\<close>

section \<open>State\<close>

datatype 'j BodyContent = Json 'j | BodyText string | Binary nat

record 'j BodyData =
  bd_content_type :: string
  bd_size :: nat
  bd_data :: "'j BodyContent"

record 'j HttpMetric =
  hm_id :: string
  hm_stream_id :: string
  hm_timestamp :: u64
  hm_method :: string
  hm_uri :: string
  hm_request_headers :: headers
  hm_request_body :: "'j BodyData option"
  hm_response_status :: "u16 option"
  hm_response_headers :: "headers option"
  hm_response_body :: "'j BodyData option"
  hm_duration_ms :: "u64 option"
  hm_error :: "string option"

datatype TcpConnectionState = Active | Closed | Error

record TcpMetric =
  tm_id :: string
  tm_stream_id :: string
  tm_timestamp :: u64
  tm_remote_addr :: string
  tm_local_addr :: string
  tm_state :: TcpConnectionState
  tm_bytes_received :: u64
  tm_bytes_sent :: u64
  tm_duration_ms :: "u64 option"
  tm_closed_at :: "u64 option"
  tm_error :: "string option"

record DurationPercentiles =
  dp_min :: u64
  dp_p50 :: u64
  dp_p90 :: u64
  dp_p95 :: u64
  dp_p99 :: u64
  dp_p999 :: u64
  dp_max :: u64

record MetricsStats =
  total_requests :: u64
  successful_requests :: u64
  failed_requests :: u64
  avg_duration_ms :: "u64 option"
  percentiles :: "DurationPercentiles option"
  methods :: "string \<Rightarrow> u64"
  status_codes :: "u16 \<Rightarrow> u64"

datatype 'j MetricsEvent =
    RequestEvent "'j HttpMetric"
  | ResponseEvent string u16 headers "'j BodyData option" u64
  | ErrorEvent string string u64
  | TcpConnectionEvent TcpMetric
  | TcpUpdateEvent string u64 u64
  | TcpClosedEvent string u64 u64 u64 "string option"
  | StatsEvent MetricsStats

text \<open>
  A missing key of the two hash maps counts as zero; \<open>broadcast\<close> is the sequence of events sent
  so far and \<open>last_stats\<close> the time of the last statistics event, in nanoseconds.
\<close>

record ('j, 'h) MetricsStore =
  metrics :: "'j HttpMetric list"
  tcp_connections :: "TcpMetric list"
  max_entries :: nat
  broadcast :: "'j MetricsEvent list"
  cached_stats :: MetricsStats
  duration_histogram :: 'h
  last_stats :: "nat option"

text \<open>
  The histogram: recording a value may fail and then changes nothing; the summary is the mean and
  the percentiles, absent while it is empty.
\<close>

record 'h histogram =
  hist_empty :: 'h
  hist_record :: "u64 \<Rightarrow> 'h \<Rightarrow> 'h option"
  hist_summary :: "'h \<Rightarrow> (u64 \<times> DurationPercentiles) option"

definition empty_stats :: MetricsStats where
  "empty_stats =
     \<lparr>total_requests = 0, successful_requests = 0, failed_requests = 0, avg_duration_ms = None,
      percentiles = None, methods = (\<lambda>_. 0), status_codes = (\<lambda>_. 0)\<rparr>"

definition metrics_new :: "'h histogram \<Rightarrow> nat \<Rightarrow> ('j, 'h) MetricsStore" where
  "metrics_new h n =
     \<lparr>metrics = [], tcp_connections = [], max_entries = n, broadcast = [],
      cached_stats = empty_stats, duration_histogram = hist_empty h, last_stats = None\<rparr>"

section \<open>Operations\<close>

definition publish :: "'j MetricsEvent \<Rightarrow> ('j, 'h) MetricsStore \<Rightarrow> ('j, 'h) MetricsStore" where
  "publish e s = s\<lparr>broadcast := broadcast s @ [e]\<rparr>"

text \<open>\<open>duration_since\<close> saturates at zero; the interval is one second.\<close>

definition broadcast_stats_debounced :: "nat \<Rightarrow> ('j, 'h) MetricsStore \<Rightarrow> ('j, 'h) MetricsStore" where
  "broadcast_stats_debounced now s =
     (if (case last_stats s of None \<Rightarrow> True | Some t \<Rightarrow> now - t \<ge> 1000000000)
      then publish (StatsEvent (cached_stats s)) (s\<lparr>last_stats := Some now\<rparr>)
      else s)"

definition find_subs :: "string list \<Rightarrow> string \<Rightarrow> bool" where
  "find_subs ps s = list_ex (contains_sub s) ps"

definition parse_body ::
    "(bytes \<Rightarrow> 'j option) \<Rightarrow> bytes \<Rightarrow> string \<Rightarrow> 'j BodyData option" where
  "parse_body from_slice body content_type =
     (let lower = to_lowercase content_type;
          data = (\<lambda>d. Some \<lparr>bd_content_type = content_type, bd_size = length body, bd_data = d\<rparr>);
          as_text =
            (if find_subs [''text/'', ''application/xml'', ''application/x-www-form-urlencoded''] lower
                \<or> length body < 1000000
             then from_utf8 body else None);
          rest = (case as_text of Some t \<Rightarrow> data (BodyText t) | None \<Rightarrow> data (Binary (length body)))
      in if contains_sub lower ''application/json'' \<or> length body < 1000000
         then (case from_slice body of Some j \<Rightarrow> data (Json j) | None \<Rightarrow> rest)
         else rest)"

definition content_type_of :: "headers \<Rightarrow> string" where
  "content_type_of hs =
     (case find (\<lambda>(k, _). to_lowercase k = ''content-type'') hs of
        Some (_, v) \<Rightarrow> v
      | None \<Rightarrow> ''application/octet-stream'')"

text \<open>Keeping the most recent entries.\<close>

definition push_bounded :: "nat \<Rightarrow> 'a \<Rightarrow> 'a list \<Rightarrow> 'a list" where
  "push_bounded n x xs =
     (let ys = xs @ [x] in if length ys > n then drop (length ys - n) ys else ys)"

definition bump :: "'k \<Rightarrow> ('k \<Rightarrow> u64) \<Rightarrow> 'k \<Rightarrow> u64" where
  "bump k f = f(k := f k + 1)"

definition record_request ::
    "(bytes \<Rightarrow> 'j option) \<Rightarrow> string \<Rightarrow> u64 \<Rightarrow> nat \<Rightarrow>
     string \<Rightarrow> string \<Rightarrow> string \<Rightarrow> headers \<Rightarrow> bytes option \<Rightarrow>
     ('j, 'h) MetricsStore \<Rightarrow> string \<times> ('j, 'h) MetricsStore" where
  "record_request from_slice new_id timestamp now stream_id req_method uri hs body s =
     (let metric =
            \<lparr>hm_id = new_id, hm_stream_id = stream_id, hm_timestamp = timestamp, hm_method = req_method,
             hm_uri = uri, hm_request_headers = hs,
             hm_request_body = Option.bind body (\<lambda>b. parse_body from_slice b (content_type_of hs)),
             hm_response_status = None, hm_response_headers = None, hm_response_body = None,
             hm_duration_ms = None, hm_error = None\<rparr>;
          st = cached_stats s;
          s' = s\<lparr>metrics := push_bounded (max_entries s) metric (metrics s),
                 cached_stats := st\<lparr>total_requests := total_requests st + 1,
                                   methods := bump req_method (methods st)\<rparr>\<rparr>
      in (new_id, broadcast_stats_debounced now (publish (RequestEvent metric) s')))"

text \<open>\<open>iter_mut().find\<close>: the first entry with the identifier is changed.\<close>

fun update_first :: "('a \<Rightarrow> bool) \<Rightarrow> ('a \<Rightarrow> 'a) \<Rightarrow> 'a list \<Rightarrow> 'a list" where
  "update_first p f [] = []"
| "update_first p f (x # xs) = (if p x then f x # xs else x # update_first p f xs)"

text \<open>Recording a duration, then the summary if the histogram has values.\<close>

definition record_duration ::
    "'h histogram \<Rightarrow> u64 \<Rightarrow> (MetricsStats \<Rightarrow> MetricsStats) \<Rightarrow>
     ('j, 'h) MetricsStore \<Rightarrow> ('j, 'h) MetricsStore" where
  "record_duration h duration count s =
     (let hist = (case hist_record h duration (duration_histogram s) of
                    Some x \<Rightarrow> x | None \<Rightarrow> duration_histogram s);
          st = count (cached_stats s);
          st' = (case hist_summary h hist of
                   None \<Rightarrow> st
                 | Some (mean, ps) \<Rightarrow> st\<lparr>avg_duration_ms := Some mean, percentiles := Some ps\<rparr>)
      in s\<lparr>duration_histogram := hist, cached_stats := st'\<rparr>)"

definition count_response :: "u16 \<Rightarrow> MetricsStats \<Rightarrow> MetricsStats" where
  "count_response status st =
     (let st' = (if status < 400 then st\<lparr>successful_requests := successful_requests st + 1\<rparr>
                 else st\<lparr>failed_requests := failed_requests st + 1\<rparr>)
      in st'\<lparr>status_codes := bump status (status_codes st')\<rparr>)"

definition record_response ::
    "(bytes \<Rightarrow> 'j option) \<Rightarrow> 'h histogram \<Rightarrow> nat \<Rightarrow>
     string \<Rightarrow> u16 \<Rightarrow> headers \<Rightarrow> bytes option \<Rightarrow> u64 \<Rightarrow>
     ('j, 'h) MetricsStore \<Rightarrow> ('j, 'h) MetricsStore" where
  "record_response from_slice h now i status hs body duration s =
     (if find (\<lambda>m. hm_id m = i) (metrics s) = None then s
      else
        let response_body = Option.bind body (\<lambda>b. parse_body from_slice b (content_type_of hs));
            s1 = s\<lparr>metrics := update_first (\<lambda>m. hm_id m = i)
                     (\<lambda>m. m\<lparr>hm_response_status := Some status, hm_response_headers := Some hs,
                            hm_response_body := response_body, hm_duration_ms := Some duration\<rparr>)
                     (metrics s)\<rparr>;
            s2 = record_duration h duration (count_response status) s1
        in broadcast_stats_debounced now
             (publish (ResponseEvent i status hs response_body duration) s2))"

definition record_error ::
    "'h histogram \<Rightarrow> nat \<Rightarrow> string \<Rightarrow> string \<Rightarrow> u64 \<Rightarrow>
     ('j, 'h) MetricsStore \<Rightarrow> ('j, 'h) MetricsStore" where
  "record_error h now i err duration s =
     (if find (\<lambda>m. hm_id m = i) (metrics s) = None then s
      else
        let s1 = s\<lparr>metrics := update_first (\<lambda>m. hm_id m = i)
                     (\<lambda>m. m\<lparr>hm_error := Some err, hm_duration_ms := Some duration\<rparr>) (metrics s)\<rparr>;
            s2 = record_duration h duration
                   (\<lambda>st. st\<lparr>failed_requests := failed_requests st + 1\<rparr>) s1
        in broadcast_stats_debounced now (publish (ErrorEvent i err duration) s2))"

definition get_paginated :: "nat \<Rightarrow> nat \<Rightarrow> ('j, 'h) MetricsStore \<Rightarrow> 'j HttpMetric list" where
  "get_paginated offset limit s = take limit (drop offset (rev (metrics s)))"

definition metrics_get_by_id :: "string \<Rightarrow> ('j, 'h) MetricsStore \<Rightarrow> 'j HttpMetric option" where
  "metrics_get_by_id i s = find (\<lambda>m. hm_id m = i) (metrics s)"

definition record_tcp_connection ::
    "string \<Rightarrow> u64 \<Rightarrow> string \<Rightarrow> string \<Rightarrow> string \<Rightarrow>
     ('j, 'h) MetricsStore \<Rightarrow> string \<times> ('j, 'h) MetricsStore" where
  "record_tcp_connection new_id timestamp stream_id remote_addr local_addr s =
     (let metric =
            \<lparr>tm_id = new_id, tm_stream_id = stream_id, tm_timestamp = timestamp,
             tm_remote_addr = remote_addr, tm_local_addr = local_addr, tm_state = Active,
             tm_bytes_received = 0, tm_bytes_sent = 0, tm_duration_ms = None, tm_closed_at = None,
             tm_error = None\<rparr>
      in (new_id, publish (TcpConnectionEvent metric)
            (s\<lparr>tcp_connections := push_bounded (max_entries s) metric (tcp_connections s)\<rparr>)))"

definition update_tcp_connection ::
    "string \<Rightarrow> u64 \<Rightarrow> u64 \<Rightarrow> ('j, 'h) MetricsStore \<Rightarrow> ('j, 'h) MetricsStore" where
  "update_tcp_connection i received sent_bytes s =
     (if find (\<lambda>c. tm_id c = i) (tcp_connections s) = None then s
      else publish (TcpUpdateEvent i received sent_bytes)
        (s\<lparr>tcp_connections := update_first (\<lambda>c. tm_id c = i)
             (\<lambda>c. c\<lparr>tm_bytes_received := received, tm_bytes_sent := sent_bytes\<rparr>) (tcp_connections s)\<rparr>))"

definition close_tcp_connection ::
    "u64 \<Rightarrow> string \<Rightarrow> string option \<Rightarrow> ('j, 'h) MetricsStore \<Rightarrow> ('j, 'h) MetricsStore" where
  "close_tcp_connection now i err s =
     (case find (\<lambda>c. tm_id c = i) (tcp_connections s) of
        None \<Rightarrow> s
      | Some conn \<Rightarrow>
          publish (TcpClosedEvent i (tm_bytes_received conn) (tm_bytes_sent conn)
                     (now - tm_timestamp conn) err)
            (s\<lparr>tcp_connections := update_first (\<lambda>c. tm_id c = i)
                 (\<lambda>c. c\<lparr>tm_duration_ms := Some (now - tm_timestamp c), tm_closed_at := Some now,
                        tm_state := (if err = None then Closed else Error), tm_error := err\<rparr>)
                 (tcp_connections s)\<rparr>))"

definition active_tcp_connections_count :: "('j, 'h) MetricsStore \<Rightarrow> nat" where
  "active_tcp_connections_count s = length (filter (\<lambda>c. tm_state c = Active) (tcp_connections s))"

definition metrics_clear :: "'h histogram \<Rightarrow> ('j, 'h) MetricsStore \<Rightarrow> ('j, 'h) MetricsStore" where
  "metrics_clear h s =
     s\<lparr>metrics := [], tcp_connections := [], duration_histogram := hist_empty h,
       cached_stats := empty_stats\<rparr>"

section \<open>Invariants of the store\<close>

text \<open>The states reachable by the store's operations, without and with \<open>clear\<close>.\<close>

inductive recorded :: "'h histogram \<Rightarrow> nat \<Rightarrow> bool \<Rightarrow> ('j, 'h) MetricsStore \<Rightarrow> bool"
  for h :: "'h histogram" and n :: nat and clearing :: bool where
  new: "recorded h n clearing (metrics_new h n)"
| request: "recorded h n clearing s \<Longrightarrow>
    recorded h n clearing (snd (record_request fs i ts now sid req_method uri hs body s))"
| response: "recorded h n clearing s \<Longrightarrow>
    recorded h n clearing (record_response fs h now i status hs body d s)"
| error: "recorded h n clearing s \<Longrightarrow> recorded h n clearing (record_error h now i err d s)"
| tcp_open: "recorded h n clearing s \<Longrightarrow>
    recorded h n clearing (snd (record_tcp_connection i ts sid ra la s))"
| tcp_update: "recorded h n clearing s \<Longrightarrow> recorded h n clearing (update_tcp_connection i r t s)"
| tcp_close: "recorded h n clearing s \<Longrightarrow> recorded h n clearing (close_tcp_connection tn i e s)"
| clear: "clearing \<Longrightarrow> recorded h n clearing s \<Longrightarrow> recorded h n clearing (metrics_clear h s)"

lemma publish_simps [simp]:
  "metrics (publish e s) = metrics s" "tcp_connections (publish e s) = tcp_connections s"
  "max_entries (publish e s) = max_entries s" "cached_stats (publish e s) = cached_stats s"
  "broadcast (publish e s) = broadcast s @ [e]"
  by (simp_all add: publish_def)

lemma debounced_simps [simp]:
  "metrics (broadcast_stats_debounced now s) = metrics s"
  "tcp_connections (broadcast_stats_debounced now s) = tcp_connections s"
  "max_entries (broadcast_stats_debounced now s) = max_entries s"
  "cached_stats (broadcast_stats_debounced now s) = cached_stats s"
  by (simp_all add: broadcast_stats_debounced_def)

lemma record_duration_simps [simp]:
  "metrics (record_duration h d c s) = metrics s"
  "tcp_connections (record_duration h d c s) = tcp_connections s"
  "max_entries (record_duration h d c s) = max_entries s"
  "broadcast (record_duration h d c s) = broadcast s"
  "total_requests (cached_stats (record_duration h d c s)) = total_requests (c (cached_stats s))"
  "successful_requests (cached_stats (record_duration h d c s)) = successful_requests (c (cached_stats s))"
  "methods (cached_stats (record_duration h d c s)) = methods (c (cached_stats s))"
  "status_codes (cached_stats (record_duration h d c s)) = status_codes (c (cached_stats s))"
  by (simp_all add: record_duration_def Let_def split: option.splits)

lemma count_response_simps [simp]:
  "total_requests (count_response status st) = total_requests st"
  "methods (count_response status st) = methods st"
  "successful_requests (count_response status st) = successful_requests st + (if status < 400 then 1 else 0)"
  "status_codes (count_response status st) = bump status (status_codes st)"
  by (simp_all add: count_response_def Let_def)

lemma length_update_first [simp]: "length (update_first p f xs) = length xs"
  by (induction xs) auto

lemma length_push_bounded: "length xs \<le> n \<Longrightarrow> length (push_bounded n x xs) \<le> n"
proof -
  have "length (drop (length ys - n) ys) \<le> n" for ys :: "'a list" by simp
  then show ?thesis
    unfolding push_bounded_def Let_def
    by (metis not_less)
qed

lemmas metrics_op_defs =
  record_request_def record_response_def record_error_def record_tcp_connection_def
  update_tcp_connection_def close_tcp_connection_def metrics_clear_def metrics_new_def Let_def

lemma recorded_max_entries: "recorded h n c s \<Longrightarrow> max_entries s = n"
  by (induction rule: recorded.induct) (auto simp: metrics_op_defs split: option.splits)

text \<open>The store never holds more entries than its bound.\<close>

lemma metrics_bounded:
  "recorded h n c s \<Longrightarrow> length (metrics s) \<le> n \<and> length (tcp_connections s) \<le> n"
proof (induction rule: recorded.induct)
  case (request s fs i ts now sid req_method uri hs body)
  then show ?case
    using recorded_max_entries [OF request.hyps] by (simp add: metrics_op_defs length_push_bounded)
next
  case (tcp_open s i ts sid ra la)
  then show ?case
    using recorded_max_entries [OF tcp_open.hyps] by (simp add: metrics_op_defs length_push_bounded)
qed (auto simp: metrics_op_defs split: option.splits)

subsection \<open>Statistics\<close>

lemma sum_bump:
  assumes "finite A" "k \<in> A"
  shows "(\<Sum>x\<in>A. bump k f x) = (\<Sum>x\<in>A. f x) + 1"
proof -
  have "(\<Sum>x\<in>A. bump k f x) = bump k f k + (\<Sum>x\<in>A - {k}. bump k f x)"
    using assms by (rule sum.remove)
  also have "(\<Sum>x\<in>A - {k}. bump k f x) = (\<Sum>x\<in>A - {k}. f x)"
    by (rule sum.cong) (auto simp: bump_def)
  finally show ?thesis
    using sum.remove [OF assms, of f] by (simp add: bump_def algebra_simps)
qed

definition stats_consistent :: "MetricsStats \<Rightarrow> bool" where
  "stats_consistent st \<longleftrightarrow>
     (\<exists>A. finite A \<and> (\<forall>m. m \<notin> A \<longrightarrow> methods st m = 0) \<and> total_requests st = (\<Sum>m\<in>A. methods st m)) \<and>
     successful_requests st = (\<Sum>c \<in> {c. c < 400}. status_codes st c)"

lemma stats_consistent_cong:
  assumes "total_requests st' = total_requests st" "methods st' = methods st"
    "successful_requests st' = successful_requests st" "status_codes st' = status_codes st"
  shows "stats_consistent st' = stats_consistent st"
  by (simp only: stats_consistent_def assms)

lemma stats_consistent_duration:
  "stats_consistent (count (cached_stats s)) \<Longrightarrow>
     stats_consistent (cached_stats (record_duration h d count s))"
  by (rule iffD2 [OF stats_consistent_cong]) simp_all

lemma stats_consistent_request:
  assumes "stats_consistent st"
  shows "stats_consistent (st\<lparr>total_requests := total_requests st + 1, methods := bump m (methods st)\<rparr>)"
proof -
  from assms obtain A where A: "finite A" "\<forall>m. m \<notin> A \<longrightarrow> methods st m = 0"
      "total_requests st = (\<Sum>m\<in>A. methods st m)"
      "successful_requests st = (\<Sum>c \<in> {c. c < 400}. status_codes st c)"
    by (auto simp: stats_consistent_def)
  have "(\<Sum>x\<in>insert m A. methods st x) = (\<Sum>x\<in>A. methods st x)"
    using A(1,2) by (cases "m \<in> A") (auto simp: insert_absorb)
  then have "total_requests st + 1 = (\<Sum>x\<in>insert m A. bump m (methods st) x)"
    using A by (simp add: sum_bump)
  moreover have "\<forall>x. x \<notin> insert m A \<longrightarrow> bump m (methods st) x = 0" using A(2) by (simp add: bump_def)
  ultimately show ?thesis using A(1,4) by (auto simp: stats_consistent_def intro!: exI [of _ "insert m A"])
qed

lemma stats_consistent_response:
  assumes "stats_consistent st"
  shows "stats_consistent (count_response status st)"
proof -
  have "(\<Sum>c \<in> {c. c < 400}. bump status (status_codes st) c) =
      (\<Sum>c \<in> {c. c < 400}. status_codes st c) + (if status < 400 then 1 else 0)"
  proof (cases "status < 400")
    case False
    then have "(\<Sum>c \<in> {c. c < 400}. bump status (status_codes st) c) = (\<Sum>c \<in> {c. c < 400}. status_codes st c)"
      by (intro sum.cong) (auto simp: bump_def)
    with False show ?thesis by simp
  qed (simp add: sum_bump)
  then show ?thesis using assms by (simp add: stats_consistent_def)
qed

text \<open>
  In every reachable state of the store the cached statistics agree with each other: the
  number of requests is the sum of the counts per method, and the number of successful requests the
  sum of the counts of the status codes below 400 (modulo the width of the counters).
\<close>

theorem metrics_stats_consistent: "recorded h n c s \<Longrightarrow> stats_consistent (cached_stats s)"
proof (induction rule: recorded.induct)
  case new
  show ?case by (auto simp: stats_consistent_def metrics_new_def empty_stats_def)
next
  case (request s fs i ts now sid req_method uri hs body)
  then show ?case by (simp add: metrics_op_defs stats_consistent_request)
next
  case (response s fs now i status hs body d)
  then show ?case
    by (simp add: record_response_def Let_def stats_consistent_duration stats_consistent_response)
next
  case (error s now i err d)
  have "stats_consistent (cached_stats s\<lparr>failed_requests := failed_requests (cached_stats s) + 1\<rparr>)"
    by (rule iffD2 [OF stats_consistent_cong _ ]) (use error.IH in simp_all)
  then show ?case
    using error.IH by (simp add: record_error_def Let_def stats_consistent_duration)
next
  case (clear s)
  show ?case by (auto simp: stats_consistent_def metrics_clear_def empty_stats_def)
qed (auto simp: metrics_op_defs split: option.splits)

section \<open>The event stream\<close>

text \<open>What a subscriber that starts empty makes of the events.\<close>

fun apply_event ::
    "nat \<Rightarrow> 'j MetricsEvent \<Rightarrow> 'j HttpMetric list \<times> TcpMetric list \<Rightarrow> 'j HttpMetric list \<times> TcpMetric list"
  where
  "apply_event n (RequestEvent m) (ms, cs) = (push_bounded n m ms, cs)"
| "apply_event n (ResponseEvent i status hs body d) (ms, cs) =
     (update_first (\<lambda>m. hm_id m = i)
        (\<lambda>m. m\<lparr>hm_response_status := Some status, hm_response_headers := Some hs,
               hm_response_body := body, hm_duration_ms := Some d\<rparr>) ms, cs)"
| "apply_event n (ErrorEvent i err d) (ms, cs) =
     (update_first (\<lambda>m. hm_id m = i) (\<lambda>m. m\<lparr>hm_error := Some err, hm_duration_ms := Some d\<rparr>) ms, cs)"
| "apply_event n (TcpConnectionEvent m) (ms, cs) = (ms, push_bounded n m cs)"
| "apply_event n (TcpUpdateEvent i r t) (ms, cs) =
     (ms, update_first (\<lambda>c. tm_id c = i) (\<lambda>c. c\<lparr>tm_bytes_received := r, tm_bytes_sent := t\<rparr>) cs)"
| "apply_event n (TcpClosedEvent i r t d err) (ms, cs) =
     (ms, update_first (\<lambda>c. tm_id c = i)
        (\<lambda>c. c\<lparr>tm_duration_ms := Some d, tm_closed_at := Some (tm_timestamp c + d),
               tm_state := (if err = None then Closed else Error), tm_error := err\<rparr>) cs)"
| "apply_event n (StatsEvent st) v = v"

definition replay :: "nat \<Rightarrow> 'j MetricsEvent list \<Rightarrow> 'j HttpMetric list \<times> TcpMetric list" where
  "replay n es = fold (apply_event n) es ([], [])"

lemma replay_snoc [simp]: "replay n (es @ [e]) = apply_event n e (replay n es)"
  by (simp add: replay_def)

lemma replay_debounced [simp]:
  "replay n (broadcast (broadcast_stats_debounced now s)) = replay n (broadcast s)"
  by (simp add: broadcast_stats_debounced_def)

lemma update_first_cong:
  "find p xs = Some x \<Longrightarrow> f x = g x \<Longrightarrow> update_first p f xs = update_first p g xs"
  by (induction xs) (auto split: if_splits)


text \<open>A store with one answered request.\<close>

definition demo_hist :: "unit histogram" where
  "demo_hist = \<lparr>hist_empty = (), hist_record = (\<lambda>_ _. Some ()), hist_summary = (\<lambda>_. None)\<rparr>"

definition demo_metrics :: "(unit, unit) MetricsStore" where
  "demo_metrics =
     record_response (\<lambda>_. None) demo_hist 0 ''m1'' 200 [] None 7
       (snd (record_request (\<lambda>_. None) ''m1'' 0 0 ''s1'' ''GET'' ''/'' [] None (metrics_new demo_hist 2)))"

lemma demo_metrics_recorded: "recorded demo_hist 2 c demo_metrics"
  unfolding demo_metrics_def by (intro recorded.intros)

theorem metrics_stats_consistent_witness: "stats_consistent (cached_stats demo_metrics)"
  by (rule metrics_stats_consistent [OF demo_metrics_recorded [of True]])


end
