(* ===== verification/Wildcard.thy ===== *)
theory Wildcard
  imports Prelude
begin

text \<open>
  Wildcard domain patterns, \<open>crates/localup-router/src/wildcard.rs\<close>: validation of a pattern such as
  \<open>*.example.com\<close>, matching of a hostname, and the parent wildcard of a hostname.
\<close>

datatype WildcardError =
    InvalidPattern string
  | EmptyPattern
  | DoubleAsterisk
  | MidLevelWildcard
  | RightSideWildcard
  | BareAsterisk
  | InsufficientDomainParts

record WildcardPattern =
  pattern :: string
  base_domain :: string

definition wildcard_parse :: "string \<Rightarrow> (WildcardError, WildcardPattern) result" where
  "wildcard_parse p =
     (if p = [] then Err EmptyPattern
      else if p = ''*'' then Err BareAsterisk
      else if contains_sub p ''**'' then Err DoubleAsterisk
      else if ends_with p ''.*'' \<or> ends_with p ''*'' \<and> \<not> starts_with p ''*.'' then
        Err RightSideWildcard
      else if \<not> starts_with p ''*.'' then
        (if contains_sub p ''.*.'' \<or> contains_sub p ''*.'' \<and> \<not> starts_with p ''*.''
            \<or> CHR ''*'' \<in> set p
         then Err MidLevelWildcard
         else Err (InvalidPattern ''Pattern must start with *. for wildcard domains''))
      else let base = drop 2 p
           in if CHR ''.'' \<notin> set base then Err InsufficientDomainParts
              else if CHR ''*'' \<in> set base then Err MidLevelWildcard
              else if \<exists>part \<in> set (split_char CHR ''.'' base). part = [] then
                Err (InvalidPattern ''Domain parts cannot be empty'')
              else Ok \<lparr>pattern = p, base_domain = base\<rparr>)"

definition wildcard_matches :: "WildcardPattern \<Rightarrow> string \<Rightarrow> bool" where
  "wildcard_matches w hostname =
     (if \<not> ends_with hostname (base_domain w) then False
      else let prefix_len = length hostname - length (base_domain w)
           in if prefix_len = 0 then False
              else if prefix_len < 2 \<or> \<not> ends_with (take prefix_len hostname) ''.'' then False
              else CHR ''.'' \<notin> set (take (prefix_len - 1) hostname))"

definition is_wildcard_pattern :: "string \<Rightarrow> bool" where
  "is_wildcard_pattern d = starts_with d ''*.''"

definition extract_parent_wildcard :: "string \<Rightarrow> string option" where
  "extract_parent_wildcard hostname =
     (case find_char CHR ''.'' hostname of
        None \<Rightarrow> None
      | Some first_dot \<Rightarrow>
          let parent = drop (first_dot + 1) hostname
          in if CHR ''.'' \<notin> set parent then None else Some (''*.'' @ parent))"

definition could_match_wildcard :: "string \<Rightarrow> bool" where
  "could_match_wildcard hostname \<longleftrightarrow> count_list hostname CHR ''.'' \<ge> 2"

text \<open>The \<open>Display\<close> of \<open>WildcardError\<close>, which the registries embed in their errors.\<close>

fun wildcard_error_display :: "WildcardError \<Rightarrow> string" where
  "wildcard_error_display (InvalidPattern s) = ''Invalid wildcard pattern: '' @ s"
| "wildcard_error_display EmptyPattern = ''Empty pattern''"
| "wildcard_error_display DoubleAsterisk =
     ''Double asterisk patterns (**.domain) are not supported''"
| "wildcard_error_display MidLevelWildcard =
     ''Mid-level wildcards (api.*.domain) are not supported''"
| "wildcard_error_display RightSideWildcard =
     ''Right-side wildcards (domain.*) are not supported''"
| "wildcard_error_display BareAsterisk = ''Bare asterisk (*) is not a valid pattern''"
| "wildcard_error_display InsufficientDomainParts =
     ''Pattern must have at least two domain parts after the wildcard''"

section \<open>Which patterns are valid\<close>

text \<open>The grammar of a base domain: at least two non-empty labels, no asterisk.\<close>

definition valid_base :: "string \<Rightarrow> bool" where
  "valid_base b \<longleftrightarrow> CHR ''.'' \<in> set b \<and> CHR ''*'' \<notin> set b \<and> [] \<notin> set (split_char CHR ''.'' b)"

lemma split_char_hd_Nil: "[] \<in> set (split_char c (c # xs))"
  by simp

lemma valid_base_not_Nil: "valid_base b \<Longrightarrow> b \<noteq> []"
  by (auto simp: valid_base_def)

lemma no_double_star:
  assumes "CHR ''*'' \<notin> set b"
  shows "\<not> contains_sub (''*.'' @ b) ''**''"
  using assms by (auto simp: contains_sub_iff Cons_eq_append_conv)

lemma last_not_star:
  assumes "CHR ''*'' \<notin> set b" "b \<noteq> []"
  shows "\<not> ends_with (''*.'' @ b) (p @ ''*'')"
proof
  assume "ends_with (''*.'' @ b) (p @ ''*'')"
  then have "last (''*.'' @ b) = CHR ''*''" by (auto simp: ends_with_iff simp del: append.simps)
  with assms show False by (simp add: last_in_set split: if_splits) (metis last_in_set)
qed

lemma wildcard_parse_Ok:
  "wildcard_parse p = Ok w \<longleftrightarrow>
     (\<exists>base. p = ''*.'' @ base \<and> valid_base base \<and> w = \<lparr>pattern = p, base_domain = base\<rparr>)"
proof
  assume ok: "wildcard_parse p = Ok w"
  then obtain base where p: "p = ''*.'' @ base"
    by (auto simp: wildcard_parse_def Let_def starts_with_iff split: if_splits)
  with ok have "valid_base base" "w = \<lparr>pattern = p, base_domain = base\<rparr>"
    by (auto simp: wildcard_parse_def valid_base_def Let_def split: if_splits)
  with p show "\<exists>base. p = ''*.'' @ base \<and> valid_base base \<and> w = \<lparr>pattern = p, base_domain = base\<rparr>"
    by blast
next
  assume "\<exists>base. p = ''*.'' @ base \<and> valid_base base \<and> w = \<lparr>pattern = p, base_domain = base\<rparr>"
  then obtain base where p: "p = ''*.'' @ base" and base: "valid_base base"
    and w: "w = \<lparr>pattern = p, base_domain = base\<rparr>" by blast
  have "\<not> contains_sub p ''**''" "\<not> ends_with p ''.*''"
    using no_double_star [of base] last_not_star [of base "''.''"] base valid_base_not_Nil [OF base]
    by (auto simp: p valid_base_def)
  moreover have "starts_with p ''*.''" "p \<noteq> ''*''" "p \<noteq> []" "drop 2 p = base"
    by (simp_all add: p starts_with_def)
  ultimately show "wildcard_parse p = Ok w"
    using base by (auto simp: wildcard_parse_def w valid_base_def)
qed

text \<open>
  \<open>WildcardPattern::parse\<close> accepts exactly the strings \<open>*.\<close> followed by a base domain of at least
  two non-empty labels without an asterisk, and stores the pattern and that base domain.
\<close>

theorem wildcard_parse_iff:
  "wildcard_parse p = Ok w \<longleftrightarrow>
     (\<exists>base. p = ''*.'' @ base \<and> valid_base base \<and> w = \<lparr>pattern = p, base_domain = base\<rparr>)"
  by (rule wildcard_parse_Ok)

section \<open>Which hostnames match\<close>

lemma take_prefix_append [simp]: "take (length (r @ b) - length b) (r @ b) = r"
  by simp

lemma wildcard_matches_append:
  "wildcard_matches w (r @ base_domain w) \<longleftrightarrow>
     (\<exists>label. r = label @ ''.'' \<and> label \<noteq> [] \<and> CHR ''.'' \<notin> set label)"
proof (cases r rule: rev_cases)
  case Nil
  then show ?thesis by (simp add: wildcard_matches_def)
next
  case (snoc label c)
  then have "ends_with (label @ [c]) ''.'' \<longleftrightarrow> c = CHR ''.''"
    by (auto simp: ends_with_def)
  with snoc show ?thesis
    by (auto simp: wildcard_matches_def ends_with_iff Let_def Suc_le_eq)
qed

lemma wildcard_matches_iff_aux:
  "wildcard_matches w hostname \<longleftrightarrow>
     (\<exists>label. hostname = label @ ''.'' @ base_domain w \<and> label \<noteq> [] \<and> CHR ''.'' \<notin> set label)"
proof (cases "ends_with hostname (base_domain w)")
  case True
  then obtain r where "hostname = r @ base_domain w" by (auto simp: ends_with_iff)
  then show ?thesis
    using wildcard_matches_append [of w r] by (auto simp del: append_assoc simp: append_assoc [symmetric])
next
  case False
  then have "\<not> wildcard_matches w hostname" by (simp add: wildcard_matches_def)
  moreover have "hostname \<noteq> label @ ''.'' @ base_domain w" for label
    using False ends_with_iff [of hostname "base_domain w"] by (metis append_assoc)
  ultimately show ?thesis by blast
qed

text \<open>
  C22 A hostname matches a pattern exactly when it is one non-empty label without a dot, a dot, and the
  pattern's base domain: neither the base domain itself nor deeper subdomains match.
\<close>

theorem wildcard_matches_iff:
  "wildcard_matches w hostname \<longleftrightarrow>
     (\<exists>label. hostname = label @ ''.'' @ base_domain w \<and> label \<noteq> [] \<and> CHR ''.'' \<notin> set label)"
  by (rule wildcard_matches_iff_aux)

lemma extract_parent_wildcard_split:
  "extract_parent_wildcard h =
     (case split_once CHR ''.'' h of
        None \<Rightarrow> None | Some (a, b) \<Rightarrow> if CHR ''.'' \<in> set b then Some (''*.'' @ b) else None)"
proof (cases "split_once CHR ''.'' h")
  case None
  then have "find_char CHR ''.'' h = None" by (simp add: split_once_None find_char_None)
  with None show ?thesis unfolding extract_parent_wildcard_def by simp
next
  case (Some ab)
  then obtain a b where ab: "ab = (a, b)" and h: "h = a @ CHR ''.'' # b"
    by (cases ab) (auto simp: split_once_Some)
  from Some have "find_char CHR ''.'' h = Some (length a)" by (simp add: find_char_split_once ab)
  moreover have "drop (length a + 1) h = b" by (simp add: h)
  ultimately show ?thesis using Some by (simp add: extract_parent_wildcard_def ab)
qed

lemma extract_parent_wildcard_iff:
  "extract_parent_wildcard h = Some q \<longleftrightarrow>
     (\<exists>label parent. h = label @ ''.'' @ parent \<and> CHR ''.'' \<notin> set label \<and> CHR ''.'' \<in> set parent \<and>
        q = ''*.'' @ parent)"
proof -
  have "extract_parent_wildcard h = Some q \<longleftrightarrow>
      (\<exists>a b. split_once CHR ''.'' h = Some (a, b) \<and> CHR ''.'' \<in> set b \<and> q = ''*.'' @ b)"
    by (auto simp: extract_parent_wildcard_split split: option.splits if_splits)
  then show ?thesis by (auto simp: split_once_Some)
qed

lemma matches_extract:
  assumes "wildcard_parse q = Ok w" "wildcard_matches w h"
  shows "extract_parent_wildcard h = Some q"
  using assms by (auto simp: wildcard_parse_Ok wildcard_matches_iff_aux extract_parent_wildcard_iff
      valid_base_def)

lemma extract_matches:
  assumes "extract_parent_wildcard h = Some q" "wildcard_parse q = Ok w" "\<not> starts_with h ''.''"
  shows "wildcard_matches w h"
  using assms
  by (auto simp: wildcard_parse_Ok wildcard_matches_iff_aux extract_parent_wildcard_iff starts_with_def)

lemma matches_iff_extract:
  assumes "wildcard_parse q = Ok w"
  shows "wildcard_matches w h \<longleftrightarrow> extract_parent_wildcard h = Some q \<and> \<not> starts_with h ''.''"
proof
  assume m: "wildcard_matches w h"
  then have "\<not> starts_with h ''.''"
    by (auto simp: wildcard_matches_iff_aux starts_with_def Cons_eq_append_conv neq_Nil_conv)
  with assms m matches_extract show "extract_parent_wildcard h = Some q \<and> \<not> starts_with h ''.''" by blast
qed (use assms extract_matches in blast)

text \<open>
  The parent wildcard is the only candidate: among all valid patterns, a hostname can match none
  but its own \<open>extract_parent_wildcard\<close>, and it does match that one when the pattern is valid and the
  hostname does not begin with a dot. So one hash lookup decides wildcard routing.
\<close>

theorem parent_wildcard_unique:
  assumes "wildcard_parse q = Ok w"
  shows "wildcard_matches w h \<longleftrightarrow> extract_parent_wildcard h = Some q \<and> \<not> starts_with h ''.''"
  using assms by (rule matches_iff_extract)

theorem parent_wildcard_unique_witness:
  "wildcard_matches \<lparr>pattern = ''*.example.com'', base_domain = ''example.com''\<rparr> ''api.example.com''
   \<longleftrightarrow> extract_parent_wildcard ''api.example.com'' = Some ''*.example.com''
       \<and> \<not> starts_with ''api.example.com'' ''.''"
proof -
  have "wildcard_parse ''*.example.com''
          = Ok \<lparr>pattern = ''*.example.com'', base_domain = ''example.com''\<rparr>"
    by (simp add: wildcard_parse_Ok valid_base_def)
  then show ?thesis by (rule parent_wildcard_unique)
qed

lemma could_match_wildcard_iff: "could_match_wildcard h \<longleftrightarrow> extract_parent_wildcard h \<noteq> None"
proof (cases "split_once CHR ''.'' h")
  case None
  then have "CHR ''.'' \<notin> set h" by (simp add: split_once_None)
  then show ?thesis
    using None by (simp add: could_match_wildcard_def extract_parent_wildcard_split)
next
  case (Some ab)
  then obtain a b where ab: "ab = (a, b)" "h = a @ ''.'' @ b" "CHR ''.'' \<notin> set a"
    by (cases ab) (auto simp: split_once_Some)
  have "0 < count_list b CHR ''.'' \<longleftrightarrow> CHR ''.'' \<in> set b"
    using count_list_0_iff [of b "CHR ''.''"] by auto
  with ab Some show ?thesis
    by (auto simp: could_match_wildcard_def extract_parent_wildcard_split)
qed

end
