(* ===== verification/Registry.thy ===== *)
theory Registry
  imports Wildcard IpFilter
begin

text \<open>
  The route registry, \<open>crates/localup-router/src/registry.rs\<close>, and the route keys of
  \<open>crates/localup-router/src/lib.rs\<close>: exact routes and, apart from them, wildcard routes that serve
  as a fallback. The two concurrent maps are partial functions; a method is one step of the shared
  state, except \<open>register\<close>, whose check and insertion are two steps (last section).
\<close>

datatype RouteKey = TcpPort u16 | TlsSni string | HttpHost string

record RouteTarget =
  localup_id :: string
  target_addr :: string
  metadata :: "string option"
  ip_filter :: IpFilter

definition is_ip_allowed :: "RouteTarget \<Rightarrow> SocketAddr \<Rightarrow> bool" where
  "is_ip_allowed t peer = is_socket_allowed (ip_filter t) peer"

datatype RouteError =
    RouteNotFound RouteKey
  | RouteAlreadyExists RouteKey
  | InvalidRouteKey
  | InvalidWildcardPattern string

record RouteRegistry =
  routes :: "RouteKey \<rightharpoonup> RouteTarget"
  wildcard_routes :: "string \<rightharpoonup> RouteTarget"

definition registry_new :: RouteRegistry where
  "registry_new = \<lparr>routes = Map.empty, wildcard_routes = Map.empty\<rparr>"

definition put_route :: "RouteKey \<Rightarrow> RouteTarget \<Rightarrow> RouteRegistry \<Rightarrow> RouteRegistry" where
  "put_route k t r = r\<lparr>routes := (routes r)(k \<mapsto> t)\<rparr>"

definition del_route :: "RouteKey \<Rightarrow> RouteRegistry \<Rightarrow> RouteRegistry" where
  "del_route k r = r\<lparr>routes := (routes r)(k := None)\<rparr>"

definition put_wildcard :: "string \<Rightarrow> RouteTarget \<Rightarrow> RouteRegistry \<Rightarrow> RouteRegistry" where
  "put_wildcard p t r = r\<lparr>wildcard_routes := (wildcard_routes r)(p \<mapsto> t)\<rparr>"

definition del_wildcard :: "string \<Rightarrow> RouteRegistry \<Rightarrow> RouteRegistry" where
  "del_wildcard p r = r\<lparr>wildcard_routes := (wildcard_routes r)(p := None)\<rparr>"

definition registry_register ::
  "RouteKey \<Rightarrow> RouteTarget \<Rightarrow> RouteRegistry \<Rightarrow> (RouteError, unit) result \<times> RouteRegistry" where
  "registry_register k t r =
     (if routes r k \<noteq> None then (Err (RouteAlreadyExists k), r)
      else (Ok (), put_route k t r))"

definition register_wildcard ::
  "string \<Rightarrow> RouteTarget \<Rightarrow> RouteRegistry \<Rightarrow> (RouteError, unit) result \<times> RouteRegistry" where
  "register_wildcard p t r =
     (case wildcard_parse p of
        Err e \<Rightarrow> (Err (InvalidWildcardPattern (wildcard_error_display e)), r)
      | Ok validated \<Rightarrow>
          let pattern_str = pattern validated
          in if wildcard_routes r pattern_str \<noteq> None then
               (Err (RouteAlreadyExists (HttpHost pattern_str)), r)
             else (Ok (), put_wildcard pattern_str t r))"

definition lookup_wildcard :: "RouteRegistry \<Rightarrow> string \<Rightarrow> RouteTarget option" where
  "lookup_wildcard r hostname =
     (case extract_parent_wildcard hostname of
        None \<Rightarrow> None
      | Some wildcard \<Rightarrow>
          (case wildcard_routes r wildcard of
             None \<Rightarrow> None
           | Some target \<Rightarrow>
               (case wildcard_parse wildcard of
                  Err _ \<Rightarrow> None
                | Ok pat \<Rightarrow> if wildcard_matches pat hostname then Some target else None)))"

definition registry_lookup :: "RouteRegistry \<Rightarrow> RouteKey \<Rightarrow> (RouteError, RouteTarget) result" where
  "registry_lookup r key =
     (case routes r key of
        Some t \<Rightarrow> Ok t
      | None \<Rightarrow>
          (case (case key of HttpHost host \<Rightarrow> lookup_wildcard r host
                           | TlsSni sni \<Rightarrow> lookup_wildcard r sni
                           | TcpPort _ \<Rightarrow> None) of
             Some t \<Rightarrow> Ok t
           | None \<Rightarrow> Err (RouteNotFound key)))"

definition registry_unregister ::
  "RouteKey \<Rightarrow> RouteRegistry \<Rightarrow> (RouteError, RouteTarget) result \<times> RouteRegistry" where
  "registry_unregister key r =
     (case routes r key of
        None \<Rightarrow> (Err (RouteNotFound key), r)
      | Some t \<Rightarrow> (Ok t, del_route key r))"

definition unregister_wildcard ::
  "string \<Rightarrow> RouteRegistry \<Rightarrow> (RouteError, RouteTarget) result \<times> RouteRegistry" where
  "unregister_wildcard p r =
     (case wildcard_routes r p of
        None \<Rightarrow> (Err (RouteNotFound (HttpHost p)), r)
      | Some t \<Rightarrow> (Ok t, del_wildcard p r))"

definition registry_exists :: "RouteRegistry \<Rightarrow> RouteKey \<Rightarrow> bool" where
  "registry_exists r key \<longleftrightarrow> routes r key \<noteq> None"

definition wildcard_exists :: "RouteRegistry \<Rightarrow> string \<Rightarrow> bool" where
  "wildcard_exists r p \<longleftrightarrow> wildcard_routes r p \<noteq> None"

definition get_wildcard_target :: "RouteRegistry \<Rightarrow> string \<Rightarrow> RouteTarget option" where
  "get_wildcard_target r p = wildcard_routes r p"

definition exists_with_wildcard :: "RouteRegistry \<Rightarrow> RouteKey \<Rightarrow> bool" where
  "exists_with_wildcard r key =
     (if routes r key \<noteq> None then True
      else case (case key of HttpHost host \<Rightarrow> extract_parent_wildcard host
                           | TlsSni sni \<Rightarrow> extract_parent_wildcard sni
                           | TcpPort _ \<Rightarrow> None) of
             Some wildcard \<Rightarrow> wildcard_routes r wildcard \<noteq> None
           | None \<Rightarrow> False)"

definition registry_count :: "RouteRegistry \<Rightarrow> nat" where
  "registry_count r = card (dom (routes r))"

definition wildcard_count :: "RouteRegistry \<Rightarrow> nat" where
  "wildcard_count r = card (dom (wildcard_routes r))"

definition total_count :: "RouteRegistry \<Rightarrow> nat" where
  "total_count r = registry_count r + wildcard_count r"

definition registry_clear :: "RouteRegistry \<Rightarrow> RouteRegistry" where
  "registry_clear r = r\<lparr>routes := Map.empty, wildcard_routes := Map.empty\<rparr>"

lemmas registry_updates = put_route_def del_route_def put_wildcard_def del_wildcard_def

section \<open>The two stores\<close>

interpretation exact_routes: keyed_store routes put_route del_route
  by unfold_locales (auto simp: registry_updates)

interpretation wild_routes: keyed_store wildcard_routes put_wildcard del_wildcard
  by unfold_locales (auto simp: registry_updates)

lemma registry_frame [simp]:
  "wildcard_routes (put_route k t r) = wildcard_routes r"
  "wildcard_routes (del_route k r) = wildcard_routes r"
  "routes (put_wildcard p t r) = routes r"
  "routes (del_wildcard p r) = routes r"
  by (simp_all add: registry_updates)

section \<open>Invariant\<close>

text \<open>Only finitely many routes, and every wildcard key is a valid pattern.\<close>

definition registry_inv :: "RouteRegistry \<Rightarrow> bool" where
  "registry_inv r \<longleftrightarrow> finite (dom (routes r)) \<and> finite (dom (wildcard_routes r)) \<and>
     (\<forall>p \<in> dom (wildcard_routes r). is_ok (wildcard_parse p))"

lemma registry_inv_new: "registry_inv registry_new"
  by (simp add: registry_inv_def registry_new_def)

lemma registry_inv_put: "registry_inv r \<Longrightarrow> registry_inv (put_route k t r)"
  by (simp add: registry_inv_def put_route_def)

lemma registry_inv_del: "registry_inv r \<Longrightarrow> registry_inv (del_route k r)"
  by (simp add: registry_inv_def del_route_def)

lemma registry_inv_del_wildcard: "registry_inv r \<Longrightarrow> registry_inv (del_wildcard p r)"
  by (auto simp: registry_inv_def del_wildcard_def)

lemma registry_inv_put_wildcard:
  "registry_inv r \<Longrightarrow> is_ok (wildcard_parse p) \<Longrightarrow> registry_inv (put_wildcard p t r)"
  by (auto simp: registry_inv_def put_wildcard_def)

lemma wildcard_parse_pattern: "wildcard_parse p = Ok w \<Longrightarrow> pattern w = p"
  by (auto simp: wildcard_parse_Ok)

lemma registry_inv_register: "registry_inv r \<Longrightarrow> registry_inv (snd (registry_register k t r))"
  by (simp add: registry_register_def registry_inv_put)

lemma registry_inv_register_wildcard: "registry_inv r \<Longrightarrow> registry_inv (snd (register_wildcard p t r))"
  by (auto simp: register_wildcard_def Let_def is_ok_def wildcard_parse_pattern
      intro!: registry_inv_put_wildcard split: sum.splits)

lemma registry_inv_unregister: "registry_inv r \<Longrightarrow> registry_inv (snd (registry_unregister k r))"
  by (auto simp: registry_unregister_def registry_inv_del split: option.splits)

lemma registry_inv_unregister_wildcard:
  "registry_inv r \<Longrightarrow> registry_inv (snd (unregister_wildcard p r))"
  by (auto simp: unregister_wildcard_def registry_inv_del_wildcard split: option.splits)

lemma registry_inv_clear: "registry_inv (registry_clear r)"
  by (simp add: registry_inv_def registry_clear_def)

lemmas registry_inv_intros = registry_inv_new registry_inv_register registry_inv_register_wildcard
  registry_inv_unregister registry_inv_unregister_wildcard registry_inv_clear

text \<open>Every state a client can bring a fresh registry to.\<close>

inductive registry_step :: "RouteRegistry \<Rightarrow> RouteRegistry \<Rightarrow> bool" where
  step_register: "registry_step r (snd (registry_register k t r))"
| step_register_wildcard: "registry_step r (snd (register_wildcard p t r))"
| step_unregister: "registry_step r (snd (registry_unregister k r))"
| step_unregister_wildcard: "registry_step r (snd (unregister_wildcard p r))"
| step_clear: "registry_step r (registry_clear r)"

inductive_cases registry_stepE: "registry_step r r'"

inductive registry_reachable :: "RouteRegistry \<Rightarrow> bool" where
  reach_new: "registry_reachable registry_new"
| reach_step: "registry_reachable r \<Longrightarrow> registry_step r r' \<Longrightarrow> registry_reachable r'"

lemma registry_step_inv: "registry_step r r' \<Longrightarrow> registry_inv r \<Longrightarrow> registry_inv r'"
  by (elim registry_stepE) (auto intro: registry_inv_intros)

lemma registry_reachable_inv: "registry_reachable r \<Longrightarrow> registry_inv r"
  by (induction rule: registry_reachable.induct) (auto intro: registry_inv_intros registry_step_inv)

section \<open>Lookup\<close>

text \<open>The hostname a key carries, if wildcard fallback applies to it.\<close>

definition host_of :: "RouteKey \<Rightarrow> string option" where
  "host_of key = (case key of HttpHost h \<Rightarrow> Some h | TlsSni h \<Rightarrow> Some h | TcpPort _ \<Rightarrow> None)"

lemma registry_lookup_host:
  "registry_lookup r key =
     (case routes r key of
        Some t \<Rightarrow> Ok t
      | None \<Rightarrow> (case Option.bind (host_of key) (lookup_wildcard r) of
                   Some t \<Rightarrow> Ok t | None \<Rightarrow> Err (RouteNotFound key)))"
  by (auto simp: registry_lookup_def host_of_def split: option.splits RouteKey.splits)

lemma exists_with_wildcard_host:
  "exists_with_wildcard r key \<longleftrightarrow> routes r key \<noteq> None \<or>
     (\<exists>q. Option.bind (host_of key) extract_parent_wildcard = Some q \<and> wildcard_routes r q \<noteq> None)"
  by (auto simp: exists_with_wildcard_def host_of_def split: option.splits RouteKey.splits)

lemma lookup_wildcard_iff:
  "lookup_wildcard r h = Some t \<longleftrightarrow>
     (\<exists>q w. wildcard_routes r q = Some t \<and> wildcard_parse q = Ok w \<and> wildcard_matches w h)"
proof
  assume "lookup_wildcard r h = Some t"
  then show "\<exists>q w. wildcard_routes r q = Some t \<and> wildcard_parse q = Ok w \<and> wildcard_matches w h"
    by (auto simp: lookup_wildcard_def split: option.splits sum.splits if_splits)
next
  assume "\<exists>q w. wildcard_routes r q = Some t \<and> wildcard_parse q = Ok w \<and> wildcard_matches w h"
  then obtain q w where "wildcard_routes r q = Some t" "wildcard_parse q = Ok w" "wildcard_matches w h"
    by blast
  then show "lookup_wildcard r h = Some t"
    using matches_extract by (simp add: lookup_wildcard_def)
qed


lemma lookup_wildcard_reachable:
  assumes "registry_inv r"
  shows "lookup_wildcard r h \<noteq> None \<longleftrightarrow>
           (\<exists>q. extract_parent_wildcard h = Some q \<and> wildcard_routes r q \<noteq> None) \<and> \<not> starts_with h ''.''"
proof -
  have "lookup_wildcard r h \<noteq> None \<longleftrightarrow>
      (\<exists>q w. wildcard_routes r q \<noteq> None \<and> wildcard_parse q = Ok w \<and> wildcard_matches w h)"
    using lookup_wildcard_iff [of r h] by auto
  also have "\<dots> \<longleftrightarrow> (\<exists>q w. wildcard_routes r q \<noteq> None \<and> wildcard_parse q = Ok w \<and>
      extract_parent_wildcard h = Some q \<and> \<not> starts_with h ''.'')"
    using matches_iff_extract by blast
  also have "\<dots> \<longleftrightarrow> (\<exists>q. extract_parent_wildcard h = Some q \<and> wildcard_routes r q \<noteq> None)
      \<and> \<not> starts_with h ''.''"
    using assms by (auto simp: registry_inv_def is_ok_iff dom_def)
  finally show ?thesis .
qed

text \<open>
  In every reachable registry, \<open>exists_with_wildcard\<close> agrees with whether a lookup succeeds, but
  for one kind of key: a hostname that begins with a dot and whose parent wildcard is registered is
  reported to exist, and its lookup fails.
\<close>

theorem exists_with_wildcard_spec:
  assumes "registry_reachable r"
  shows "exists_with_wildcard r key \<longleftrightarrow>
           is_ok (registry_lookup r key) \<or>
           (\<exists>h q. host_of key = Some h \<and> starts_with h ''.'' \<and>
              extract_parent_wildcard h = Some q \<and> wildcard_exists r q)"
proof -
  have inv: "registry_inv r" using assms by (rule registry_reachable_inv)
  have "is_ok (registry_lookup r key) \<longleftrightarrow>
      routes r key \<noteq> None \<or> (\<exists>h. host_of key = Some h \<and> lookup_wildcard r h \<noteq> None)"
    by (auto simp: registry_lookup_host bind_eq_Some_conv split: option.splits)
  then show ?thesis
    using lookup_wildcard_reachable [OF inv]
    by (auto simp: exists_with_wildcard_host wildcard_exists_def bind_eq_Some_conv)
qed

definition demo_target :: RouteTarget where
  "demo_target = \<lparr>localup_id = ''t1'', target_addr = ''tunnel:t1'', metadata = None,
     ip_filter = ip_filter_new\<rparr>"

definition demo_registry :: RouteRegistry where
  "demo_registry = snd (register_wildcard ''*.example.com'' demo_target registry_new)"

lemma demo_registry_reachable: "registry_reachable demo_registry"
  unfolding demo_registry_def by (intro reach_step [OF reach_new] step_register_wildcard)

lemma demo_parse:
  "wildcard_parse ''*.example.com'' = Ok \<lparr>pattern = ''*.example.com'', base_domain = ''example.com''\<rparr>"
  by (simp add: wildcard_parse_Ok valid_base_def)

lemma demo_registry_eq:
  "demo_registry = \<lparr>routes = Map.empty, wildcard_routes = [''*.example.com'' \<mapsto> demo_target]\<rparr>"
  by (simp add: demo_registry_def register_wildcard_def demo_parse registry_new_def put_wildcard_def)

theorem exists_with_wildcard_spec_witness:
  "exists_with_wildcard demo_registry (HttpHost ''.example.com'') \<and>
   \<not> is_ok (registry_lookup demo_registry (HttpHost ''.example.com'')) \<and>
   exists_with_wildcard demo_registry (HttpHost ''api.example.com'')
     = is_ok (registry_lookup demo_registry (HttpHost ''api.example.com''))"
proof -
  have ext: "extract_parent_wildcard ''.example.com'' = Some ''*.example.com''"
    by (simp add: extract_parent_wildcard_split)
  have no: "\<not> is_ok (registry_lookup demo_registry (HttpHost ''.example.com''))"
    by (simp add: registry_lookup_def demo_registry_eq lookup_wildcard_def ext demo_parse
        wildcard_matches_def ends_with_def)
  show ?thesis
    using exists_with_wildcard_spec [OF demo_registry_reachable, of "HttpHost ''.example.com''"]
      exists_with_wildcard_spec [OF demo_registry_reachable, of "HttpHost ''api.example.com''"] ext no
    by (simp add: host_of_def starts_with_def wildcard_exists_def demo_registry_eq)
qed

section \<open>Registration\<close>

lemma registry_lookup_put:
  "registry_lookup (put_route k t r) k' = (if k' = k then Ok t else registry_lookup r k')"
proof (cases "k' = k")
  case True
  then show ?thesis by (simp add: registry_lookup_host exact_routes.get_put)
next
  case False
  have "lookup_wildcard (put_route k t r) = lookup_wildcard r"
    by (rule ext) (simp only: lookup_wildcard_def registry_frame)
  with False show ?thesis
    by (simp add: registry_lookup_host exact_routes.get_put split: option.split)
qed

text \<open>
  Registration is exclusive and local: it succeeds exactly on a free key, then the key's lookup
  returns the new target and every other key's lookup is as before; on a taken key it reports
  \<open>RouteAlreadyExists\<close> and changes nothing; unregistering the key gives the target back and restores
  the registry.
\<close>

theorem registry_register_spec:
  "(case registry_register k t r of
      (Ok _, r') \<Rightarrow>
        routes r k = None \<and>
        (\<forall>k'. registry_lookup r' k' = (if k' = k then Ok t else registry_lookup r k')) \<and>
        registry_unregister k r' = (Ok t, r)
    | (Err e, r') \<Rightarrow> routes r k \<noteq> None \<and> e = RouteAlreadyExists k \<and> r' = r)"
proof (cases "routes r k")
  case None
  then have "del_route k (put_route k t r) = r"
    by (simp add: registry_updates fun_upd_idem)
  with None show ?thesis
    by (simp add: registry_register_def registry_lookup_put registry_unregister_def
        exact_routes.get_put)
qed (simp add: registry_register_def)

section \<open>Concurrent registration\<close>

text \<open>
  The maps are sharded concurrent maps, and \<open>register\<close> first asks \<open>contains_key\<close> and then inserts,
  with no lock held in between. Each thread is before the check, between the two steps, or done.
\<close>

datatype register_pc =
    BeforeCheck RouteKey RouteTarget
  | AfterCheck RouteKey RouteTarget
  | RegisterDone "(RouteError, unit) result"

inductive register_conc_step ::
  "(nat \<Rightarrow> register_pc) \<times> RouteRegistry \<Rightarrow> (nat \<Rightarrow> register_pc) \<times> RouteRegistry \<Rightarrow> bool" where
  check_taken: "pc i = BeforeCheck k t \<Longrightarrow> routes r k \<noteq> None \<Longrightarrow>
     register_conc_step (pc, r) (pc(i := RegisterDone (Err (RouteAlreadyExists k))), r)"
| check_free: "pc i = BeforeCheck k t \<Longrightarrow> routes r k = None \<Longrightarrow>
     register_conc_step (pc, r) (pc(i := AfterCheck k t), r)"
| do_insert: "pc i = AfterCheck k t \<Longrightarrow>
     register_conc_step (pc, r) (pc(i := RegisterDone (Ok ())), put_route k t r)"

text \<open>A thread that runs its two steps without interference computes \<open>registry_register\<close>.\<close>

lemma register_conc_sequential:
  assumes "pc i = BeforeCheck k t"
  shows "register_conc_step\<^sup>*\<^sup>* (pc, r)
           (pc(i := RegisterDone (fst (registry_register k t r))), snd (registry_register k t r))"
proof (cases "routes r k")
  case None
  have "register_conc_step (pc, r) (pc(i := AfterCheck k t), r)"
    using assms None by (rule check_free)
  moreover have "register_conc_step (pc(i := AfterCheck k t), r)
      ((pc(i := AfterCheck k t))(i := RegisterDone (Ok ())), put_route k t r)"
    by (rule do_insert) simp
  ultimately show ?thesis using None by (simp add: registry_register_def)
next
  case (Some t')
  with assms have "register_conc_step (pc, r) (pc(i := RegisterDone (Err (RouteAlreadyExists k))), r)"
    by (intro check_taken) auto
  with Some show ?thesis by (simp add: registry_register_def)
qed

text \<open>
  Exclusivity holds only without interleaving: two threads that register the same free key can
  both be told \<open>Ok\<close>, and the second target silently replaces the first.
\<close>

theorem register_race:
  assumes "routes r k = None" and "pc i = BeforeCheck k t1" and "pc j = BeforeCheck k t2" and "i \<noteq> j"
  shows "register_conc_step\<^sup>*\<^sup>* (pc, r)
           (pc(i := RegisterDone (Ok ()), j := RegisterDone (Ok ())), put_route k t2 r)"
proof -
  let ?p1 = "pc(i := AfterCheck k t1)"
  let ?p2 = "?p1(j := AfterCheck k t2)"
  let ?p3 = "?p2(i := RegisterDone (Ok ()))"
  have "register_conc_step (pc, r) (?p1, r)" using assms by (intro check_free)
  moreover have "register_conc_step (?p1, r) (?p2, r)" using assms by (intro check_free) auto
  moreover have "register_conc_step (?p2, r) (?p3, put_route k t1 r)"
    using assms by (intro do_insert) auto
  moreover have "register_conc_step (?p3, put_route k t1 r)
      (?p3(j := RegisterDone (Ok ())), put_route k t2 (put_route k t1 r))"
    using assms by (intro do_insert) auto
  moreover have "?p3(j := RegisterDone (Ok ())) = pc(i := RegisterDone (Ok ()), j := RegisterDone (Ok ()))"
    using assms(4) by auto
  moreover have "put_route k t2 (put_route k t1 r) = put_route k t2 r"
    by (simp add: put_route_def)
  ultimately show ?thesis by simp
qed

definition demo_callers :: "nat \<Rightarrow> register_pc" where
  "demo_callers n =
     BeforeCheck (TcpPort 80) (demo_target\<lparr>localup_id := if n = 0 then ''a'' else ''b''\<rparr>)"

theorem register_race_witness:
  "register_conc_step\<^sup>*\<^sup>* (demo_callers, registry_new)
     (demo_callers(0 := RegisterDone (Ok ()), 1 := RegisterDone (Ok ())),
      put_route (TcpPort 80) (demo_target\<lparr>localup_id := ''b''\<rparr>) registry_new)"
proof (rule register_race)
  show "routes registry_new (TcpPort 80) = None" by (simp add: registry_new_def)
  show "demo_callers 0 = BeforeCheck (TcpPort 80) (demo_target\<lparr>localup_id := ''a''\<rparr>)"
    and "demo_callers 1 = BeforeCheck (TcpPort 80) (demo_target\<lparr>localup_id := ''b''\<rparr>)"
    by (simp_all add: demo_callers_def)
qed simp

end
