(* ===== verification/Routers.thy ===== *)
theory Routers
  imports Registry
begin

text \<open>
  The three routers over the route registry: \<open>crates/localup-router/src/http.rs\<close>, \<open>sni.rs\<close> and
  \<open>tcp.rs\<close>, with their shared contract as a locale, and the extraction of the server name from a
  TLS ClientHello (\<open>SniRouter::extract_sni\<close>), where every index and every slice that Rust checks
  is checked and a failed check is \<^const>\<open>Panicked\<close>.
\<close>

section \<open>HTTP hosts\<close>

datatype HttpRouterError =
    HttpRouteError RouteError
  | InvalidHost string
  | HostHeaderNotFound
  | HttpInvalidWildcardPattern string

record HttpRoute =
  http_host :: string
  http_localup_id :: string
  http_target_addr :: string
  http_ip_filter :: IpFilter

definition http_target :: "HttpRoute \<Rightarrow> RouteTarget" where
  "http_target route = \<lparr>localup_id = http_localup_id route, target_addr = http_target_addr route,
     metadata = None, ip_filter = http_ip_filter route\<rparr>"

definition http_register_route ::
  "HttpRoute \<Rightarrow> RouteRegistry \<Rightarrow> (HttpRouterError, unit) result \<times> RouteRegistry" where
  "http_register_route route r =
     (case registry_register (HttpHost (http_host route)) (http_target route) r of
        (res, r') \<Rightarrow> (map_err HttpRouteError res, r'))"

definition register_wildcard_route ::
  "string \<Rightarrow> string \<Rightarrow> string \<Rightarrow> RouteRegistry \<Rightarrow> (HttpRouterError, unit) result \<times> RouteRegistry" where
  "register_wildcard_route p lid taddr r =
     (case wildcard_parse p of
        Err e \<Rightarrow> (Err (HttpInvalidWildcardPattern (wildcard_error_display e)), r)
      | Ok _ \<Rightarrow>
          (case register_wildcard p
                  \<lparr>localup_id = lid, target_addr = taddr, metadata = Some ''wildcard'',
                   ip_filter = ip_filter_new\<rparr> r of
             (res, r') \<Rightarrow> (map_err HttpRouteError res, r')))"

definition normalize_host :: "string \<Rightarrow> string" where
  "normalize_host host = (case split_char CHR '':'' host of p # _ \<Rightarrow> p | [] \<Rightarrow> host)"

definition http_lookup :: "RouteRegistry \<Rightarrow> string \<Rightarrow> (HttpRouterError, RouteTarget) result" where
  "http_lookup r host = map_err HttpRouteError (registry_lookup r (HttpHost (normalize_host host)))"

definition http_unregister ::
  "string \<Rightarrow> RouteRegistry \<Rightarrow> (HttpRouterError, unit) result \<times> RouteRegistry" where
  "http_unregister host r =
     (case registry_unregister (HttpHost (normalize_host host)) r of
        (Err e, r') \<Rightarrow> (Err (HttpRouteError e), r')
      | (Ok _, r') \<Rightarrow> (Ok (), r'))"

definition http_unregister_wildcard ::
  "string \<Rightarrow> RouteRegistry \<Rightarrow> (HttpRouterError, unit) result \<times> RouteRegistry" where
  "http_unregister_wildcard p r =
     (case unregister_wildcard p r of
        (Err e, r') \<Rightarrow> (Err (HttpRouteError e), r')
      | (Ok _, r') \<Rightarrow> (Ok (), r'))"

definition has_route :: "RouteRegistry \<Rightarrow> string \<Rightarrow> bool" where
  "has_route r host = registry_exists r (HttpHost (normalize_host host))"

definition has_route_with_wildcard :: "RouteRegistry \<Rightarrow> string \<Rightarrow> bool" where
  "has_route_with_wildcard r host = exists_with_wildcard r (HttpHost (normalize_host host))"

definition has_wildcard_route :: "RouteRegistry \<Rightarrow> string \<Rightarrow> bool" where
  "has_wildcard_route r p = wildcard_exists r p"

definition extract_host :: "(string \<times> string) list \<Rightarrow> (HttpRouterError, string) result" where
  "extract_host headers =
     (case find (\<lambda>(name, _). eq_ignore_ascii_case name ''host'') headers of
        Some (_, v) \<Rightarrow> Ok v
      | None \<Rightarrow> Err HostHeaderNotFound)"

section \<open>TLS server names and TCP ports\<close>

datatype SniRouterError = SniRouteError RouteError | InvalidSni string | SniExtractionFailed

record SniRoute =
  sni_hostname :: string
  sni_localup_id :: string
  sni_target_addr :: string
  sni_ip_filter :: IpFilter

definition sni_target :: "SniRoute \<Rightarrow> RouteTarget" where
  "sni_target route = \<lparr>localup_id = sni_localup_id route, target_addr = sni_target_addr route,
     metadata = None, ip_filter = sni_ip_filter route\<rparr>"

definition sni_register_route ::
  "SniRoute \<Rightarrow> RouteRegistry \<Rightarrow> (SniRouterError, unit) result \<times> RouteRegistry" where
  "sni_register_route route r =
     (case registry_register (TlsSni (sni_hostname route)) (sni_target route) r of
        (res, r') \<Rightarrow> (map_err SniRouteError res, r'))"

definition sni_lookup :: "RouteRegistry \<Rightarrow> string \<Rightarrow> (SniRouterError, RouteTarget) result" where
  "sni_lookup r sni = map_err SniRouteError (registry_lookup r (TlsSni sni))"

definition sni_unregister ::
  "string \<Rightarrow> RouteRegistry \<Rightarrow> (SniRouterError, unit) result \<times> RouteRegistry" where
  "sni_unregister sni r =
     (case registry_unregister (TlsSni sni) r of
        (Err e, r') \<Rightarrow> (Err (SniRouteError e), r')
      | (Ok _, r') \<Rightarrow> (Ok (), r'))"

definition sni_has_route :: "RouteRegistry \<Rightarrow> string \<Rightarrow> bool" where
  "sni_has_route r sni = registry_exists r (TlsSni sni)"

datatype TcpRouterError = TcpRouteError RouteError | InvalidPort u16

record TcpRoute =
  tcp_port :: u16
  tcp_localup_id :: string
  tcp_target_addr :: string
  tcp_ip_filter :: IpFilter

definition tcp_target :: "TcpRoute \<Rightarrow> RouteTarget" where
  "tcp_target route = \<lparr>localup_id = tcp_localup_id route, target_addr = tcp_target_addr route,
     metadata = None, ip_filter = tcp_ip_filter route\<rparr>"

definition tcp_register_route ::
  "TcpRoute \<Rightarrow> RouteRegistry \<Rightarrow> (TcpRouterError, unit) result \<times> RouteRegistry" where
  "tcp_register_route route r =
     (case registry_register (TcpPort (tcp_port route)) (tcp_target route) r of
        (res, r') \<Rightarrow> (map_err TcpRouteError res, r'))"

definition tcp_lookup :: "RouteRegistry \<Rightarrow> u16 \<Rightarrow> (TcpRouterError, RouteTarget) result" where
  "tcp_lookup r port = map_err TcpRouteError (registry_lookup r (TcpPort port))"

definition tcp_unregister ::
  "u16 \<Rightarrow> RouteRegistry \<Rightarrow> (TcpRouterError, unit) result \<times> RouteRegistry" where
  "tcp_unregister port r =
     (case registry_unregister (TcpPort port) r of
        (Err e, r') \<Rightarrow> (Err (TcpRouteError e), r')
      | (Ok _, r') \<Rightarrow> (Ok (), r'))"

definition tcp_has_route :: "RouteRegistry \<Rightarrow> u16 \<Rightarrow> bool" where
  "tcp_has_route r port = registry_exists r (TcpPort port)"

section \<open>The contract of a router\<close>

text \<open>
  A route is stored under its key and a query asks for its own key; a registration is visible to the
  queries of that key and to no other, and unregistering through any such query takes it back.
\<close>

locale router =
  fixes register :: "'route \<Rightarrow> 's \<Rightarrow> ('e, unit) result \<times> 's"
    and lookup :: "'s \<Rightarrow> 'q \<Rightarrow> ('e, 't) result"
    and unregister :: "'q \<Rightarrow> 's \<Rightarrow> ('e, unit) result \<times> 's"
    and route_key :: "'route \<Rightarrow> 'k"
    and query_key :: "'q \<Rightarrow> 'k"
    and target_of :: "'route \<Rightarrow> 't"
  assumes lookup_register:
      "register x s = (Ok u, s') \<Longrightarrow>
         lookup s' q = (if query_key q = route_key x then Ok (target_of x) else lookup s q)"
    and register_error: "register x s = (Err e, s') \<Longrightarrow> s' = s"
    and unregister_register:
      "register x s = (Ok u, s') \<Longrightarrow> query_key q = route_key x \<Longrightarrow> unregister q s' = (Ok (), s)"
begin

fun register_all :: "'route list \<Rightarrow> 's \<Rightarrow> 's option" where
  "register_all [] s = Some s"
| "register_all (x # xs) s =
     (case register x s of (Ok _, s') \<Rightarrow> register_all xs s' | (Err _, _) \<Rightarrow> None)"

text \<open>A query no registered route answers to is not affected by any number of registrations.\<close>

lemma register_all_frame:
  "register_all xs s = Some s' \<Longrightarrow> query_key q \<notin> route_key ` set xs \<Longrightarrow> lookup s' q = lookup s q"
proof (induction xs arbitrary: s)
  case (Cons x xs)
  then obtain u s1 where s1: "register x s = (Ok u, s1)" "register_all xs s1 = Some s'"
    by (auto split: prod.splits sum.splits)
  with Cons show ?case using lookup_register [OF s1(1), of q] by (auto simp: image_iff)
qed simp

text \<open>Routes under pairwise distinct keys all answer once they are registered.\<close>

lemma register_all_lookup:
  assumes "register_all xs s = Some s'" and "distinct (map route_key xs)"
    and "x \<in> set xs" and "query_key q = route_key x"
  shows "lookup s' q = Ok (target_of x)"
  using assms
proof (induction xs arbitrary: s)
  case (Cons y xs)
  then obtain u s1 where s1: "register y s = (Ok u, s1)" "register_all xs s1 = Some s'"
    by (auto split: prod.splits sum.splits)
  show ?case
  proof (cases "x \<in> set xs")
    case True
    with Cons s1 show ?thesis by simp
  next
    case False
    with Cons.prems have "y = x" by simp
    moreover from this Cons.prems have "query_key q \<notin> route_key ` set xs" by simp
    ultimately show ?thesis
      using register_all_frame [OF s1(2)] lookup_register [OF s1(1)] Cons.prems by simp
  qed
qed simp

end

lemma registry_register_Ok:
  "registry_register k t r = (Ok u, r') \<longleftrightarrow> routes r k = None \<and> r' = put_route k t r"
  by (auto simp: registry_register_def)

lemma registry_register_Err:
  "registry_register k t r = (Err e, r') \<longleftrightarrow>
     routes r k \<noteq> None \<and> e = RouteAlreadyExists k \<and> r' = r"
  by (auto simp: registry_register_def)

lemma registry_unregister_put:
  "routes r k = None \<Longrightarrow> registry_unregister k (put_route k t r) = (Ok t, r)"
  by (simp add: registry_unregister_def registry_updates fun_upd_idem)

lemmas router_defs = http_register_route_def http_lookup_def http_unregister_def
  sni_register_route_def sni_lookup_def sni_unregister_def
  tcp_register_route_def tcp_lookup_def tcp_unregister_def

interpretation http_router: router http_register_route http_lookup http_unregister
    http_host normalize_host http_target
  by unfold_locales
     (auto simp: router_defs registry_register_Ok registry_register_Err registry_lookup_put
       registry_unregister_put map_err_def split: prod.splits sum.splits)

interpretation sni_router: router sni_register_route sni_lookup sni_unregister
    sni_hostname "\<lambda>sni. sni" sni_target
  by unfold_locales
     (auto simp: router_defs registry_register_Ok registry_register_Err registry_lookup_put
       registry_unregister_put map_err_def split: prod.splits sum.splits)

interpretation tcp_router: router tcp_register_route tcp_lookup tcp_unregister
    tcp_port "\<lambda>port. port" tcp_target
  by unfold_locales
     (auto simp: router_defs registry_register_Ok registry_register_Err registry_lookup_put
       registry_unregister_put map_err_def split: prod.splits sum.splits)

lemma normalize_host_takeWhile: "normalize_host h = takeWhile (\<lambda>c. c \<noteq> CHR '':'') h"
  using hd_split_char [of "CHR '':''" h]
  by (cases "split_char CHR '':'' h") (simp_all add: normalize_host_def)

lemma normalize_host_no_colon: "CHR '':'' \<notin> set (normalize_host h)"
  by (auto simp: normalize_host_takeWhile dest: set_takeWhileD)

lemma normalize_host_idem [simp]: "normalize_host (normalize_host h) = normalize_host h"
  by (simp add: normalize_host_takeWhile)

text \<open>
  A registered HTTP route answers exactly the Host headers that equal its host up to a port
  suffix, and no other header's lookup changes. Registration does not strip the port, so a route
  registered under a host with a port answers no header at all.
\<close>

theorem http_route_answers:
  assumes "http_register_route route r = (Ok (), r')"
  shows "http_lookup r' q =
           (if normalize_host q = http_host route then Ok (http_target route) else http_lookup r q) \<and>
         (CHR '':'' \<in> set (http_host route) \<longrightarrow> http_lookup r' q = http_lookup r q)"
proof -
  have "http_lookup r' q =
      (if normalize_host q = http_host route then Ok (http_target route) else http_lookup r q)"
    using assms by (rule http_router.lookup_register)
  then show ?thesis using normalize_host_no_colon [of q] by auto
qed

definition demo_http_route :: HttpRoute where
  "demo_http_route = \<lparr>http_host = ''a.com:80'', http_localup_id = ''t1'',
     http_target_addr = ''tunnel:t1'', http_ip_filter = ip_filter_new\<rparr>"

theorem http_route_answers_witness:
  "http_register_route demo_http_route registry_new
     = (Ok (), put_route (HttpHost ''a.com:80'') (http_target demo_http_route) registry_new) \<and>
   http_lookup (put_route (HttpHost ''a.com:80'') (http_target demo_http_route) registry_new) ''a.com:80''
     = http_lookup registry_new ''a.com:80''"
proof
  have colon: "CHR '':'' \<in> set (http_host demo_http_route)" by (simp add: demo_http_route_def)
  show reg: "http_register_route demo_http_route registry_new
     = (Ok (), put_route (HttpHost ''a.com:80'') (http_target demo_http_route) registry_new)"
    by (simp add: http_register_route_def registry_register_def registry_new_def demo_http_route_def)
  show "http_lookup (put_route (HttpHost ''a.com:80'') (http_target demo_http_route) registry_new)
      ''a.com:80'' = http_lookup registry_new ''a.com:80''"
    using http_route_answers [OF reg, of "''a.com:80''"] colon by blast
qed

section \<open>Server name extraction\<close>

definition u16_at :: "bytes \<Rightarrow> nat \<Rightarrow> nat outcome" where
  "u16_at buf i =
     and_then (index_at buf i) (\<lambda>a.
     and_then (index_at buf (i + 1)) (\<lambda>b. Returned (unat (u16_from_be_bytes [a, b]))))"

definition parse_sni_extension :: "bytes \<Rightarrow> (SniRouterError, string) result outcome" where
  "parse_sni_extension data =
     (if length data < 5 then Returned (Err SniExtractionFailed)
      else and_then (index_at data 2) (\<lambda>name_type.
        if name_type \<noteq> 0 then Returned (Err (InvalidSni ''Invalid name type''))
        else and_then (u16_at data 3) (\<lambda>name_len.
          if 5 + name_len > length data then Returned (Err SniExtractionFailed)
          else and_then (slice_at data 5 (5 + name_len)) (\<lambda>name.
            case from_utf8 name of
              None \<Rightarrow> Returned (Err (InvalidSni ''Invalid UTF-8 in hostname''))
            | Some hostname \<Rightarrow>
                if hostname = [] then Returned (Err (InvalidSni ''Empty hostname''))
                else Returned (Ok hostname)))))"

text \<open>The loop over the extensions; each round advances by at least the four header bytes.\<close>

function find_sni_extension ::
  "bytes \<Rightarrow> nat \<Rightarrow> nat \<Rightarrow> (SniRouterError, string) result outcome" where
  "find_sni_extension hello offset extensions_end =
     (if offset + 4 \<le> extensions_end then
        and_then (u16_at hello offset) (\<lambda>ext_type.
        and_then (u16_at hello (offset + 2)) (\<lambda>ext_len.
          if ext_type = 0 then
            and_then (slice_at hello (offset + 4) (offset + 4 + ext_len)) parse_sni_extension
          else find_sni_extension hello (offset + 4 + ext_len) extensions_end))
      else Returned (Err SniExtractionFailed))"
  by pat_completeness auto
termination
  by (relation "measure (\<lambda>(_, offset, extensions_end). extensions_end - offset)") auto

declare find_sni_extension.simps [simp del]

definition extract_sni :: "bytes \<Rightarrow> (SniRouterError, string) result outcome" where
  "extract_sni hello =
     (if length hello < 43 then Returned (Err SniExtractionFailed)
      else let offset = 9 + 2 + 32
           in if offset \<ge> length hello then Returned (Err SniExtractionFailed)
              else and_then (index_at hello offset) (\<lambda>session_id_len.
      let offset = offset + 1 + unat session_id_len
      in if offset + 2 > length hello then Returned (Err SniExtractionFailed)
         else and_then (u16_at hello offset) (\<lambda>cipher_suites_len.
      let offset = offset + 2 + cipher_suites_len
      in if offset \<ge> length hello then Returned (Err SniExtractionFailed)
         else and_then (index_at hello offset) (\<lambda>compression_methods_len.
      let offset = offset + 1 + unat compression_methods_len
      in if offset + 2 > length hello then Returned (Err SniExtractionFailed)
         else and_then (u16_at hello offset) (\<lambda>extensions_len.
      let offset = offset + 2;
          extensions_end = offset + extensions_len
      in if extensions_end > length hello then Returned (Err SniExtractionFailed)
         else find_sni_extension hello offset extensions_end)))))"

text \<open>The wire format: one extension, and a ClientHello up to and including its extensions.\<close>

definition ext_wire :: "u16 \<times> bytes \<Rightarrow> bytes" where
  "ext_wire = (\<lambda>(ty, body). u16_to_be_bytes ty @ u16_to_be_bytes (of_nat (length body)) @ body)"

definition hello_wire :: "bytes \<Rightarrow> bytes \<Rightarrow> bytes \<Rightarrow> bytes \<Rightarrow> bytes \<Rightarrow> bytes" where
  "hello_wire pre session_id suites methods exts =
     pre @ [of_nat (length session_id)] @ session_id
         @ u16_to_be_bytes (of_nat (length suites)) @ suites
         @ [of_nat (length methods)] @ methods
         @ u16_to_be_bytes (of_nat (length exts)) @ exts"

definition server_name_wire :: "bytes \<Rightarrow> bytes \<Rightarrow> bytes \<Rightarrow> bytes" where
  "server_name_wire list_len name others = list_len @ [0] @ u16_to_be_bytes (of_nat (length name)) @ name @ others"

definition hello_fits :: "bytes \<Rightarrow> bytes \<Rightarrow> bytes \<Rightarrow> bytes \<Rightarrow> bytes \<Rightarrow> bool" where
  "hello_fits pre session_id suites methods exts \<longleftrightarrow>
     length pre = 43 \<and> length session_id < 256 \<and> length suites < 65536 \<and> length methods < 256 \<and>
     length exts < 65536"

lemma u16_at_eval: "i + 1 < length buf \<Longrightarrow>
    u16_at buf i = Returned (unat (u16_from_be_bytes (take 2 (drop i buf))))"
proof -
  assume "i + 1 < length buf"
  then have "drop i buf = buf ! i # buf ! (i + 1) # drop (i + 2) buf"
    by (metis Cons_nth_drop_Suc Suc_eq_plus1 add_2_eq_Suc' add_lessD1)
  with \<open>i + 1 < length buf\<close> show ?thesis by (simp add: u16_at_def index_at_def)
qed

lemma u16_at_wire [simp]:
  "u16_at (xs @ u16_to_be_bytes w @ ys) (length xs) = Returned (unat w)"
  by (simp add: u16_at_eval)

lemma unat_len8: "n < 256 \<Longrightarrow> unat (of_nat n :: u8) = n"
  by (simp add: unat_of_nat)

lemma unat_len16: "n < 65536 \<Longrightarrow> unat (of_nat n :: u16) = n"
  by (simp add: unat_of_nat)

text \<open>On a hello whose lengths are truthful the parser arrives at the extension loop.\<close>

lemma extract_sni_hello_front:
  assumes "hello_fits pre sid suites methods exts"
  defines "front \<equiv> pre @ [of_nat (length sid)] @ sid @ u16_to_be_bytes (of_nat (length suites)) @ suites
                     @ [of_nat (length methods)] @ methods @ u16_to_be_bytes (of_nat (length exts))"
  shows "extract_sni (hello_wire pre sid suites methods exts @ rest)
           = find_sni_extension (front @ exts @ rest) (length front) (length front + length exts)"
proof -
  let ?h = "hello_wire pre sid suites methods exts @ rest"
  have len: "length pre = 43" "length sid < 256" "length suites < 65536" "length methods < 256"
    "length exts < 65536"
    using assms(1) by (simp_all add: hello_fits_def)
  have h: "?h = front @ exts @ rest" by (simp add: hello_wire_def front_def)
  have i1: "index_at ?h 43 = Returned (of_nat (length sid))"
    using index_at_append [of pre] len(1) by (simp add: hello_wire_def)
  have i2: "u16_at ?h (44 + length sid) = Returned (length suites)"
    using u16_at_wire [of "pre @ [of_nat (length sid)] @ sid" "of_nat (length suites)"] len
    by (simp add: hello_wire_def unat_len16)
  have i3: "index_at ?h (46 + length sid + length suites) = Returned (of_nat (length methods))"
    using index_at_append [of "pre @ [of_nat (length sid)] @ sid @ u16_to_be_bytes (of_nat (length suites)) @ suites"]
      len(1) by (simp add: hello_wire_def add.assoc)
  have i4: "u16_at ?h (47 + length sid + length suites + length methods) = Returned (length exts)"
    using u16_at_wire [of "pre @ [of_nat (length sid)] @ sid @ u16_to_be_bytes (of_nat (length suites)) @ suites
        @ [of_nat (length methods)] @ methods" "of_nat (length exts)"] len
    by (simp add: hello_wire_def unat_len16 add.assoc)
  have front: "length front = 49 + length sid + length suites + length methods"
    using len(1) by (simp add: front_def)
  have hl: "length ?h = length front + length exts + length rest"
    by (simp add: h)
  show ?thesis
    unfolding h [symmetric]
    using i1 i2 i3 i4 front hl len
    by (simp add: extract_sni_def Let_def unat_len8 add.assoc add.commute add.left_commute)
qed

lemma extract_sni_hello:
  assumes "hello_fits pre sid suites methods exts"
  obtains front where "extract_sni (hello_wire pre sid suites methods exts @ rest)
    = find_sni_extension (front @ exts @ rest) (length front) (length front + length exts)"
  using extract_sni_hello_front [OF assms] by blast

lemma length_ext_wire [simp]: "length (ext_wire (ty, body)) = 4 + length body"
  by (simp add: ext_wire_def)

lemma find_sni_skip:
  assumes "ty \<noteq> 0" and "length body < 65536" and "length front + 4 \<le> e"
  shows "find_sni_extension (front @ ext_wire (ty, body) @ rest) (length front) e =
           find_sni_extension (front @ ext_wire (ty, body) @ rest)
             (length (front @ ext_wire (ty, body))) e"
proof -
  let ?h = "front @ ext_wire (ty, body) @ rest"
  have t: "u16_at ?h (length front) = Returned (unat ty)"
    by (simp add: ext_wire_def)
  have l: "u16_at ?h (length front + 2) = Returned (length body)"
    using u16_at_wire [of "front @ u16_to_be_bytes ty" "of_nat (length body)" "body @ rest"] assms(2)
    by (simp add: ext_wire_def unat_len16)
  have "unat ty \<noteq> 0" using assms(1) by (simp add: unat_eq_0)
  with t l assms(3) show ?thesis
    by (subst find_sni_extension.simps) (simp add: add.assoc)
qed

lemma find_sni_found:
  assumes "length body < 65536" and "length front + 4 + length body \<le> e"
  shows "find_sni_extension (front @ ext_wire (0, body) @ rest) (length front) e
           = parse_sni_extension body"
proof -
  let ?h = "front @ ext_wire (0, body) @ rest"
  have t: "u16_at ?h (length front) = Returned 0"
    using u16_at_wire [of front 0] by (simp add: ext_wire_def)
  have l: "u16_at ?h (length front + 2) = Returned (length body)"
    using u16_at_wire [of "front @ u16_to_be_bytes 0" "of_nat (length body)" "body @ rest"] assms(1)
    by (simp add: ext_wire_def unat_len16)
  have "slice_at ?h (length front + 4) (length front + 4 + length body) = Returned body"
    using slice_at_append [of "front @ u16_to_be_bytes 0 @ u16_to_be_bytes (of_nat (length body))" body rest]
    by (simp add: ext_wire_def add.assoc)
  with t l assms(2) show ?thesis by (subst find_sni_extension.simps) simp
qed

text \<open>The loop over truthful extensions skips all of them but the first server name.\<close>

lemma find_sni_skip_all:
  assumes "list_all (\<lambda>(ty, body). ty \<noteq> 0 \<and> length body < 65536) exts"
    and "length front + length (concat (map ext_wire exts)) \<le> e"
  shows "find_sni_extension (front @ concat (map ext_wire exts) @ rest) (length front) e =
           find_sni_extension (front @ concat (map ext_wire exts) @ rest)
             (length front + length (concat (map ext_wire exts))) e"
  using assms
proof (induction exts arbitrary: front)
  case (Cons x exts)
  obtain ty body where x: "x = (ty, body)" by (cases x)
  from Cons.prems have "ty \<noteq> 0" "length body < 65536" "length front + 4 \<le> e" by (auto simp: x)
  from find_sni_skip [OF this, of "concat (map ext_wire exts) @ rest"]
  have "find_sni_extension (front @ concat (map ext_wire (x # exts)) @ rest) (length front) e =
      find_sni_extension ((front @ ext_wire x) @ concat (map ext_wire exts) @ rest)
        (length (front @ ext_wire x)) e"
    by (simp add: x)
  also have "\<dots> = find_sni_extension ((front @ ext_wire x) @ concat (map ext_wire exts) @ rest)
      (length (front @ ext_wire x) + length (concat (map ext_wire exts))) e"
    using Cons.prems by (intro Cons.IH) (auto simp: x)
  finally show ?case by (simp add: add.assoc)
qed simp

lemma parse_sni_wire:
  assumes "length list_len = 2" and "length name < 65536"
  shows "parse_sni_extension (server_name_wire list_len name others) =
           Returned (case from_utf8 name of
             None \<Rightarrow> Err (InvalidSni ''Invalid UTF-8 in hostname'')
           | Some h \<Rightarrow> if h = [] then Err (InvalidSni ''Empty hostname'') else Ok h)"
proof -
  let ?d = "server_name_wire list_len name others"
  have n: "index_at ?d 2 = Returned 0"
    using index_at_append [of list_len 0] assms(1) by (simp add: server_name_wire_def)
  have l: "u16_at ?d 3 = Returned (length name)"
    using u16_at_wire [of "list_len @ [0]" "of_nat (length name)" "name @ others"] assms
    by (simp add: server_name_wire_def unat_len16)
  have s: "slice_at ?d 5 (5 + length name) = Returned name"
    using slice_at_append [of "list_len @ [0] @ u16_to_be_bytes (of_nat (length name))" name others] assms(1)
    by (simp add: server_name_wire_def)
  have "length ?d = 5 + length name + length others"
    using assms(1) by (simp add: server_name_wire_def)
  with n l s show ?thesis
    by (simp add: parse_sni_extension_def split: option.splits)
qed

text \<open>
  C27 A well-formed ClientHello yields the server name it carries: extensions of other types are
  skipped, the first server-name extension is parsed, and its host name, when it is valid UTF-8 and
  not empty, is returned byte for byte, whatever follows it.
\<close>

theorem extract_sni_returns_name:
  assumes "hello_fits pre sid suites methods
             (concat (map ext_wire skipped) @ ext_wire (0, server_name_wire list_len name others) @ tail)"
    and "list_all (\<lambda>(ty, body). ty \<noteq> 0 \<and> length body < 65536) skipped"
    and "length list_len = 2"
    and "from_utf8 name = Some h" and "h \<noteq> []"
  shows "extract_sni (hello_wire pre sid suites methods
             (concat (map ext_wire skipped) @ ext_wire (0, server_name_wire list_len name others) @ tail) @ rest)
           = Returned (Ok h)"
proof -
  let ?sn = "ext_wire (0, server_name_wire list_len name others)"
  let ?exts = "concat (map ext_wire skipped) @ ?sn @ tail"
  have body: "length (server_name_wire list_len name others) < 65536"
    using assms(1) by (simp add: hello_fits_def)
  then have name: "length name < 65536" by (simp add: server_name_wire_def)
  obtain front where "extract_sni (hello_wire pre sid suites methods ?exts @ rest) =
      find_sni_extension (front @ ?exts @ rest) (length front) (length front + length ?exts)"
    by (rule extract_sni_hello [OF assms(1)])
  also have "\<dots> = find_sni_extension (front @ ?exts @ rest)
      (length front + length (concat (map ext_wire skipped))) (length front + length ?exts)"
    using find_sni_skip_all [OF assms(2), of front "length front + length ?exts" "?sn @ tail @ rest"]
    by simp
  also have "\<dots> = parse_sni_extension (server_name_wire list_len name others)"
    using find_sni_found [OF body, of "front @ concat (map ext_wire skipped)"
        "length front + length ?exts" "tail @ rest"] by simp
  also have "\<dots> = Returned (Ok h)"
    using assms(4,5) by (simp add: parse_sni_wire [OF assms(3) name])
  finally show ?thesis .
qed

lemma demo_utf8: "from_utf8 [97, 46, 98] = Some ''a.b''"
  by code_simp

theorem extract_sni_returns_name_witness:
  "extract_sni (hello_wire (replicate 43 0) [] [0, 47] [0]
     (concat (map ext_wire [(10, [1, 2])]) @ ext_wire (0, server_name_wire [0, 6] [97, 46, 98] []) @ []) @ [7])
   = Returned (Ok ''a.b'')"
  by (rule extract_sni_returns_name [OF _ _ _ demo_utf8])
     (simp_all add: hello_fits_def server_name_wire_def)

text \<open>Nothing but the slice of the server-name extension can panic.\<close>

lemma parse_sni_no_panic: "parse_sni_extension data \<noteq> Panicked"
proof -
  have "u16_at data 3 \<noteq> Panicked" if "5 \<le> length data"
    using that by (simp add: u16_at_eval)
  then show ?thesis
    by (auto simp: parse_sni_extension_def index_at_def slice_at_def u16_at_eval split: option.splits)
qed

lemma find_sni_panics:
  assumes "find_sni_extension hello offset e = Panicked" and "e \<le> length hello"
  shows "\<exists>i n. i + 4 \<le> e \<and> u16_at hello i = Returned 0 \<and> u16_at hello (i + 2) = Returned n \<and>
           length hello < i + 4 + n"
  using assms
proof (induction hello offset e rule: find_sni_extension.induct)
  case (1 hello offset e)
  have le: "offset + 4 \<le> e"
    using "1.prems"(1) by (subst (asm) find_sni_extension.simps) (simp split: if_splits)
  obtain ty n where r: "u16_at hello offset = Returned ty" "u16_at hello (offset + 2) = Returned n"
    using le "1.prems"(2) by (simp add: u16_at_eval)
  show ?case
  proof (cases "ty = 0")
    case True
    then have "slice_at hello (offset + 4) (offset + 4 + n) = Panicked"
      using "1.prems"(1) le r parse_sni_no_panic
      by (subst (asm) find_sni_extension.simps) (auto simp: slice_at_def split: if_splits)
    with True le r show ?thesis by (auto simp: slice_at_def split: if_splits)
  next
    case False
    then have "find_sni_extension hello (offset + 4 + n) e = Panicked"
      using "1.prems"(1) le r by (subst (asm) find_sni_extension.simps) simp
    with "1.IH" [OF le False] "1.prems"(2) show ?thesis by blast
  qed
qed

lemma find_sni_truncated:
  assumes "length tail < unat n" and "length front + 4 \<le> e"
  shows "find_sni_extension (front @ u16_to_be_bytes 0 @ u16_to_be_bytes n @ tail) (length front) e
           = Panicked"
proof -
  let ?h = "front @ u16_to_be_bytes 0 @ u16_to_be_bytes n @ tail"
  have "u16_at ?h (length front) = Returned 0"
    using u16_at_wire [of front 0] by simp
  moreover have "u16_at ?h (length front + 2) = Returned (unat n)"
    using u16_at_wire [of "front @ u16_to_be_bytes 0" n tail] by simp
  ultimately show ?thesis
    using assms by (subst find_sni_extension.simps) (simp add: slice_at_def)
qed

text \<open>
  The declared length of the server-name extension is never compared with the buffer: a
  ClientHello that arrives with that extension cut short, all other lengths being truthful, makes
  the extraction panic instead of failing with \<open>SniExtractionFailed\<close>.
\<close>

theorem extract_sni_truncated_panics:
  assumes "hello_fits pre sid suites methods
             (concat (map ext_wire skipped) @ u16_to_be_bytes 0 @ u16_to_be_bytes n @ tail)"
    and "list_all (\<lambda>(ty, body). ty \<noteq> 0 \<and> length body < 65536) skipped"
    and "length tail < unat n"
  shows "extract_sni (hello_wire pre sid suites methods
             (concat (map ext_wire skipped) @ u16_to_be_bytes 0 @ u16_to_be_bytes n @ tail)) = Panicked"
proof -
  let ?exts = "concat (map ext_wire skipped) @ u16_to_be_bytes 0 @ u16_to_be_bytes n @ tail"
  obtain front where "extract_sni (hello_wire pre sid suites methods ?exts @ []) =
      find_sni_extension (front @ ?exts @ []) (length front) (length front + length ?exts)"
    by (rule extract_sni_hello [OF assms(1)])
  then have "extract_sni (hello_wire pre sid suites methods ?exts) =
      find_sni_extension (front @ ?exts) (length front) (length front + length ?exts)"
    by simp
  also have "\<dots> = find_sni_extension (front @ ?exts)
      (length front + length (concat (map ext_wire skipped))) (length front + length ?exts)"
    using find_sni_skip_all [OF assms(2), of front "length front + length ?exts"] by simp
  also have "\<dots> = Panicked"
    using find_sni_truncated [OF assms(3), of "front @ concat (map ext_wire skipped)"
        "length front + length ?exts"] by simp
  finally show ?thesis .
qed

theorem extract_sni_truncated_panics_witness:
  "extract_sni (hello_wire (replicate 43 0) [] [0, 47] [0]
     (concat (map ext_wire []) @ u16_to_be_bytes 0 @ u16_to_be_bytes 9 @ [0, 7, 0])) = Panicked"
  by (rule extract_sni_truncated_panics) (simp_all add: hello_fits_def)

end
