(* ===== verification/PortAlloc.thy ===== *)
theory PortAlloc
  imports Prelude
begin

text \<open>
  Allocation of public TCP ports to tunnels: the trait \<open>PortAllocator\<close> of
  \<open>crates/localup-control/src/handler.rs\<close> as a locale, its incremental implementation
  \<open>SimplePortAllocator\<close> (\<open>crates/localup-lib/src/relay.rs\<close>) and the pooled one, which
  \<open>crates/localup-exit-node/src/main.rs\<close> and \<open>crates/localup-cli/src/main.rs\<close> have in two copies
  that differ in their messages.

  What the pooled allocator asks of its surroundings is a parameter: whether the operating system
  lets a port be bound (one answer per probe, so the \<open>n\<close>-th probe of a call is \<open>probe n\<close>), the
  64-bit hash of a tunnel id, the order in which a hash set is iterated, and the clock, in
  nanoseconds.
\<close>

section \<open>The incremental allocator\<close>

record SimplePortAllocator =
  allocations :: "string \<rightharpoonup> u16"
  next_port :: u16
  max_port :: "u16 option"

definition simple_with_range :: "u16 \<Rightarrow> u16 option \<Rightarrow> SimplePortAllocator" where
  "simple_with_range start_port mp =
     \<lparr>allocations = Map.empty, next_port = start_port, max_port = mp\<rparr>"

definition simple_allocate ::
  "string \<Rightarrow> u16 option \<Rightarrow> SimplePortAllocator \<Rightarrow> (string, u16) result \<times> SimplePortAllocator" where
  "simple_allocate lid requested a =
     (case allocations a lid of
        Some port \<Rightarrow> (Ok port, a)
      | None \<Rightarrow>
          (case requested of
             Some port \<Rightarrow> (Ok port, a\<lparr>allocations := (allocations a)(lid \<mapsto> port)\<rparr>)
           | None \<Rightarrow>
               (let port = next_port a;
                    a' = a\<lparr>next_port := saturating_add port 1,
                           allocations := (allocations a)(lid \<mapsto> port)\<rparr>
                in case max_port a of
                     Some mp \<Rightarrow>
                       if port > mp then
                         (Err (''Port allocator exhausted: exceeded max port '' @ show_nat (unat mp)), a)
                       else (Ok port, a')
                   | None \<Rightarrow> (Ok port, a'))))"

definition simple_deallocate :: "string \<Rightarrow> SimplePortAllocator \<Rightarrow> SimplePortAllocator" where
  "simple_deallocate lid a = a\<lparr>allocations := (allocations a)(lid := None)\<rparr>"

definition simple_get_allocated_port :: "SimplePortAllocator \<Rightarrow> string \<Rightarrow> u16 option" where
  "simple_get_allocated_port a lid = allocations a lid"

section \<open>The pooled allocator\<close>

datatype AllocationState = Active | Reserved int

record PortAllocation =
  alloc_port :: u16
  alloc_state :: AllocationState

record PortAllocator =
  range_start :: u16
  range_end :: u16
  available_ports :: "u16 set"
  allocated_ports :: "string \<rightharpoonup> PortAllocation"
  reservation_ttl_seconds :: int

definition with_reservation_ttl :: "u16 \<Rightarrow> u16 \<Rightarrow> int \<Rightarrow> PortAllocator" where
  "with_reservation_ttl s e ttl =
     \<lparr>range_start = s, range_end = e, available_ports = {s..e}, allocated_ports = Map.empty,
      reservation_ttl_seconds = ttl\<rparr>"

definition pool_new :: "u16 \<Rightarrow> u16 \<Rightarrow> PortAllocator" where
  "pool_new s e = with_reservation_ttl s e 300"

text \<open>
  The range size is computed in 16 bits. Both the difference and the increment are checked for
  overflow; an unchecked build panics in the second case too, on the remainder by zero.
\<close>

definition hash_to_port :: "PortAllocator \<Rightarrow> u64 \<Rightarrow> u16 outcome" where
  "hash_to_port a hash =
     (let d = range_end a - range_start a;
          range_size = d + 1
      in if range_end a < range_start a \<or> range_size = 0 then Panicked
         else Returned (range_start a + of_nat (unat hash mod unat range_size)))"

definition claim_port :: "string \<Rightarrow> u16 \<Rightarrow> PortAllocator \<Rightarrow> PortAllocator" where
  "claim_port lid p a =
     a\<lparr>available_ports := available_ports a - {p},
       allocated_ports := (allocated_ports a)(lid \<mapsto> \<lparr>alloc_port = p, alloc_state = Active\<rparr>)\<rparr>"

definition drop_port :: "u16 \<Rightarrow> PortAllocator \<Rightarrow> PortAllocator" where
  "drop_port p a = a\<lparr>available_ports := available_ports a - {p}\<rparr>"

text \<open>
  The loops over candidate ports: a candidate that passes the guard is claimed when the system
  lets it be bound, and leaves the pool otherwise. The number counts the probes made so far.
\<close>

fun try_ports ::
  "(PortAllocator \<Rightarrow> u16 \<Rightarrow> bool) \<Rightarrow> (nat \<Rightarrow> u16 \<Rightarrow> bool) \<Rightarrow> string \<Rightarrow> u16 list \<Rightarrow> nat \<Rightarrow> PortAllocator
    \<Rightarrow> u16 option \<times> nat \<times> PortAllocator" where
  "try_ports guard probe lid [] n a = (None, n, a)"
| "try_ports guard probe lid (p # ps) n a =
     (if guard a p then
        if probe n p then (Some p, Suc n, claim_port lid p a)
        else try_ports guard probe lid ps (Suc n) (drop_port p a)
      else try_ports guard probe lid ps n a)"

definition nearby_ports :: "u16 \<Rightarrow> u16 list" where
  "nearby_ports p = concat (map (\<lambda>offset. [saturating_add p offset, saturating_sub p offset])
     [1, 2, 3, 4, 5, 6, 7, 8, 9, 10])"

definition nearby_guard :: "PortAllocator \<Rightarrow> u16 \<Rightarrow> bool" where
  "nearby_guard a p \<longleftrightarrow> p \<ge> range_start a \<and> p \<le> range_end a \<and> p \<in> available_ports a"

text \<open>The answer to a request for a port, with the two messages of the copy at hand.\<close>

definition allocate_requested ::
  "string \<Rightarrow> string \<Rightarrow> (nat \<Rightarrow> u16 \<Rightarrow> bool) \<Rightarrow> string \<Rightarrow> u16 \<Rightarrow> PortAllocator
    \<Rightarrow> (string, u16) result \<times> PortAllocator" where
  "allocate_requested in_use not_available probe lid p a =
     (if p \<in> available_ports a \<and> probe 0 p then (Ok p, claim_port lid p a)
      else if p \<in> available_ports a \<and> \<not> probe 1 p then (Err in_use, drop_port p a)
      else (Err not_available, a))"

definition allocate_any ::
  "(nat \<Rightarrow> u16 \<Rightarrow> bool) \<Rightarrow> (u16 set \<Rightarrow> u16 list) \<Rightarrow> string \<Rightarrow> u16 \<Rightarrow> PortAllocator
    \<Rightarrow> (string, u16) result \<times> PortAllocator" where
  "allocate_any probe iter lid preferred a =
     (if preferred \<in> available_ports a \<and> probe 0 preferred then
        (Ok preferred, claim_port lid preferred a)
      else
        let a1 = (if preferred \<in> available_ports a \<and> \<not> probe 1 preferred
                  then drop_port preferred a else a)
        in case try_ports nearby_guard probe lid (nearby_ports preferred) 2 a1 of
             (Some p, _, a2) \<Rightarrow> (Ok p, a2)
           | (None, n, a2) \<Rightarrow>
               (case try_ports (\<lambda>_ _. True) probe lid (iter (available_ports a2)) n a2 of
                  (Some p, _, a3) \<Rightarrow> (Ok p, a3)
                | (None, _, a3) \<Rightarrow> (Err ''No available ports in range (all ports in use)'', a3)))"

definition reactivate :: "string \<Rightarrow> PortAllocation \<Rightarrow> PortAllocator \<Rightarrow> PortAllocator" where
  "reactivate lid al a =
     (case alloc_state al of
        Reserved _ \<Rightarrow> a\<lparr>allocated_ports := (allocated_ports a)(lid \<mapsto> \<lparr>alloc_port = alloc_port al, alloc_state = Active\<rparr>)\<rparr>
      | Active \<Rightarrow> a)"

type_synonym port_env = "(nat \<Rightarrow> u16 \<Rightarrow> bool) \<times> (string \<Rightarrow> u64) \<times> (u16 set \<Rightarrow> u16 list)"

definition pool_allocate ::
  "(u16 \<Rightarrow> string) \<Rightarrow> (u16 \<Rightarrow> string) \<Rightarrow> port_env \<Rightarrow> string \<Rightarrow> u16 option \<Rightarrow> PortAllocator
    \<Rightarrow> ((string, u16) result \<times> PortAllocator) outcome" where
  "pool_allocate in_use not_available env lid requested a =
     (case env of (probe, hash, iter) \<Rightarrow>
       (case allocated_ports a lid of
          Some al \<Rightarrow> Returned (Ok (alloc_port al), reactivate lid al a)
        | None \<Rightarrow>
            (case requested of
               Some p \<Rightarrow> Returned (allocate_requested (in_use p) (not_available p) probe lid p a)
             | None \<Rightarrow>
                 and_then (hash_to_port a (hash lid)) (\<lambda>preferred.
                   Returned (allocate_any probe iter lid preferred a)))))"

definition exit_node_allocate ::
  "port_env \<Rightarrow> string \<Rightarrow> u16 option \<Rightarrow> PortAllocator
    \<Rightarrow> ((string, u16) result \<times> PortAllocator) outcome" where
  "exit_node_allocate =
     pool_allocate
       (\<lambda>p. ''Requested port '' @ show_nat (unat p) @ '' is in use by another process'')
       (\<lambda>p. ''Requested port '' @ show_nat (unat p)
              @ '' is not available (already allocated or out of range)'')"

definition cli_allocate ::
  "port_env \<Rightarrow> string \<Rightarrow> u16 option \<Rightarrow> PortAllocator
    \<Rightarrow> ((string, u16) result \<times> PortAllocator) outcome" where
  "cli_allocate env lid requested a =
     pool_allocate
       (\<lambda>p. ''Requested port '' @ show_nat (unat p) @ '' is already allocated to another tunnel'')
       (\<lambda>p. ''Requested port '' @ show_nat (unat p) @ '' is outside the configured port range (''
              @ show_nat (unat (range_start a)) @ ''-'' @ show_nat (unat (range_end a)) @ '')'')
       env lid requested a"

definition pool_deallocate :: "int \<Rightarrow> string \<Rightarrow> PortAllocator \<Rightarrow> PortAllocator" where
  "pool_deallocate now lid a =
     (case allocated_ports a lid of
        Some al \<Rightarrow>
          (if alloc_state al = Active then
             a\<lparr>allocated_ports := (allocated_ports a)
                 (lid \<mapsto> al\<lparr>alloc_state := Reserved (now + reservation_ttl_seconds a * 1000000000)\<rparr>)\<rparr>
           else a)
      | None \<Rightarrow> a)"

definition pool_get_allocated_port :: "PortAllocator \<Rightarrow> string \<Rightarrow> u16 option" where
  "pool_get_allocated_port a lid = map_option alloc_port (allocated_ports a lid)"

definition expired :: "int \<Rightarrow> PortAllocation \<Rightarrow> bool" where
  "expired now al = (case alloc_state al of Reserved until \<Rightarrow> until < now | Active \<Rightarrow> False)"

text \<open>Every expired reservation leaves the table and its port returns to the pool.\<close>

definition cleanup_expired :: "int \<Rightarrow> PortAllocator \<Rightarrow> PortAllocator" where
  "cleanup_expired now a =
     a\<lparr>available_ports := available_ports a \<union> alloc_port ` {al \<in> ran (allocated_ports a). expired now al},
       allocated_ports := (\<lambda>lid. case allocated_ports a lid of
                              Some al \<Rightarrow> if expired now al then None else Some al
                            | None \<Rightarrow> None)\<rparr>"

text \<open>The command line's port range.\<close>

definition parse_port_range :: "string \<Rightarrow> (string, u16 \<times> u16) result" where
  "parse_port_range range_str =
     (case split_char CHR ''-'' range_str of
        [p0, p1] \<Rightarrow>
          (case parse_u16 p0 of
             None \<Rightarrow> Err (''Invalid start port: '' @ p0)
           | Some s \<Rightarrow>
               (case parse_u16 p1 of
                  None \<Rightarrow> Err (''Invalid end port: '' @ p1)
                | Some e \<Rightarrow>
                    if s \<ge> e then Err ''Start port must be less than end port'' else Ok (s, e)))
      | _ \<Rightarrow> Err ''Invalid port range format. Expected: START-END (e.g., 10000-20000)'')"

section \<open>The contract of an allocator\<close>

text \<open>
  What the connection handler relies on: an allocation is visible under its tunnel id and touches
  no other tunnel, a tunnel that holds a port gets it again, a requested port is honoured or the
  request fails, and a failure changes nothing that can be observed. Panics are outcomes, so the
  laws speak of calls that return.
\<close>

locale port_allocator =
  fixes allocate :: "'env \<Rightarrow> string \<Rightarrow> u16 option \<Rightarrow> 's \<Rightarrow> ((string, u16) result \<times> 's) outcome"
    and deallocate :: "int \<Rightarrow> string \<Rightarrow> 's \<Rightarrow> 's"
    and get :: "'s \<Rightarrow> string \<Rightarrow> u16 option"
    and inv :: "'s \<Rightarrow> bool"
    and valid_env :: "'env \<Rightarrow> bool"
  assumes allocate_inv:
      "inv s \<Longrightarrow> valid_env e \<Longrightarrow> allocate e lid req s = Returned (res, s') \<Longrightarrow> inv s'"
    and deallocate_inv: "inv s \<Longrightarrow> inv (deallocate now lid s)"
    and allocate_Ok: "valid_env e \<Longrightarrow> allocate e lid req s = Returned (Ok p, s') \<Longrightarrow> get s' = (get s)(lid \<mapsto> p)"
    and allocate_Err: "valid_env e \<Longrightarrow> allocate e lid req s = Returned (Err m, s') \<Longrightarrow> get s' = get s \<and> get s lid = None"
    and allocate_held: "get s lid = Some p \<Longrightarrow> \<exists>s'. allocate e lid req s = Returned (Ok p, s')"
    and allocate_requested_port:
      "get s lid = None \<Longrightarrow> allocate e lid (Some q) s = Returned (Ok p, s') \<Longrightarrow> p = q"
    and deallocate_frame: "lid' \<noteq> lid \<Longrightarrow> get (deallocate now lid s) lid' = get s lid'"
begin

text \<open>Asking again, with any request and any environment, returns the port already held.\<close>

lemma allocate_sticky:
  assumes "valid_env e" and "allocate e lid req s = Returned (Ok p, s')"
  shows "\<exists>s''. allocate e' lid req' s' = Returned (Ok p, s'')"
  using allocate_held allocate_Ok [OF assms] by simp

lemma allocate_deallocate_frame:
  assumes "valid_env e" and "allocate e lid req s = Returned (res, s')" and "lid' \<noteq> lid"
  shows "get (deallocate now lid s') lid' = get s lid'"
  using assms allocate_Ok [of e lid req s _ s'] allocate_Err [of e lid req s _ s']
  by (cases res) (simp_all add: deallocate_frame)

end

text \<open>An allocator that never gives one port to two tunnels.\<close>

locale exclusive_port_allocator = port_allocator +
  assumes exclusive: "inv s \<Longrightarrow> get s lid1 = Some p \<Longrightarrow> get s lid2 = Some p \<Longrightarrow> lid1 = lid2"
begin

lemma requested_taken_fails:
  assumes "inv s" and "valid_env e" and "get s other = Some q" and "other \<noteq> lid"
    and "get s lid = None" and "allocate e lid (Some q) s = Returned (res, s')"
  shows "\<exists>m. res = Err m"
proof (cases res)
  case (Inr p)
  with assms have "p = q" using allocate_requested_port by blast
  moreover have "inv s'" using assms allocate_inv by blast
  moreover have "get s' = (get s)(lid \<mapsto> p)" using assms(2,6) Inr allocate_Ok by blast
  ultimately have "other = lid" using assms(3,4) exclusive [of s' other q lid] by simp
  with assms(4) show ?thesis by simp
qed simp

end

subsection \<open>The incremental allocator\<close>

interpretation simple: port_allocator
  "\<lambda>_ lid req a. Returned (simple_allocate lid req a)" "\<lambda>_. simple_deallocate"
  simple_get_allocated_port "\<lambda>_. True" "\<lambda>_::unit. True"
proof unfold_locales
  fix s s' lid req m p q and e :: unit
  show "simple_get_allocated_port s' = (simple_get_allocated_port s)(lid \<mapsto> p)"
    if "Returned (simple_allocate lid req s) = Returned (Ok p, s')"
    using that by (auto simp: simple_allocate_def simple_get_allocated_port_def Let_def fun_eq_iff
        split: option.splits if_splits)
  show "simple_get_allocated_port s' = simple_get_allocated_port s \<and> simple_get_allocated_port s lid = None"
    if "Returned (simple_allocate lid req s) = Returned (Err m, s')"
    using that by (auto simp: simple_allocate_def simple_get_allocated_port_def Let_def
        split: option.splits if_splits)
  show "\<exists>s'. Returned (simple_allocate lid req s) = Returned (Ok p, s')"
    if "simple_get_allocated_port s lid = Some p"
    using that by (simp add: simple_allocate_def simple_get_allocated_port_def)
  show "p = q" if "simple_get_allocated_port s lid = None"
    "Returned (simple_allocate lid (Some q) s) = Returned (Ok p, s')"
    using that by (simp add: simple_allocate_def simple_get_allocated_port_def)
qed (simp_all add: simple_deallocate_def simple_get_allocated_port_def)

subsection \<open>The pooled allocator\<close>

text \<open>
  A port is in the pool, or held by one tunnel, or (in use elsewhere) neither; all of them are in
  the configured range.
\<close>

definition pool_inv :: "PortAllocator \<Rightarrow> bool" where
  "pool_inv a \<longleftrightarrow>
     available_ports a \<subseteq> {range_start a..range_end a} \<and>
     (\<forall>lid al. allocated_ports a lid = Some al \<longrightarrow>
        alloc_port al \<in> {range_start a..range_end a} \<and> alloc_port al \<notin> available_ports a) \<and>
     (\<forall>lid1 lid2 al1 al2. allocated_ports a lid1 = Some al1 \<longrightarrow> allocated_ports a lid2 = Some al2 \<longrightarrow>
        alloc_port al1 = alloc_port al2 \<longrightarrow> lid1 = lid2)"

definition valid_port_env :: "port_env \<Rightarrow> bool" where
  "valid_port_env = (\<lambda>(probe, hash, iter). \<forall>S. set (iter S) = S \<and> distinct (iter S))"

lemma pool_inv_claim:
  "pool_inv a \<Longrightarrow> p \<in> available_ports a \<Longrightarrow> pool_inv (claim_port lid p a)"
  unfolding pool_inv_def claim_port_def by (auto split: if_splits)

lemma pool_inv_drop: "pool_inv a \<Longrightarrow> pool_inv (drop_port p a)"
  by (auto simp: pool_inv_def drop_port_def)

lemma pool_inv_reactivate:
  "pool_inv a \<Longrightarrow> allocated_ports a lid = Some al \<Longrightarrow> pool_inv (reactivate lid al a)"
  unfolding pool_inv_def reactivate_def by (auto split: if_splits AllocationState.splits)

lemma pool_inv_deallocate: "pool_inv a \<Longrightarrow> pool_inv (pool_deallocate now lid a)"
  unfolding pool_inv_def pool_deallocate_def by (auto split: if_splits option.splits)

lemma pool_inv_cleanup: "pool_inv a \<Longrightarrow> pool_inv (cleanup_expired now a)"
  unfolding pool_inv_def cleanup_expired_def
  by (fastforce simp: ran_def split: option.splits if_splits)

lemma pool_inv_new: "pool_inv (with_reservation_ttl s e ttl)"
  by (simp add: pool_inv_def with_reservation_ttl_def)

text \<open>What a run of the loops leaves: some unusable candidates are gone from the pool.\<close>

definition drop_ports :: "u16 set \<Rightarrow> PortAllocator \<Rightarrow> PortAllocator" where
  "drop_ports D a = a\<lparr>available_ports := available_ports a - D\<rparr>"

lemma drop_ports_simps [simp]:
  "drop_ports {} a = a" "drop_ports D (drop_port p a) = drop_ports (insert p D) a"
  "drop_ports D (drop_ports E a) = drop_ports (E \<union> D) a"
  "available_ports (drop_ports D a) = available_ports a - D"
  "allocated_ports (drop_ports D a) = allocated_ports a"
  by (auto simp: drop_ports_def drop_port_def intro!: arg_cong [where f = "\<lambda>S. a\<lparr>available_ports := S\<rparr>"])

lemma pool_inv_drop_ports: "pool_inv a \<Longrightarrow> pool_inv (drop_ports D a)"
  by (auto simp: pool_inv_def drop_ports_def)

lemma try_ports_Some:
  assumes "try_ports guard probe lid ps n a = (Some p, n', a')"
  shows "\<exists>xs ys D. ps = xs @ p # ys \<and> D \<subseteq> set xs \<and> (\<forall>q \<in> D. \<exists>m. \<not> probe m q) \<and>
           guard (drop_ports D a) p \<and> a' = claim_port lid p (drop_ports D a)"
  using assms
proof (induction ps arbitrary: n a)
  case (Cons q ps)
  consider (claim) "guard a q" "probe n q" | (drop) "guard a q" "\<not> probe n q" | (skip) "\<not> guard a q"
    by blast
  then show ?case
  proof cases
    case claim
    with Cons.prems show ?thesis by (rule_tac x = "[]" in exI) (auto intro: exI [of _ "{}"])
  next
    case drop
    with Cons.prems Cons.IH [of "Suc n" "drop_port q a"] obtain xs ys D where
      "ps = xs @ p # ys" "D \<subseteq> set xs" "\<forall>q \<in> D. \<exists>m. \<not> probe m q"
      "guard (drop_ports (insert q D) a) p" "a' = claim_port lid p (drop_ports (insert q D) a)"
      by auto
    with drop(2) show ?thesis
      by (rule_tac x = "q # xs" in exI) (auto intro!: exI [of _ "insert q D"])
  next
    case skip
    with Cons.prems Cons.IH [of n a] obtain xs ys D where
      "ps = xs @ p # ys" "D \<subseteq> set xs" "\<forall>q \<in> D. \<exists>m. \<not> probe m q"
      "guard (drop_ports D a) p" "a' = claim_port lid p (drop_ports D a)"
      by auto
    then show ?thesis by (rule_tac x = "q # xs" in exI) (auto intro!: exI [of _ D])
  qed
qed simp

lemma try_ports_None:
  assumes "try_ports guard probe lid ps n a = (None, n', a')"
  shows "\<exists>D. (\<forall>q \<in> D. \<exists>m. \<not> probe m q) \<and> a' = drop_ports D a"
  using assms
proof (induction ps arbitrary: n a)
  case Nil
  then show ?case by (intro exI [of _ "{}"]) simp
next
  case (Cons q ps)
  show ?case
  proof (cases "guard a q")
    case True
    with Cons.prems have "\<not> probe n q" by (auto split: if_splits)
    with True Cons.prems Cons.IH [of "Suc n" "drop_port q a"] obtain D where
      "\<forall>q \<in> D. \<exists>m. \<not> probe m q" "a' = drop_ports (insert q D) a"
      by auto
    with \<open>\<not> probe n q\<close> show ?thesis by (intro exI [of _ "insert q D"]) auto
  qed (use Cons in simp)
qed

lemma try_ports_all_fail:
  "try_ports (\<lambda>_ _. True) probe lid ps n a = (None, n', a') \<Longrightarrow> q \<in> set ps \<Longrightarrow> \<exists>m. \<not> probe m q"
  by (induction ps arbitrary: n a) (auto split: if_splits)

text \<open>
  The outcome of an allocation without a request: a port of the pool that could be bound, or, when
  each port of the pool failed a probe, an error. Only ports that failed a probe leave the pool.
\<close>

lemma allocate_any_cases:
  assumes "allocate_any probe iter lid preferred a = (res, a')"
    and "\<And>S. set (iter S) = S" and "\<And>S. distinct (iter S)"
  shows "\<exists>D. (\<forall>q \<in> D. \<exists>m. \<not> probe m q) \<and>
           (case res of
              Ok p \<Rightarrow> p \<in> available_ports a - D \<and> a' = claim_port lid p (drop_ports D a)
            | Err m \<Rightarrow> a' = drop_ports D a \<and> (\<forall>q \<in> available_ports a. \<exists>m. \<not> probe m q))"
proof (cases "preferred \<in> available_ports a \<and> probe 0 preferred")
  case True
  with assms(1) show ?thesis by (intro exI [of _ "{}"]) (auto simp: allocate_any_def)
next
  case False
  define a1 where "a1 = (if preferred \<in> available_ports a \<and> \<not> probe 1 preferred
      then drop_port preferred a else a)"
  define D1 where "D1 = (if preferred \<in> available_ports a \<and> \<not> probe 1 preferred then {preferred} else {})"
  have a1: "a1 = drop_ports D1 a" and D1: "\<forall>q \<in> D1. \<exists>m. \<not> probe m q"
    by (auto simp: a1_def D1_def drop_ports_def drop_port_def)
  have unfold: "allocate_any probe iter lid preferred a =
      (case try_ports nearby_guard probe lid (nearby_ports preferred) 2 a1 of
         (Some p, _, a2) \<Rightarrow> (Ok p, a2)
       | (None, n, a2) \<Rightarrow>
           (case try_ports (\<lambda>_ _. True) probe lid (iter (available_ports a2)) n a2 of
              (Some p, _, a3) \<Rightarrow> (Ok p, a3)
            | (None, _, a3) \<Rightarrow> (Err ''No available ports in range (all ports in use)'', a3)))"
    using False by (simp only: allocate_any_def Let_def a1_def if_False)
  obtain r2 n2 a2 where t2: "try_ports nearby_guard probe lid (nearby_ports preferred) 2 a1 = (r2, n2, a2)"
    by (metis prod_cases3)
  obtain r3 n3 a3 where t3: "try_ports (\<lambda>_ _. True) probe lid (iter (available_ports a2)) n2 a2 = (r3, n3, a3)"
    by (metis prod_cases3)
  show ?thesis
  proof (cases r2)
    case (Some p)
    with t2 try_ports_Some [of nearby_guard probe lid _ 2 a1 p] obtain D where
      "\<forall>q \<in> D. \<exists>m. \<not> probe m q" "nearby_guard (drop_ports D a1) p" "a2 = claim_port lid p (drop_ports D a1)"
      by blast
    moreover have "res = Ok p" "a' = a2"
      using assms(1) unfold t2 Some by simp_all
    ultimately show ?thesis
      using D1 by (intro exI [of _ "D1 \<union> D"]) (auto simp: a1 nearby_guard_def)
  next
    case None
    with t2 try_ports_None [of nearby_guard probe lid _ 2 a1] obtain D2 where
      D2: "\<forall>q \<in> D2. \<exists>m. \<not> probe m q" "a2 = drop_ports (D1 \<union> D2) a"
      by (metis a1 drop_ports_simps(3))
    have res: "(res, a') = (case r3 of Some p \<Rightarrow> (Ok p, a3)
        | None \<Rightarrow> (Err ''No available ports in range (all ports in use)'', a3))"
      using assms(1) unfold t2 t3 None by (simp split: option.splits)
    show ?thesis
    proof (cases r3)
      case (Some p)
      with t3 try_ports_Some [of "\<lambda>_ _. True" probe lid _ n2 a2 p] obtain xs ys D where
        *: "iter (available_ports a2) = xs @ p # ys" "D \<subseteq> set xs" "\<forall>q \<in> D. \<exists>m. \<not> probe m q"
        "a3 = claim_port lid p (drop_ports D a2)"
        by blast
      have "p \<notin> D" using *(1,2) assms(3) [of "available_ports a2"] by auto
      moreover have "p \<in> available_ports a2" using *(1) assms(2) [of "available_ports a2"] by auto
      ultimately show ?thesis
        using res Some D1 D2 * by (intro exI [of _ "D1 \<union> D2 \<union> D"]) (auto simp: Un_assoc)
    next
      case None
      with t3 try_ports_None [of "\<lambda>_ _. True" probe lid _ n2 a2] obtain D3 where
        D3: "\<forall>q \<in> D3. \<exists>m. \<not> probe m q" "a3 = drop_ports D3 a2"
        by blast
      have "\<exists>m. \<not> probe m q" if "q \<in> available_ports a" for q
        using try_ports_all_fail [OF t3 [unfolded None]] assms(2) [of "available_ports a2"] D1 D2 that
        by (cases "q \<in> D1 \<union> D2") auto
      then show ?thesis
        using res None D1 D2 D3 by (intro exI [of _ "D1 \<union> D2 \<union> D3"]) (auto simp: Un_assoc)
    qed
  qed
qed

lemma claim_port_simps [simp]:
  "allocated_ports (claim_port lid p a)
     = (allocated_ports a)(lid \<mapsto> \<lparr>alloc_port = p, alloc_state = Active\<rparr>)"
  "available_ports (claim_port lid p a) = available_ports a - {p}"
  by (simp_all add: claim_port_def)

text \<open>
  The outcome of any allocation that returns: the port held already, or a port of the pool, or an
  error that leaves the table alone.
\<close>

lemma pool_allocate_cases:
  assumes "pool_allocate m1 m2 env lid req a = Returned (res, a')" and "valid_port_env env"
  obtains (held) al where "allocated_ports a lid = Some al" "res = Ok (alloc_port al)"
      "a' = reactivate lid al a"
  | (fresh) p D where "allocated_ports a lid = None" "res = Ok p" "p \<in> available_ports a - D"
      "a' = claim_port lid p (drop_ports D a)" "\<And>q. req = Some q \<Longrightarrow> p = q"
  | (error) m D where "allocated_ports a lid = None" "res = Err m" "a' = drop_ports D a"
proof -
  obtain probe hash iter where env: "env = (probe, hash, iter)" by (metis prod_cases3)
  show thesis
  proof (cases "allocated_ports a lid")
    case (Some al)
    with assms(1) show thesis by (intro held) (auto simp: pool_allocate_def env)
  next
    case None
    show thesis
    proof (cases req)
      case (Some q)
      have "drop_port q a = drop_ports {q} a" by (simp add: drop_port_def drop_ports_def)
      with assms(1) None Some show thesis
        by (auto simp: pool_allocate_def env allocate_requested_def split: if_splits
            intro: error [of _ "{}"] error [of _ "{q}"] fresh [of q "{}"])
    next
      case req: None
      then obtain preferred where any: "allocate_any probe iter lid preferred a = (res, a')"
        using assms(1) None
        by (cases "hash_to_port a (hash lid)") (simp_all add: pool_allocate_def env)
      have "\<And>S. set (iter S) = S" "\<And>S. distinct (iter S)"
        using assms(2) by (simp_all add: valid_port_env_def env)
      from allocate_any_cases [OF any this] obtain D where
        "case res of Ok p \<Rightarrow> p \<in> available_ports a - D \<and> a' = claim_port lid p (drop_ports D a)
         | Err m \<Rightarrow> a' = drop_ports D a \<and> (\<forall>q \<in> available_ports a. \<exists>m. \<not> probe m q)"
        by blast
      then show thesis
        using None req by (cases res) (auto intro: error fresh)
    qed
  qed
qed

lemma pool_allocate_inv:
  "pool_inv a \<Longrightarrow> valid_port_env env \<Longrightarrow> pool_allocate m1 m2 env lid req a = Returned (res, a')
     \<Longrightarrow> pool_inv a'"
  by (erule (1) pool_allocate_cases)
     (auto intro!: pool_inv_reactivate pool_inv_claim pool_inv_drop_ports)

lemma reactivate_port [simp]:
  "allocated_ports a lid = Some al \<Longrightarrow>
     pool_get_allocated_port (reactivate lid al a) = pool_get_allocated_port a"
  by (auto simp: reactivate_def pool_get_allocated_port_def fun_eq_iff split: AllocationState.splits)

interpretation pool: exclusive_port_allocator "pool_allocate m1 m2" pool_deallocate
  pool_get_allocated_port pool_inv valid_port_env
proof unfold_locales
  fix s s' :: PortAllocator and env lid req res m p q lid' now lid1 lid2
  show "pool_inv s \<Longrightarrow> valid_port_env env \<Longrightarrow> pool_allocate m1 m2 env lid req s = Returned (res, s')
      \<Longrightarrow> pool_inv s'"
    by (rule pool_allocate_inv)
  show "pool_inv s \<Longrightarrow> pool_inv (pool_deallocate now lid s)" by (rule pool_inv_deallocate)
  show "pool_get_allocated_port s' = (pool_get_allocated_port s)(lid \<mapsto> p)"
    if "valid_port_env env" "pool_allocate m1 m2 env lid req s = Returned (Ok p, s')"
    using that(2,1) by (cases rule: pool_allocate_cases) (auto simp: pool_get_allocated_port_def fun_eq_iff)
  show "pool_get_allocated_port s' = pool_get_allocated_port s \<and> pool_get_allocated_port s lid = None"
    if "valid_port_env env" "pool_allocate m1 m2 env lid req s = Returned (Err m, s')"
    using that(2,1) by (cases rule: pool_allocate_cases) (auto simp: pool_get_allocated_port_def)
  show "\<exists>s'. pool_allocate m1 m2 env lid req s = Returned (Ok p, s')"
    if "pool_get_allocated_port s lid = Some p"
    using that by (cases env) (auto simp: pool_get_allocated_port_def pool_allocate_def)
  show "p = q" if "pool_get_allocated_port s lid = None"
    "pool_allocate m1 m2 env lid (Some q) s = Returned (Ok p, s')"
    using that by (cases env)
      (auto simp: pool_get_allocated_port_def pool_allocate_def allocate_requested_def split: if_splits)
  show "pool_get_allocated_port (pool_deallocate now lid s) lid' = pool_get_allocated_port s lid'"
    if "lid' \<noteq> lid"
    using that by (auto simp: pool_get_allocated_port_def pool_deallocate_def split: option.splits)
  show "lid1 = lid2" if "pool_inv s" "pool_get_allocated_port s lid1 = Some p"
    "pool_get_allocated_port s lid2 = Some p"
    using that by (auto simp: pool_inv_def pool_get_allocated_port_def)
qed

section \<open>Properties of the pooled allocator\<close>

text \<open>Every state a fresh pool can come to, with the messages of either copy.\<close>

inductive pool_step :: "PortAllocator \<Rightarrow> PortAllocator \<Rightarrow> bool" where
  pool_step_allocate: "valid_port_env env \<Longrightarrow>
     pool_allocate m1 m2 env lid req a = Returned (res, a') \<Longrightarrow> pool_step a a'"
| pool_step_deallocate: "pool_step a (pool_deallocate now lid a)"
| pool_step_cleanup: "pool_step a (cleanup_expired now a)"

inductive_cases pool_stepE: "pool_step a a'"

lemma pool_step_inv: "pool_step a a' \<Longrightarrow> pool_inv a \<Longrightarrow> pool_inv a'"
  by (elim pool_stepE) (auto intro: pool_inv_cleanup pool_inv_deallocate pool_allocate_inv)

lemma pool_step_range: "pool_step a a' \<Longrightarrow> range_start a' = range_start a \<and> range_end a' = range_end a"
proof (elim pool_stepE)
  fix env m1 m2 lid req res
  assume "pool_allocate m1 m2 env lid req a = Returned (res, a')" "valid_port_env env"
  then show ?thesis
    by (cases rule: pool_allocate_cases)
       (auto simp: reactivate_def claim_port_def drop_ports_def split: AllocationState.splits)
qed (auto simp: pool_deallocate_def cleanup_expired_def split: option.splits)

lemma pool_steps_inv:
  assumes "pool_step\<^sup>*\<^sup>* (with_reservation_ttl s e ttl) a"
  shows "pool_inv a \<and> range_start a = s \<and> range_end a = e"
  using assms
proof (induction rule: rtranclp_induct)
  case base
  show ?case using pool_inv_new by (simp add: with_reservation_ttl_def)
qed (use pool_step_inv pool_step_range in auto)

text \<open>
  C11 Whatever sequence of allocations, releases and clean-ups a pool goes through, and whatever the
  operating system answers, no port is held by two tunnels (active or reserved), and a held port is
  in the configured range and not in the pool of free ports.
\<close>

theorem pool_ports_exclusive:
  assumes "pool_step\<^sup>*\<^sup>* (with_reservation_ttl s e ttl) a"
    and "pool_get_allocated_port a lid = Some p"
  shows "s \<le> p \<and> p \<le> e \<and> p \<notin> available_ports a \<and>
         (\<forall>lid'. pool_get_allocated_port a lid' = Some p \<longrightarrow> lid' = lid)"
proof -
  have inv: "pool_inv a" "range_start a = s" "range_end a = e"
    using pool_steps_inv [OF assms(1)] by auto
  have "lid' = lid" if "pool_get_allocated_port a lid' = Some p" for lid'
    using inv(1) that assms(2) by (rule pool.exclusive)
  moreover have "s \<le> p \<and> p \<le> e \<and> p \<notin> available_ports a"
    using inv assms(2) by (auto simp: pool_inv_def pool_get_allocated_port_def)
  ultimately show ?thesis by blast
qed

definition demo_port_env :: port_env where
  "demo_port_env = (\<lambda>_ _. True, \<lambda>_. 0, sorted_list_of_set)"

lemma demo_port_env_valid: "valid_port_env demo_port_env"
  by (simp add: valid_port_env_def demo_port_env_def)

definition demo_pool :: PortAllocator where
  "demo_pool = claim_port ''t1'' 8000 (with_reservation_ttl 8000 8009 300)"

lemma demo_pool_allocate:
  "exit_node_allocate demo_port_env ''t1'' (Some 8000) (with_reservation_ttl 8000 8009 300)
     = Returned (Ok 8000, demo_pool)"
  by (simp add: exit_node_allocate_def pool_allocate_def demo_port_env_def with_reservation_ttl_def
      allocate_requested_def demo_pool_def)

lemma demo_pool_step: "pool_step\<^sup>*\<^sup>* (with_reservation_ttl 8000 8009 300) demo_pool"
  using pool_step_allocate [OF demo_port_env_valid demo_pool_allocate [unfolded exit_node_allocate_def]]
  by blast

theorem pool_ports_exclusive_witness:
  "8000 \<le> (8000::u16) \<and> 8000 \<le> (8009::u16) \<and> 8000 \<notin> available_ports demo_pool"
  using pool_ports_exclusive [OF demo_pool_step, of "''t1''" 8000]
  by (simp add: demo_pool_def pool_get_allocated_port_def)

text \<open>
  Steps that leave a tunnel's reservation alone: what other tunnels do, and clean-ups up to the end
  of the reservation.
\<close>

inductive quiet_step :: "string \<Rightarrow> int \<Rightarrow> PortAllocator \<Rightarrow> PortAllocator \<Rightarrow> bool"
  for lid :: string and until :: int where
  quiet_allocate: "lid' \<noteq> lid \<Longrightarrow> valid_port_env env \<Longrightarrow>
     pool_allocate m1 m2 env lid' req a = Returned (res, a') \<Longrightarrow> quiet_step lid until a a'"
| quiet_deallocate: "lid' \<noteq> lid \<Longrightarrow> quiet_step lid until a (pool_deallocate now lid' a)"
| quiet_cleanup: "now \<le> until \<Longrightarrow> quiet_step lid until a (cleanup_expired now a)"

lemma quiet_step_keeps:
  assumes "quiet_step lid until a a'" and "allocated_ports a lid = Some \<lparr>alloc_port = p, alloc_state = Reserved until\<rparr>"
  shows "allocated_ports a' lid = allocated_ports a lid"
  using assms
proof cases
  case (quiet_allocate lid' env m1 m2 req res)
  from quiet_allocate(3,2) show ?thesis
    by (cases rule: pool_allocate_cases)
       (use quiet_allocate(1) in \<open>auto simp: reactivate_def split: AllocationState.splits\<close>)
qed (use assms(2) in \<open>auto simp: pool_deallocate_def cleanup_expired_def expired_def split: option.splits\<close>)

lemma pool_allocate_active:
  assumes "pool_allocate m1 m2 env lid req a = Returned (Ok p, a')" and "valid_port_env env"
  shows "allocated_ports a' lid = Some \<lparr>alloc_port = p, alloc_state = Active\<rparr>"
  using assms by (cases rule: pool_allocate_cases)
    (auto simp: reactivate_def split: AllocationState.splits)

text \<open>
  C20 Reconnection: a tunnel that got a port, lost its connection and comes back before its
  reservation ends gets the same port and holds it actively again, whatever it requests and whatever
  the other tunnels and the periodic clean-up did in between.
\<close>

theorem reconnect_same_port:
  assumes "valid_port_env env" and "exit_node_allocate env lid req a0 = Returned (Ok p, a)"
    and "(quiet_step lid (now + reservation_ttl_seconds a * 1000000000))\<^sup>*\<^sup>* (pool_deallocate now lid a) b"
  shows "\<exists>b'. exit_node_allocate env' lid req' b = Returned (Ok p, b') \<and>
           allocated_ports b' lid = Some \<lparr>alloc_port = p, alloc_state = Active\<rparr>"
proof -
  let ?until = "now + reservation_ttl_seconds a * 1000000000"
  have "allocated_ports a lid = Some \<lparr>alloc_port = p, alloc_state = Active\<rparr>"
    using assms(1,2) by (intro pool_allocate_active) (simp_all add: exit_node_allocate_def)
  then have start: "allocated_ports (pool_deallocate now lid a) lid
      = Some \<lparr>alloc_port = p, alloc_state = Reserved ?until\<rparr>"
    by (simp add: pool_deallocate_def)
  from assms(3) have "allocated_ports b lid = Some \<lparr>alloc_port = p, alloc_state = Reserved ?until\<rparr>"
    by (induction rule: rtranclp_induct) (use start quiet_step_keeps in auto)
  then show ?thesis
    by (cases env') (simp add: exit_node_allocate_def pool_allocate_def reactivate_def)
qed

theorem reconnect_same_port_witness:
  "\<exists>b'. exit_node_allocate demo_port_env ''t1'' None (pool_deallocate 0 ''t1'' demo_pool) = Returned (Ok 8000, b')
     \<and> allocated_ports b' ''t1'' = Some \<lparr>alloc_port = 8000, alloc_state = Active\<rparr>"
  by (rule reconnect_same_port [OF demo_port_env_valid demo_pool_allocate, where now = 0]) simp

text \<open>
  Completeness of the search: as long as one port of the pool can be bound whenever it is
  probed, a tunnel without a port that requests none is given a port of the pool.
\<close>

theorem pool_allocate_complete:
  assumes "valid_port_env (probe, hash, iter)" and "allocated_ports a lid = None"
    and "hash_to_port a (hash lid) \<noteq> Panicked"
    and "q \<in> available_ports a" and "\<And>n. probe n q"
  shows "\<exists>p a'. exit_node_allocate (probe, hash, iter) lid None a = Returned (Ok p, a') \<and>
           p \<in> available_ports a"
proof -
  obtain preferred where pref: "hash_to_port a (hash lid) = Returned preferred"
    using assms(3) by (cases "hash_to_port a (hash lid)") auto
  obtain res a' where any: "allocate_any probe iter lid preferred a = (res, a')" by fastforce
  have "\<And>S. set (iter S) = S" "\<And>S. distinct (iter S)"
    using assms(1) by (simp_all add: valid_port_env_def)
  from allocate_any_cases [OF any this] obtain D where
    "case res of Ok p \<Rightarrow> p \<in> available_ports a - D \<and> a' = claim_port lid p (drop_ports D a)
     | Err m \<Rightarrow> a' = drop_ports D a \<and> (\<forall>q \<in> available_ports a. \<exists>m. \<not> probe m q)"
    by blast
  with assms(4,5) have "\<exists>p. res = Ok p \<and> p \<in> available_ports a" by (cases res) auto
  with any pref assms(2) show ?thesis
    by (auto simp: exit_node_allocate_def pool_allocate_def)
qed

theorem pool_allocate_complete_witness:
  "\<exists>p a'. exit_node_allocate (\<lambda>_ q. q = 8009, \<lambda>_. 3, sorted_list_of_set) ''t2'' None demo_pool
            = Returned (Ok p, a') \<and> p \<in> available_ports demo_pool"
  by (rule pool_allocate_complete [where q = 8009])
     (simp_all add: valid_port_env_def demo_pool_def with_reservation_ttl_def hash_to_port_def
       claim_port_def Let_def)

text \<open>
  Of the port ranges the command line accepts, exactly the full range 0-65535 makes the first
  allocation that requests no port panic: the size of the range is computed in 16 bits.
\<close>

theorem port_range_panic:
  assumes "parse_port_range s = Ok (lo, hi)"
  shows "exit_node_allocate env lid None (pool_new lo hi) = Panicked \<longleftrightarrow> lo = 0 \<and> hi = 65535"
proof -
  have "lo < hi"
    using assms by (auto simp: parse_port_range_def split: list.splits option.splits if_splits)
  have size: "hi - lo + 1 = 0 \<longleftrightarrow> lo = 0 \<and> hi = 65535"
  proof
    assume "hi - lo + 1 = 0"
    then have "hi - lo = - 1" by (simp only: eq_neg_iff_add_eq_0)
    also have "- 1 = (65535 :: u16)" by simp
    finally have "unat (hi - lo) = 65535" by simp
    then have "unat hi - unat lo = 65535" using \<open>lo < hi\<close> by (simp add: unat_sub)
    then have "unat hi = 65535 \<and> unat lo = 0"
      using unsigned_less [of hi, where ?'a = nat] by auto
    then show "lo = 0 \<and> hi = 65535" unfolding word_unat_eq_iff by simp
  qed simp
  obtain probe hash iter where env: "env = (probe, hash, iter)" by (metis prod_cases3)
  have "exit_node_allocate env lid None (pool_new lo hi) = Panicked
      \<longleftrightarrow> hash_to_port (pool_new lo hi) (hash lid) = Panicked"
    by (cases "hash_to_port (pool_new lo hi) (hash lid)")
       (simp_all add: env exit_node_allocate_def pool_allocate_def pool_new_def with_reservation_ttl_def)
  also have "\<dots> \<longleftrightarrow> lo = 0 \<and> hi = 65535"
    using less_not_sym [OF \<open>lo < hi\<close>] size by (simp add: hash_to_port_def Let_def pool_new_def with_reservation_ttl_def)
  finally show ?thesis .
qed

lemma parse_full_range: "parse_port_range ''0-65535'' = Ok (0, 65535)"
  by (simp add: parse_port_range_def parse_u16_def parse_uint_def is_ascii_digit_def Let_def)

theorem port_range_panic_witness:
  "exit_node_allocate demo_port_env ''t1'' None (pool_new 0 65535) = Panicked"
  using port_range_panic [OF parse_full_range] by simp

section \<open>The incremental allocator does not exclude\<close>

text \<open>
  The incremental allocator keeps the contract of an allocator but is not exclusive: a requested
  port is granted without a look at the other tunnels, so two tunnels that request one port both
  hold it.
\<close>

theorem simple_allocate_shares:
  assumes "allocations a lid1 = None" and "allocations a lid2 = None" and "lid1 \<noteq> lid2"
  shows "\<exists>a1 a2. simple_allocate lid1 (Some p) a = (Ok p, a1) \<and> simple_allocate lid2 (Some p) a1 = (Ok p, a2)
           \<and> simple_get_allocated_port a2 lid1 = Some p \<and> simple_get_allocated_port a2 lid2 = Some p"
  using assms by (simp add: simple_allocate_def simple_get_allocated_port_def)

theorem simple_allocate_shares_witness:
  "\<exists>a1 a2. simple_allocate ''a'' (Some 22) (simple_with_range 9000 None) = (Ok 22, a1) \<and>
     simple_allocate ''b'' (Some 22) a1 = (Ok 22, a2) \<and>
     simple_get_allocated_port a2 ''a'' = Some 22 \<and> simple_get_allocated_port a2 ''b'' = Some 22"
  by (rule simple_allocate_shares) (simp_all add: simple_with_range_def)

end
