(* ===== verification/Control.thy ===== *)
theory Control
  imports HttpAuth
begin

text \<open>
  The shared tables of the control plane, \<open>crates/localup-control/src\<close>: pending HTTP requests
  (\<open>pending_requests.rs\<close>), tunnel and agent connections (\<open>connection.rs\<close>), registered agents
  (\<open>agent_registry.rs\<close>), background tasks (\<open>task_tracker.rs\<close>) and the domain providers
  (\<open>domain_provider.rs\<close>). Connections, callbacks and task handles are opaque values.
\<close>

section \<open>Pending requests\<close>

text \<open>
  Each registration makes a one-shot channel. Dropping its sender (by replacing or cancelling the
  entry) wakes the receiver with an error; a receiver may also go away first.
\<close>

datatype oneshot = Waiting | SenderDropped | ReceiverDropped | Received TunnelMessage

record PendingRequests =
  requests :: "u32 \<rightharpoonup> nat"
  channels :: "nat \<Rightarrow> oneshot"
  next_channel :: nat

definition pending_new :: PendingRequests where
  "pending_new = \<lparr>requests = Map.empty, channels = (\<lambda>_. SenderDropped), next_channel = 0\<rparr>"

definition drop_sender :: "nat \<Rightarrow> PendingRequests \<Rightarrow> PendingRequests" where
  "drop_sender c p =
     (if channels p c = Waiting then p\<lparr>channels := (channels p)(c := SenderDropped)\<rparr> else p)"

definition drop_receiver :: "nat \<Rightarrow> PendingRequests \<Rightarrow> PendingRequests" where
  "drop_receiver c p =
     (if channels p c = Waiting then p\<lparr>channels := (channels p)(c := ReceiverDropped)\<rparr> else p)"

definition pending_register :: "u32 \<Rightarrow> PendingRequests \<Rightarrow> nat \<times> PendingRequests" where
  "pending_register sid p =
     (let c = next_channel p;
          p1 = (case requests p sid of Some old \<Rightarrow> drop_sender old p | None \<Rightarrow> p)
      in (c, p1\<lparr>requests := (requests p1)(sid \<mapsto> c), channels := (channels p1)(c := Waiting),
                next_channel := Suc c\<rparr>))"

definition pending_respond :: "u32 \<Rightarrow> TunnelMessage \<Rightarrow> PendingRequests \<Rightarrow> bool \<times> PendingRequests" where
  "pending_respond sid response p =
     (case requests p sid of
        Some c \<Rightarrow>
          (let p1 = p\<lparr>requests := (requests p)(sid := None)\<rparr>
           in if channels p c = Waiting
              then (True, p1\<lparr>channels := (channels p)(c := Received response)\<rparr>)
              else (False, p1))
      | None \<Rightarrow> (False, p))"

definition pending_cancel :: "u32 \<Rightarrow> PendingRequests \<Rightarrow> PendingRequests" where
  "pending_cancel sid p =
     (case requests p sid of
        Some c \<Rightarrow> drop_sender c (p\<lparr>requests := (requests p)(sid := None)\<rparr>)
      | None \<Rightarrow> p)"

definition pending_count :: "PendingRequests \<Rightarrow> nat" where
  "pending_count p = card (dom (requests p))"

text \<open>Every entry owns its channel, and no entry's channel has been answered.\<close>

definition pending_inv :: "PendingRequests \<Rightarrow> bool" where
  "pending_inv p \<longleftrightarrow>
     (\<forall>sid c. requests p sid = Some c \<longrightarrow> c < next_channel p \<and> channels p c \<in> {Waiting, ReceiverDropped}) \<and>
     (\<forall>sid1 sid2 c. requests p sid1 = Some c \<longrightarrow> requests p sid2 = Some c \<longrightarrow> sid1 = sid2)"

lemma pending_inv_new: "pending_inv pending_new"
  by (simp add: pending_inv_def pending_new_def)

lemma drop_sender_simps [simp]:
  "requests (drop_sender c p) = requests p" "next_channel (drop_sender c p) = next_channel p"
  "channels (drop_sender c p) = (if channels p c = Waiting then (channels p)(c := SenderDropped) else channels p)"
  by (simp_all add: drop_sender_def)

lemma pending_inv_register: "pending_inv p \<Longrightarrow> pending_inv (snd (pending_register sid p))"
  unfolding pending_inv_def pending_register_def
  by (auto simp: Let_def less_Suc_eq split: option.splits if_splits)

lemma pending_inv_respond: "pending_inv p \<Longrightarrow> pending_inv (snd (pending_respond sid m p))"
  unfolding pending_inv_def pending_respond_def
  by (auto simp: Let_def split: option.splits if_splits)

lemma pending_inv_cancel: "pending_inv p \<Longrightarrow> pending_inv (pending_cancel sid p)"
  unfolding pending_inv_def pending_cancel_def
  by (auto split: option.splits if_splits)

lemma pending_inv_drop_receiver: "pending_inv p \<Longrightarrow> pending_inv (drop_receiver c p)"
  unfolding pending_inv_def drop_receiver_def by auto

inductive pending_step :: "PendingRequests \<Rightarrow> PendingRequests \<Rightarrow> bool" where
  "pending_step p (snd (pending_register sid p))"
| "pending_step p (snd (pending_respond sid m p))"
| "pending_step p (pending_cancel sid p)"
| "pending_step p (drop_receiver c p)"

inductive_cases pending_stepE: "pending_step p p'"

lemma pending_reachable_inv:
  assumes "pending_step\<^sup>*\<^sup>* pending_new p"
  shows "pending_inv p"
  using assms
proof (induction rule: rtranclp_induct)
  case (step y z)
  then show ?case
    by (elim pending_stepE)
       (auto intro: pending_inv_register pending_inv_respond pending_inv_cancel pending_inv_drop_receiver)
qed (rule pending_inv_new)

text \<open>
  What happens to the request \<open>sid\<close> waiting on channel \<open>c\<close> while responses go to other streams and
  other requests come and go.
\<close>

inductive pending_other_step :: "u32 \<Rightarrow> nat \<Rightarrow> PendingRequests \<Rightarrow> PendingRequests \<Rightarrow> bool"
  for sid :: u32 and c :: nat where
  "s \<noteq> sid \<Longrightarrow> pending_other_step sid c p (snd (pending_register s p))"
| "s \<noteq> sid \<Longrightarrow> pending_other_step sid c p (snd (pending_respond s m p))"
| "s \<noteq> sid \<Longrightarrow> pending_other_step sid c p (pending_cancel s p)"
| "d \<noteq> c \<Longrightarrow> pending_other_step sid c p (drop_receiver d p)"

inductive_cases pending_other_stepE: "pending_other_step sid c p p'"

lemma pending_other_step_inv: "pending_other_step sid c p p' \<Longrightarrow> pending_inv p \<Longrightarrow> pending_inv p'"
  by (elim pending_other_stepE)
     (auto intro: pending_inv_register pending_inv_respond pending_inv_cancel pending_inv_drop_receiver)

lemma pending_other_step_keeps:
  assumes "pending_other_step sid c p p'" and "pending_inv p"
    and "requests p sid = Some c" and "channels p c = Waiting"
  shows "requests p' sid = Some c \<and> channels p' c = Waiting"
proof -
  have other: "requests p s = Some d \<Longrightarrow> s \<noteq> sid \<Longrightarrow> d \<noteq> c" for s d
    using assms(2,3) by (auto simp: pending_inv_def)
  have "c \<noteq> next_channel p" using assms(2,3) by (auto simp: pending_inv_def)
  with assms(1,3,4) other show ?thesis
    by (elim pending_other_stepE)
       (auto simp: pending_register_def pending_respond_def pending_cancel_def drop_receiver_def
         Let_def split: option.splits)
qed

text \<open>
  Responses reach the request that waits for them: after a request is registered, and whatever
  happens to the other streams meanwhile, the response for its stream is delivered to exactly its
  receiver, and a second response for the stream is refused.
\<close>

theorem pending_response_delivered:
  assumes "pending_step\<^sup>*\<^sup>* pending_new p0" and "pending_register sid p0 = (c, p1)"
    and "(pending_other_step sid c)\<^sup>*\<^sup>* p1 p2" and "pending_respond sid m p2 = (ok, p3)"
  shows "ok \<and> channels p3 c = Received m \<and> (\<forall>d. d \<noteq> c \<longrightarrow> channels p3 d = channels p2 d) \<and>
         fst (pending_respond sid m' p3) = False"
proof -
  have inv0: "pending_inv p0" using assms(1) by (rule pending_reachable_inv)
  have inv1: "pending_inv p1" using pending_inv_register [OF inv0, of sid] assms(2) by simp
  have start: "requests p1 sid = Some c \<and> channels p1 c = Waiting"
    using assms(2) by (auto simp: pending_register_def Let_def)
  from assms(3) inv1 start have "pending_inv p2 \<and> requests p2 sid = Some c \<and> channels p2 c = Waiting"
    by (induction rule: rtranclp_induct)
       (auto dest: pending_other_step_inv pending_other_step_keeps)
  then show ?thesis
    using assms(4) by (auto simp: pending_respond_def Let_def)
qed

theorem pending_response_delivered_witness:
  "\<exists>ok p3. pending_respond 7 (Ping 1) (snd (pending_register 7 pending_new)) = (ok, p3) \<and>
     ok \<and> channels p3 0 = Received (Ping 1)"
proof -
  obtain ok p3 where r: "pending_respond 7 (Ping 1) (snd (pending_register 7 pending_new)) = (ok, p3)"
    by fastforce
  have "pending_register 7 pending_new = (0, snd (pending_register 7 pending_new))"
    by (simp add: pending_register_def pending_new_def Let_def)
  from pending_response_delivered [OF rtranclp.rtrancl_refl this rtranclp.rtrancl_refl r] r
  show ?thesis by blast
qed

section \<open>Connections\<close>

record ('c, 'cb) TunnelConnection =
  conn_localup_id :: string
  conn_endpoints :: "Endpoint list"
  conn_connection :: 'c
  conn_tcp_data_callback :: "'cb option"
  conn_http_auth :: HttpAuthConfig
  conn_auth_token :: "string option"

type_synonym ('c, 'cb) TunnelConnectionManager = "string \<rightharpoonup> ('c, 'cb) TunnelConnection"

definition register_with_auth_and_token ::
  "string \<Rightarrow> Endpoint list \<Rightarrow> 'c \<Rightarrow> HttpAuthConfig \<Rightarrow> string option
    \<Rightarrow> ('c, 'cb) TunnelConnectionManager \<Rightarrow> ('c, 'cb) TunnelConnectionManager" where
  "register_with_auth_and_token lid eps conn auth tok m =
     m(lid \<mapsto> \<lparr>conn_localup_id = lid, conn_endpoints = eps, conn_connection = conn,
                conn_tcp_data_callback = None, conn_http_auth = auth, conn_auth_token = tok\<rparr>)"

definition register_with_auth ::
  "string \<Rightarrow> Endpoint list \<Rightarrow> 'c \<Rightarrow> HttpAuthConfig
    \<Rightarrow> ('c, 'cb) TunnelConnectionManager \<Rightarrow> ('c, 'cb) TunnelConnectionManager" where
  "register_with_auth lid eps conn auth m = register_with_auth_and_token lid eps conn auth None m"

definition conn_register ::
  "string \<Rightarrow> Endpoint list \<Rightarrow> 'c
    \<Rightarrow> ('c, 'cb) TunnelConnectionManager \<Rightarrow> ('c, 'cb) TunnelConnectionManager" where
  "conn_register lid eps conn m = register_with_auth_and_token lid eps conn AuthNone None m"

definition register_tcp_callback ::
  "string \<Rightarrow> 'cb \<Rightarrow> ('c, 'cb) TunnelConnectionManager \<Rightarrow> ('c, 'cb) TunnelConnectionManager" where
  "register_tcp_callback lid cb m =
     (case m lid of
        Some conn \<Rightarrow> m(lid \<mapsto> conn\<lparr>conn_tcp_data_callback := Some cb\<rparr>)
      | None \<Rightarrow> m)"

definition get_tcp_callback :: "('c, 'cb) TunnelConnectionManager \<Rightarrow> string \<Rightarrow> 'cb option" where
  "get_tcp_callback m lid = Option.bind (m lid) conn_tcp_data_callback"

definition conn_unregister ::
  "string \<Rightarrow> ('c, 'cb) TunnelConnectionManager \<Rightarrow> ('c, 'cb) TunnelConnectionManager" where
  "conn_unregister lid m = m(lid := None)"

definition conn_get :: "('c, 'cb) TunnelConnectionManager \<Rightarrow> string \<Rightarrow> 'c option" where
  "conn_get m lid = map_option conn_connection (m lid)"

definition get_endpoints :: "('c, 'cb) TunnelConnectionManager \<Rightarrow> string \<Rightarrow> Endpoint list option" where
  "get_endpoints m lid = map_option conn_endpoints (m lid)"

definition get_http_authenticator ::
  "('c, 'cb) TunnelConnectionManager \<Rightarrow> string \<Rightarrow> HttpAuthenticator option" where
  "get_http_authenticator m lid = map_option (\<lambda>conn. from_config (conn_http_auth conn)) (m lid)"

definition get_http_auth_config ::
  "('c, 'cb) TunnelConnectionManager \<Rightarrow> string \<Rightarrow> HttpAuthConfig option" where
  "get_http_auth_config m lid = map_option conn_http_auth (m lid)"

definition get_auth_token :: "('c, 'cb) TunnelConnectionManager \<Rightarrow> string \<Rightarrow> string option" where
  "get_auth_token m lid = Option.bind (m lid) conn_auth_token"

record 'c AgentConnection =
  agent_conn_id :: string
  agent_conn_connection :: 'c

type_synonym 'c AgentConnectionManager = "string \<rightharpoonup> 'c AgentConnection"

definition agent_conn_register ::
  "string \<Rightarrow> 'c \<Rightarrow> 'c AgentConnectionManager \<Rightarrow> 'c AgentConnectionManager" where
  "agent_conn_register aid conn m =
     m(aid \<mapsto> \<lparr>agent_conn_id = aid, agent_conn_connection = conn\<rparr>)"

definition agent_conn_unregister ::
  "string \<Rightarrow> 'c AgentConnectionManager \<Rightarrow> 'c AgentConnectionManager" where
  "agent_conn_unregister aid m = m(aid := None)"

definition agent_conn_get :: "'c AgentConnectionManager \<Rightarrow> string \<Rightarrow> 'c option" where
  "agent_conn_get m aid = map_option agent_conn_connection (m aid)"

definition agent_conn_count :: "'c AgentConnectionManager \<Rightarrow> nat" where
  "agent_conn_count m = card (dom m)"

interpretation tunnel_connections: keyed_store conn_get
  "\<lambda>lid conn. register_with_auth_and_token lid eps conn auth tok" conn_unregister
  by unfold_locales
     (simp_all add: conn_get_def register_with_auth_and_token_def conn_unregister_def)

interpretation agent_connections: keyed_store agent_conn_get agent_conn_register agent_conn_unregister
  by unfold_locales
     (simp_all add: agent_conn_get_def agent_conn_register_def agent_conn_unregister_def)

text \<open>A registered tunnel is served under the authentication it was registered with.\<close>

lemma registered_authenticator:
  "get_http_authenticator (register_with_auth_and_token lid eps conn auth tok m) lid' =
     (if lid' = lid then Some (from_config auth) else get_http_authenticator m lid')"
  by (simp add: get_http_authenticator_def register_with_auth_and_token_def)

section \<open>Agents\<close>

record RegisteredAgent =
  agent_id :: string
  target_address :: string
  agent_metadata :: AgentMetadata
  connected_at :: int

type_synonym AgentRegistry = "string \<rightharpoonup> RegisteredAgent"

definition register_or_replace ::
  "RegisteredAgent \<Rightarrow> AgentRegistry \<Rightarrow> (string, RegisteredAgent option) result \<times> AgentRegistry" where
  "register_or_replace a m = (Ok (m (agent_id a)), m(agent_id a \<mapsto> a))"

definition agent_register :: "RegisteredAgent \<Rightarrow> AgentRegistry \<Rightarrow> (string, unit) result \<times> AgentRegistry" where
  "agent_register a m =
     (if m (agent_id a) \<noteq> None then (Err (''Agent '' @ agent_id a @ '' is already registered''), m)
      else (Ok (), m(agent_id a \<mapsto> a)))"

definition agent_unregister :: "string \<Rightarrow> AgentRegistry \<Rightarrow> RegisteredAgent option \<times> AgentRegistry" where
  "agent_unregister aid m = (m aid, m(aid := None))"

definition agent_get :: "AgentRegistry \<Rightarrow> string \<Rightarrow> RegisteredAgent option" where
  "agent_get m aid = m aid"

text \<open>The search follows the iteration order of the table, \<open>vals m\<close>.\<close>

definition find_by_address ::
  "(AgentRegistry \<Rightarrow> RegisteredAgent list) \<Rightarrow> AgentRegistry \<Rightarrow> string \<Rightarrow> RegisteredAgent option" where
  "find_by_address vals m addr = find (\<lambda>a. target_address a = addr) (vals m)"

definition agent_count :: "AgentRegistry \<Rightarrow> nat" where
  "agent_count m = card (dom m)"

text \<open>Every entry is stored under its own id.\<close>

definition agents_inv :: "AgentRegistry \<Rightarrow> bool" where
  "agents_inv m \<longleftrightarrow> (\<forall>aid a. m aid = Some a \<longrightarrow> agent_id a = aid)"

lemma agents_inv_steps:
  "agents_inv Map.empty"
  "agents_inv m \<Longrightarrow> agents_inv (snd (register_or_replace a m))"
  "agents_inv m \<Longrightarrow> agents_inv (snd (agent_register a m))"
  "agents_inv m \<Longrightarrow> agents_inv (snd (agent_unregister aid m))"
  by (auto simp: agents_inv_def register_or_replace_def agent_register_def agent_unregister_def)

lemma find_by_address_sound:
  assumes "agents_inv m" and "set (vals m) = ran m" and "find_by_address vals m addr = Some a"
  shows "target_address a = addr \<and> m (agent_id a) = Some a"
  using assms by (fastforce simp: find_by_address_def find_Some_iff agents_inv_def ran_def
      dest: nth_mem)

lemma find_by_address_complete:
  assumes "set (vals m) = ran m" and "m aid = Some a" and "target_address a = addr"
  shows "find_by_address vals m addr \<noteq> None"
  using assms by (auto simp: find_by_address_def find_None_iff ran_def)

section \<open>Background tasks\<close>

text \<open>Handles are opaque; the second component collects the handles aborted so far.\<close>

record 'h TaskTracker =
  tasks :: "string \<rightharpoonup> 'h"
  aborted :: "'h list"

definition task_tracker_new :: "'h TaskTracker" where
  "task_tracker_new = \<lparr>tasks = Map.empty, aborted = []\<rparr>"

definition task_register :: "string \<Rightarrow> 'h \<Rightarrow> 'h TaskTracker \<Rightarrow> 'h TaskTracker" where
  "task_register lid h t =
     (case tasks t lid of
        Some old \<Rightarrow> t\<lparr>tasks := (tasks t)(lid \<mapsto> h), aborted := aborted t @ [old]\<rparr>
      | None \<Rightarrow> t\<lparr>tasks := (tasks t)(lid \<mapsto> h)\<rparr>)"

definition task_unregister :: "string \<Rightarrow> 'h TaskTracker \<Rightarrow> 'h TaskTracker" where
  "task_unregister lid t =
     (case tasks t lid of
        Some h \<Rightarrow> t\<lparr>tasks := (tasks t)(lid := None), aborted := aborted t @ [h]\<rparr>
      | None \<Rightarrow> t)"

interpretation task_store: keyed_store tasks task_register task_unregister
  by unfold_locales (auto simp: task_register_def task_unregister_def split: option.splits)

text \<open>
  No handle is lost: a handle that was registered is still tracked or was aborted, whatever happens
  to the tracker.
\<close>

lemma task_never_leaks:
  "h \<in> ran (tasks t) \<union> set (aborted t) \<Longrightarrow> h \<in> ran (tasks (task_register lid g t)) \<union> set (aborted (task_register lid g t))"
  "h \<in> ran (tasks t) \<union> set (aborted t) \<Longrightarrow> h \<in> ran (tasks (task_unregister lid t)) \<union> set (aborted (task_unregister lid t))"
  by (auto simp: task_register_def task_unregister_def ran_def split: option.splits)
     (metis option.distinct(1) option.inject)+

section \<open>Domain providers\<close>

datatype DomainProviderError = DomainError string | InvalidSubdomain string | Unavailable string

text \<open>The two providers share the code of all methods but the two about manual subdomains.\<close>

datatype ProviderKind = SimpleCounter | Restricted

record DomainProvider =
  kind :: ProviderKind
  counter :: u64
  reserved :: "string set"

definition provider_new :: "ProviderKind \<Rightarrow> DomainProvider" where
  "provider_new k = \<lparr>kind = k, counter = 0, reserved = {}\<rparr>"

definition provider_generate_subdomain ::
  "DomainProvider \<Rightarrow> (DomainProviderError, string) result \<times> DomainProvider" where
  "provider_generate_subdomain d =
     (Ok (''tunnel-'' @ show_nat (unat (counter d + 1))), d\<lparr>counter := counter d + 1\<rparr>)"

definition generate_public_url ::
  "string option \<Rightarrow> u16 option \<Rightarrow> string \<Rightarrow> string \<Rightarrow> (DomainProviderError, string) result" where
  "generate_public_url subdomain port protocol public_domain =
     (if protocol = ''tcp'' then
        (case port of
           Some p \<Rightarrow> Ok (public_domain @ '':'' @ show_nat (unat p))
         | None \<Rightarrow> Err (DomainError ''TCP requires port''))
      else if protocol = ''https'' \<or> protocol = ''http'' then
        (case subdomain of
           Some s \<Rightarrow> Ok (protocol @ ''://'' @ s @ ''.'' @ public_domain)
         | None \<Rightarrow> Err (DomainError ''HTTP requires subdomain''))
      else if protocol = ''tls'' then
        (case (subdomain, port) of
           (Some s, Some p) \<Rightarrow> Ok (s @ '':'' @ show_nat (unat p))
         | (Some s, None) \<Rightarrow> Ok s
         | _ \<Rightarrow> Err (DomainError ''TLS requires subdomain and/or port''))
      else Err (DomainError (''Unknown protocol: '' @ protocol)))"

definition is_available :: "DomainProvider \<Rightarrow> string \<Rightarrow> (DomainProviderError, bool) result" where
  "is_available d s = Ok (s \<notin> reserved d)"

definition reserve :: "string \<Rightarrow> DomainProvider \<Rightarrow> (DomainProviderError, unit) result \<times> DomainProvider" where
  "reserve s d = (Ok (), d\<lparr>reserved := insert s (reserved d)\<rparr>)"

definition release :: "string \<Rightarrow> DomainProvider \<Rightarrow> (DomainProviderError, unit) result \<times> DomainProvider" where
  "release s d = (Ok (), d\<lparr>reserved := reserved d - {s}\<rparr>)"

definition allow_manual_subdomain :: "DomainProvider \<Rightarrow> bool" where
  "allow_manual_subdomain d = (case kind d of SimpleCounter \<Rightarrow> True | Restricted \<Rightarrow> False)"

definition default_validate_subdomain :: "string \<Rightarrow> (DomainProviderError, unit) result" where
  "default_validate_subdomain s =
     (if s = [] then Err (InvalidSubdomain ''Subdomain cannot be empty'')
      else if length s > 63 then
        Err (InvalidSubdomain (''Subdomain too long (max 63 characters): '' @ show_nat (length s)))
      else if length s < 3 then
        Err (InvalidSubdomain ''Subdomain too short (minimum 3 characters)'')
      else if starts_with s ''-'' \<or> ends_with s ''-'' then
        Err (InvalidSubdomain ''Subdomain cannot start or end with hyphen'')
      else case find (\<lambda>ch. \<not> is_alphanumeric ch \<and> ch \<noteq> CHR ''-'') s of
             Some ch \<Rightarrow>
               Err (InvalidSubdomain (''Subdomain contains invalid character '' @ [CHR 0x27, ch, CHR 0x27]
                    @ '' (only alphanumeric and hyphens allowed)''))
           | None \<Rightarrow> Ok ())"

definition validate_subdomain :: "DomainProvider \<Rightarrow> string \<Rightarrow> (DomainProviderError, unit) result" where
  "validate_subdomain d s =
     (case kind d of
        SimpleCounter \<Rightarrow> default_validate_subdomain s
      | Restricted \<Rightarrow>
          Err (InvalidSubdomain ''Manual subdomain selection is not allowed. Only auto-generated subdomains are permitted.''))"

text \<open>What a client may rely on: reservations are per name, and generation does not touch them.\<close>

locale domain_reservations =
  fixes available :: "'d \<Rightarrow> string \<Rightarrow> bool"
    and take :: "string \<Rightarrow> 'd \<Rightarrow> 'd"
    and give_back :: "string \<Rightarrow> 'd \<Rightarrow> 'd"
    and generate :: "'d \<Rightarrow> string \<times> 'd"
  assumes available_take: "available (take s d) s' \<longleftrightarrow> s' \<noteq> s \<and> available d s'"
    and available_give_back: "available (give_back s d) s' \<longleftrightarrow> s' = s \<or> available d s'"
    and available_generate: "available (snd (generate d)) s' \<longleftrightarrow> available d s'"
begin

lemma reserve_release: "available d s \<Longrightarrow> available (give_back s (take s d)) s' \<longleftrightarrow> available d s'"
  by (auto simp: available_take available_give_back)

end

interpretation domain_provider: domain_reservations
  "\<lambda>d s. is_available d s = Ok True" "\<lambda>s d. snd (reserve s d)" "\<lambda>s d. snd (release s d)"
  "\<lambda>d. (case fst (provider_generate_subdomain d) of Ok s \<Rightarrow> s | Err _ \<Rightarrow> [], snd (provider_generate_subdomain d))"
  by unfold_locales
     (auto simp: is_available_def reserve_def release_def provider_generate_subdomain_def)

lemma validate_subdomain_Ok:
  "default_validate_subdomain s = Ok () \<longleftrightarrow>
     3 \<le> length s \<and> length s \<le> 63 \<and> \<not> starts_with s ''-'' \<and> \<not> ends_with s ''-'' \<and>
     list_all (\<lambda>ch. is_alphanumeric ch \<or> ch = CHR ''-'') s"
proof -
  have "find (\<lambda>ch. \<not> is_alphanumeric ch \<and> ch \<noteq> CHR ''-'') s = None \<longleftrightarrow>
      list_all (\<lambda>ch. is_alphanumeric ch \<or> ch = CHR ''-'') s"
    by (auto simp: find_None_iff list_all_iff)
  then show ?thesis by (auto simp: default_validate_subdomain_def split: option.splits)
qed

text \<open>Generated names do not repeat before the 64-bit counter does.\<close>

fun generate_many :: "nat \<Rightarrow> DomainProvider \<Rightarrow> string list" where
  "generate_many 0 d = []"
| "generate_many (Suc n) d =
     (case provider_generate_subdomain d of
        (Ok s, d') \<Rightarrow> s # generate_many n d'
      | (Err _, d') \<Rightarrow> generate_many n d')"

lemma generate_many_eq:
  "generate_many n d = map (\<lambda>i. ''tunnel-'' @ show_nat (unat (counter d + of_nat (Suc i)))) [0..<n]"
proof (induction n arbitrary: d)
  case (Suc n)
  then show ?case
    by (simp add: provider_generate_subdomain_def upt_conv_Cons map_Suc_upt [symmetric] comp_def
        add.assoc del: upt_Suc)
qed simp

lemma generate_many_distinct:
  assumes "n < 2 ^ 64"
  shows "distinct (generate_many n d)"
proof -
  have "i = j" if "i < n" "j < n" "counter d + of_nat (Suc i) = counter d + (of_nat (Suc j) :: u64)" for i j
  proof -
    have "(of_nat (Suc i) :: u64) = of_nat (Suc j)" using that(3) by simp
    then have "unat (of_nat (Suc i) :: u64) = unat (of_nat (Suc j) :: u64)" by simp
    then show ?thesis using that(1,2) assms by (simp only: unat_of_nat) simp
  qed
  then show ?thesis
    by (auto simp: generate_many_eq distinct_map inj_on_def word_unat_eq_iff [symmetric] simp del: of_nat_Suc)
qed

text \<open>Generation does not look at the reservations: it can return a name that is reserved.\<close>

lemma generate_ignores_reservations:
  "fst (provider_generate_subdomain (snd (reserve ''tunnel-1'' (provider_new k)))) = Ok ''tunnel-1''"
proof -
  have "show_nat 1 = ''1''" by code_simp
  then show ?thesis by (simp add: provider_generate_subdomain_def reserve_def provider_new_def)
qed

end
