(* ===== verification/Handler.thy ===== *)
theory Handler
  imports Routers PortAlloc Control Jwt
begin

text \<open>
  The route management of the tunnel handler, \<open>crates/localup-control/src/handler.rs\<close>: the check of
  custom domains, token validation, the generation of subdomains, \<open>build_endpoints\<close>,
  \<open>register_route\<close> and \<open>unregister_route\<close>. Connection life cycles are in \<open>Session\<close>.

  The database, the port allocator behind its trait, the hash of the standard library, token
  decoding and the clock are arguments. The shared tables are one record, and each table operation
  is one step on it.
\<close>

section \<open>Configuration and state\<close>

datatype DomainStatus = DomainPending | DomainActive | DomainExpired | DomainFailed

record auth_token_row =
  row_user_id :: string
  row_expires_at :: "int option"
  row_is_active :: bool

text \<open>The queries the handler makes: a domain by name, a wildcard domain by name, a token by hash.\<close>

record database =
  find_domain :: "string \<Rightarrow> (string, DomainStatus option) result"
  find_wildcard_domain :: "string \<Rightarrow> (string, DomainStatus option) result"
  find_token :: "string \<Rightarrow> (string, auth_token_row option) result"

record 's allocator =
  alloc :: "string \<Rightarrow> u16 option \<Rightarrow> 's \<Rightarrow> ((string, u16) result \<times> 's) outcome"
  dealloc :: "string \<Rightarrow> 's \<Rightarrow> 's"

record 's TunnelHandler =
  domain :: string
  db :: "database option"
  has_domain_provider :: bool
  port_allocator :: "'s allocator option"
  tcp_proxy_spawner :: bool
  tls_port :: "u16 option"
  http_port :: "u16 option"
  https_port :: "u16 option"

text \<open>The proxy task of a tunnel is named by the tunnel and the port it listens on.\<close>

record ('s, 'c, 'cb) RelayState =
  route_registry :: RouteRegistry
  ports :: 's
  task_tracker :: "(string \<times> u16) TaskTracker"
  connection_manager :: "('c, 'cb) TunnelConnectionManager"
  domain_provider :: DomainProvider
  agent_registry :: AgentRegistry
  agent_connection_manager :: "'c AgentConnectionManager"

section \<open>Custom domains\<close>

definition is_custom_domain_registered :: "database option \<Rightarrow> string \<Rightarrow> (string, bool) result" where
  "is_custom_domain_registered mdb dname =
     (case mdb of
        None \<Rightarrow> Ok True
      | Some d \<Rightarrow>
          (case find_domain d dname of
             Err e \<Rightarrow> Err (''Database error: '' @ e)
           | Ok (Some st) \<Rightarrow> Ok (st = DomainActive)
           | Ok None \<Rightarrow>
               (case extract_parent_wildcard dname of
                  None \<Rightarrow> Ok False
                | Some wildcard_pattern \<Rightarrow>
                    (case find_wildcard_domain d wildcard_pattern of
                       Err e \<Rightarrow> Err (''Database error: '' @ e)
                     | Ok (Some st) \<Rightarrow> Ok (st = DomainActive)
                     | Ok None \<Rightarrow> Ok False))))"

section \<open>Token validation\<close>

fun jwt_error_display :: "('e \<Rightarrow> string) \<Rightarrow> 'e JwtError \<Rightarrow> string" where
  "jwt_error_display show_error (EncodingError e) = ''JWT encoding error: '' @ show_error e"
| "jwt_error_display show_error TokenExpired = ''Token expired''"
| "jwt_error_display show_error InvalidToken = ''Invalid token''"

text \<open>
  The steps on the token's database row. The second component is the hash whose \<open>last_used_at\<close> is
  updated; the update's own failure is ignored by the code.
\<close>

definition check_token_row ::
  "int \<Rightarrow> string \<Rightarrow> string \<Rightarrow> (string, auth_token_row option) result \<Rightarrow> (string, string) result \<times> string option" where
  "check_token_row now claimed_user_id token_hash found =
     (case found of
        Err e \<Rightarrow> (Err (''Database error during authentication: '' @ e), None)
      | Ok None \<Rightarrow> (Err ''Auth token not found or has been revoked'', None)
      | Ok (Some row) \<Rightarrow>
          if \<not> row_is_active row then (Err ''Auth token has been deactivated'', None)
          else if (case row_expires_at row of Some t \<Rightarrow> t < now | None \<Rightarrow> False) then
            (Err ''Auth token has expired'', None)
          else if row_user_id row \<noteq> claimed_user_id then
            (Err ''Token user_id mismatch - possible JWT tampering'', None)
          else (Ok claimed_user_id, Some token_hash))"

definition validate_auth_token ::
  "(string \<Rightarrow> (string, JwtClaims) result) option \<Rightarrow> database option \<Rightarrow> (string \<Rightarrow> string) \<Rightarrow> int \<Rightarrow> string
    \<Rightarrow> (string, string) result \<times> string option" where
  "validate_auth_token jwt_validator mdb sha256 now token =
     (case jwt_validator of
        None \<Rightarrow> (Ok ''anonymous'', None)
      | Some validate \<Rightarrow>
          (case validate token of
             Err e \<Rightarrow> (Err (''Invalid JWT token: '' @ e), None)
           | Ok claims \<Rightarrow>
               if token_type claims \<noteq> None \<and> token_type claims \<noteq> Some ''auth'' then
                 (Err (''Invalid token type '' @ [CHR 0x27] @ the (token_type claims) @ [CHR 0x27]
                   @ ''. Expected '' @ [CHR 0x27] @ ''auth'' @ [CHR 0x27]
                   @ '' token for tunnel authentication''), None)
               else
                 (case claims_user_id claims of
                    None \<Rightarrow>
                      (Err (''Token missing '' @ [CHR 0x27] @ ''user_id'' @ [CHR 0x27]
                        @ '' claim. Auth tokens must include user_id''), None)
                  | Some claimed_user_id \<Rightarrow>
                      (case mdb of
                         None \<Rightarrow> (Ok claimed_user_id, None)
                       | Some d \<Rightarrow>
                           check_token_row now claimed_user_id (sha256 token) (find_token d (sha256 token))))))"

section \<open>Subdomains\<close>

definition CHARSET :: string where
  "CHARSET = ''abcdefghijklmnopqrstuvwxyz0123456789''"

fun base36 :: "nat \<Rightarrow> u64 \<Rightarrow> string" where
  "base36 0 remaining = []"
| "base36 (Suc n) remaining = CHARSET ! (unat (remaining mod 36)) # base36 n (remaining div 36)"

definition generate_subdomain :: "(string \<Rightarrow> IpAddr \<Rightarrow> u64) \<Rightarrow> string \<Rightarrow> SocketAddr \<Rightarrow> string" where
  "generate_subdomain hash lid peer = base36 6 (hash lid (sa_ip peer))"

section \<open>Endpoints\<close>

definition https_url :: "'s TunnelHandler \<Rightarrow> string \<Rightarrow> string" where
  "https_url h host =
     (let actual_port = (case https_port h of Some p \<Rightarrow> p | None \<Rightarrow> 443)
      in if actual_port = 443 then ''https://'' @ host
         else ''https://'' @ host @ '':'' @ show_nat (unat actual_port))"

text \<open>
  The subdomain used: the requested one unless the provider forbids manual names; otherwise the
  provider's, and the hash-based one when there is no provider or it fails.
\<close>

definition generated_subdomain ::
  "'s TunnelHandler \<Rightarrow> (string \<Rightarrow> IpAddr \<Rightarrow> u64) \<Rightarrow> string \<Rightarrow> SocketAddr \<Rightarrow> DomainProvider
    \<Rightarrow> string \<times> DomainProvider" where
  "generated_subdomain h hash lid peer d =
     (if has_domain_provider h then
        (case provider_generate_subdomain d of
           (Ok generated, d') \<Rightarrow> (generated, d')
         | (Err _, d') \<Rightarrow> (generate_subdomain hash lid peer, d'))
      else (generate_subdomain hash lid peer, d))"

definition actual_subdomain ::
  "'s TunnelHandler \<Rightarrow> (string \<Rightarrow> IpAddr \<Rightarrow> u64) \<Rightarrow> string \<Rightarrow> SocketAddr \<Rightarrow> string option
    \<Rightarrow> DomainProvider \<Rightarrow> string \<times> DomainProvider" where
  "actual_subdomain h hash lid peer subdomain d =
     (case subdomain of
        Some s \<Rightarrow>
          if s \<noteq> [] then
            if has_domain_provider h \<and> \<not> allow_manual_subdomain d
            then generated_subdomain h hash lid peer d
            else (s, d)
          else generated_subdomain h hash lid peer d
      | None \<Rightarrow> generated_subdomain h hash lid peer d)"

definition build_http_endpoint ::
  "'s TunnelHandler \<Rightarrow> (string \<Rightarrow> IpAddr \<Rightarrow> u64) \<Rightarrow> string \<Rightarrow> SocketAddr
    \<Rightarrow> (string option \<Rightarrow> string option \<Rightarrow> Protocol) \<Rightarrow> string option \<Rightarrow> string option \<Rightarrow> DomainProvider
    \<Rightarrow> Endpoint \<times> DomainProvider" where
  "build_http_endpoint h hash lid peer mk subdomain custom_domain d =
     (case custom_domain of
        Some custom \<Rightarrow>
          if custom \<noteq> [] then
            (\<lparr>ep_protocol = mk None (Some custom), ep_public_url = https_url h custom, ep_port = None\<rparr>, d)
          else
            (case actual_subdomain h hash lid peer subdomain d of
               (subd, d') \<Rightarrow>
                 (\<lparr>ep_protocol = mk (Some subd) None, ep_public_url = https_url h (subd @ ''.'' @ domain h),
                   ep_port = Some (case https_port h of Some p \<Rightarrow> p | None \<Rightarrow> 443)\<rparr>, d'))
      | None \<Rightarrow>
          (case actual_subdomain h hash lid peer subdomain d of
             (subd, d') \<Rightarrow>
               (\<lparr>ep_protocol = mk (Some subd) None, ep_public_url = https_url h (subd @ ''.'' @ domain h),
                 ep_port = Some (case https_port h of Some p \<Rightarrow> p | None \<Rightarrow> 443)\<rparr>, d')))"

fun join_patterns :: "string list \<Rightarrow> string" where
  "join_patterns [] = []"
| "join_patterns [p] = p"
| "join_patterns (p # ps) = p @ '', '' @ join_patterns ps"

fun build_endpoint ::
  "'s TunnelHandler \<Rightarrow> (string \<Rightarrow> IpAddr \<Rightarrow> u64) \<Rightarrow> string \<Rightarrow> SocketAddr \<Rightarrow> Protocol \<Rightarrow> DomainProvider
    \<Rightarrow> Endpoint \<times> DomainProvider" where
  "build_endpoint h hash lid peer (Http subdomain custom) d =
     build_http_endpoint h hash lid peer Http subdomain custom d"
| "build_endpoint h hash lid peer (Https subdomain custom) d =
     build_http_endpoint h hash lid peer Https subdomain custom d"
| "build_endpoint h hash lid peer (Tcp p) d =
     (\<lparr>ep_protocol = Tcp p, ep_public_url = ''tcp://'' @ domain h @ '':'' @ show_nat (unat p),
       ep_port = Some p\<rparr>, d)"
| "build_endpoint h hash lid peer (Tls p sni_patterns) d =
     (let actual_port = (case tls_port h of Some t \<Rightarrow> t | None \<Rightarrow> p)
      in (\<lparr>ep_protocol = Tls p sni_patterns,
           ep_public_url = ''tls://'' @ domain h @ '':'' @ show_nat (unat actual_port)
             @ '' (SNI: '' @ join_patterns sni_patterns @ '')'',
           ep_port = Some actual_port\<rparr>, d))"

fun build_endpoints ::
  "'s TunnelHandler \<Rightarrow> (string \<Rightarrow> IpAddr \<Rightarrow> u64) \<Rightarrow> string \<Rightarrow> SocketAddr \<Rightarrow> Protocol list \<Rightarrow> DomainProvider
    \<Rightarrow> Endpoint list \<times> DomainProvider" where
  "build_endpoints h hash lid peer [] d = ([], d)"
| "build_endpoints h hash lid peer (p # ps) d =
     (case build_endpoint h hash lid peer p d of
        (e, d') \<Rightarrow> (case build_endpoints h hash lid peer ps d' of (es, d'') \<Rightarrow> (e # es, d'')))"

section \<open>Route registration\<close>

text \<open>
  The \<open>Display\<close> of \<open>RouteError\<close>, with the derived \<open>Debug\<close> of the key (quotes, backslashes and the
  usual control characters are escaped).
\<close>

definition escape_debug :: "string \<Rightarrow> string" where
  "escape_debug s = concat (map (\<lambda>c.
     if c = CHR 0x22 \<or> c = CHR 0x5C then [CHR 0x5C, c]
     else if c = CHR 0x09 then [CHR 0x5C, CHR ''t'']
     else if c = CHR 0x0A then [CHR 0x5C, CHR ''n'']
     else if c = CHR 0x0D then [CHR 0x5C, CHR ''r'']
     else if c = CHR 0x00 then [CHR 0x5C, CHR ''0'']
     else [c]) s)"

fun route_key_debug :: "RouteKey \<Rightarrow> string" where
  "route_key_debug (TcpPort p) = ''TcpPort('' @ show_nat (unat p) @ '')''"
| "route_key_debug (TlsSni s) = ''TlsSni('' @ [CHR 0x22] @ escape_debug s @ [CHR 0x22] @ '')''"
| "route_key_debug (HttpHost s) = ''HttpHost('' @ [CHR 0x22] @ escape_debug s @ [CHR 0x22] @ '')''"

fun route_error_display :: "RouteError \<Rightarrow> string" where
  "route_error_display (RouteNotFound k) = ''Route not found: '' @ route_key_debug k"
| "route_error_display (RouteAlreadyExists k) = ''Route already exists: '' @ route_key_debug k"
| "route_error_display InvalidRouteKey = ''Invalid route key''"
| "route_error_display (InvalidWildcardPattern m) = ''Invalid wildcard pattern: '' @ m"

definition tunnel_target :: "string \<Rightarrow> string \<Rightarrow> IpFilter \<Rightarrow> RouteTarget" where
  "tunnel_target lid meta f =
     \<lparr>localup_id = lid, target_addr = ''tunnel:'' @ lid, metadata = Some meta, ip_filter = f\<rparr>"

definition quoted :: "string \<Rightarrow> string" where
  "quoted s = [CHR 0x27] @ s @ [CHR 0x27]"

definition register_http_wildcard ::
  "string \<Rightarrow> string \<Rightarrow> IpFilter \<Rightarrow> RouteRegistry \<Rightarrow> (string, u16 option) result \<times> RouteRegistry" where
  "register_http_wildcard lid host f r =
     (case wildcard_parse host of
        Err e \<Rightarrow> (Err (''Invalid wildcard pattern '' @ quoted host @ '': '' @ wildcard_error_display e), r)
      | Ok _ \<Rightarrow>
          (case (if wildcard_exists r host then get_wildcard_target r host else None) of
             Some existing \<Rightarrow>
               if localup_id existing = lid then
                 (case register_wildcard host (tunnel_target lid ''wildcard-domain'' f)
                         (snd (unregister_wildcard host r)) of
                    (Err e, r') \<Rightarrow> (Err (route_error_display e), r')
                  | (Ok _, r') \<Rightarrow> (Ok None, r'))
               else (Err (''Wildcard domain '' @ quoted host @ '' is already in use by another tunnel''), r)
           | None \<Rightarrow>
               (case register_wildcard host (tunnel_target lid ''wildcard-domain'' f) r of
                  (Err e, r') \<Rightarrow> (Err (route_error_display e), r')
                | (Ok _, r') \<Rightarrow> (Ok None, r'))))"

definition register_http_exact ::
  "string \<Rightarrow> string \<Rightarrow> bool \<Rightarrow> string option \<Rightarrow> IpFilter \<Rightarrow> RouteRegistry
    \<Rightarrow> (string, u16 option) result \<times> RouteRegistry" where
  "register_http_exact lid host is_custom subdomain f r =
     (let route_key = HttpHost host;
          target = tunnel_target lid (if is_custom then ''custom-domain'' else ''via-tunnel'') f;
          finish = (\<lambda>r. case registry_register route_key target r of
                      (Err e, r') \<Rightarrow> (Err (route_error_display e), r')
                    | (Ok _, r') \<Rightarrow> (Ok None, r'))
      in if registry_exists r route_key then
           (case registry_lookup r route_key of
              Ok existing \<Rightarrow>
                if localup_id existing = lid then finish (snd (registry_unregister route_key r))
                else (Err (if is_custom then
                             ''Custom domain '' @ quoted host @ '' is already in use by another tunnel''
                           else ''Subdomain '' @ quoted (case subdomain of Some s \<Rightarrow> s | None \<Rightarrow> host)
                             @ '' is already taken by another tunnel''), r)
            | Err _ \<Rightarrow> finish r)
         else finish r)"

definition register_http_route ::
  "'s TunnelHandler \<Rightarrow> string \<Rightarrow> string option \<Rightarrow> string option \<Rightarrow> IpFilter \<Rightarrow> RouteRegistry
    \<Rightarrow> (string, u16 option) result \<times> RouteRegistry" where
  "register_http_route h lid subdomain custom_domain f r =
     (let proceed = (\<lambda>host is_custom.
            if is_wildcard_pattern host then register_http_wildcard lid host f r
            else register_http_exact lid host is_custom subdomain f r)
      in case custom_domain of
           Some host \<Rightarrow>
             (case is_custom_domain_registered (db h) host of
                Ok True \<Rightarrow> proceed host True
              | Ok False \<Rightarrow>
                  (Err (''Custom domain '' @ quoted host
                    @ '' is not registered. Register it first via the relay API or admin dashboard.''), r)
              | Err e \<Rightarrow> (Err (''Failed to validate custom domain: '' @ e), r))
         | None \<Rightarrow>
             (case subdomain of
                Some subd \<Rightarrow> proceed (subd @ ''.'' @ domain h) False
              | None \<Rightarrow>
                  (Err ''Either subdomain or custom_domain is required for HTTP/HTTPS routes'', r)))"

fun register_tls_routes ::
  "string \<Rightarrow> string list \<Rightarrow> IpFilter \<Rightarrow> RouteRegistry \<Rightarrow> (string, u16 option) result \<times> RouteRegistry" where
  "register_tls_routes lid [] f r = (Ok None, r)"
| "register_tls_routes lid (p # ps) f r =
     (case (if is_wildcard_pattern p then register_wildcard p (tunnel_target lid ''via-tunnel'' f) r
            else registry_register (TlsSni p) (tunnel_target lid ''via-tunnel'' f) r) of
        (Err e, r') \<Rightarrow> (Err (route_error_display e), r')
      | (Ok _, r') \<Rightarrow> register_tls_routes lid ps f r')"

definition register_tcp_route ::
  "'s TunnelHandler \<Rightarrow> string \<Rightarrow> u16 \<Rightarrow> ('s, 'c, 'cb) RelayState
    \<Rightarrow> ((string, u16 option) result \<times> ('s, 'c, 'cb) RelayState) outcome" where
  "register_tcp_route h lid p st =
     (case port_allocator h of
        None \<Rightarrow> Returned (Err ''TCP tunnels not supported (no port allocator)'', st)
      | Some a \<Rightarrow>
          and_then (alloc a lid (if p = 0 then None else Some p) (ports st)) (\<lambda>(res, ps).
            case res of
              Err e \<Rightarrow> Returned (Err e, st\<lparr>ports := ps\<rparr>)
            | Ok allocated_port \<Rightarrow>
                Returned (Ok (Some allocated_port),
                  if tcp_proxy_spawner h
                  then st\<lparr>ports := ps,
                          task_tracker := task_register lid (lid, allocated_port) (task_tracker st)\<rparr>
                  else st\<lparr>ports := ps\<rparr>)))"

definition on_routes ::
  "(RouteRegistry \<Rightarrow> 'a \<times> RouteRegistry) \<Rightarrow> ('s, 'c, 'cb) RelayState \<Rightarrow> ('a \<times> ('s, 'c, 'cb) RelayState) outcome" where
  "on_routes f st = (case f (route_registry st) of (x, r) \<Rightarrow> Returned (x, st\<lparr>route_registry := r\<rparr>))"

definition register_route ::
  "'s TunnelHandler \<Rightarrow> string \<Rightarrow> Endpoint \<Rightarrow> IpFilter \<Rightarrow> ('s, 'c, 'cb) RelayState
    \<Rightarrow> ((string, u16 option) result \<times> ('s, 'c, 'cb) RelayState) outcome" where
  "register_route h lid endpoint f st =
     (case ep_protocol endpoint of
        Http subdomain custom \<Rightarrow> on_routes (register_http_route h lid subdomain custom f) st
      | Https subdomain custom \<Rightarrow> on_routes (register_http_route h lid subdomain custom f) st
      | Tcp p \<Rightarrow> register_tcp_route h lid p st
      | Tls _ sni_patterns \<Rightarrow> on_routes (register_tls_routes lid sni_patterns f) st)"

fun unregister_tls_routes :: "string list \<Rightarrow> RouteRegistry \<Rightarrow> RouteRegistry" where
  "unregister_tls_routes [] r = r"
| "unregister_tls_routes (p # ps) r =
     unregister_tls_routes ps
       (if is_wildcard_pattern p then snd (unregister_wildcard p r)
        else snd (registry_unregister (TlsSni p) r))"

definition unregister_http_route ::
  "'s TunnelHandler \<Rightarrow> string option \<Rightarrow> string option \<Rightarrow> RouteRegistry \<Rightarrow> RouteRegistry" where
  "unregister_http_route h subdomain custom_domain r =
     (case (case custom_domain of
              Some custom \<Rightarrow> Some custom
            | None \<Rightarrow> map_option (\<lambda>subd. subd @ ''.'' @ domain h) subdomain) of
        None \<Rightarrow> r
      | Some host \<Rightarrow>
          if is_wildcard_pattern host then snd (unregister_wildcard host r)
          else snd (registry_unregister (HttpHost host) r))"

definition unregister_route ::
  "'s TunnelHandler \<Rightarrow> string \<Rightarrow> Endpoint \<Rightarrow> ('s, 'c, 'cb) RelayState \<Rightarrow> ('s, 'c, 'cb) RelayState" where
  "unregister_route h lid endpoint st =
     (case ep_protocol endpoint of
        Http subdomain custom \<Rightarrow>
          st\<lparr>route_registry := unregister_http_route h subdomain custom (route_registry st)\<rparr>
      | Https subdomain custom \<Rightarrow>
          st\<lparr>route_registry := unregister_http_route h subdomain custom (route_registry st)\<rparr>
      | Tcp _ \<Rightarrow>
          (let st1 = st\<lparr>task_tracker := task_unregister lid (task_tracker st)\<rparr>
           in case port_allocator h of
                Some a \<Rightarrow> st1\<lparr>ports := dealloc a lid (ports st1)\<rparr>
              | None \<Rightarrow> st1)
      | Tls _ sni_patterns \<Rightarrow>
          st\<lparr>route_registry := unregister_tls_routes sni_patterns (route_registry st)\<rparr>)"

section \<open>Properties of authentication and naming\<close>

text \<open>
  C24 With a token validator and a database, a client is authenticated exactly when its token
  validates, is an auth token or a legacy one, names its user, and the database holds an active,
  unexpired record of it for that user; exactly then the record's time of last use is updated.
\<close>

theorem validate_auth_token_Ok:
  "validate_auth_token (Some validate) (Some d) sha256 now token = (Ok u, touched) \<longleftrightarrow>
     (\<exists>c row. validate token = Ok c \<and> (token_type c = None \<or> token_type c = Some ''auth'') \<and>
        claims_user_id c = Some u \<and> find_token d (sha256 token) = Ok (Some row) \<and> row_is_active row \<and>
        (\<forall>t. row_expires_at row = Some t \<longrightarrow> now \<le> t) \<and> row_user_id row = u) \<and>
     touched = Some (sha256 token)"
  by (auto simp: validate_auth_token_def check_token_row_def
      split: sum.splits option.splits if_splits)

definition demo_claims :: JwtClaims where
  "demo_claims = with_token_type ''auth'' (with_user_id ''u1'' (claims_new 0 ''c'' ''i'' ''a'' 1))"

definition demo_row :: auth_token_row where
  "demo_row = \<lparr>row_user_id = ''u1'', row_expires_at = Some 9, row_is_active = True\<rparr>"

definition demo_db :: database where
  "demo_db = \<lparr>find_domain = (\<lambda>_. Ok None), find_wildcard_domain = (\<lambda>_. Ok None),
     find_token = (\<lambda>hsh. Ok (if hsh = ''k'' then Some demo_row else None))\<rparr>"

theorem validate_auth_token_Ok_witness:
  "validate_auth_token (Some (\<lambda>_. Ok demo_claims)) (Some demo_db) (\<lambda>t. t) 9 ''k'' = (Ok ''u1'', Some ''k'') \<and>
   fst (validate_auth_token (Some (\<lambda>_. Ok demo_claims)) (Some demo_db) (\<lambda>t. t) 10 ''k'') \<noteq> Ok ''u1''"
proof
  show "validate_auth_token (Some (\<lambda>_. Ok demo_claims)) (Some demo_db) (\<lambda>t. t) 9 ''k'' = (Ok ''u1'', Some ''k'')"
    unfolding validate_auth_token_Ok
    by (simp add: demo_claims_def demo_db_def demo_row_def with_token_type_def with_user_id_def claims_new_def)
  show "fst (validate_auth_token (Some (\<lambda>_. Ok demo_claims)) (Some demo_db) (\<lambda>t. t) 10 ''k'') \<noteq> Ok ''u1''"
    using validate_auth_token_Ok [of "\<lambda>_. Ok demo_claims" demo_db "\<lambda>t. t" 10 "''k''" "''u1''"]
    by (auto simp: demo_claims_def demo_db_def demo_row_def with_token_type_def with_user_id_def claims_new_def
        prod_eq_iff)
qed

lemma length_base36 [simp]: "length (base36 n w) = n"
  by (induction n arbitrary: w) simp_all

lemma base36_charset: "set (base36 n w) \<subseteq> set CHARSET"
proof (induction n arbitrary: w)
  case (Suc n)
  have "unat (w mod 36) < 36" by (simp add: unat_mod_distrib)
  moreover have "length CHARSET = 36" by (simp add: CHARSET_def)
  ultimately show ?case using Suc by simp
qed simp

lemma charset_alphanumeric: "c \<in> set CHARSET \<Longrightarrow> is_alphanumeric c"
proof -
  have "list_all is_alphanumeric CHARSET"
    by (simp add: CHARSET_def is_alphanumeric_def is_ascii_lower_def is_ascii_upper_def is_ascii_digit_def)
  then show "c \<in> set CHARSET \<Longrightarrow> is_alphanumeric c" by (simp add: list_all_iff)
qed


section \<open>Properties of route registration\<close>

lemma put_del_route [simp]: "put_route k t (del_route k r) = put_route k t r"
  by (simp add: registry_updates)

lemma put_put_route [simp]: "put_route k t (put_route k t' r) = put_route k t r"
  by (simp add: registry_updates)

lemma put_del_wildcard [simp]: "put_wildcard p t (del_wildcard p r) = put_wildcard p t r"
  by (simp add: registry_updates)

lemma routes_put [simp]: "routes (put_route k t r) k' = (if k' = k then Some t else routes r k')"
  by (rule exact_routes.get_put)

lemma routes_del [simp]: "routes (del_route k r) k' = (if k' = k then None else routes r k')"
  by (rule exact_routes.get_del)

lemma wildcard_routes_put [simp]:
  "wildcard_routes (put_wildcard p t r) q = (if q = p then Some t else wildcard_routes r q)"
  by (rule wild_routes.get_put)

lemma wildcard_routes_del [simp]:
  "wildcard_routes (del_wildcard p r) q = (if q = p then None else wildcard_routes r q)"
  by (rule wild_routes.get_del)

text \<open>The two ways an HTTP registration ends: the host's entry is set, or nothing changes.\<close>

lemma register_http_exact_cases:
  assumes "register_http_exact lid host is_custom subdomain f r = (res, r')"
  shows "(\<forall>t. routes r (HttpHost host) = Some t \<longrightarrow> localup_id t = lid) \<and> res = Ok None \<and>
           r' = put_route (HttpHost host)
                  (tunnel_target lid (if is_custom then ''custom-domain'' else ''via-tunnel'') f) r
         \<or> (\<exists>t m. routes r (HttpHost host) = Some t \<and> localup_id t \<noteq> lid \<and> res = Err m \<and> r' = r)"
proof (cases "routes r (HttpHost host)")
  case None
  with assms show ?thesis
    by (simp add: register_http_exact_def Let_def registry_exists_def registry_register_def)
next
  case (Some t)
  then have lookup: "registry_lookup r (HttpHost host) = Ok t" by (simp add: registry_lookup_def)
  show ?thesis
  proof (cases "localup_id t = lid")
    case True
    have "snd (registry_unregister (HttpHost host) r) = del_route (HttpHost host) r"
      using Some by (simp add: registry_unregister_def)
    with True Some lookup assms show ?thesis
      by (simp add: register_http_exact_def Let_def registry_exists_def registry_register_def)
  next
    case False
    with Some lookup assms show ?thesis
      by (auto simp: register_http_exact_def Let_def registry_exists_def)
  qed
qed

lemma register_wildcard_cases:
  "register_wildcard p t r = (Ok u, r') \<longleftrightarrow>
     is_ok (wildcard_parse p) \<and> wildcard_routes r p = None \<and> r' = put_wildcard p t r"
  "register_wildcard p t r = (Err e, r') \<Longrightarrow> r' = r"
  by (auto simp: register_wildcard_def Let_def is_ok_iff wildcard_parse_pattern
      dest: wildcard_parse_pattern split: sum.splits if_splits)

lemma register_http_wildcard_cases:
  assumes "register_http_wildcard lid host f r = (res, r')"
  shows "(\<forall>t. wildcard_routes r host = Some t \<longrightarrow> localup_id t = lid) \<and> is_ok (wildcard_parse host) \<and>
           res = Ok None \<and> r' = put_wildcard host (tunnel_target lid ''wildcard-domain'' f) r
         \<or> (\<exists>m. res = Err m \<and> r' = r)"
proof (cases "wildcard_parse host")
  case (Inl e)
  with assms show ?thesis by (auto simp: register_http_wildcard_def)
next
  case (Inr w)
  have pat: "pattern w = host" using Inr by (rule wildcard_parse_pattern)
  show ?thesis
  proof (cases "wildcard_routes r host")
    case None
    with Inr pat assms show ?thesis
      by (simp add: register_http_wildcard_def wildcard_exists_def register_wildcard_def)
  next
    case (Some t)
    then have del: "snd (unregister_wildcard host r) = del_wildcard host r"
      by (simp add: unregister_wildcard_def)
    from Some Inr pat assms show ?thesis
      by (cases "localup_id t = lid")
         (auto simp: register_http_wildcard_def wildcard_exists_def get_wildcard_target_def
           register_wildcard_def del)
  qed
qed

text \<open>A registry change that leaves the routes of all other tunnels in place.\<close>

definition keeps_others :: "string \<Rightarrow> RouteRegistry \<Rightarrow> RouteRegistry \<Rightarrow> bool" where
  "keeps_others lid r r' \<longleftrightarrow>
     (\<forall>k t. routes r k = Some t \<longrightarrow> localup_id t \<noteq> lid \<longrightarrow> routes r' k = Some t) \<and>
     (\<forall>p t. wildcard_routes r p = Some t \<longrightarrow> localup_id t \<noteq> lid \<longrightarrow> wildcard_routes r' p = Some t)"

lemma keeps_others_refl [simp]: "keeps_others lid r r"
  by (simp add: keeps_others_def)

lemma keeps_others_trans: "keeps_others lid r r' \<Longrightarrow> keeps_others lid r' r'' \<Longrightarrow> keeps_others lid r r''"
  by (simp add: keeps_others_def)

lemma keeps_others_put:
  "(\<And>t. routes r k = Some t \<Longrightarrow> localup_id t = lid) \<Longrightarrow> keeps_others lid r (put_route k x r)"
  by (auto simp: keeps_others_def)

lemma keeps_others_put_wildcard:
  "(\<And>t. wildcard_routes r p = Some t \<Longrightarrow> localup_id t = lid) \<Longrightarrow> keeps_others lid r (put_wildcard p x r)"
  by (auto simp: keeps_others_def)

lemma register_http_route_keeps:
  assumes "register_http_route h lid subd custom f r = (res, r')"
  shows "keeps_others lid r r'"
proof -
  have wild: "register_http_wildcard lid host f r = (res, r') \<Longrightarrow> keeps_others lid r r'" for host
    by (drule register_http_wildcard_cases) (auto intro: keeps_others_put_wildcard)
  have exact: "register_http_exact lid host c sd f r = (res, r') \<Longrightarrow> keeps_others lid r r'" for host c sd
    by (drule register_http_exact_cases) (auto intro: keeps_others_put)
  from assms show ?thesis
    by (auto simp: register_http_route_def Let_def split: option.splits sum.splits bool.splits if_splits
        dest: wild exact)
qed

lemma register_tls_routes_keeps:
  "register_tls_routes lid ps f r = (res, r') \<Longrightarrow> keeps_others lid r r'"
proof (induction ps arbitrary: r)
  case (Cons p ps)
  obtain x r1 where step: "(if is_wildcard_pattern p then register_wildcard p (tunnel_target lid ''via-tunnel'' f) r
      else registry_register (TlsSni p) (tunnel_target lid ''via-tunnel'' f) r) = (x, r1)"
    by (metis surj_pair)
  have "keeps_others lid r r1"
  proof (cases "is_wildcard_pattern p")
    case True
    with step show ?thesis
      by (cases x) (auto simp: register_wildcard_cases(1) intro: keeps_others_put_wildcard dest: register_wildcard_cases(2))
  next
    case False
    with step show ?thesis
      by (cases x) (auto simp: registry_register_Ok registry_register_Err intro: keeps_others_put)
  qed
  moreover have "keeps_others lid r1 r'"
    using Cons.prems step Cons.IH [of r1] by (auto split: sum.splits)
  ultimately show ?case by (rule keeps_others_trans)
qed simp

text \<open>
  C5 No hijacking: whatever endpoint a tunnel registers, with whatever result, every exact and
  every wildcard route of every other tunnel is still in place afterwards.
\<close>

theorem register_route_keeps_others:
  assumes "register_route h lid e f st = Returned (res, st')"
    and "localup_id t \<noteq> lid"
  shows "(routes (route_registry st) k = Some t \<longrightarrow> routes (route_registry st') k = Some t) \<and>
         (wildcard_routes (route_registry st) p = Some t \<longrightarrow> wildcard_routes (route_registry st') p = Some t)"
proof -
  have "keeps_others lid (route_registry st) (route_registry st')"
  proof (cases "ep_protocol e")
    case (Tcp q)
    with assms(1) have "route_registry st' = route_registry st"
      by (cases "case port_allocator h of None \<Rightarrow> Panicked | Some a \<Rightarrow>
             alloc a lid (if q = 0 then None else Some q) (ports st)")
         (auto simp: register_route_def register_tcp_route_def split: option.splits sum.splits)
    then show ?thesis by simp
  qed (use assms(1) in \<open>auto simp: register_route_def on_routes_def split: prod.splits
         intro: register_http_route_keeps register_tls_routes_keeps\<close>)
  with assms(2) show ?thesis by (simp add: keeps_others_def)
qed

definition demo_handler :: "PortAllocator TunnelHandler" where
  "demo_handler = \<lparr>domain = ''relay.io'', db = Some demo_db, has_domain_provider = False,
     port_allocator = Some \<lparr>alloc = exit_node_allocate demo_port_env, dealloc = pool_deallocate 0\<rparr>,
     tcp_proxy_spawner = True, tls_port = None, http_port = None, https_port = None\<rparr>"

definition demo_state :: "(PortAllocator, unit, unit) RelayState" where
  "demo_state = \<lparr>route_registry = registry_new, ports = with_reservation_ttl 8000 8009 300,
     task_tracker = task_tracker_new, connection_manager = Map.empty,
     domain_provider = provider_new SimpleCounter, agent_registry = Map.empty,
     agent_connection_manager = Map.empty\<rparr>"

definition http_endpoint :: "string \<Rightarrow> Endpoint" where
  "http_endpoint s = \<lparr>ep_protocol = Http (Some s) None, ep_public_url = [], ep_port = None\<rparr>"

lemma on_routes_returns: "\<exists>x st'. on_routes f st = Returned (x, st')"
  by (cases "f (route_registry st)") (simp add: on_routes_def)

theorem register_route_keeps_others_witness:
  "\<exists>res st'.
     register_route demo_handler ''t1'' (http_endpoint ''app'') ip_filter_new
       (demo_state\<lparr>route_registry := put_route (HttpHost ''app.relay.io'') (tunnel_target ''t2'' [] ip_filter_new) registry_new\<rparr>)
       = Returned (res, st') \<and>
     routes (route_registry st') (HttpHost ''app.relay.io'') = Some (tunnel_target ''t2'' [] ip_filter_new)"
proof -
  let ?st = "demo_state\<lparr>route_registry :=
    put_route (HttpHost ''app.relay.io'') (tunnel_target ''t2'' [] ip_filter_new) registry_new\<rparr>"
  obtain res st' where r: "register_route demo_handler ''t1'' (http_endpoint ''app'') ip_filter_new ?st
      = Returned (res, st')"
    using on_routes_returns by (fastforce simp: register_route_def http_endpoint_def)
  have "routes (route_registry st') (HttpHost ''app.relay.io'') = Some (tunnel_target ''t2'' [] ip_filter_new)"
    using register_route_keeps_others [OF r, of "tunnel_target ''t2'' [] ip_filter_new"]
    by (simp add: tunnel_target_def)
  with r show ?thesis by blast
qed

text \<open>The name an HTTP endpoint is served under.\<close>

fun http_names :: "Protocol \<Rightarrow> (string option \<times> string option) option" where
  "http_names (Http subd custom) = Some (subd, custom)"
| "http_names (Https subd custom) = Some (subd, custom)"
| "http_names _ = None"

definition served_host :: "'s TunnelHandler \<Rightarrow> Protocol \<Rightarrow> string option" where
  "served_host h p =
     (case http_names p of
        None \<Rightarrow> None
      | Some (subd, custom) \<Rightarrow>
          (case custom of Some c \<Rightarrow> Some c | None \<Rightarrow> map_option (\<lambda>s. s @ ''.'' @ domain h) subd))"

definition route_meta :: "Protocol \<Rightarrow> string" where
  "route_meta p = (case http_names p of Some (_, Some _) \<Rightarrow> ''custom-domain'' | _ \<Rightarrow> ''via-tunnel'')"

lemma register_route_http:
  assumes "served_host h (ep_protocol e) = Some host" and "\<not> is_wildcard_pattern host"
    and "register_route h lid e f st = Returned (Ok x, st')"
  shows "x = None \<and> st' = st\<lparr>route_registry :=
           put_route (HttpHost host) (tunnel_target lid (route_meta (ep_protocol e)) f) (route_registry st)\<rparr>"
proof -
  obtain subd custom where names: "http_names (ep_protocol e) = Some (subd, custom)"
    using assms(1) by (auto simp: served_host_def split: option.splits)
  then have reg: "register_route h lid e f st = on_routes (register_http_route h lid subd custom f) st"
    by (cases "ep_protocol e") (auto simp: register_route_def)
  then obtain r' where r': "register_http_route h lid subd custom f (route_registry st) = (Ok x, r')"
    "st' = st\<lparr>route_registry := r'\<rparr>"
    using assms(3) by (auto simp: on_routes_def split: prod.splits)
  obtain is_custom where "register_http_exact lid host is_custom subd f (route_registry st) = (Ok x, r')"
    "(if is_custom then ''custom-domain'' else ''via-tunnel'') = route_meta (ep_protocol e)"
  proof (cases custom)
    case (Some c)
    with assms(1,2) names r'(1) show thesis
      by (intro that [of True])
         (auto simp: register_http_route_def served_host_def route_meta_def Let_def
           split: sum.splits bool.splits)
  next
    case None
    with assms(1,2) names r'(1) show thesis
      by (intro that [of False])
         (auto simp: register_http_route_def served_host_def route_meta_def Let_def)
  qed
  with register_http_exact_cases [of lid host is_custom subd f "route_registry st" "Ok x" r'] r'(2)
  show ?thesis by auto
qed

text \<open>
  A registered HTTP or HTTPS endpoint is reachable and nothing else changes: after a successful
  registration under an exact host, the Host headers that equal it up to a port lead to this tunnel
  with its IP filter, and all other headers are routed as before.
\<close>

theorem register_route_serves:
  assumes "served_host h (ep_protocol e) = Some host" and "\<not> is_wildcard_pattern host"
    and "register_route h lid e f st = Returned (Ok x, st')"
  shows "http_lookup (route_registry st') q =
           (if normalize_host q = host then Ok (tunnel_target lid (route_meta (ep_protocol e)) f)
            else http_lookup (route_registry st) q)"
  using register_route_http [OF assms]
  by (simp add: http_lookup_def registry_lookup_put)

lemma demo_register:
  "register_route demo_handler ''t1'' (http_endpoint ''app'') ip_filter_new demo_state =
     Returned (Ok None, demo_state\<lparr>route_registry :=
       put_route (HttpHost ''app.relay.io'') (tunnel_target ''t1'' ''via-tunnel'' ip_filter_new) registry_new\<rparr>)"
  by (simp add: register_route_def http_endpoint_def on_routes_def register_http_route_def demo_handler_def
      is_wildcard_pattern_def starts_with_def register_http_exact_def registry_exists_def demo_state_def
      registry_register_def registry_new_def)

lemma demo_served: "served_host demo_handler (ep_protocol (http_endpoint ''app'')) = Some ''app.relay.io''"
  by (simp add: served_host_def http_endpoint_def demo_handler_def)

theorem register_route_serves_witness:
  "http_lookup (put_route (HttpHost ''app.relay.io'') (tunnel_target ''t1'' ''via-tunnel'' ip_filter_new) registry_new)
     ''app.relay.io:8443'' = Ok (tunnel_target ''t1'' ''via-tunnel'' ip_filter_new)"
proof -
  have "\<not> is_wildcard_pattern ''app.relay.io''" by (simp add: is_wildcard_pattern_def starts_with_def)
  from register_route_serves [OF demo_served this demo_register, of "''app.relay.io:8443''"]
  show ?thesis by (simp add: normalize_host_takeWhile route_meta_def http_endpoint_def)
qed

text \<open>
  The subdomain \<open>*\<close> is not refused: with no custom domain and hence no look into the database, a
  tunnel that asks for it is given the wildcard route of the relay's own domain, and every visitor
  of a subdomain that no other tunnel has registered is routed to it.
\<close>

theorem star_subdomain_captures:
  assumes "ep_protocol e = Http (Some ''*'') None" and "valid_base (domain h)"
    and "CHR '':'' \<notin> set (domain h)"
    and "wildcard_routes (route_registry st) (''*.'' @ domain h) = None"
  shows "\<exists>st'. register_route h lid e f st = Returned (Ok None, st') \<and>
           (\<forall>s. s \<noteq> [] \<longrightarrow> CHR ''.'' \<notin> set s \<longrightarrow> CHR '':'' \<notin> set s \<longrightarrow>
              routes (route_registry st) (HttpHost (s @ ''.'' @ domain h)) = None \<longrightarrow>
              http_lookup (route_registry st') (s @ ''.'' @ domain h)
                = Ok (tunnel_target lid ''wildcard-domain'' f))"
proof -
  let ?w = "\<lparr>pattern = ''*.'' @ domain h, base_domain = domain h\<rparr>"
  let ?t = "tunnel_target lid ''wildcard-domain'' f"
  let ?r = "put_wildcard (''*.'' @ domain h) ?t (route_registry st)"
  have parse: "wildcard_parse (''*.'' @ domain h) = Ok ?w"
    using assms(2) by (simp add: wildcard_parse_Ok)
  have reg: "register_route h lid e f st = Returned (Ok None, st\<lparr>route_registry := ?r\<rparr>)"
    using assms(1,4) parse
    by (simp add: register_route_def on_routes_def register_http_route_def is_wildcard_pattern_def
        starts_with_def register_http_wildcard_def wildcard_exists_def register_wildcard_def)
  have "http_lookup ?r (s @ ''.'' @ domain h) = Ok ?t"
    if s: "s \<noteq> []" "CHR ''.'' \<notin> set s" "CHR '':'' \<notin> set s"
      "routes (route_registry st) (HttpHost (s @ ''.'' @ domain h)) = None" for s
  proof -
    have "wildcard_matches ?w (s @ ''.'' @ domain h)"
      using s(1,2) by (auto simp: wildcard_matches_iff_aux)
    then have "lookup_wildcard ?r (s @ ''.'' @ domain h) = Some ?t"
      using parse unfolding lookup_wildcard_iff by fastforce
    moreover have "normalize_host (s @ ''.'' @ domain h) = s @ ''.'' @ domain h"
      using s(3) assms(3) by (auto simp: normalize_host_takeWhile takeWhile_eq_all_conv)
    ultimately show ?thesis
      using s(4) by (simp add: http_lookup_def registry_lookup_def)
  qed
  with reg show ?thesis by (intro exI [of _ "st\<lparr>route_registry := ?r\<rparr>"]) simp
qed

theorem star_subdomain_captures_witness:
  "\<exists>st'. register_route demo_handler ''evil'' (http_endpoint ''*'') ip_filter_new demo_state
            = Returned (Ok None, st') \<and>
     http_lookup (route_registry st') ''bank.relay.io'' = Ok (tunnel_target ''evil'' ''wildcard-domain'' ip_filter_new)"
proof -
  have "valid_base (domain demo_handler)" by (simp add: demo_handler_def valid_base_def)
  moreover have "CHR '':'' \<notin> set (domain demo_handler)" by (simp add: demo_handler_def)
  moreover have "wildcard_routes (route_registry demo_state) (''*.'' @ domain demo_handler) = None"
    by (simp add: demo_state_def registry_new_def)
  ultimately obtain st' where "register_route demo_handler ''evil'' (http_endpoint ''*'') ip_filter_new demo_state
      = Returned (Ok None, st')"
    "\<forall>s. s \<noteq> [] \<longrightarrow> CHR ''.'' \<notin> set s \<longrightarrow> CHR '':'' \<notin> set s \<longrightarrow>
       routes (route_registry demo_state) (HttpHost (s @ ''.'' @ domain demo_handler)) = None \<longrightarrow>
       http_lookup (route_registry st') (s @ ''.'' @ domain demo_handler)
         = Ok (tunnel_target ''evil'' ''wildcard-domain'' ip_filter_new)"
    using star_subdomain_captures [of "http_endpoint ''*''" demo_handler demo_state "''evil''" ip_filter_new]
    by (auto simp: http_endpoint_def)
  moreover from this(2) [rule_format, of "''bank''"]
  have "http_lookup (route_registry st') ''bank.relay.io'' = Ok (tunnel_target ''evil'' ''wildcard-domain'' ip_filter_new)"
    by (simp add: demo_handler_def demo_state_def registry_new_def)
  ultimately show ?thesis by blast
qed

text \<open>
  Cleaning up does not check who owns a route: when a tunnel reconnects under its id and
  re-registers its host while its old connection is still being torn down, the old connection's
  cleanup removes the route of the new one.
\<close>

theorem stale_cleanup_removes_route:
  assumes "served_host h (ep_protocol e) = Some host" and "\<not> is_wildcard_pattern host"
    and "register_route h lid e f st = Returned (Ok x, st1)"
    and "register_route h lid e f' st1 = Returned (Ok y, st2)"
  shows "routes (route_registry st2) (HttpHost host) = Some (tunnel_target lid (route_meta (ep_protocol e)) f') \<and>
         routes (route_registry (unregister_route h lid e st2)) (HttpHost host) = None"
proof -
  have st2: "st2 = st1\<lparr>route_registry :=
      put_route (HttpHost host) (tunnel_target lid (route_meta (ep_protocol e)) f') (route_registry st1)\<rparr>"
    using register_route_http [OF assms(1,2,4)] by simp
  then have here: "routes (route_registry st2) (HttpHost host)
      = Some (tunnel_target lid (route_meta (ep_protocol e)) f')" by simp
  obtain subd custom where names: "http_names (ep_protocol e) = Some (subd, custom)"
    using assms(1) by (auto simp: served_host_def split: option.splits)
  then have "route_registry (unregister_route h lid e st2) = unregister_http_route h subd custom (route_registry st2)"
    by (cases "ep_protocol e") (auto simp: unregister_route_def)
  also have "\<dots> = del_route (HttpHost host) (route_registry st2)"
    using assms(1,2) names here
    by (auto simp: unregister_http_route_def served_host_def registry_unregister_def split: option.splits)
  finally show ?thesis using here by simp
qed

theorem stale_cleanup_removes_route_witness:
  "\<exists>st1 st2. register_route demo_handler ''t1'' (http_endpoint ''app'') ip_filter_new demo_state
       = Returned (Ok None, st1) \<and>
     register_route demo_handler ''t1'' (http_endpoint ''app'') ip_filter_new st1 = Returned (Ok None, st2) \<and>
     routes (route_registry (unregister_route demo_handler ''t1'' (http_endpoint ''app'') st2))
       (HttpHost ''app.relay.io'') = None"
proof -
  let ?t = "tunnel_target ''t1'' ''via-tunnel'' ip_filter_new"
  let ?st = "demo_state\<lparr>route_registry := put_route (HttpHost ''app.relay.io'') ?t registry_new\<rparr>"
  have nw: "\<not> is_wildcard_pattern ''app.relay.io''" by (simp add: is_wildcard_pattern_def starts_with_def)
  have again: "register_route demo_handler ''t1'' (http_endpoint ''app'') ip_filter_new ?st = Returned (Ok None, ?st)"
    by (simp add: register_route_def http_endpoint_def on_routes_def register_http_route_def demo_handler_def
        is_wildcard_pattern_def starts_with_def register_http_exact_def registry_exists_def registry_lookup_def
        registry_unregister_def registry_register_def tunnel_target_def Let_def)
  from stale_cleanup_removes_route [OF demo_served nw demo_register again] demo_register again
  show ?thesis by blast
qed

end
