(* ===== verification/Session.thy ===== *)
theory Session
  imports Handler
begin

text \<open>
  Connection life cycles of the tunnel handler, \<open>crates/localup-control/src/handler.rs\<close>: the
  dispatch on the first message, the client connection from authentication to cleanup
  (\<open>handle_client_connection\<close>), reverse tunnel requests, agent connections, and the heartbeat loops
  as state machines over timed events. What the peer sends and whether a send succeeds is input.
\<close>

section \<open>Dispatch\<close>

datatype first_message =
    AgentConnection string string string AgentMetadata
  | ClientConnection string string "Protocol list" TunnelConfig
  | ReverseRequest string string string "string option"
  | InvalidFirstMessage TunnelMessage

definition dispatch_first :: "TunnelMessage \<Rightarrow> first_message" where
  "dispatch_first m =
     (case m of
        AgentRegister aid tok taddr md \<Rightarrow> AgentConnection aid tok taddr md
      | Connect lid tok ps cfg \<Rightarrow> ClientConnection lid tok ps cfg
      | ReverseTunnelRequest lid taddr aid tok \<Rightarrow> ReverseRequest lid taddr aid tok
      | _ \<Rightarrow> InvalidFirstMessage (Disconnect ''Invalid first message''))"

section \<open>Client connections\<close>

definition allowlist_filter :: "TunnelConfig \<Rightarrow> IpFilter" where
  "allowlist_filter config =
     (case from_allowlist (ip_allowlist config) of Ok f \<Rightarrow> f | Err _ \<Rightarrow> ip_filter_new)"

definition with_allocated_port :: "'s TunnelHandler \<Rightarrow> u16 option \<Rightarrow> Endpoint \<Rightarrow> Endpoint" where
  "with_allocated_port h allocated e =
     (case allocated of
        Some p \<Rightarrow> e\<lparr>ep_public_url := ''tcp://'' @ domain h @ '':'' @ show_nat (unat p), ep_port := Some p\<rparr>
      | None \<Rightarrow> e)"

text \<open>The loop over the endpoints stops at the first failure; what it registered so far stays.\<close>

fun register_endpoints ::
  "'s TunnelHandler \<Rightarrow> string \<Rightarrow> IpFilter \<Rightarrow> Endpoint list \<Rightarrow> ('s, 'c, 'cb) RelayState
    \<Rightarrow> ((string, Endpoint list) result \<times> ('s, 'c, 'cb) RelayState) outcome" where
  "register_endpoints h lid f [] st = Returned (Ok [], st)"
| "register_endpoints h lid f (e # es) st =
     and_then (register_route h lid e f st) (\<lambda>(res, st').
       case res of
         Err m \<Rightarrow> Returned (Err m, st')
       | Ok allocated \<Rightarrow>
           and_then (register_endpoints h lid f es st') (\<lambda>(res', st'').
             case res' of
               Err m \<Rightarrow> Returned (Err m, st'')
             | Ok es' \<Rightarrow> Returned (Ok (with_allocated_port h allocated e # es'), st'')))"

definition connect_error_message :: "string \<Rightarrow> string" where
  "connect_error_message e =
     (if contains_sub e ''already exists'' then ''Subdomain is already in use by another tunnel''
      else if contains_sub e ''not available'' then e
      else ''Failed to register route: '' @ e)"

text \<open>
  The handler up to the heartbeat: its result, the message it sends on the control stream, and the
  state it leaves. \<open>quic\<close> is the connection when its transport is QUIC; \<open>send_error\<close> is the error of
  sending \<open>Connected\<close>, if it fails.
\<close>

definition client_connect ::
  "'s TunnelHandler \<Rightarrow> (string, string) result \<Rightarrow> (string \<Rightarrow> IpAddr \<Rightarrow> u64) \<Rightarrow> string \<Rightarrow> string \<Rightarrow> Protocol list
    \<Rightarrow> TunnelConfig \<Rightarrow> SocketAddr \<Rightarrow> 'c option \<Rightarrow> string option \<Rightarrow> ('s, 'c, 'cb) RelayState
    \<Rightarrow> ((string, Endpoint list) result \<times> TunnelMessage option \<times> ('s, 'c, 'cb) RelayState) outcome" where
  "client_connect h auth hash lid token protos config peer quic send_error st =
     (case auth of
        Err e \<Rightarrow> Returned (Err e, Some (Disconnect (''Authentication failed: '' @ e)), st)
      | Ok _ \<Rightarrow>
          (case build_endpoints h hash lid peer protos (domain_provider st) of
             (eps, d) \<Rightarrow>
               and_then (register_endpoints h lid (allowlist_filter config) eps (st\<lparr>domain_provider := d\<rparr>))
                 (\<lambda>(res, st1).
                   case res of
                     Err e \<Rightarrow>
                       Returned (Err (connect_error_message e), Some (Disconnect (connect_error_message e)), st1)
                   | Ok eps' \<Rightarrow>
                       (let st2 = (case quic of
                                     Some conn \<Rightarrow>
                                       st1\<lparr>connection_manager :=
                                         register_with_auth_and_token lid eps' conn (http_auth config)
                                           (Some token) (connection_manager st1)\<rparr>
                                   | None \<Rightarrow> st1)
                        in case send_error of
                             Some e \<Rightarrow> Returned (Err (''Failed to send Connected message: '' @ e), None, st2)
                           | None \<Rightarrow> Returned (Ok eps', Some (Connected lid eps'), st2)))))"

definition client_cleanup ::
  "'s TunnelHandler \<Rightarrow> string \<Rightarrow> Endpoint list \<Rightarrow> ('s, 'c, 'cb) RelayState \<Rightarrow> ('s, 'c, 'cb) RelayState" where
  "client_cleanup h lid eps st =
     fold (unregister_route h lid) eps
       (st\<lparr>connection_manager := conn_unregister lid (connection_manager st)\<rparr>)"

section \<open>Reverse tunnel requests and agents\<close>

text \<open>The reply to a reverse tunnel request and, if it is accepted, the agent's connection.\<close>

definition reverse_request ::
  "bool \<Rightarrow> (AgentRegistry \<Rightarrow> RegisteredAgent list) \<Rightarrow> string \<Rightarrow> string \<Rightarrow> string \<Rightarrow> string option
    \<Rightarrow> ('s, 'c, 'cb) RelayState \<Rightarrow> TunnelMessage \<times> 'c option" where
  "reverse_request has_registry vals lid remote_address aid agent_token st =
     (if \<not> has_registry then
        (ReverseTunnelReject lid ''Reverse tunnels not enabled on this relay'', None)
      else case find_by_address vals (agent_registry st) remote_address of
        None \<Rightarrow> (ReverseTunnelReject lid (''No agent available for address: '' @ remote_address), None)
      | Some a \<Rightarrow>
          if agent_id a \<noteq> aid then
            (ReverseTunnelReject lid (''Agent ID mismatch: expected '' @ agent_id a @ '', got '' @ aid), None)
          else case agent_conn_get (agent_connection_manager st) aid of
            None \<Rightarrow> (ReverseTunnelReject lid ''Agent connection not available'', None)
          | Some conn \<Rightarrow> (ReverseTunnelAccept lid ''localhost:0'', Some conn))"

definition agent_connect ::
  "(string \<Rightarrow> (string, JwtClaims) result) option \<Rightarrow> bool \<Rightarrow> int \<Rightarrow> string \<Rightarrow> string \<Rightarrow> string \<Rightarrow> AgentMetadata
    \<Rightarrow> 'c option \<Rightarrow> bool \<Rightarrow> ('s, 'c, 'cb) RelayState \<Rightarrow> bool \<times> TunnelMessage \<times> ('s, 'c, 'cb) RelayState" where
  "agent_connect jwt_validator has_registry now aid token taddr md quic send_ok st =
     (case (case jwt_validator of
              Some validate \<Rightarrow> (case validate token of Err e \<Rightarrow> Some e | Ok _ \<Rightarrow> None)
            | None \<Rightarrow> None) of
        Some e \<Rightarrow> (False, AgentRejected (''Authentication failed: '' @ e), st)
      | None \<Rightarrow>
          if \<not> has_registry then
            (False, AgentRejected ''Reverse tunnels not enabled on this relay'', st)
          else
            let a = \<lparr>agent_id = aid, target_address = taddr, agent_metadata = md, connected_at = now\<rparr>;
                st1 = st\<lparr>agent_registry := snd (register_or_replace a (agent_registry st))\<rparr>;
                undo = st1\<lparr>agent_registry := snd (agent_unregister aid (agent_registry st1))\<rparr>
            in if \<not> send_ok then (False, AgentRegistered aid, undo)
               else case quic of
                 Some conn \<Rightarrow>
                   (True, AgentRegistered aid,
                    st1\<lparr>agent_connection_manager := agent_conn_register aid conn (agent_connection_manager st1)\<rparr>)
               | None \<Rightarrow> (False, AgentRegistered aid, undo))"

definition agent_cleanup :: "string \<Rightarrow> ('s, 'c, 'cb) RelayState \<Rightarrow> ('s, 'c, 'cb) RelayState" where
  "agent_cleanup aid st =
     st\<lparr>agent_registry := snd (agent_unregister aid (agent_registry st)),
        agent_connection_manager := agent_conn_unregister aid (agent_connection_manager st)\<rparr>"

section \<open>Heartbeats\<close>

datatype received = ReceivedMessage TunnelMessage | StreamClosed | StreamError

datatype heartbeat_event =
    Tick int u64 bool            \<comment> \<open>time, the timestamp to send, whether the ping could be sent\<close>
  | PongDeadline int             \<comment> \<open>time at which the deadline's timer fires\<close>
  | Receive received bool        \<comment> \<open>what arrived, whether a reply could be sent\<close>

datatype heartbeat_state = Running bool int | Ended

text \<open>
  One round of \<open>select!\<close>: \<^const>\<open>None\<close> when the branch is disabled, otherwise the messages sent and
  the next state. Times are seconds.
\<close>

fun client_heartbeat ::
  "string \<Rightarrow> heartbeat_state \<Rightarrow> heartbeat_event \<Rightarrow> (TunnelMessage list \<times> heartbeat_state) option" where
  "client_heartbeat lid Ended ev = None"
| "client_heartbeat lid (Running waiting deadline) (Tick now timestamp sent) =
     (if waiting then None
      else if sent then Some ([Ping timestamp], Running True (now + 5)) else Some ([], Ended))"
| "client_heartbeat lid (Running waiting deadline) (PongDeadline now) =
     (if waiting \<and> deadline \<le> now then Some ([], Ended) else None)"
| "client_heartbeat lid (Running waiting deadline) (Receive r sent) =
     (case r of
        ReceivedMessage m \<Rightarrow>
          (case m of
             Pong _ \<Rightarrow> Some ([], Running False deadline)
           | Disconnect _ \<Rightarrow> Some (if sent then [DisconnectAck lid] else [], Ended)
           | _ \<Rightarrow> Some ([], Running waiting deadline))
      | StreamClosed \<Rightarrow> Some ([], Ended)
      | StreamError \<Rightarrow> Some ([], Ended))"

fun agent_heartbeat ::
  "heartbeat_state \<Rightarrow> heartbeat_event \<Rightarrow> (TunnelMessage list \<times> heartbeat_state) option" where
  "agent_heartbeat Ended ev = None"
| "agent_heartbeat (Running waiting deadline) (Tick now timestamp sent) =
     (if waiting then None
      else if sent then Some ([Ping timestamp], Running True (now + 5)) else Some ([], Ended))"
| "agent_heartbeat (Running waiting deadline) (PongDeadline now) =
     (if waiting \<and> deadline \<le> now then Some ([], Ended) else None)"
| "agent_heartbeat (Running waiting deadline) (Receive r sent) =
     (case r of
        ReceivedMessage m \<Rightarrow>
          (case m of
             Ping timestamp \<Rightarrow>
               if sent then Some ([Pong timestamp], Running waiting deadline) else Some ([], Ended)
           | Pong _ \<Rightarrow> Some ([], Running False deadline)
           | Disconnect _ \<Rightarrow> Some ([], Ended)
           | _ \<Rightarrow> Some ([], Running waiting deadline))
      | StreamClosed \<Rightarrow> Some ([], Ended)
      | StreamError \<Rightarrow> Some ([], Ended))"

text \<open>The control stream of a reverse tunnel: \<^const>\<open>True\<close> while the loop goes on.\<close>

definition reverse_control :: "received \<Rightarrow> bool \<Rightarrow> TunnelMessage list \<times> bool" where
  "reverse_control r sent =
     (case r of
        ReceivedMessage m \<Rightarrow>
          (case m of
             Ping timestamp \<Rightarrow> if sent then ([Pong timestamp], True) else ([], False)
           | Disconnect _ \<Rightarrow> ([], False)
           | _ \<Rightarrow> ([], True))
      | StreamClosed \<Rightarrow> ([], False)
      | StreamError \<Rightarrow> ([], False))"

fun run_heartbeat ::
  "(heartbeat_state \<Rightarrow> heartbeat_event \<Rightarrow> (TunnelMessage list \<times> heartbeat_state) option)
    \<Rightarrow> heartbeat_state \<Rightarrow> heartbeat_event list \<Rightarrow> (TunnelMessage list \<times> heartbeat_state) option" where
  "run_heartbeat beat s [] = Some ([], s)"
| "run_heartbeat beat s (ev # evs) =
     (case beat s ev of
        None \<Rightarrow> None
      | Some (ms, s') \<Rightarrow> map_option (\<lambda>(ms', s''). (ms @ ms', s'')) (run_heartbeat beat s' evs))"

fun is_pong :: "heartbeat_event \<Rightarrow> bool" where
  "is_pong (Receive (ReceivedMessage (Pong _)) _) = True"
| "is_pong _ = False"

text \<open>
  What both loops promise: they ping only when no answer is due, an answer is due five seconds
  after the ping, nothing but a pong clears it, and a missed deadline ends the loop.
\<close>

locale heartbeat =
  fixes beat :: "heartbeat_state \<Rightarrow> heartbeat_event \<Rightarrow> (TunnelMessage list \<times> heartbeat_state) option"
  assumes beat_ended: "beat Ended ev = None"
    and beat_tick: "beat (Running w d) (Tick now ts sent) =
      (if w then None else if sent then Some ([Ping ts], Running True (now + 5)) else Some ([], Ended))"
    and beat_deadline: "beat (Running w d) (PongDeadline now) =
      (if w \<and> d \<le> now then Some ([], Ended) else None)"
    and beat_pong: "beat (Running w d) (Receive (ReceivedMessage (Pong ts)) sent) = Some ([], Running False d)"
    and beat_other: "beat (Running w d) (Receive r sent) = Some (ms, s') \<Longrightarrow>
      \<not> is_pong (Receive r sent) \<Longrightarrow> s' = Ended \<or> s' = Running w d"
begin

text \<open>Without a pong the deadline of an outstanding ping stays.\<close>

lemma waiting_step:
  assumes "beat (Running True d) ev = Some (ms, s')" and "\<not> is_pong ev"
  shows "s' = Ended \<or> s' = Running True d"
  using assms by (cases ev) (auto simp: beat_tick beat_deadline dest: beat_other split: if_splits)

lemma waiting_stays:
  "run_heartbeat beat s evs = Some (ms, s') \<Longrightarrow> s = Running True d \<or> s = Ended \<Longrightarrow>
     list_all (\<lambda>ev. \<not> is_pong ev) evs \<Longrightarrow> s' = Ended \<or> s' = Running True d"
proof (induction evs arbitrary: s ms)
  case (Cons ev evs)
  then obtain ms1 s1 ms2 where "beat s ev = Some (ms1, s1)" "run_heartbeat beat s1 evs = Some (ms2, s')"
    by (auto split: option.splits)
  moreover from this(1) Cons.prems have "s1 = Running True d \<or> s1 = Ended"
    using waiting_step beat_ended by fastforce
  ultimately show ?case using Cons by auto
qed auto

lemma silence_ends:
  assumes "run_heartbeat beat (Running False d0) (Tick now ts True # evs) = Some (ms, s)" and "list_all (\<lambda>ev. \<not> is_pong ev) evs"
  shows "s = Ended \<or> s = Running True (now + 5) \<and>
           (\<forall>t \<ge> now + 5. beat s (PongDeadline t) = Some ([], Ended)) \<and>
           (\<forall>t < now + 5. beat s (PongDeadline t) = None)"
proof -
  from assms(1) obtain ms' where "run_heartbeat beat (Running True (now + 5)) evs = Some (ms', s)"
    by (auto simp: beat_tick)
  from waiting_stays [OF this _ assms(2), of "now + 5"] show ?thesis
    by (auto simp: beat_deadline)
qed

end

interpretation client_hb: heartbeat "client_heartbeat lid"
  by unfold_locales
     (auto split: received.splits TunnelMessage.splits if_splits)

interpretation agent_hb: heartbeat agent_heartbeat
  by unfold_locales
     (auto split: received.splits TunnelMessage.splits if_splits)

text \<open>
  C26 A peer that falls silent is dropped: after a ping, whatever arrives and in whatever order, as
  long as no pong is among it the loop has ended or still waits for the deadline five seconds after
  that ping, and the deadline's timer, which fires no earlier, ends it. This holds of the loop for
  clients and of the loop for agents.
\<close>

theorem silent_peer_dropped:
  assumes "beat = client_heartbeat lid \<or> beat = agent_heartbeat"
    and "run_heartbeat beat (Running False d0) (Tick now ts True # evs) = Some (ms, s)"
    and "list_all (\<lambda>ev. \<not> is_pong ev) evs"
  shows "s = Ended \<or> s = Running True (now + 5) \<and>
           (\<forall>t \<ge> now + 5. beat s (PongDeadline t) = Some ([], Ended)) \<and>
           (\<forall>t < now + 5. beat s (PongDeadline t) = None)"
  using assms(1)
proof
  assume b: "beat = client_heartbeat lid"
  from assms(2,3) show ?thesis unfolding b by (rule client_hb.silence_ends)
next
  assume b: "beat = agent_heartbeat"
  from assms(2,3) show ?thesis unfolding b by (rule agent_hb.silence_ends)
qed

theorem silent_peer_dropped_witness:
  "client_heartbeat ''t'' (Running True 15) (PongDeadline 15) = Some ([], Ended)"
proof -
  have "run_heartbeat (client_heartbeat ''t'') (Running False 0)
      [Tick 10 7 True, Receive (ReceivedMessage (Ping 3)) True] = Some ([Ping 7], Running True 15)"
    by simp
  from silent_peer_dropped [OF _ this, of "''t''"] show ?thesis by simp
qed

section \<open>What a connection leaves in the registry\<close>

text \<open>The exact and the wildcard keys an endpoint stands for.\<close>

definition endpoint_keys :: "'s TunnelHandler \<Rightarrow> Protocol \<Rightarrow> RouteKey set" where
  "endpoint_keys h p =
     (case p of
        Tls _ pats \<Rightarrow> TlsSni ` {q \<in> set pats. \<not> is_wildcard_pattern q}
      | _ \<Rightarrow> {HttpHost host |host. served_host h p = Some host \<and> \<not> is_wildcard_pattern host})"

definition endpoint_wildcards :: "'s TunnelHandler \<Rightarrow> Protocol \<Rightarrow> string set" where
  "endpoint_wildcards h p =
     (case p of
        Tls _ pats \<Rightarrow> {q \<in> set pats. is_wildcard_pattern q}
      | _ \<Rightarrow> {host. served_host h p = Some host \<and> is_wildcard_pattern host})"

text \<open>
  From \<open>r\<close> to \<open>r'\<close> exactly the given keys were taken for the tunnel, each of them free before or
  its own, with the given filter.
\<close>

definition take_at :: "string \<Rightarrow> IpFilter \<Rightarrow> bool \<Rightarrow> RouteTarget option \<Rightarrow> RouteTarget option \<Rightarrow> bool" where
  "take_at lid f taken old new \<longleftrightarrow>
     (if taken then (\<forall>t. old = Some t \<longrightarrow> localup_id t = lid) \<and> (\<exists>m. new = Some (tunnel_target lid m f))
      else new = old)"

definition takes :: "string \<Rightarrow> IpFilter \<Rightarrow> RouteKey set \<Rightarrow> string set \<Rightarrow> RouteRegistry \<Rightarrow> RouteRegistry \<Rightarrow> bool" where
  "takes lid f K W r r' \<longleftrightarrow>
     (\<forall>k. take_at lid f (k \<in> K) (routes r k) (routes r' k)) \<and>
     (\<forall>p. take_at lid f (p \<in> W) (wildcard_routes r p) (wildcard_routes r' p))"

lemma take_at_trans: "take_at lid f a x y \<Longrightarrow> take_at lid f b y z \<Longrightarrow> take_at lid f (a \<or> b) x z"
  by (auto simp: take_at_def tunnel_target_def split: if_splits)

lemma takes_taken:
  assumes "takes lid f K W r r'"
  shows "k \<in> K \<Longrightarrow> \<exists>m. routes r' k = Some (tunnel_target lid m f)"
    and "k \<in> K \<Longrightarrow> routes r k = Some t \<Longrightarrow> localup_id t = lid"
    and "k \<notin> K \<Longrightarrow> routes r' k = routes r k"
    and "p \<in> W \<Longrightarrow> wildcard_routes r p = Some t \<Longrightarrow> localup_id t = lid"
    and "p \<notin> W \<Longrightarrow> wildcard_routes r' p = wildcard_routes r p"
  using assms by (simp_all add: takes_def take_at_def)

lemma takes_refl: "takes lid f {} {} r r"
  by (simp add: takes_def take_at_def)

lemma takes_put:
  "(\<And>t. routes r k = Some t \<Longrightarrow> localup_id t = lid) \<Longrightarrow>
     takes lid f {k} {} r (put_route k (tunnel_target lid m f) r)"
  by (auto simp: takes_def take_at_def)

lemma takes_put_wildcard:
  "(\<And>t. wildcard_routes r p = Some t \<Longrightarrow> localup_id t = lid) \<Longrightarrow>
     takes lid f {} {p} r (put_wildcard p (tunnel_target lid m f) r)"
  by (auto simp: takes_def take_at_def)

lemma takes_trans:
  "takes lid f K W r r' \<Longrightarrow> takes lid f K' W' r' r'' \<Longrightarrow> takes lid f (K \<union> K') (W \<union> W') r r''"
  unfolding takes_def Un_iff using take_at_trans by blast

lemma takes_http:
  assumes "register_http_route h lid subd custom f r = (Ok x, r')"
    and "http_names p = Some (subd, custom)"
  shows "takes lid f (endpoint_keys h p) (endpoint_wildcards h p) r r'"
proof -
  obtain host is_custom where host: "served_host h p = Some host" and
    reg: "(if is_wildcard_pattern host then register_http_wildcard lid host f r
           else register_http_exact lid host is_custom subd f r) = (Ok x, r')"
  proof (cases custom)
    case (Some c)
    with assms show thesis
      by (intro that [of c True])
         (auto simp: register_http_route_def served_host_def Let_def split: sum.splits bool.splits)
  next
    case None
    then obtain s where "subd = Some s"
      using assms(1) by (auto simp: register_http_route_def Let_def split: option.splits)
    with None assms show thesis
      by (intro that [of "s @ ''.'' @ domain h" False])
         (auto simp: register_http_route_def served_host_def Let_def)
  qed
  have keys: "endpoint_keys h p = (if is_wildcard_pattern host then {} else {HttpHost host})"
    "endpoint_wildcards h p = (if is_wildcard_pattern host then {host} else {})"
    using host assms(2) by (cases p; auto simp: endpoint_keys_def endpoint_wildcards_def)+
  show ?thesis
  proof (cases "is_wildcard_pattern host")
    case True
    with reg have "(\<forall>t. wildcard_routes r host = Some t \<longrightarrow> localup_id t = lid)"
      "r' = put_wildcard host (tunnel_target lid ''wildcard-domain'' f) r"
      using register_http_wildcard_cases [of lid host f r "Ok x" r'] by auto
    with True keys show ?thesis using takes_put_wildcard by simp
  next
    case False
    with reg have "(\<forall>t. routes r (HttpHost host) = Some t \<longrightarrow> localup_id t = lid)"
      "r' = put_route (HttpHost host)
         (tunnel_target lid (if is_custom then ''custom-domain'' else ''via-tunnel'') f) r"
      using register_http_exact_cases [of lid host is_custom subd f r "Ok x" r'] by auto
    with False keys show ?thesis using takes_put by simp
  qed
qed

lemma takes_tls:
  "register_tls_routes lid pats f r = (Ok x, r') \<Longrightarrow>
     takes lid f (TlsSni ` {q \<in> set pats. \<not> is_wildcard_pattern q}) {q \<in> set pats. is_wildcard_pattern q} r r'"
proof (induction pats arbitrary: r)
  case Nil
  then show ?case using takes_refl by simp
next
  case (Cons p pats)
  let ?t = "tunnel_target lid ''via-tunnel'' f"
  let ?K = "TlsSni ` {q \<in> set pats. \<not> is_wildcard_pattern q}"
  let ?W = "{q \<in> set pats. is_wildcard_pattern q}"
  show ?case
  proof (cases "is_wildcard_pattern p")
    case True
    with Cons.prems have "wildcard_routes r p = None"
      and rest: "register_tls_routes lid pats f (put_wildcard p ?t r) = (Ok x, r')"
      by (auto simp: register_wildcard_cases(1) split: prod.splits sum.splits)
    then have "takes lid f {} {p} r (put_wildcard p ?t r)" by (intro takes_put_wildcard) simp
    moreover from True have "{q \<in> set (p # pats). is_wildcard_pattern q} = {p} \<union> ?W"
      "TlsSni ` {q \<in> set (p # pats). \<not> is_wildcard_pattern q} = {} \<union> ?K"
      by auto
    ultimately show ?thesis using Cons.IH [OF rest] by (simp only: takes_trans)
  next
    case False
    with Cons.prems have "routes r (TlsSni p) = None"
      and rest: "register_tls_routes lid pats f (put_route (TlsSni p) ?t r) = (Ok x, r')"
      by (auto simp: registry_register_Ok split: prod.splits sum.splits)
    then have "takes lid f {TlsSni p} {} r (put_route (TlsSni p) ?t r)" by (intro takes_put) simp
    moreover from False have "{q \<in> set (p # pats). is_wildcard_pattern q} = {} \<union> ?W"
      "TlsSni ` {q \<in> set (p # pats). \<not> is_wildcard_pattern q} = {TlsSni p} \<union> ?K"
      by auto
    ultimately show ?thesis using Cons.IH [OF rest] by (simp only: takes_trans)
  qed
qed

text \<open>Registering an endpoint takes its keys; registering all of them takes all their keys.\<close>

lemma takes_register_route:
  assumes "register_route h lid e f st = Returned (Ok x, st')"
  shows "takes lid f (endpoint_keys h (ep_protocol e)) (endpoint_wildcards h (ep_protocol e))
           (route_registry st) (route_registry st')"
proof (cases "ep_protocol e")
  case (Tcp q)
  with assms have "route_registry st' = route_registry st"
    by (cases "case port_allocator h of None \<Rightarrow> Panicked | Some a \<Rightarrow>
           alloc a lid (if q = 0 then None else Some q) (ports st)")
       (auto simp: register_route_def register_tcp_route_def split: option.splits sum.splits)
  with Tcp show ?thesis
    by (simp add: endpoint_keys_def endpoint_wildcards_def served_host_def takes_refl)
next
  case (Tls q pats)
  with assms show ?thesis
    by (auto simp: register_route_def on_routes_def endpoint_keys_def endpoint_wildcards_def
        intro: takes_tls split: prod.splits)
next
  case (Http subd custom)
  with assms show ?thesis
    by (auto simp: register_route_def on_routes_def intro: takes_http split: prod.splits)
next
  case (Https subd custom)
  with assms show ?thesis
    by (auto simp: register_route_def on_routes_def intro: takes_http split: prod.splits)
qed

lemma with_allocated_port_protocol [simp]: "ep_protocol (with_allocated_port h x e) = ep_protocol e"
  by (simp add: with_allocated_port_def split: option.splits)

lemma register_endpoints_Ok:
  assumes "register_endpoints h lid f (e # es) st = Returned (Ok eps, st')"
  obtains x st1 es' where "register_route h lid e f st = Returned (Ok x, st1)"
    "register_endpoints h lid f es st1 = Returned (Ok es', st')" "eps = with_allocated_port h x e # es'"
proof -
  obtain res st1 where r: "register_route h lid e f st = Returned (res, st1)"
    using assms by (cases "register_route h lid e f st") auto
  with assms obtain x where x: "res = Ok x" by (cases res) auto
  obtain res' st2 where r': "register_endpoints h lid f es st1 = Returned (res', st2)"
    using assms r x by (cases "register_endpoints h lid f es st1") auto
  with assms r x show thesis by (cases res') (auto intro: that)
qed

definition all_keys :: "'s TunnelHandler \<Rightarrow> Endpoint list \<Rightarrow> RouteKey set" where
  "all_keys h eps = (\<Union>e \<in> set eps. endpoint_keys h (ep_protocol e))"

definition all_wildcards :: "'s TunnelHandler \<Rightarrow> Endpoint list \<Rightarrow> string set" where
  "all_wildcards h eps = (\<Union>e \<in> set eps. endpoint_wildcards h (ep_protocol e))"

lemma takes_register_endpoints:
  "register_endpoints h lid f es st = Returned (Ok eps, st') \<Longrightarrow>
     takes lid f (all_keys h eps) (all_wildcards h eps) (route_registry st) (route_registry st')"
proof (induction es arbitrary: st eps)
  case Nil
  then show ?case by (simp add: all_keys_def all_wildcards_def takes_refl)
next
  case (Cons e es)
  from Cons.prems obtain x st1 es' where s: "register_route h lid e f st = Returned (Ok x, st1)"
    "register_endpoints h lid f es st1 = Returned (Ok es', st')" "eps = with_allocated_port h x e # es'"
    by (rule register_endpoints_Ok)
  from takes_trans [OF takes_register_route [OF s(1)] Cons.IH [OF s(2)]] s(3)
  show ?case by (simp add: all_keys_def all_wildcards_def)
qed

lemma client_connect_Ok:
  assumes "client_connect h auth hash lid token protos config peer quic send_error st = Returned (Ok eps, msg, st')"
  shows "takes lid (allowlist_filter config) (all_keys h eps) (all_wildcards h eps)
           (route_registry st) (route_registry st')"
    and "msg = Some (Connected lid eps)"
proof -
  obtain u where u: "auth = Ok u" using assms by (cases auth) (auto simp: client_connect_def)
  obtain es d where es: "build_endpoints h hash lid peer protos (domain_provider st) = (es, d)" by fastforce
  obtain res st1 where r: "register_endpoints h lid (allowlist_filter config) es (st\<lparr>domain_provider := d\<rparr>)
      = Returned (res, st1)"
    using assms u es
    by (cases "register_endpoints h lid (allowlist_filter config) es (st\<lparr>domain_provider := d\<rparr>)")
       (auto simp: client_connect_def)
  with assms u es have res: "res = Ok eps" "msg = Some (Connected lid eps)"
    "route_registry st' = route_registry st1"
    by (auto simp: client_connect_def Let_def split: sum.splits option.splits)
  from takes_register_endpoints [OF r [unfolded res(1)]] res(2,3)
  show "takes lid (allowlist_filter config) (all_keys h eps) (all_wildcards h eps)
      (route_registry st) (route_registry st')"
    and "msg = Some (Connected lid eps)"
    by simp_all
qed

lemma connected_route:
  assumes "client_connect h auth hash lid token protos config peer quic send_error st = Returned (Ok eps, msg, st')"
    and "e \<in> set eps" and "served_host h (ep_protocol e) = Some host" and "\<not> is_wildcard_pattern host"
  shows "\<exists>meta. registry_lookup (route_registry st') (HttpHost host) =
    Ok (tunnel_target lid meta (allowlist_filter config))"
proof -
  have "HttpHost host \<in> endpoint_keys h (ep_protocol e)"
    using assms(3,4) by (cases "ep_protocol e") (auto simp: endpoint_keys_def served_host_def)
  then have "HttpHost host \<in> all_keys h eps"
    using assms(2) by (auto simp: all_keys_def)
  then obtain m where "routes (route_registry st') (HttpHost host)
      = Some (tunnel_target lid m (allowlist_filter config))"
    using takes_taken(1) [OF client_connect_Ok(1) [OF assms(1)]] by blast
  then show ?thesis by (auto simp: registry_lookup_def)
qed

definition allowlist_admits :: "TunnelConfig \<Rightarrow> SocketAddr \<Rightarrow> bool" where
  "allowlist_admits config visitor \<longleftrightarrow>
     (case from_allowlist (ip_allowlist config) of Ok f \<Rightarrow> is_socket_allowed f visitor | Err _ \<Rightarrow> True)"

lemma allowlist_filter_admits: "is_socket_allowed (allowlist_filter config) visitor = allowlist_admits config visitor"
  by (auto simp: allowlist_filter_def allowlist_admits_def is_socket_allowed_def filter_is_allowed_def
      ip_filter_new_def split: sum.splits)

text \<open>
  A connected tunnel is served as configured: for every endpoint that the \<open>Connected\<close> message
  lists under an exact host, visitors of that host are routed to this tunnel, and a visitor's
  address is admitted exactly when the configured allowlist admits it; if the allowlist has an entry
  that does not parse, everyone is admitted.
\<close>

theorem connected_tunnel_served:
  assumes "client_connect h auth hash lid token protos config peer quic send_error st
             = Returned (Ok eps, msg, st')"
    and "e \<in> set eps" and "served_host h (ep_protocol e) = Some host" and "\<not> is_wildcard_pattern host"
  shows "\<exists>t. registry_lookup (route_registry st') (HttpHost host) = Ok t \<and> localup_id t = lid \<and>
           (\<forall>visitor. is_ip_allowed t visitor \<longleftrightarrow> allowlist_admits config visitor)"
  using connected_route [OF assms] by (auto simp: tunnel_target_def is_ip_allowed_def allowlist_filter_admits)

definition demo_config :: TunnelConfig where
  "demo_config = tunnel_config_default\<lparr>ip_allowlist := [''10.0.0.0/x'']\<rparr>"

definition demo_peer :: SocketAddr where
  "demo_peer = \<lparr>sa_ip = V4 1, sa_port = 9\<rparr>"

definition demo_endpoint :: Endpoint where
  "demo_endpoint = \<lparr>ep_protocol = Http (Some ''app'') None, ep_public_url = ''https://app.relay.io'', ep_port = Some 443\<rparr>"

lemma demo_connect:
  "client_connect demo_handler (Ok ''u'') (\<lambda>_ _. 0) ''t1'' ''k'' [Http (Some ''app'') None] demo_config
     demo_peer (None :: unit option) None demo_state =
   Returned (Ok [demo_endpoint], Some (Connected ''t1'' [demo_endpoint]),
     demo_state\<lparr>route_registry := put_route (HttpHost ''app.relay.io'')
       (tunnel_target ''t1'' ''via-tunnel'' (allowlist_filter demo_config)) registry_new\<rparr>)"
  by (simp add: client_connect_def build_http_endpoint_def actual_subdomain_def https_url_def demo_endpoint_def
      register_route_def on_routes_def register_http_route_def demo_handler_def demo_state_def Let_def
      is_wildcard_pattern_def starts_with_def register_http_exact_def registry_exists_def
      registry_register_def registry_new_def with_allocated_port_def)

lemma demo_allowlist: "from_allowlist (ip_allowlist demo_config) = Err (InvalidCidr ''10.0.0.0/x'')"
proof -
  have "network_parse ''10.0.0.0/x'' = Err (InvalidCidr ''10.0.0.0/x'')"
    by (simp add: network_parse_def ip_from_str_def read_ipv4_addr_def read_octet_def
        read_separator_def read_given_char_def read_number_def to_digit_def is_ascii_digit_def
        is_ascii_lower_def is_ascii_upper_def starts_with_def parse_u8_def parse_uint_def Let_def)
  then show ?thesis by (simp add: demo_config_def from_allowlist_def)
qed

theorem connected_tunnel_served_witness:
  "\<exists>t. registry_lookup (put_route (HttpHost ''app.relay.io'')
         (tunnel_target ''t1'' ''via-tunnel'' (allowlist_filter demo_config)) registry_new) (HttpHost ''app.relay.io'')
       = Ok t \<and> localup_id t = ''t1'' \<and> (\<forall>visitor. is_ip_allowed t visitor)"
  using connected_tunnel_served [OF demo_connect, of demo_endpoint "''app.relay.io''"] demo_allowlist
  by (simp add: allowlist_admits_def demo_endpoint_def served_host_def demo_handler_def is_wildcard_pattern_def starts_with_def)

subsection \<open>Cleanup\<close>

lemma snd_registry_unregister [simp]: "snd (registry_unregister k r) = del_route k r"
  by (auto simp: registry_unregister_def registry_updates fun_upd_idem split: option.splits)

lemma snd_unregister_wildcard [simp]: "snd (unregister_wildcard p r) = del_wildcard p r"
  by (auto simp: unregister_wildcard_def registry_updates fun_upd_idem split: option.splits)

lemma unregister_tls_routes_eq:
  "routes (unregister_tls_routes pats r) k =
     (if k \<in> TlsSni ` {q \<in> set pats. \<not> is_wildcard_pattern q} then None else routes r k)"
  "wildcard_routes (unregister_tls_routes pats r) p =
     (if p \<in> {q \<in> set pats. is_wildcard_pattern q} then None else wildcard_routes r p)"
  by (induction pats arbitrary: r) auto

lemma unregister_http_route_eq:
  assumes "http_names p = Some (subd, custom)"
  shows "routes (unregister_http_route h subd custom r) k =
           (if k \<in> endpoint_keys h p then None else routes r k)"
    and "wildcard_routes (unregister_http_route h subd custom r) q =
           (if q \<in> endpoint_wildcards h p then None else wildcard_routes r q)"
proof -
  have host: "(case custom of Some c \<Rightarrow> Some c | None \<Rightarrow> map_option (\<lambda>s. s @ ''.'' @ domain h) subd)
      = served_host h p"
    using assms by (cases custom) (simp_all add: served_host_def)
  have keys: "endpoint_keys h p = {HttpHost host |host. served_host h p = Some host \<and> \<not> is_wildcard_pattern host}"
    "endpoint_wildcards h p = {host. served_host h p = Some host \<and> is_wildcard_pattern host}"
    using assms by (cases p; simp add: endpoint_keys_def endpoint_wildcards_def)+
  show "routes (unregister_http_route h subd custom r) k =
      (if k \<in> endpoint_keys h p then None else routes r k)"
    and "wildcard_routes (unregister_http_route h subd custom r) q =
      (if q \<in> endpoint_wildcards h p then None else wildcard_routes r q)"
    unfolding unregister_http_route_def host keys by (auto split: option.splits)
qed

text \<open>Unregistering an endpoint frees its keys and no others.\<close>

lemma unregister_route_eq:
  "routes (route_registry (unregister_route h lid e st)) k =
     (if k \<in> endpoint_keys h (ep_protocol e) then None else routes (route_registry st) k)"
  "wildcard_routes (route_registry (unregister_route h lid e st)) p =
     (if p \<in> endpoint_wildcards h (ep_protocol e) then None else wildcard_routes (route_registry st) p)"
  by (cases "ep_protocol e";
      simp add: unregister_route_def unregister_http_route_eq unregister_tls_routes_eq Let_def
        endpoint_keys_def [of h "Tls _ _"] endpoint_wildcards_def [of h "Tls _ _"]
        endpoint_keys_def [of h "Tcp _"] endpoint_wildcards_def [of h "Tcp _"] served_host_def
        split: option.split)+

lemma fold_unregister_eq:
  "routes (route_registry (fold (unregister_route h lid) eps st)) k =
     (if k \<in> all_keys h eps then None else routes (route_registry st) k)"
  "wildcard_routes (route_registry (fold (unregister_route h lid) eps st)) p =
     (if p \<in> all_wildcards h eps then None else wildcard_routes (route_registry st) p)"
  by (induction eps arbitrary: st)
     (auto simp: all_keys_def all_wildcards_def unregister_route_eq)

text \<open>
  C4 A connection leaves nothing behind: if the tunnel had no routes, then after it connects and is
  cleaned up again the route registry is what it was before, whatever protocols it asked for and
  whatever routes the other tunnels have.
\<close>

theorem connect_cleanup_restores:
  assumes "client_connect h auth hash lid token protos config peer quic send_error st
             = Returned (Ok eps, msg, st')"
    and "\<And>k t. routes (route_registry st) k = Some t \<Longrightarrow> localup_id t \<noteq> lid"
    and "\<And>p t. wildcard_routes (route_registry st) p = Some t \<Longrightarrow> localup_id t \<noteq> lid"
  shows "route_registry (client_cleanup h lid eps st') = route_registry st"
proof -
  have takes: "takes lid (allowlist_filter config) (all_keys h eps) (all_wildcards h eps)
      (route_registry st) (route_registry st')"
    using assms(1) by (rule client_connect_Ok)
  have "routes (route_registry (client_cleanup h lid eps st')) k = routes (route_registry st) k" for k
    using takes_taken(2,3) [OF takes, of k] assms(2) [of k]
    by (cases "routes (route_registry st) k") (auto simp: client_cleanup_def fold_unregister_eq)
  moreover have "wildcard_routes (route_registry (client_cleanup h lid eps st')) p
      = wildcard_routes (route_registry st) p" for p
    using takes_taken(4,5) [OF takes, of p] assms(3) [of p]
    by (cases "wildcard_routes (route_registry st) p") (auto simp: client_cleanup_def fold_unregister_eq)
  ultimately show ?thesis by (simp add: RouteRegistry.equality fun_eq_iff)
qed

theorem connect_cleanup_restores_witness:
  "route_registry (client_cleanup demo_handler ''t1'' [demo_endpoint]
     (demo_state\<lparr>route_registry := put_route (HttpHost ''app.relay.io'')
       (tunnel_target ''t1'' ''via-tunnel'' (allowlist_filter demo_config)) registry_new\<rparr>)) = registry_new"
  using connect_cleanup_restores [OF demo_connect]
  by (simp add: demo_state_def registry_new_def)

text \<open>
  A rejected connection does leave something behind: when a later protocol of the same request
  fails, the routes registered for the earlier ones stay, so the host of a tunnel that was told to
  disconnect keeps being routed to it and is refused to every other tunnel.
\<close>

theorem rejected_connection_leaks:
  assumes "port_allocator h = None" and "\<not> has_domain_provider h" and "s \<noteq> []"
    and "\<not> is_wildcard_pattern (s @ ''.'' @ domain h)"
    and "routes (route_registry st) (HttpHost (s @ ''.'' @ domain h)) = None"
    and "other \<noteq> lid"
  shows "\<exists>m st' m'. client_connect h (Ok u) hash lid token [Http (Some s) None, Tcp p] config peer quic send_error st
             = Returned (Err m, Some (Disconnect m), st') \<and>
           registry_lookup (route_registry st') (HttpHost (s @ ''.'' @ domain h))
             = Ok (tunnel_target lid ''via-tunnel'' (allowlist_filter config)) \<and>
           register_http_route h other (Some s) None f (route_registry st') = (Err m', route_registry st')"
proof -
  let ?host = "s @ ''.'' @ domain h"
  let ?r = "put_route (HttpHost ?host) (tunnel_target lid ''via-tunnel'' (allowlist_filter config)) (route_registry st)"
  let ?m = "connect_error_message ''TCP tunnels not supported (no port allocator)''"
  let ?st = "st\<lparr>domain_provider := domain_provider st, route_registry := ?r\<rparr>"
  have "client_connect h (Ok u) hash lid token [Http (Some s) None, Tcp p] config peer quic send_error st
      = Returned (Err ?m, Some (Disconnect ?m), ?st)"
    using assms
    by (simp add: client_connect_def build_http_endpoint_def actual_subdomain_def register_route_def
        on_routes_def register_http_route_def register_http_exact_def registry_exists_def
        registry_register_def register_tcp_route_def Let_def)
  moreover have "registry_lookup ?r (HttpHost ?host)
      = Ok (tunnel_target lid ''via-tunnel'' (allowlist_filter config))"
    by (simp add: registry_lookup_def)
  moreover have "\<exists>m'. register_http_route h other (Some s) None f ?r = (Err m', ?r)"
    using assms
    by (simp add: register_http_route_def register_http_exact_def registry_exists_def registry_lookup_def
        tunnel_target_def Let_def)
  ultimately show ?thesis by fastforce
qed

definition no_tcp_handler :: "unit TunnelHandler" where
  "no_tcp_handler = \<lparr>domain = ''relay.io'', db = None, has_domain_provider = False,
     port_allocator = None, tcp_proxy_spawner = False, tls_port = None, http_port = None, https_port = None\<rparr>"

definition empty_state :: "(unit, unit, unit) RelayState" where
  "empty_state = \<lparr>route_registry = registry_new, ports = (),
     task_tracker = task_tracker_new, connection_manager = Map.empty,
     domain_provider = provider_new SimpleCounter, agent_registry = Map.empty,
     agent_connection_manager = Map.empty\<rparr>"

theorem rejected_connection_leaks_witness:
  "\<exists>m st'. client_connect no_tcp_handler (Ok ''u'') (\<lambda>_ _. 0) ''t1'' ''k'' [Http (Some ''app'') None, Tcp 22]
       tunnel_config_default demo_peer None None empty_state = Returned (Err m, Some (Disconnect m), st') \<and>
     registry_lookup (route_registry st') (HttpHost ''app.relay.io'')
       = Ok (tunnel_target ''t1'' ''via-tunnel'' (allowlist_filter tunnel_config_default))"
  using rejected_connection_leaks [of no_tcp_handler "''app''" empty_state "''t2''" "''t1''" "''u''" "\<lambda>_ _. 0" "''k''" 22
      tunnel_config_default demo_peer None None ip_filter_new]
  by (auto simp: no_tcp_handler_def empty_state_def registry_new_def is_wildcard_pattern_def starts_with_def)

text \<open>
  A reverse tunnel is granted exactly when reverse tunnels are enabled, the agent found for the
  address is the one named, and that agent is connected; the reply carries its connection. No
  token of the requesting client is part of the decision.
\<close>

theorem reverse_request_granted:
  "reverse_request has_registry vals lid raddr aid agent_token st = (ReverseTunnelAccept lid ''localhost:0'', Some conn)
   \<longleftrightarrow> has_registry \<and>
       (\<exists>a. find_by_address vals (agent_registry st) raddr = Some a \<and> agent_id a = aid) \<and>
       agent_conn_get (agent_connection_manager st) aid = Some conn"
  by (auto simp: reverse_request_def split: option.splits)

text \<open>An agent that registers is found by its address until its cleanup.\<close>

lemma agent_connect_registers:
  assumes "agent_connect v has_registry now aid token taddr md quic send_ok st = (True, msg, st')"
  shows "agent_get (agent_registry st') aid =
           Some \<lparr>agent_id = aid, target_address = taddr, agent_metadata = md, connected_at = now\<rparr> \<and>
         agent_conn_get (agent_connection_manager st') aid = quic \<and> quic \<noteq> None"
  using assms
  by (auto simp: agent_connect_def register_or_replace_def agent_get_def agent_conn_get_def
      agent_conn_register_def Let_def split: option.splits sum.splits if_splits)

lemma agent_cleanup_removes:
  "agent_get (agent_registry (agent_cleanup aid st)) aid' = (if aid' = aid then None else agent_get (agent_registry st) aid')"
  "agent_conn_get (agent_connection_manager (agent_cleanup aid st)) aid' =
     (if aid' = aid then None else agent_conn_get (agent_connection_manager st) aid')"
  by (simp_all add: agent_cleanup_def agent_unregister_def agent_get_def agent_conn_get_def
      agent_conn_unregister_def)

end
