(* ===== verification/PublicServers.thy ===== *)
theory PublicServers
  imports Agent Session Forwarding
begin

text \<open>
  The servers visitors connect to: HTTPS (\<open>crates/localup-server-https/src/server.rs\<close>), HTTP
  (\<open>crates/localup-server-tcp/src/server.rs\<close>), TLS passthrough and plain HTTP passthrough
  (\<open>crates/localup-server-tls/src/server.rs\<close>, \<open>http_passthrough.rs\<close>) and TCP
  (\<open>crates/localup-server-tcp-proxy/src/server.rs\<close>). Each reads once from the visitor, decides from
  what it read, the route registry and the tunnel connections, and then answers, fails or forwards;
  that decision is modelled here, the forwarding itself is in the theory of forwarding. Saving the
  requests in the database is left out. What a first read returned, the stream id drawn, and the
  results of opening a stream and of sending are arguments.
\<close>

section \<open>Reading a request\<close>

fun split_whitespace_acc :: "string \<Rightarrow> string \<Rightarrow> string list" where
  "split_whitespace_acc acc [] = (if acc = [] then [] else [rev acc])"
| "split_whitespace_acc acc (c # cs) =
     (if is_whitespace c then (if acc = [] then split_whitespace_acc [] cs else rev acc # split_whitespace_acc [] cs)
      else split_whitespace_acc (c # acc) cs)"

definition split_whitespace :: "string \<Rightarrow> string list" where
  "split_whitespace s = split_whitespace_acc [] s"

fun find_sub :: "'a list \<Rightarrow> 'a list \<Rightarrow> nat option" where
  "find_sub p [] = (if p = [] then Some 0 else None)"
| "find_sub p (c # cs) = (if starts_with (c # cs) p then Some 0 else map_option Suc (find_sub p cs))"

definition is_host_line :: "string \<Rightarrow> bool" where
  "is_host_line line = starts_with (to_lowercase line) ''host:''"

text \<open>\<open>line.split(':').nth(1)\<close>, trimmed.\<close>

definition host_of_line :: "string \<Rightarrow> string option" where
  "host_of_line line = (case split_char CHR '':'' line of _ # h # _ \<Rightarrow> Some (trim h) | _ \<Rightarrow> None)"

definition request_line_and_headers :: "string \<Rightarrow> string \<times> string \<times> (string \<times> string) list" where
  "request_line_and_headers request =
     (case str_lines request of
        [] \<Rightarrow> (''GET'', ''/'', [])
      | line # ls \<Rightarrow>
          (case split_whitespace line of
             m # u # _ \<Rightarrow> (m, u, header_lines ls)
           | _ \<Rightarrow> (''GET'', ''/'', header_lines ls)))"

definition extract_host_from_request :: "string \<Rightarrow> string option" where
  "extract_host_from_request request =
     (case find is_host_line (str_lines request) of
        None \<Rightarrow> None
      | Some line \<Rightarrow> host_of_line line)"

definition request_path :: "string \<Rightarrow> string" where
  "request_path request =
     (case str_lines request of
        [] \<Rightarrow> ''/''
      | line # _ \<Rightarrow> (case split_whitespace line of _ # p # _ \<Rightarrow> p | _ \<Rightarrow> ''/''))"

text \<open>
  The body: what follows the first blank line, whose position is taken in the text decoded from the
  bytes and used as an offset into the bytes.
\<close>

definition body_of_request :: "bytes \<Rightarrow> bytes option" where
  "body_of_request request_bytes =
     (case find_sub (crlf @ crlf) (from_utf8_lossy request_bytes) of
        None \<Rightarrow> None
      | Some pos \<Rightarrow>
          if pos + 4 < length request_bytes then Some (drop (pos + 4) request_bytes) else None)"

section \<open>Decisions\<close>

datatype server_error =
    RouteFailure string
  | TransportFailure string
  | SniFailed
  | NoRouteFor string
  | AccessDeniedFor string
  | HostFailed
  | TunnelFailure string

text \<open>
  What a server does with a connection: close it, answer and close, return an error (which closes
  the connection), send a request over a stream of a tunnel's connection and wait for its response,
  open a byte stream through it, or connect to an address directly.
\<close>

datatype (plugins only: size code) 'c server_action =
    CloseConnection
  | Respond bytes
  | FailWith server_error
  | SendRequest 'c TunnelMessage
  | OpenStream 'c TunnelMessage
  | ConnectDirectly string

definition status_response :: "string \<Rightarrow> nat \<Rightarrow> string \<Rightarrow> bytes" where
  "status_response status declared body =
     as_bytes (''HTTP/1.1 '' @ status @ crlf @ ''Content-Length: '' @ show_nat declared @ crlf @ crlf @ body)"

definition acme_prefix :: string where
  "acme_prefix = ''/.well-known/acme-challenge/''"

text \<open>
  The answer to an ACME challenge, when the path asks for one, a database is configured and has the
  pending challenge of the domain.
\<close>

definition acme_answer ::
    "(string \<Rightarrow> string \<Rightarrow> (string, string option) result) option \<Rightarrow> string \<Rightarrow> string \<Rightarrow> bytes option" where
  "acme_answer challenges host path =
     (let token = drop (length acme_prefix) path in
      if starts_with path acme_prefix \<and> token \<noteq> [] then
        (case challenges of
           None \<Rightarrow> None
         | Some lookup \<Rightarrow>
             (case lookup host token of
                Ok (Some key_auth) \<Rightarrow>
                  Some (as_bytes (''HTTP/1.1 200 OK'' @ crlf @ ''Content-Type: text/plain'' @ crlf
                    @ ''Content-Length: '' @ show_nat (length key_auth) @ crlf @ crlf @ key_auth))
              | _ \<Rightarrow> None))
      else None)"

text \<open>The check of a tunnel's HTTP authentication: the response that refuses the request, if any.\<close>

definition auth_refusal ::
    "(string \<Rightarrow> bytes option) \<Rightarrow> ('c, 'cb) TunnelConnectionManager \<Rightarrow> string \<Rightarrow> bytes \<Rightarrow> bytes option" where
  "auth_refusal b64 manager lid request_bytes =
     (case get_http_authenticator manager lid of
        None \<Rightarrow> None
      | Some a \<Rightarrow>
          if requires_auth a then
            (case authenticate b64 a (parse_headers_from_request request_bytes) of
               Authenticated \<Rightarrow> None
             | Unauthorized response \<Rightarrow> Some response)
          else None)"

section \<open>HTTPS\<close>

definition is_websocket_request :: "(string \<times> string) list \<Rightarrow> bool" where
  "is_websocket_request hs =
     list_ex (\<lambda>(n, v). to_lowercase n = ''upgrade'' \<and> to_lowercase v = ''websocket'') hs"

definition https_localup_request ::
    "(string \<Rightarrow> bytes option) \<Rightarrow> ('c, 'cb) TunnelConnectionManager \<Rightarrow> string \<Rightarrow> u32 \<Rightarrow> bool \<Rightarrow> bool \<Rightarrow> bytes \<Rightarrow>
     'c server_action" where
  "https_localup_request b64 manager lid stream_id opened sent_ok request_bytes =
     (case request_line_and_headers (from_utf8_lossy request_bytes) of
        (req_method, uri, hs) \<Rightarrow>
          (case auth_refusal b64 manager lid request_bytes of
             Some response \<Rightarrow> Respond response
           | None \<Rightarrow>
               (case conn_get manager lid of
                  None \<Rightarrow> Respond (status_response ''502 Bad Gateway'' 16 (''Tunnel not found'' @ [LF]))
                | Some conn \<Rightarrow>
                    if \<not> opened then Respond (status_response ''502 Bad Gateway'' 23 (''Tunnel stream error'' @ [LF]))
                    else if is_websocket_request hs then
                      (if sent_ok then OpenStream conn (HttpStreamConnect stream_id lid request_bytes)
                       else Respond (status_response ''502 Bad Gateway'' 12 ''Tunnel error''))
                    else
                      (if sent_ok
                       then SendRequest conn (HttpRequest stream_id req_method uri hs (body_of_request request_bytes))
                       else Respond (status_response ''502 Bad Gateway'' 23 (''Tunnel send error'' @ [LF]))))))"

definition https_handle ::
    "(string \<Rightarrow> bytes option) \<Rightarrow> (string \<Rightarrow> string \<Rightarrow> (string, string option) result) option \<Rightarrow> RouteRegistry \<Rightarrow>
     ('c, 'cb) TunnelConnectionManager option \<Rightarrow> u32 \<Rightarrow> bool \<Rightarrow> bool \<Rightarrow> SocketAddr \<Rightarrow> bytes \<Rightarrow> 'c server_action" where
  "https_handle b64 challenges registry manager stream_id opened sent_ok peer request_bytes =
     (if request_bytes = [] then CloseConnection
      else
        (let request = from_utf8_lossy request_bytes in
         case str_lines request of
           [] \<Rightarrow> FailWith (RouteFailure ''Empty request'')
         | _ # ls \<Rightarrow>
             (case Option.bind (find is_host_line ls) host_of_line of
                None \<Rightarrow> FailWith (RouteFailure ''No Host header'')
              | Some host \<Rightarrow>
                  (case acme_answer challenges host (request_path request) of
                     Some answer \<Rightarrow> Respond answer
                   | None \<Rightarrow>
                       (case registry_lookup registry (HttpHost host) of
                          Err _ \<Rightarrow> Respond (status_response ''404 Not Found'' 9 ''Not Found'')
                        | Ok target \<Rightarrow>
                            if \<not> is_ip_allowed target peer then
                              Respond (status_response ''403 Forbidden'' 13 ''Access denied'')
                            else if \<not> starts_with (target_addr target) ''tunnel:'' then
                              Respond (status_response ''502 Bad Gateway'' 11 ''Bad Gateway'')
                            else
                              (case manager of
                                 None \<Rightarrow> Respond (status_response ''503 Service Unavailable'' 19 ''Service Unavailable'')
                               | Some m \<Rightarrow>
                                   https_localup_request b64 m (drop 7 (target_addr target)) stream_id opened sent_ok
                                     request_bytes))))))"

fun status_text :: "u16 \<Rightarrow> string" where
  "status_text s =
     (if s = 200 then ''OK'' else if s = 201 then ''Created'' else if s = 204 then ''No Content''
      else if s = 301 then ''Moved Permanently'' else if s = 302 then ''Found'' else if s = 304 then ''Not Modified''
      else if s = 400 then ''Bad Request'' else if s = 401 then ''Unauthorized'' else if s = 403 then ''Forbidden''
      else if s = 404 then ''Not Found'' else if s = 500 then ''Internal Server Error''
      else if s = 502 then ''Bad Gateway'' else if s = 503 then ''Service Unavailable'' else ''Unknown'')"

declare status_text.simps [simp del]

definition length_header :: "string \<times> string \<Rightarrow> bool" where
  "length_header = (\<lambda>(n, v). to_lowercase n = ''content-length'' \<or> to_lowercase n = ''transfer-encoding'')"

text \<open>The response written for the tunnel's answer: \<open>None\<close> is the timeout of 30 seconds.\<close>

definition https_response ::
    "(string, TunnelMessage option) result option \<Rightarrow> bytes" where
  "https_response received =
     (case received of
        Some (Ok (Some (HttpResponse _ status hs body))) \<Rightarrow>
          as_bytes (''HTTP/1.1 '' @ show_nat (unat status) @ '' '' @ status_text status @ crlf
            @ concat (map (\<lambda>(n, v). n @ '': '' @ v @ crlf) (filter (\<lambda>h. \<not> length_header h) hs)))
          @ (case body of
               Some b \<Rightarrow> as_bytes (''Content-Length: '' @ show_nat (length b) @ crlf @ crlf) @ b
             | None \<Rightarrow> as_bytes (''Content-Length: 0'' @ crlf @ crlf))
      | Some (Ok (Some _)) \<Rightarrow> status_response ''502 Bad Gateway'' 19 ''Unexpected response''
      | Some (Ok None) \<Rightarrow> status_response ''502 Bad Gateway'' 13 ''Tunnel closed''
      | Some (Err _) \<Rightarrow> status_response ''502 Bad Gateway'' 12 ''Tunnel error''
      | None \<Rightarrow> status_response ''504 Gateway Timeout'' 7 ''Timeout'')"

section \<open>HTTP\<close>

definition http_localup_request ::
    "(string \<Rightarrow> bytes option) \<Rightarrow> ('c, 'cb) TunnelConnectionManager \<Rightarrow> string \<Rightarrow> u32 \<Rightarrow> bool \<Rightarrow> bool \<Rightarrow> bytes \<Rightarrow>
     'c server_action" where
  "http_localup_request b64 manager lid stream_id opened sent_ok request_bytes =
     (case auth_refusal b64 manager lid request_bytes of
        Some response \<Rightarrow> Respond response
      | None \<Rightarrow>
          (case conn_get manager lid of
             None \<Rightarrow> Respond (status_response ''502 Bad Gateway'' 16 (''Tunnel not found'' @ [LF]))
           | Some conn \<Rightarrow>
               if \<not> opened then Respond (status_response ''502 Bad Gateway'' 23 (''Tunnel stream error'' @ [LF]))
               else if sent_ok then OpenStream conn (HttpStreamConnect stream_id lid request_bytes)
               else Respond (status_response ''502 Bad Gateway'' 12 ''Tunnel error'')))"

definition http_handle ::
    "(string \<Rightarrow> bytes option) \<Rightarrow> (string \<Rightarrow> string \<Rightarrow> (string, string option) result) option \<Rightarrow> RouteRegistry \<Rightarrow>
     ('c, 'cb) TunnelConnectionManager option \<Rightarrow> u32 \<Rightarrow> bool \<Rightarrow> bool \<Rightarrow> SocketAddr \<Rightarrow> bytes \<Rightarrow> 'c server_action" where
  "http_handle b64 challenges registry manager stream_id opened sent_ok peer request_bytes =
     (if request_bytes = [] then CloseConnection
      else
        (let request = from_utf8_lossy request_bytes in
         case extract_host_from_request request of
           None \<Rightarrow> Respond (status_response ''400 Bad Request'' 16 (''No Host header'' @ [LF]))
         | Some host \<Rightarrow>
             (case acme_answer challenges host (request_path request) of
                Some answer \<Rightarrow> Respond answer
              | None \<Rightarrow>
                  (case registry_lookup registry (HttpHost host) of
                     Err _ \<Rightarrow> Respond (status_response ''404 Not Found'' 16 (''Route not found'' @ [LF]))
                   | Ok target \<Rightarrow>
                       if \<not> is_ip_allowed target peer then
                         Respond (status_response ''403 Forbidden'' 15 (''Access denied'' @ [LF]))
                       else if starts_with (target_addr target) ''tunnel:'' then
                         (case manager of
                            None \<Rightarrow> Respond (status_response ''502 Bad Gateway'' 23 (''Tunnel not configured'' @ [LF]))
                          | Some m \<Rightarrow>
                              http_localup_request b64 m (drop 7 (target_addr target)) stream_id opened sent_ok
                                request_bytes)
                       else ConnectDirectly (target_addr target)))))"

section \<open>TLS and plain HTTP passthrough\<close>

definition passthrough_target ::
    "('c, 'cb) TunnelConnectionManager option \<Rightarrow> RouteTarget \<Rightarrow> (string, unit) result \<Rightarrow> TunnelMessage \<Rightarrow>
     'c server_action \<Rightarrow> 'c server_action" where
  "passthrough_target manager route opened connect_msg direct =
     (if starts_with (target_addr route) ''tunnel:'' then
        (case manager of
           None \<Rightarrow> FailWith (TransportFailure ''Tunnel target requested but tunnel manager not configured'')
         | Some m \<Rightarrow>
             (let lid = drop 7 (target_addr route) in
              case conn_get m lid of
                None \<Rightarrow> FailWith (TransportFailure (''Tunnel not found: '' @ lid))
              | Some conn \<Rightarrow>
                  (case opened of
                     Err e \<Rightarrow> FailWith (TransportFailure (''Failed to open stream to tunnel '' @ lid @ '': '' @ e))
                   | Ok _ \<Rightarrow> OpenStream conn connect_msg)))
      else direct)"

definition tls_handle ::
    "RouteRegistry \<Rightarrow> ('c, 'cb) TunnelConnectionManager option \<Rightarrow> u32 \<Rightarrow>
     (string, unit) result \<Rightarrow> SocketAddr \<Rightarrow> bytes \<Rightarrow> 'c server_action outcome" where
  "tls_handle registry manager stream_id opened peer client_hello =
     (if client_hello = [] then Returned CloseConnection
      else and_then (extract_sni client_hello) (\<lambda>r. Returned
        (case r of
           Err _ \<Rightarrow> FailWith SniFailed
         | Ok sni \<Rightarrow>
             (case sni_lookup registry sni of
                Err _ \<Rightarrow> FailWith (NoRouteFor sni)
              | Ok route \<Rightarrow>
                  if \<not> is_ip_allowed route peer then FailWith (AccessDeniedFor (socket_display peer))
                  else passthrough_target manager route opened (TlsConnect stream_id ''unknown'' client_hello)
                         (ConnectDirectly (target_addr route))))))"

text \<open>The host of a passthrough request: only valid UTF-8, only the lines before the first empty one.\<close>

definition passthrough_host :: "bytes \<Rightarrow> string option" where
  "passthrough_host data =
     (case from_utf8 data of
        None \<Rightarrow> None
      | Some s \<Rightarrow>
          (case find is_host_line (takeWhile (\<lambda>l. l \<noteq> []) (str_lines s)) of
             None \<Rightarrow> None
           | Some line \<Rightarrow> Some (normalize_host (trim (drop 5 line)))))"

definition http_passthrough_handle ::
    "RouteRegistry \<Rightarrow> ('c, 'cb) TunnelConnectionManager option \<Rightarrow> u32 \<Rightarrow>
     (string, unit) result \<Rightarrow> SocketAddr \<Rightarrow> bytes \<Rightarrow> 'c server_action" where
  "http_passthrough_handle registry manager stream_id opened peer request =
     (if request = [] then CloseConnection
      else
        (case passthrough_host request of
           None \<Rightarrow> FailWith HostFailed
         | Some hostname \<Rightarrow>
             (case sni_lookup registry hostname of
                Err _ \<Rightarrow> FailWith (NoRouteFor hostname)
              | Ok route \<Rightarrow>
                  if \<not> is_ip_allowed route peer then FailWith (AccessDeniedFor (socket_display peer))
                  else passthrough_target manager route opened (TlsConnect stream_id hostname request)
                         (case socket_from_str (target_addr route) of
                            Some _ \<Rightarrow> ConnectDirectly (target_addr route)
                          | None \<Rightarrow> FailWith (TransportFailure (''Invalid backend address '' @ target_addr route
                              @ '': invalid socket address syntax''))))))"

section \<open>TCP\<close>

definition tcp_handle ::
    "('c, 'cb) TunnelConnectionManager \<Rightarrow> string \<Rightarrow> u32 \<Rightarrow> (string, unit) result \<Rightarrow>
     (string, unit) result \<Rightarrow> SocketAddr \<Rightarrow> 'c server_action" where
  "tcp_handle manager lid stream_id opened sent_ok peer =
     (case conn_get manager lid of
        None \<Rightarrow> FailWith (TunnelFailure ''Tunnel not connected'')
      | Some conn \<Rightarrow>
          (case opened of
             Err e \<Rightarrow> FailWith (TunnelFailure (''Failed to open stream: '' @ e))
           | Ok _ \<Rightarrow>
               (case sent_ok of
                  Err e \<Rightarrow> FailWith (TunnelFailure (''Send error: '' @ e))
                | Ok _ \<Rightarrow> OpenStream conn (TcpConnect stream_id (ip_display (sa_ip peer)) (sa_port peer)))))"

section \<open>Certificates by host name\<close>

record 'k CustomCertResolver =
  default_cert :: 'k
  custom_certs :: "string \<rightharpoonup> 'k"

definition resolver_new :: "'k \<Rightarrow> 'k CustomCertResolver" where
  "resolver_new k = \<lparr>default_cert = k, custom_certs = Map.empty\<rparr>"

definition add_custom_cert :: "string \<Rightarrow> 'k \<Rightarrow> 'k CustomCertResolver \<Rightarrow> 'k CustomCertResolver" where
  "add_custom_cert d k r = r\<lparr>custom_certs := (custom_certs r)(d \<mapsto> k)\<rparr>"

definition remove_custom_cert :: "string \<Rightarrow> 'k CustomCertResolver \<Rightarrow> bool \<times> 'k CustomCertResolver" where
  "remove_custom_cert d r = (custom_certs r d \<noteq> None, r\<lparr>custom_certs := (custom_certs r)(d := None)\<rparr>)"

definition has_custom_cert :: "'k CustomCertResolver \<Rightarrow> string \<Rightarrow> bool" where
  "has_custom_cert r d \<longleftrightarrow> custom_certs r d \<noteq> None"

text \<open>\<open>resolve\<close>; \<open>locked\<close>: the table is being written, so that it cannot be read without waiting.\<close>

definition resolve_cert :: "'k CustomCertResolver \<Rightarrow> bool \<Rightarrow> string option \<Rightarrow> 'k option" where
  "resolve_cert r locked server_name =
     (case server_name of
        None \<Rightarrow> None
      | Some d \<Rightarrow>
          if locked then Some (default_cert r)
          else (case custom_certs r d of
                  Some k \<Rightarrow> Some k
                | None \<Rightarrow>
                    (case Option.bind (extract_parent_wildcard d) (custom_certs r) of
                       Some k \<Rightarrow> Some k
                     | None \<Rightarrow> Some (default_cert r))))"

section \<open>Requests on the wire\<close>

definition word_text :: "string \<Rightarrow> bool" where
  "word_text w \<longleftrightarrow> w \<noteq> [] \<and> header_text w \<and> list_all (\<lambda>c. \<not> is_whitespace c) w"

definition request_line :: "string \<Rightarrow> string \<Rightarrow> string" where
  "request_line m u = m @ '' '' @ u @ '' HTTP/1.1''"

lemma split_whitespace_acc_word:
  "list_all (\<lambda>c. \<not> is_whitespace c) w \<Longrightarrow> split_whitespace_acc acc (w @ s) = split_whitespace_acc (rev w @ acc) s"
  by (induction w arbitrary: acc) simp_all

lemma split_whitespace_word:
  assumes "word_text w"
  shows "split_whitespace (w @ '' '' @ s) = w # split_whitespace s"
  using assms by (simp add: split_whitespace_def word_text_def split_whitespace_acc_word is_whitespace_def)

lemma split_request_line:
  assumes "word_text m" "word_text u"
  shows "\<exists>v. split_whitespace (request_line m u) = m # u # v"
proof -
  have "split_whitespace (request_line m u) = m # u # split_whitespace ''HTTP/1.1''"
    using split_whitespace_word [OF assms(1), of "u @ '' '' @ ''HTTP/1.1''"]
      split_whitespace_word [OF assms(2), of "''HTTP/1.1''"]
    by (simp add: request_line_def)
  then show ?thesis by blast
qed

lemma header_text_append [simp]: "header_text (a @ b) \<longleftrightarrow> header_text a \<and> header_text b"
  by (simp add: header_text_def)

lemma request_line_text: "word_text m \<Longrightarrow> word_text u \<Longrightarrow> header_text (request_line m u)"
  by (simp add: request_line_def word_text_def) (simp add: header_text_def LF_def)

text \<open>A blank line begins only at the end of a line.\<close>

lemma find_blank_skip:
  assumes "LF \<notin> set l" and "\<not> starts_with rest crlf"
  shows "find_sub (crlf @ crlf) (l @ crlf @ rest) =
    map_option (\<lambda>k. length l + 2 + k) (find_sub (crlf @ crlf) rest)"
  using assms
proof (induction l)
  case Nil
  have "\<not> starts_with (crlf @ rest) (crlf @ crlf)" using Nil by (auto simp: starts_with_iff)
  moreover have "\<not> starts_with (LF # rest) (crlf @ crlf)" by (simp add: crlf_def starts_with_def CR_def LF_def)
  ultimately show ?case by (simp add: crlf_def option.map_comp comp_def)
next
  case (Cons c l)
  have "\<not> starts_with (c # l @ crlf @ rest) (crlf @ crlf)"
    using Cons.prems by (cases l) (auto simp: crlf_def starts_with_def CR_def LF_def)
  with Cons show ?case by (simp add: option.map_comp comp_def)
qed

lemma find_blank_here:
  assumes "LF \<notin> set l"
  shows "find_sub (crlf @ crlf) (l @ crlf @ crlf @ rest) = Some (length l)"
  using assms
proof (induction l)
  case Nil
  show ?case by (simp add: crlf_def starts_with_def)
next
  case (Cons c l)
  have "\<not> starts_with (c # l @ crlf @ crlf @ rest) (crlf @ crlf)"
    using Cons.prems by (cases l) (auto simp: crlf_def starts_with_def CR_def LF_def)
  with Cons show ?case by simp
qed

lemma plain_header_line:
  assumes "plain_header (n, v)"
  shows "LF \<notin> set (n @ '': '' @ v)" and "\<not> starts_with (n @ '': '' @ v @ s) crlf"
proof -
  show "LF \<notin> set (n @ '': '' @ v)"
    using assms by (auto simp: plain_header_def header_text_def list_all_iff LF_def)
  show "\<not> starts_with (n @ '': '' @ v @ s) crlf"
    using assms by (cases n; cases "tl n") (auto simp: plain_header_def header_text_def starts_with_def crlf_def CR_def LF_def)
qed

lemma find_blank_render:
  assumes "list_all plain_header hs" and "LF \<notin> set l"
  shows "find_sub (crlf @ crlf) (l @ crlf @ render_headers hs @ crlf @ rest) =
    Some (length l + length (render_headers hs))"
  using assms
proof (induction hs arbitrary: l)
  case Nil
  then show ?case using find_blank_here [of l rest] by (simp add: render_headers_def)
next
  case (Cons h hs)
  obtain n v where h: "h = (n, v)" by (cases h)
  have plain: "plain_header (n, v)" using Cons.prems h by simp
  have r: "render_headers (h # hs) = (n @ '': '' @ v) @ crlf @ render_headers hs" by (simp add: render_headers_def h)
  have "find_sub (crlf @ crlf) (l @ crlf @ render_headers (h # hs) @ crlf @ rest) =
      map_option (\<lambda>k. length l + 2 + k)
        (find_sub (crlf @ crlf) ((n @ '': '' @ v) @ crlf @ render_headers hs @ crlf @ rest))"
    using find_blank_skip [OF Cons.prems(2), of "(n @ '': '' @ v) @ crlf @ render_headers hs @ crlf @ rest"]
      plain_header_line(2) [OF plain, of "crlf @ render_headers hs @ crlf @ rest"] by (simp add: r)
  also have "\<dots> = Some (length l + 2 + (length (n @ '': '' @ v) + length (render_headers hs)))"
    using Cons.IH [OF _ plain_header_line(1) [OF plain]] Cons.prems by simp
  finally show ?case by (simp add: r crlf_def)
qed

lemma body_of_render:
  assumes "header_text line" and "list_all plain_header hs"
  shows "body_of_request (render_request line hs body) = (if body = [] then None else Some body)"
proof -
  have "length crlf = 2" by (simp add: crlf_def)
  then have "length (render_request line hs body) = length line + length (render_headers hs) + 4 + length body"
    "drop (length line + length (render_headers hs) + 4) (render_request line hs body) = body"
    by (simp_all add: render_request_def as_bytes_def)
  then show ?thesis
    by (simp add: body_of_request_def lossy_render_request [OF assms]
        find_blank_render [OF assms(2) header_text_LF [OF assms(1)]])
qed

lemma lines_render:
  assumes "header_text line" and "list_all plain_header hs"
  shows "\<exists>ls. str_lines (from_utf8_lossy (render_request line hs body)) = line # ls \<and> header_lines ls = hs \<and>
    (\<forall>n v hs'. hs = (n, v) # hs' \<longrightarrow> (\<exists>ls'. ls = (n @ '': '' @ v) # ls'))"
proof (intro exI conjI allI impI)
  let ?ls = "str_lines (render_headers hs @ crlf @ from_utf8_lossy body)"
  show "str_lines (from_utf8_lossy (render_request line hs body)) = line # ?ls"
    using str_lines_crlf [OF header_text_LF [OF assms(1)]] by (simp add: lossy_render_request [OF assms])
  show "header_lines ?ls = hs" by (rule str_lines_headers [OF assms(2)])
  fix n v hs' assume hs: "hs = (n, v) # hs'"
  then have "plain_header (n, v)" using assms(2) by simp
  from str_lines_crlf [OF plain_header_line(1) [OF this]]
  show "?ls = (n @ '': '' @ v) # str_lines (render_headers hs' @ crlf @ from_utf8_lossy body)"
    by (simp add: hs render_headers_def)
qed


lemma request_parts:
  assumes "word_text m" "word_text u" and "list_all plain_header hs"
  shows "request_line_and_headers (from_utf8_lossy (render_request (request_line m u) hs body)) = (m, u, hs)"
    and "request_path (from_utf8_lossy (render_request (request_line m u) hs body)) = u"
  using lines_render [OF request_line_text [OF assms(1,2)] assms(3), of body] split_request_line [OF assms(1,2)]
  by (auto simp: request_line_and_headers_def request_path_def)

definition host_text :: "string \<Rightarrow> bool" where
  "host_text host \<longleftrightarrow> header_text host \<and> CHR '':'' \<notin> set host \<and> trim host = host"

lemma split_char_append:
  "c \<notin> set a \<Longrightarrow> split_char c (a @ c # b) = a # split_char c b" "c \<notin> set a \<Longrightarrow> split_char c a = [a]"
  by (induction a) auto

lemma host_line:
  assumes "host_text host"
  shows "plain_header (''Host'', host)" "is_host_line (''Host: '' @ host)" "host_of_line (''Host: '' @ host) = Some host"
proof -
  show "plain_header (''Host'', host)"
    using assms by (simp add: plain_header_def host_text_def) (simp add: header_text_def LF_def trim_def is_whitespace_def)
  have "map lower_char ''Host:'' = ''host:''" by code_simp
  then show "is_host_line (''Host: '' @ host)"
    by (simp add: is_host_line_def starts_with_def to_lowercase_def)
  have "split_char CHR '':'' (''Host: '' @ host) = [''Host'', '' '' @ host]"
    using split_char_append(1) [of "CHR '':''" "''Host''" "'' '' @ host"] split_char_append(2) [of "CHR '':''" "'' '' @ host"]
      assms by (simp add: host_text_def)
  then show "host_of_line (''Host: '' @ host) = Some host"
    using assms by (simp add: host_of_line_def host_text_def trim_space)
qed


section \<open>The relay end to end\<close>

lemma auth_refusal_registered:
  assumes "word_text m" "word_text u" and "list_all plain_header hs"
    and "get_http_authenticator manager lid = Some (from_config cfg)"
  shows "auth_refusal b64 manager lid (render_request (request_line m u) hs body) =
    (if authenticate b64 (from_config cfg) hs = Authenticated then None
     else Some (unauthorized_response (from_config cfg)))"
  using parse_headers_roundtrip [OF request_line_text [OF assms(1,2)] assms(3), of body] assms(4)
  by (simp add: auth_refusal_def authenticator.auth_eq)

lemma render_request_not_Nil [simp]: "render_request line hs body \<noteq> []"
  by (simp add: render_request_def as_bytes_def crlf_def)

lemma https_handle_render:
  assumes "word_text m" "word_text u" and "host_text host" and "list_all plain_header hs"
    and "acme_answer challenges host u = None"
    and "registry_lookup registry (HttpHost host) = Ok (tunnel_target lid meta f)"
  shows "https_handle b64 challenges registry (Some manager) sid opened sent_ok peer
      (render_request (request_line m u) ((''Host'', host) # hs) body) =
    (if is_socket_allowed f peer
     then https_localup_request b64 manager lid sid opened sent_ok
            (render_request (request_line m u) ((''Host'', host) # hs) body)
     else Respond (status_response ''403 Forbidden'' 13 ''Access denied''))"
proof -
  have hs: "list_all plain_header ((''Host'', host) # hs)" using host_line(1) [OF assms(3)] assms(4) by simp
  obtain ls where "str_lines (from_utf8_lossy (render_request (request_line m u) ((''Host'', host) # hs) body))
      = request_line m u # (''Host'' @ '': '' @ host) # ls"
    using lines_render [OF request_line_text [OF assms(1,2)] hs] by blast
  then show ?thesis
    using host_line(2,3) [OF assms(3)] request_parts(2) [OF assms(1,2) hs] assms(5,6)
    by (simp add: https_handle_def Let_def is_ip_allowed_def tunnel_target_def starts_with_def)
qed

lemma http_handle_render:
  assumes "word_text m" "word_text u" and "host_text host" and "list_all plain_header hs"
    and "\<not> is_host_line (request_line m u)"
    and "acme_answer challenges host u = None"
    and "registry_lookup registry (HttpHost host) = Ok (tunnel_target lid meta f)"
  shows "http_handle b64 challenges registry (Some manager) sid opened sent_ok peer
      (render_request (request_line m u) ((''Host'', host) # hs) body) =
    (if is_socket_allowed f peer
     then http_localup_request b64 manager lid sid opened sent_ok
            (render_request (request_line m u) ((''Host'', host) # hs) body)
     else Respond (status_response ''403 Forbidden'' 15 (''Access denied'' @ [LF])))"
proof -
  have hs: "list_all plain_header ((''Host'', host) # hs)" using host_line(1) [OF assms(3)] assms(4) by simp
  obtain ls where "str_lines (from_utf8_lossy (render_request (request_line m u) ((''Host'', host) # hs) body))
      = request_line m u # (''Host'' @ '': '' @ host) # ls"
    using lines_render [OF request_line_text [OF assms(1,2)] hs] by blast
  then show ?thesis
    using host_line(2,3) [OF assms(3)] request_parts(2) [OF assms(1,2) hs] assms(5-7)
    by (simp add: http_handle_def extract_host_from_request_def Let_def is_ip_allowed_def tunnel_target_def starts_with_def)
qed

lemma register_route_connections:
  "register_route h lid e f st = Returned (res, st') \<Longrightarrow> connection_manager st' = connection_manager st"
  by (auto simp: register_route_def on_routes_def register_tcp_route_def elim!: and_then_ReturnedE
      split: Protocol.split_asm prod.split_asm option.split_asm sum.split_asm if_split_asm)

lemma register_endpoints_connections:
  "register_endpoints h lid f es st = Returned (res, st') \<Longrightarrow> connection_manager st' = connection_manager st"
proof (induction es arbitrary: st res)
  case (Cons e es)
  then show ?case
    by (fastforce elim!: and_then_ReturnedE split: sum.split_asm dest: register_route_connections)
qed simp

lemma connected_manager:
  assumes "client_connect h auth hash lid token protos config peer quic send_error st = Returned (Ok eps, msg, st')"
  shows "connection_manager st' =
    (case quic of
       Some conn \<Rightarrow> register_with_auth_and_token lid eps conn (http_auth config) (Some token) (connection_manager st)
     | None \<Rightarrow> connection_manager st)"
  using assms
  by (auto simp: client_connect_def Let_def elim!: and_then_ReturnedE split: sum.split_asm option.split_asm prod.split_asm
      dest!: register_endpoints_connections)


lemma connected_request:
  assumes "client_connect h auth hash lid token protos config peer (Some conn) None st = Returned (Ok eps, msg, st')"
    and "e \<in> set eps" and "served_host h (ep_protocol e) = Some host" and "\<not> is_wildcard_pattern host"
    and "host_text host" and "word_text m" and "word_text u" and "list_all plain_header hs"
    and "acme_answer challenges host u = None"
  shows https_serves: "https_handle b64 challenges (route_registry st') (Some (connection_manager st')) sid True True visitor
      (render_request (request_line m u) ((''Host'', host) # hs) body) =
    (if \<not> allowlist_admits config visitor then Respond (status_response ''403 Forbidden'' 13 ''Access denied'')
     else if authenticate b64 (from_config (http_auth config)) ((''Host'', host) # hs) \<noteq> Authenticated
     then Respond (unauthorized_response (from_config (http_auth config)))
     else if is_websocket_request ((''Host'', host) # hs)
     then OpenStream conn (HttpStreamConnect sid lid (render_request (request_line m u) ((''Host'', host) # hs) body))
     else SendRequest conn (HttpRequest sid m u ((''Host'', host) # hs) (if body = [] then None else Some body)))"
    and http_serves: "\<not> is_host_line (request_line m u) \<Longrightarrow>
    http_handle b64 challenges (route_registry st') (Some (connection_manager st')) sid True True visitor
      (render_request (request_line m u) ((''Host'', host) # hs) body) =
    (if \<not> allowlist_admits config visitor then Respond (status_response ''403 Forbidden'' 15 (''Access denied'' @ [LF]))
     else if authenticate b64 (from_config (http_auth config)) ((''Host'', host) # hs) \<noteq> Authenticated
     then Respond (unauthorized_response (from_config (http_auth config)))
     else OpenStream conn (HttpStreamConnect sid lid (render_request (request_line m u) ((''Host'', host) # hs) body)))"
proof -
  have hs: "list_all plain_header ((''Host'', host) # hs)" using host_line(1) [OF assms(5)] assms(8) by simp
  obtain meta where route: "registry_lookup (route_registry st') (HttpHost host) =
      Ok (tunnel_target lid meta (allowlist_filter config))"
    using connected_route [OF assms(1-4)] by blast
  have manager: "conn_get (connection_manager st') lid = Some conn"
    "get_http_authenticator (connection_manager st') lid = Some (from_config (http_auth config))"
    using connected_manager [OF assms(1)] by (simp_all add: registered_authenticator tunnel_connections.get_put)
  note parts = request_parts(1) [OF assms(6,7) hs] auth_refusal_registered [OF assms(6,7) hs manager(2)]
    body_of_render [OF request_line_text [OF assms(6,7)] hs] allowlist_filter_admits manager(1)
  show "https_handle b64 challenges (route_registry st') (Some (connection_manager st')) sid True True visitor
      (render_request (request_line m u) ((''Host'', host) # hs) body) =
    (if \<not> allowlist_admits config visitor then Respond (status_response ''403 Forbidden'' 13 ''Access denied'')
     else if authenticate b64 (from_config (http_auth config)) ((''Host'', host) # hs) \<noteq> Authenticated
     then Respond (unauthorized_response (from_config (http_auth config)))
     else if is_websocket_request ((''Host'', host) # hs)
     then OpenStream conn (HttpStreamConnect sid lid (render_request (request_line m u) ((''Host'', host) # hs) body))
     else SendRequest conn (HttpRequest sid m u ((''Host'', host) # hs) (if body = [] then None else Some body)))"
    by (simp add: https_handle_render [OF assms(6,7,5,8,9) route] https_localup_request_def parts)
  show "http_handle b64 challenges (route_registry st') (Some (connection_manager st')) sid True True visitor
      (render_request (request_line m u) ((''Host'', host) # hs) body) =
    (if \<not> allowlist_admits config visitor then Respond (status_response ''403 Forbidden'' 15 (''Access denied'' @ [LF]))
     else if authenticate b64 (from_config (http_auth config)) ((''Host'', host) # hs) \<noteq> Authenticated
     then Respond (unauthorized_response (from_config (http_auth config)))
     else OpenStream conn (HttpStreamConnect sid lid (render_request (request_line m u) ((''Host'', host) # hs) body)))"
    if "\<not> is_host_line (request_line m u)"
    by (simp add: http_handle_render [OF assms(6,7,5,8) that assms(9) route] http_localup_request_def parts)
qed


text \<open>
  Only connections over QUIC are entered in the table of tunnel connections. A client that
  connected over another transport is told that its endpoints are served, and every request for them
  that its address list admits is answered 502 by both servers.
\<close>

theorem non_quic_tunnel_unreachable:
  assumes "client_connect h auth hash lid token protos config peer None None st = Returned (Ok eps, msg, st')"
    and "connection_manager st lid = None"
    and "e \<in> set eps" and "served_host h (ep_protocol e) = Some host" and "\<not> is_wildcard_pattern host"
    and "host_text host" and "word_text m" and "word_text u" and "list_all plain_header hs"
    and "\<not> is_host_line (request_line m u)" and "acme_answer challenges host u = None"
    and "allowlist_admits config visitor"
  shows "msg = Some (Connected lid eps) \<and>
    (\<forall>handle \<in> {https_handle, http_handle}.
       handle b64 challenges (route_registry st') (Some (connection_manager st')) sid opened sent_ok visitor
         (render_request (request_line m u) ((''Host'', host) # hs) body)
       = Respond (status_response ''502 Bad Gateway'' 16 (''Tunnel not found'' @ [LF])))"
proof -
  have hs: "list_all plain_header ((''Host'', host) # hs)" using host_line(1) [OF assms(6)] assms(9) by simp
  obtain meta where route: "registry_lookup (route_registry st') (HttpHost host) =
      Ok (tunnel_target lid meta (allowlist_filter config))"
    using connected_route [OF assms(1,3-5)] by blast
  have "conn_get (connection_manager st') lid = None" "get_http_authenticator (connection_manager st') lid = None"
    using connected_manager [OF assms(1)] assms(2) by (simp_all add: conn_get_def get_http_authenticator_def)
  then show ?thesis
    using client_connect_Ok(2) [OF assms(1)] assms(12)
    by (simp add: https_handle_render [OF assms(7,8,6,9,11) route] http_handle_render [OF assms(7,8,6,9-11) route]
        https_localup_request_def http_localup_request_def request_parts(1) [OF assms(7,8) hs]
        allowlist_filter_admits auth_refusal_def)
qed

text \<open>
  TCP tunnels are not filtered. Whatever address list a client asked for when it connected, every
  visitor of its TCP port, admitted by the list or not, is given a stream of the client's connection.
\<close>

theorem tcp_visitors_unfiltered:
  assumes "client_connect h auth hash lid token protos config peer (Some conn) None st = Returned (Ok eps, msg, st')"
  shows "tcp_handle (connection_manager st') lid sid (Ok ()) (Ok ()) visitor =
    OpenStream conn (TcpConnect sid (ip_display (sa_ip visitor)) (sa_port visitor))"
  using connected_manager [OF assms] by (simp add: tcp_handle_def tunnel_connections.get_put)

definition guarded_config :: TunnelConfig where
  "guarded_config = tunnel_config_default\<lparr>http_auth := AuthBearerToken [''k'']\<rparr>"

lemma guarded_connect:
  "client_connect demo_handler (Ok ''u'') (\<lambda>_ _. 0) ''t1'' ''k'' [Http (Some ''app'') None] guarded_config
     demo_peer quic None demo_state =
   Returned (Ok [demo_endpoint], Some (Connected ''t1'' [demo_endpoint]),
     demo_state\<lparr>route_registry := put_route (HttpHost ''app.relay.io'')
         (tunnel_target ''t1'' ''via-tunnel'' (allowlist_filter guarded_config)) registry_new,
       connection_manager := (case quic of
           Some conn \<Rightarrow> register_with_auth_and_token ''t1'' [demo_endpoint] conn (http_auth guarded_config) (Some ''k'') Map.empty
         | None \<Rightarrow> Map.empty)\<rparr>)"
  by (cases quic)
     (simp_all add: client_connect_def build_http_endpoint_def actual_subdomain_def https_url_def demo_endpoint_def
      register_route_def on_routes_def register_http_route_def demo_handler_def demo_state_def Let_def
      is_wildcard_pattern_def starts_with_def register_http_exact_def registry_exists_def
      registry_register_def registry_new_def with_allocated_port_def guarded_config_def)

lemma guarded_admits: "allowlist_admits guarded_config visitor"
  by (simp add: allowlist_admits_def guarded_config_def tunnel_config_default_def from_allowlist_def
      is_socket_allowed_def filter_is_allowed_def)

lemma demo_request:
  "served_host demo_handler (ep_protocol demo_endpoint) = Some ''app.relay.io''"
  "\<not> is_wildcard_pattern ''app.relay.io''" "host_text ''app.relay.io''"
  "word_text ''POST''" "word_text ''/x''" "\<not> is_host_line (request_line ''POST'' ''/x'')"
  "list_all plain_header [(''Authorization'', ''Bearer k'')]"
proof -
  show "served_host demo_handler (ep_protocol demo_endpoint) = Some ''app.relay.io''"
    by (simp add: demo_endpoint_def served_host_def demo_handler_def)
  show "\<not> is_wildcard_pattern ''app.relay.io''" by (simp add: is_wildcard_pattern_def starts_with_def)
  show "host_text ''app.relay.io''"
    by (simp add: host_text_def header_text_def LF_def trim_def is_whitespace_def)
  show "word_text ''POST''" "word_text ''/x''"
    by (simp_all add: word_text_def header_text_def LF_def is_whitespace_def)
  show "\<not> is_host_line (request_line ''POST'' ''/x'')" by code_simp
  show "list_all plain_header [(''Authorization'', ''Bearer k'')]"
    by (simp add: plain_header_def header_text_def LF_def trim_def is_whitespace_def)
qed

lemma demo_authenticated:
  "authenticate (\<lambda>_. None) (from_config (http_auth guarded_config))
     [(''Host'', ''app.relay.io''), (''Authorization'', ''Bearer k'')] = Authenticated"
  by code_simp


theorem non_quic_tunnel_unreachable_witness:
  "https_handle (\<lambda>_. None) None
     (put_route (HttpHost ''app.relay.io'') (tunnel_target ''t1'' ''via-tunnel'' (allowlist_filter guarded_config)) registry_new)
     (Some (Map.empty :: (unit, unit) TunnelConnectionManager)) 7 True True demo_peer
     (render_request ''POST /x HTTP/1.1'' [(''Host'', ''app.relay.io''), (''Authorization'', ''Bearer k'')] [1, 255])
   = Respond (status_response ''502 Bad Gateway'' 16 (''Tunnel not found'' @ [LF]))"
  using non_quic_tunnel_unreachable [OF guarded_connect [of None] _ _ demo_request(1-5,7,6) _ guarded_admits,
      of None "\<lambda>_. None" 7 True True demo_peer "[1, 255]"]
  by (simp add: demo_state_def acme_answer_def request_line_def)

theorem tcp_visitors_unfiltered_witness:
  "tcp_handle (register_with_auth_and_token ''t1'' [demo_endpoint] () (http_auth guarded_config) (Some ''k'')
        (Map.empty :: (unit, unit) TunnelConnectionManager)) ''t1'' 7 (Ok ()) (Ok ()) demo_peer =
   OpenStream () (TcpConnect 7 ''0.0.0.1'' 9)"
proof -
  have "ip_display (sa_ip demo_peer) = ''0.0.0.1''" "sa_port demo_peer = 9" by code_simp+
  then show ?thesis
    using tcp_visitors_unfiltered [OF guarded_connect [of "Some ()"], of 7 demo_peer] by simp
qed

section \<open>What reaches a tunnel\<close>

fun forwarded_to :: "'c server_action \<Rightarrow> 'c option" where
  "forwarded_to (SendRequest conn m) = Some conn"
| "forwarded_to (OpenStream conn m) = Some conn"
| "forwarded_to _ = None"

definition admitted ::
    "RouteRegistry \<Rightarrow> RouteKey \<Rightarrow> ('c, 'cb) TunnelConnectionManager option \<Rightarrow> SocketAddr \<Rightarrow> string \<Rightarrow> 'c \<Rightarrow> bool" where
  "admitted registry key manager peer lid conn \<longleftrightarrow>
     (\<exists>target m. registry_lookup registry key = Ok target \<and> is_ip_allowed target peer \<and>
        target_addr target = ''tunnel:'' @ lid \<and> manager = Some m \<and> conn_get m lid = Some conn)"

lemma tunnel_prefix: "starts_with s ''tunnel:'' \<Longrightarrow> s = ''tunnel:'' @ drop 7 s"
  by (auto simp: starts_with_iff)

lemma admittedI:
  assumes "registry_lookup registry key = Ok target" and "is_ip_allowed target peer"
    and "starts_with (target_addr target) ''tunnel:''" and "conn_get m (drop 7 (target_addr target)) = Some conn"
  shows "admitted registry key (Some m) peer (drop 7 (target_addr target)) conn"
  unfolding admitted_def using assms tunnel_prefix [OF assms(3)] by blast

lemma https_forwarded:
  assumes "forwarded_to (https_handle b64 challenges registry (Some m) sid opened sent_ok peer request) = Some conn"
  shows "\<exists>host lid. admitted registry (HttpHost host) (Some m) peer lid conn \<and> auth_refusal b64 m lid request = None"
  using assms
  by (auto simp: https_handle_def https_localup_request_def Let_def
      split: if_split_asm list.split_asm option.split_asm sum.split_asm prod.split_asm) (blast intro: admittedI)+

lemma http_forwarded:
  assumes "forwarded_to (http_handle b64 challenges registry (Some m) sid opened sent_ok peer request) = Some conn"
  shows "\<exists>host lid. admitted registry (HttpHost host) (Some m) peer lid conn \<and> auth_refusal b64 m lid request = None"
  using assms
  by (auto simp: http_handle_def http_localup_request_def Let_def
      split: if_split_asm list.split_asm option.split_asm sum.split_asm prod.split_asm) (blast intro: admittedI)+

lemma passthrough_forwarded:
  assumes "forwarded_to (passthrough_target (Some m) route opened msg direct) = Some conn"
    and "forwarded_to direct = None" and "registry_lookup registry key = Ok route" and "is_ip_allowed route peer"
  shows "\<exists>lid. admitted registry key (Some m) peer lid conn"
  using assms
  by (auto simp: passthrough_target_def Let_def intro: admittedI split: if_split_asm option.split_asm sum.split_asm)

lemma tls_forwarded:
  assumes "tls_handle registry (Some m) sid opened peer request = Returned act" and "forwarded_to act = Some conn"
  shows "\<exists>sni lid. admitted registry (TlsSni sni) (Some m) peer lid conn"
  using assms passthrough_forwarded
  by (fastforce simp: tls_handle_def sni_lookup_def elim!: and_then_ReturnedE
      split: if_split_asm sum.split_asm)

lemma http_passthrough_forwarded:
  assumes "forwarded_to (http_passthrough_handle registry (Some m) sid opened peer request) = Some conn"
  shows "\<exists>sni lid. admitted registry (TlsSni sni) (Some m) peer lid conn"
  using assms passthrough_forwarded
  by (fastforce simp: http_passthrough_handle_def sni_lookup_def split: if_split_asm option.split_asm sum.split_asm)

lemma without_manager:
  "forwarded_to (https_handle b64 challenges registry None sid opened sent_ok peer request) = None"
  "forwarded_to (http_handle b64 challenges registry None sid opened sent_ok peer request) = None"
  by (auto simp: https_handle_def http_handle_def Let_def split: list.split option.split sum.split)


text \<open>
  C3 Whatever bytes a visitor sends, they reach a tunnel's connection only through a route that admits
  the visitor's address and names that tunnel: for the HTTPS and HTTP servers the route of some host
  name, and then the request satisfies the tunnel's authentication; for the TLS and HTTP passthrough
  servers the route of some server name.
\<close>

theorem forwarded_only_if_admitted:
  "(forwarded_to (https_handle b64 challenges registry (Some m) sid opened sent_ok peer request) = Some conn \<longrightarrow>
      (\<exists>host lid. admitted registry (HttpHost host) (Some m) peer lid conn \<and> auth_refusal b64 m lid request = None)) \<and>
   (forwarded_to (http_handle b64 challenges registry (Some m) sid opened sent_ok peer request) = Some conn \<longrightarrow>
      (\<exists>host lid. admitted registry (HttpHost host) (Some m) peer lid conn \<and> auth_refusal b64 m lid request = None)) \<and>
   (\<forall>act. tls_handle registry (Some m) sid result peer request = Returned act \<longrightarrow>
      forwarded_to act = Some conn \<longrightarrow> (\<exists>sni lid. admitted registry (TlsSni sni) (Some m) peer lid conn)) \<and>
   (forwarded_to (http_passthrough_handle registry (Some m) sid result peer request) = Some conn \<longrightarrow>
      (\<exists>sni lid. admitted registry (TlsSni sni) (Some m) peer lid conn))"
  by (intro conjI impI allI)
     (erule https_forwarded http_forwarded http_passthrough_forwarded | erule (1) tls_forwarded)+

definition demo_client_hello_request :: bytes where
  "demo_client_hello_request = render_request ''GET / HTTP/1.1'' [(''Host'', ''a.b'')] []"

lemma demo_http_passthrough:
  "forwarded_to (http_passthrough_handle (put_route (TlsSni ''a.b'') (tunnel_target ''t1'' [] ip_filter_new) registry_new)
     (Some (register_with_auth_and_token ''t1'' [] () AuthNone None (Map.empty :: (unit, unit) TunnelConnectionManager)))
     7 (Ok ()) demo_peer demo_client_hello_request) = Some ()"
  by code_simp

theorem forwarded_only_if_admitted_witness:
  "\<exists>sni lid. admitted (put_route (TlsSni ''a.b'') (tunnel_target ''t1'' [] ip_filter_new) registry_new) (TlsSni sni)
     (Some (register_with_auth_and_token ''t1'' [] () AuthNone None (Map.empty :: (unit, unit) TunnelConnectionManager)))
     demo_peer lid ()"
  by (rule forwarded_only_if_admitted [THEN conjunct2, THEN conjunct2, THEN conjunct2, THEN mp, OF demo_http_passthrough])

section \<open>Responses\<close>

lemma digit_char: "is_ascii_digit c \<Longrightarrow> of_char c < (128::nat) \<and> c \<noteq> LF \<and> \<not> is_whitespace c"
  by (auto simp: is_ascii_digit_def is_whitespace_def LF_def)

lemma show_nat_header_text: "header_text (show_nat n)" "trim (show_nat n) = show_nat n"
  using show_nat_digits digit_char
  by (auto simp: header_text_def list_all_iff intro!: trim_no_whitespace)

lemma length_header_plain: "plain_header (''Content-Length'', show_nat n)"
  by (simp add: plain_header_def show_nat_header_text) (simp add: header_text_def LF_def trim_def is_whitespace_def)

lemma status_line_text: "header_text (''HTTP/1.1 '' @ show_nat n @ '' '' @ status_text status)"
  unfolding status_text.simps [of status] header_text_append
  by (simp add: show_nat_header_text) (simp add: header_text_def LF_def)

lemma https_response_render:
  fixes status :: u16 and hs :: headers and body :: "bytes option"
  defines "b \<equiv> (case body of None \<Rightarrow> [] | Some b \<Rightarrow> b)"
  shows "https_response (Some (Ok (Some (HttpResponse sid status hs body)))) =
    render_request (''HTTP/1.1 '' @ show_nat (unat status) @ '' '' @ status_text status)
      (filter (\<lambda>h. \<not> length_header h) hs @ [(''Content-Length'', show_nat (length b))]) b"
proof -
  have "show_nat 0 = ''0''" by code_simp
  then show ?thesis
    by (simp add: https_response_def render_request_def render_headers_def b_def as_bytes_def split: option.splits)
qed

text \<open>
  The HTTPS server reframes a tunnel's response: whatever lengths and encodings the tunnel declared
  are dropped, all other headers stay in order, and the declared length is the length of the body that
  follows, so that a reader of the response recovers exactly these headers and this body.
\<close>

theorem https_response_framed:
  assumes "list_all plain_header hs"
  shows "let response = https_response (Some (Ok (Some (HttpResponse sid status hs body))));
             b = (case body of None \<Rightarrow> [] | Some b \<Rightarrow> b)
         in parse_headers_from_request response =
              filter (\<lambda>h. \<not> length_header h) hs @ [(''Content-Length'', show_nat (length b))] \<and>
            body_of_request response = (if b = [] then None else Some b)"
proof -
  define b where "b = (case body of None \<Rightarrow> [] | Some b \<Rightarrow> b)"
  let ?hs = "filter (\<lambda>h. \<not> length_header h) hs @ [(''Content-Length'', show_nat (length b))]"
  have "list_all plain_header ?hs" using assms length_header_plain by (auto simp: list_all_iff)
  from parse_headers_roundtrip [OF status_line_text this] body_of_render [OF status_line_text this]
  show ?thesis by (simp add: https_response_render b_def [symmetric] Let_def)
qed


theorem https_response_framed_witness:
  "parse_headers_from_request (https_response (Some (Ok (Some (HttpResponse 7 200
      [(''Content-Length'', ''9''), (''X'', ''y'')] (Some [10, 255]))))))
   = [(''X'', ''y''), (''Content-Length'', ''2'')]"
proof -
  have "plain_header (''Content-Length'', ''9'')" "plain_header (''X'', ''y'')"
    by (simp_all add: plain_header_def header_text_def LF_def trim_def is_whitespace_def)
  moreover have "length_header (''Content-Length'', ''9'')" "\<not> length_header (''X'', ''y'')" "show_nat 2 = ''2''" by code_simp+
  ultimately show ?thesis
    using https_response_framed [of "[(''Content-Length'', ''9''), (''X'', ''y'')]" 7 200 "Some [10, 255]"]
    by (simp add: Let_def numeral_2_eq_2)
qed

text \<open>Several of the fixed answers declare a length that their body does not have.\<close>

lemma declared_lengths_wrong:
  "length (''Tunnel not found'' @ [LF]) = 17" "length (''Tunnel stream error'' @ [LF]) = 20"
  "length (''Tunnel send error'' @ [LF]) = 18" "length (''No Host header'' @ [LF]) = 15"
  "length (''Access denied'' @ [LF]) = 14" "length (''Tunnel not configured'' @ [LF]) = 22"
  by simp_all

text \<open>
  The body of a request is cut at an offset that is measured in the text decoded from its bytes. A
  byte of the head that is not valid UTF-8 is decoded to three bytes, so that the first two bytes of
  the body are lost.
\<close>

theorem non_utf8_head_cuts_body:
  assumes "header_text head"
  shows "body_of_request (as_bytes head @ 0xFF # as_bytes (crlf @ crlf) @ body) =
    (if length body \<le> 2 then None else Some (drop 2 body))"
proof -
  have lossy: "from_utf8_lossy (0xFF # as_bytes (crlf @ crlf) @ body) =
      map char_of_byte [0xEF, 0xBF, 0xBD] @ crlf @ crlf @ from_utf8_lossy body"
    using lossy_as_bytes [of "crlf @ crlf" body] crlf_ascii by (simp add: from_utf8_lossy_def)
  have "LF \<notin> set (map char_of_byte [0xEF, 0xBF, 0xBD])" by code_simp
  then have "LF \<notin> set (head @ map char_of_byte [0xEF, 0xBF, 0xBD])"
    using header_text_LF [OF assms] by simp
  from find_blank_here [OF this, of "from_utf8_lossy body"]
  have "find_sub (crlf @ crlf) (from_utf8_lossy (as_bytes head @ 0xFF # as_bytes (crlf @ crlf) @ body)) = Some (Suc (Suc (Suc (length head))))"
    by (simp add: lossy [simplified] lossy_as_bytes [OF header_text_ascii [OF assms]])
  moreover have "length crlf = 2" by (simp add: crlf_def)
  ultimately show ?thesis
    by (simp add: body_of_request_def as_bytes_def crlf_def)
qed

theorem non_utf8_head_cuts_body_witness:
  "body_of_request (as_bytes ''GET / HTTP/1.0'' @ 0xFF # as_bytes (crlf @ crlf) @ [1, 2, 3]) = Some [3]"
  using non_utf8_head_cuts_body [of "''GET / HTTP/1.0''" "[1, 2, 3]"] by (simp add: header_text_def LF_def)

section \<open>Certificates\<close>

interpretation custom_cert_table: keyed_store custom_certs add_custom_cert "\<lambda>d r. snd (remove_custom_cert d r)"
  by unfold_locales (simp_all add: add_custom_cert_def remove_custom_cert_def)

text \<open>
  A name is shown the certificate stored for it, else the one of its parent wildcard, else the default
  one; without a name the handshake gets none. After any sequence of additions and removals the
  certificate stored for a name is the one last added and not removed since.
\<close>

lemma default_cert_ops [simp]:
  "default_cert (add_custom_cert d k r) = default_cert r" "default_cert (snd (remove_custom_cert d r)) = default_cert r"
  "default_cert (resolver_new k) = k" "custom_certs (resolver_new k) d = None"
  by (simp_all add: add_custom_cert_def remove_custom_cert_def resolver_new_def)

lemma default_cert_kept: "default_cert (custom_cert_table.run_ops ops r) = default_cert r"
proof (induction ops arbitrary: r)
  case (Cons op ops)
  then show ?case by (cases op) simp_all
qed simp

lemma resolve_after:
  "resolve_cert (custom_cert_table.run_ops ops (resolver_new k)) False (Some d) =
     (case last_write ops d None of
        Some c \<Rightarrow> Some c
      | None \<Rightarrow> (case Option.bind (extract_parent_wildcard d) (\<lambda>p. last_write ops p None) of
                  Some c \<Rightarrow> Some c
                | None \<Rightarrow> Some k))"
proof -
  have "custom_certs (custom_cert_table.run_ops ops (resolver_new k)) = (\<lambda>x. last_write ops x None)"
    by (simp add: custom_cert_table.get_run_ops fun_eq_iff)
  then show ?thesis by (simp add: resolve_cert_def default_cert_kept split: option.split)
qed

end
