(* ===== verification/ClientHttp.thy ===== *)
theory ClientHttp
  imports ClientTunnel Metrics PublicServers
begin

text \<open>
  What the client does with an HTTP request that arrives as a message: it is sent over a new
  connection to the local service and the response is read back (\<open>handle_http_request_static\<close> and
  \<open>decode_chunked_body\<close> in \<open>crates/localup-client/src/localup.rs\<close>). The results of connecting, writing
  and reading are arguments, as are the identifiers and times that the metrics record.
\<close>

section \<open>One request over one connection\<close>

text \<open>
  What one read of the local connection gives: bytes, none when the service has closed the
  connection; an error; or five seconds without data, which only some of the loops notice.
\<close>

datatype local_read = LocalBytes bytes | LocalError string | LocalTimeout

definition first_http_port :: "ClientConfig \<Rightarrow> u16 option" where
  "first_http_port c = (case cc_protocols c of PcHttp p _ _ # _ \<Rightarrow> Some p | PcHttps p _ _ # _ \<Rightarrow> Some p | _ \<Rightarrow> None)"

definition local_request :: "string \<Rightarrow> string \<Rightarrow> headers \<Rightarrow> bytes" where
  "local_request req_method uri hs =
     as_bytes (req_method @ '' '' @ uri @ '' HTTP/1.1'' @ crlf
       @ concat (map (\<lambda>(n, v). n @ '': '' @ v @ crlf) hs) @ crlf)"

text \<open>The end of the head: after the first \<open>\r\n\r\n\<close> or, without one, after the first \<open>\n\n\<close>.\<close>

definition head_end :: "bytes \<Rightarrow> nat option" where
  "head_end buf =
     (case find_sub (as_bytes (crlf @ crlf)) buf of
        Some pos \<Rightarrow> Some (pos + 4)
      | None \<Rightarrow> map_option (\<lambda>pos. pos + 2) (find_sub (as_bytes [LF, LF]) buf))"

text \<open>
  Reading the head: what has been read, the end of the head, zero if the service closed the connection
  before, and the reads that are left. \<open>None\<close>: the reads are used up and the loop still waits.
\<close>

fun read_head :: "local_read list \<Rightarrow> bytes \<Rightarrow> (string, bytes \<times> nat \<times> local_read list) result option" where
  "read_head [] buf = None"
| "read_head (LocalBytes b # rs) buf =
     (if b = [] then Some (Ok (buf, 0, LocalBytes b # rs))
      else (case head_end (buf @ b) of
              Some n \<Rightarrow> Some (Ok (buf @ b, n, rs))
            | None \<Rightarrow> read_head rs (buf @ b)))"
| "read_head (LocalError e # rs) buf = Some (Err e)"
| "read_head (LocalTimeout # rs) buf = read_head rs buf"

definition response_status :: "string \<Rightarrow> u16" where
  "response_status head =
     (case Option.bind (case str_lines head of line # _ \<Rightarrow> Some line | [] \<Rightarrow> None)
             (\<lambda>line. case split_whitespace line of _ # s # _ \<Rightarrow> parse_u16 s | _ \<Rightarrow> None) of
        Some s \<Rightarrow> s
      | None \<Rightarrow> 200)"

definition response_headers :: "string \<Rightarrow> headers" where
  "response_headers head = (case str_lines head of _ # ls \<Rightarrow> header_lines ls | [] \<Rightarrow> [])"

definition declared_length :: "headers \<Rightarrow> nat option" where
  "declared_length hs =
     fold (\<lambda>(n, v) acc. if to_lowercase n = ''content-length'' then parse_uint 64 v else acc) hs None"

definition declares_chunked :: "headers \<Rightarrow> bool" where
  "declares_chunked hs =
     list_ex (\<lambda>(n, v). to_lowercase n = ''transfer-encoding'' \<and> contains_sub (to_lowercase v) ''chunked'') hs"

fun read_exact_body :: "nat \<Rightarrow> local_read list \<Rightarrow> bytes \<Rightarrow> bytes option" where
  "read_exact_body expected_len [] data = (if expected_len \<le> length data then Some data else None)"
| "read_exact_body expected_len (r # rs) data =
     (if expected_len \<le> length data then Some data
      else (case r of
              LocalBytes b \<Rightarrow> if b = [] then Some data else read_exact_body expected_len rs (data @ b)
            | LocalError _ \<Rightarrow> Some data
            | LocalTimeout \<Rightarrow> read_exact_body expected_len rs data))"

definition chunked_end :: bytes where
  "chunked_end = as_bytes (''0'' @ crlf @ crlf)"

fun read_chunked_body :: "local_read list \<Rightarrow> bytes \<Rightarrow> bytes option" where
  "read_chunked_body [] data = None"
| "read_chunked_body (LocalBytes b # rs) data =
     (if b = [] then Some data
      else if ends_with (data @ b) chunked_end \<or> ends_with (data @ b) (as_bytes crlf @ chunked_end) then Some (data @ b)
      else read_chunked_body rs (data @ b))"
| "read_chunked_body (LocalError e # rs) data = Some data"
| "read_chunked_body (LocalTimeout # rs) data = Some data"

fun read_to_close :: "local_read list \<Rightarrow> bytes \<Rightarrow> bytes option" where
  "read_to_close [] data = None"
| "read_to_close (LocalBytes b # rs) data = (if b = [] then Some data else read_to_close rs (data @ b))"
| "read_to_close (LocalError e # rs) data = Some data"
| "read_to_close (LocalTimeout # rs) data = Some data"

text \<open>\<open>usize::from_str_radix(s, 16)\<close>, like parsing a decimal number but with hexadecimal digits.\<close>

fun hex_value :: "nat \<Rightarrow> string \<Rightarrow> nat option" where
  "hex_value acc [] = Some acc"
| "hex_value acc (c # cs) =
     (case to_digit 16 c of Some d \<Rightarrow> hex_value (acc * 16 + d) cs | None \<Rightarrow> None)"

definition from_hex :: "string \<Rightarrow> nat option" where
  "from_hex s =
     (let ds = (case s of c # cs \<Rightarrow> if c = CHR ''+'' then cs else s | [] \<Rightarrow> [])
      in if ds = [] then None
         else case hex_value 0 ds of
                None \<Rightarrow> None
              | Some n \<Rightarrow> if n < 2 ^ 64 then Some n else None)"

text \<open>
  Decoding a chunked body from the byte at \<open>pos\<close> on, \<open>rest\<close>. The end of a chunk is computed in 64
  bits: if the sum overflows, a debug build panics there and a release build at the slice, whose end
  then lies before its start.
\<close>

definition chunk_size_of :: "bytes \<Rightarrow> nat option" where
  "chunk_size_of line = Option.bind (from_utf8 line) (\<lambda>s. from_hex (trim (hd (split_char CHR '';'' s))))"

function decode_chunks :: "nat \<Rightarrow> bytes \<Rightarrow> bytes outcome" where
  "decode_chunks pos rest =
     (if rest = [] then Returned []
      else
        (case find_sub (as_bytes crlf) rest of
           None \<Rightarrow> Returned []
         | Some p \<Rightarrow>
             (case chunk_size_of (take p rest) of
                None \<Rightarrow> Returned []
              | Some chunk_size \<Rightarrow>
                  if chunk_size = 0 then Returned []
                  else
                    let rest1 = drop (p + 2) rest; pos1 = pos + p + 2
                    in if pos1 + chunk_size \<ge> 2 ^ 64 then Panicked
                       else if chunk_size \<le> length rest1 then
                         let rest2 = drop chunk_size rest1;
                             skip = (if starts_with rest2 (as_bytes crlf) then 2 else 0)
                         in and_then (decode_chunks (pos1 + chunk_size + skip) (drop skip rest2))
                              (\<lambda>decoded. Returned (take chunk_size rest1 @ decoded))
                       else Returned rest1)))"
  by pat_completeness auto
termination
  by (relation "measure (\<lambda>(pos, rest). length rest)") (auto simp: Let_def)

declare decode_chunks.simps [simp del]

definition decode_chunked_body :: "bytes \<Rightarrow> bytes outcome" where
  "decode_chunked_body chunked_data = decode_chunks 0 chunked_data"

definition some_body :: "bytes \<Rightarrow> bytes option" where
  "some_body b = (if b = [] then None else Some b)"

text \<open>The response of the local service: an error, or status, headers and body.\<close>

definition read_local_response ::
    "local_read list \<Rightarrow> (string, u16 \<times> headers \<times> bytes option) result outcome option" where
  "read_local_response reads =
     (case read_head reads [] of
        None \<Rightarrow> None
      | Some (Err e) \<Rightarrow> Some (Returned (Err (''Read error: '' @ e)))
      | Some (Ok (buf, n, rs)) \<Rightarrow>
          (let head = from_utf8_lossy (take n buf); hs = response_headers head; rest = drop n buf;
               answer = (\<lambda>b. Returned (Ok (response_status head, hs, some_body b)))
           in case declared_length hs of
                Some expected_len \<Rightarrow>
                  map_option (\<lambda>b. answer (take expected_len b)) (read_exact_body expected_len rs rest)
              | None \<Rightarrow>
                  if declares_chunked hs then
                    map_option (\<lambda>b. and_then (decode_chunked_body b) answer) (read_chunked_body rs rest)
                  else map_option answer (read_to_close rs rest)))"

text \<open>
  The exchange with the local service: what was written to it, and the response or the message of the
  error that ended it. A failed write may have written a part, which is left out.
\<close>

definition local_exchange ::
    "(string, unit) result \<Rightarrow> (string, unit) result \<Rightarrow> (string, unit) result \<Rightarrow> string \<Rightarrow> string \<Rightarrow> headers \<Rightarrow>
     bytes option \<Rightarrow> local_read list \<Rightarrow> (bytes \<times> (string, u16 \<times> headers \<times> bytes option) result) outcome option" where
  "local_exchange connected wrote_head wrote_body req_method uri hs body reads =
     (let head = local_request req_method uri hs;
          failed = (\<lambda>w m. Some (Returned (w, Err m)));
          respond = (\<lambda>w. map_option (\<lambda>r. and_then r (\<lambda>x. Returned (w, x))) (read_local_response reads))
      in case connected of
           Err e \<Rightarrow> failed [] (''Failed to connect to local service: '' @ e)
         | Ok _ \<Rightarrow>
             (case wrote_head of
                Err e \<Rightarrow> failed [] (''Write error: '' @ e)
              | Ok _ \<Rightarrow>
                  (case body of
                     None \<Rightarrow> respond head
                   | Some b \<Rightarrow>
                       (case wrote_body of
                          Err e \<Rightarrow> failed head (''Write error: '' @ e)
                        | Ok _ \<Rightarrow> respond (head @ b)))))"

text \<open>What the metrics record besides the request: identifier, times, and the libraries they use.\<close>

record ('j, 'h) metrics_env =
  me_from_slice :: "bytes \<Rightarrow> 'j option"
  me_histogram :: "'h histogram"
  me_hasher :: "bytes \<Rightarrow> u64"
  me_id :: string
  me_timestamp :: u64
  me_start :: nat
  me_end :: nat
  me_duration :: u64

definition handle_http_request_static ::
    "('j, 'h) metrics_env \<Rightarrow> ClientConfig \<Rightarrow> (string, unit) result \<Rightarrow> (string, unit) result \<Rightarrow> (string, unit) result \<Rightarrow>
     local_read list \<Rightarrow> u32 \<Rightarrow> string \<Rightarrow> string \<Rightarrow> headers \<Rightarrow> bytes option \<Rightarrow> ('j, 'h) MetricsStore \<Rightarrow>
     (bytes \<times> TunnelMessage \<times> ('j, 'h) MetricsStore) outcome option" where
  "handle_http_request_static env config connected wrote_head wrote_body reads stream_id req_method uri hs body s =
     (case record_request (me_from_slice env) (me_id env) (me_timestamp env) (me_start env)
             (generate_short_id (me_hasher env) stream_id) req_method uri hs body s of
        (metric_id, s1) \<Rightarrow>
          (let failure = (\<lambda>m. record_error (me_histogram env) (me_end env) metric_id m (me_duration env) s1)
           in case first_http_port config of
                None \<Rightarrow>
                  Some (Returned ([], HttpResponse stream_id 500 [] (Some (as_bytes ''No HTTP protocol configured'')),
                    failure ''No HTTP protocol configured''))
              | Some port \<Rightarrow>
                  map_option (\<lambda>r. and_then r (\<lambda>(written, result). Returned (written,
                    case result of
                      Err m \<Rightarrow> (HttpResponse stream_id 502 [] (Some (as_bytes m)), failure m)
                    | Ok (status, resp_headers, resp_body) \<Rightarrow>
                        (HttpResponse stream_id status resp_headers resp_body,
                         record_response (me_from_slice env) (me_histogram env) (me_end env) metric_id status
                           resp_headers resp_body (me_duration env) s1))))
                    (local_exchange connected wrote_head wrote_body req_method uri hs body reads)))"

section \<open>Chunked bodies\<close>

definition encode_chunk :: "bytes \<Rightarrow> bytes" where
  "encode_chunk c = as_bytes (show_hex (length c)) @ as_bytes crlf @ c @ as_bytes crlf"

definition encode_chunked :: "bytes list \<Rightarrow> bytes" where
  "encode_chunked cs = concat (map encode_chunk cs) @ chunked_end"

lemma show_hex_unfold:
  "show_hex n = (if n < 16 then [hex_digit n] else show_hex (n div 16) @ [hex_digit (n mod 16)])"
  by (subst show_hex.simps) (simp add: Let_def hex_digit_def)

lemma to_digit_hex: "d < 16 \<Longrightarrow> to_digit 16 (hex_digit d) = Some d"
  by (simp add: to_digit_def is_ascii_digit_def is_ascii_lower_def hex_digit_def)

lemma hex_value_append: "hex_value acc (xs @ ys) = Option.bind (hex_value acc xs) (\<lambda>a. hex_value a ys)"
  by (induction xs arbitrary: acc) (simp_all split: option.split)

lemma hex_value_show_hex: "hex_value 0 (show_hex n) = Some n"
proof (induction n rule: less_induct)
  case (less n)
  show ?case
  proof (cases "n < 16")
    case True
    then show ?thesis by (simp add: show_hex_unfold [of n] to_digit_hex)
  next
    case False
    with less [of "n div 16"] show ?thesis
      by (simp add: show_hex_unfold [of n] hex_value_append to_digit_hex)
  qed
qed

lemma show_hex_chars: "c \<in> set (show_hex n) \<Longrightarrow> \<exists>d < 16. c = hex_digit d"
proof (induction n rule: less_induct)
  case (less n)
  show ?case
  proof (cases "n < 16")
    case True
    with less.prems show ?thesis by (auto simp: show_hex_unfold [of n])
  next
    case False
    with less.IH [of "n div 16"] less.prems show ?thesis
      by (auto simp: show_hex_unfold [of n] intro: exI [of _ "n mod 16"])
  qed
qed

lemma show_hex_char_code: "c \<in> set (show_hex n) \<Longrightarrow> 48 \<le> (of_char c :: nat) \<and> of_char c < (103::nat) \<and> of_char c \<noteq> (59::nat)"
  by (drule show_hex_chars) (auto simp: hex_digit_def split: if_splits)

lemma show_hex_not_Nil [simp]: "show_hex n \<noteq> []"
  by (simp add: show_hex_unfold [of n])

lemma show_hex_clean:
  "CHR '';'' \<notin> set (show_hex n)" "LF \<notin> set (show_hex n)" "CR \<notin> set (show_hex n)" "CHR ''+'' \<notin> set (show_hex n)"
  "list_all (\<lambda>c. of_char c < (128::nat)) (show_hex n)" "trim (show_hex n) = show_hex n"
proof -
  show "CHR '';'' \<notin> set (show_hex n)" "LF \<notin> set (show_hex n)" "CR \<notin> set (show_hex n)" "CHR ''+'' \<notin> set (show_hex n)"
    using show_hex_char_code [of "CHR '';''" n] show_hex_char_code [of LF n] show_hex_char_code [of CR n]
      show_hex_char_code [of "CHR ''+''" n] by (auto simp: LF_def CR_def)
  show "list_all (\<lambda>c. of_char c < (128::nat)) (show_hex n)"
    using show_hex_char_code by (fastforce simp: list_all_iff)
  have "\<not> is_whitespace c" if "c \<in> set (show_hex n)" for c
    using show_hex_char_code [OF that] by (auto simp: is_whitespace_def)
  then show "trim (show_hex n) = show_hex n"
    by (intro trim_no_whitespace) (simp add: list_all_iff)
qed

lemma chunk_size_show_hex:
  assumes "n < 2 ^ 64"
  shows "chunk_size_of (as_bytes (show_hex n)) = Some n"
proof -
  have "split_char CHR '';'' (show_hex n) = [show_hex n]"
    by (rule split_char_append(2)) (rule show_hex_clean(1))
  moreover have "from_hex (show_hex n) = Some n"
    using assms hex_value_show_hex [of n] show_hex_clean(4) [of n] show_hex_not_Nil [of n]
    by (cases "show_hex n") (auto simp: from_hex_def)
  ultimately show ?thesis
    by (simp add: chunk_size_of_def from_utf8_as_bytes [OF show_hex_clean(5)] show_hex_clean(6))
qed

lemma starts_with_map: "inj f \<Longrightarrow> starts_with (map f s) (map f p) = starts_with s p"
  by (auto simp: starts_with_def take_map inj_map_eq_map)

lemma find_sub_map: "inj f \<Longrightarrow> find_sub (map f p) (map f s) = find_sub p s"
proof (induction s)
  case (Cons a s)
  then show ?case using starts_with_map [of f "a # s" p] by simp
qed simp

lemma as_bytes_map_char [simp]: "as_bytes (map char_of_byte b) = b"
  by (simp add: as_bytes_def comp_def)

lemma find_sub_bytes: "find_sub (as_bytes p) b = find_sub p (map char_of_byte b)"
proof -
  have "inj byte_of_char" by (rule inj_on_inverseI [of _ char_of_byte]) simp
  from find_sub_map [OF this, of p "map char_of_byte b"] show ?thesis by (simp add: comp_def as_bytes_def)
qed

lemma find_line_end:
  assumes "LF \<notin> set l"
  shows "find_sub crlf (l @ crlf @ rest) = Some (length l)"
  using assms
proof (induction l)
  case Nil
  show ?case by (simp add: crlf_def starts_with_def)
next
  case (Cons c l)
  have "\<not> starts_with (c # l @ crlf @ rest) crlf"
    using Cons.prems by (cases l) (auto simp: crlf_def starts_with_def CR_def LF_def)
  with Cons show ?case by simp
qed

lemma length_crlf [simp]: "length crlf = 2"
  by (simp add: crlf_def)

lemma decode_chunks_unfold:
  assumes "find_sub (as_bytes crlf) rest = Some p" and "chunk_size_of (take p rest) = Some n" and "n \<noteq> 0" and "rest \<noteq> []"
  shows "decode_chunks pos rest =
    (if pos + p + 2 + n \<ge> 2 ^ 64 then Panicked
     else if n \<le> length (drop (p + 2) rest) then
       let rest2 = drop n (drop (p + 2) rest); skip = (if starts_with rest2 (as_bytes crlf) then 2 else 0)
       in and_then (decode_chunks (pos + p + 2 + n + skip) (drop skip rest2))
            (\<lambda>decoded. Returned (take n (drop (p + 2) rest) @ decoded))
     else Returned (drop (p + 2) rest))"
  by (subst decode_chunks.simps) (simp only: assms option.case if_False Let_def)

lemma decode_chunks_stop:
  assumes "find_sub (as_bytes crlf) rest = Some p" and "chunk_size_of (take p rest) = Some 0"
  shows "decode_chunks pos rest = Returned []"
  by (subst decode_chunks.simps) (simp add: assms)

lemma decode_chunk_step:
  assumes "c \<noteq> []" and "pos + length (encode_chunk c) < 2 ^ 64"
  shows "decode_chunks pos (encode_chunk c @ rest) =
    and_then (decode_chunks (pos + length (encode_chunk c)) rest) (\<lambda>d. Returned (c @ d))"
proof -
  let ?h = "show_hex (length c)"
  have len: "length (encode_chunk c) = length ?h + length c + 4" by (simp add: encode_chunk_def)
  have "find_sub (as_bytes crlf) (encode_chunk c @ rest) = Some (length ?h)"
    using find_line_end [OF show_hex_clean(2)] by (simp add: find_sub_bytes encode_chunk_def)
  moreover have "chunk_size_of (take (length ?h) (encode_chunk c @ rest)) = Some (length c)"
    using assms(2) chunk_size_show_hex [of "length c"] len by (simp add: encode_chunk_def)
  moreover have drop: "drop (length ?h + 2) (encode_chunk c @ rest) = c @ as_bytes crlf @ rest"
    by (simp add: encode_chunk_def)
  moreover have "encode_chunk c @ rest \<noteq> []" using len by auto
  ultimately have "decode_chunks pos (encode_chunk c @ rest) =
      and_then (decode_chunks (pos + length ?h + 2 + length c + 2) rest) (\<lambda>d. Returned (c @ d))"
    using assms len decode_chunks_unfold [of "encode_chunk c @ rest" "length ?h" "length c" pos]
    by (simp add: Let_def)
  also have "pos + length ?h + 2 + length c + 2 = pos + length (encode_chunk c)" by (simp add: len)
  finally show ?thesis .
qed

lemma decode_chunks_end: "decode_chunks pos (chunked_end @ rest) = Returned []"
proof -
  have "LF \<notin> set ''0''" by (simp add: LF_def)
  from find_line_end [OF this, of "crlf @ map char_of_byte rest"]
  have "find_sub (as_bytes crlf) (chunked_end @ rest) = Some 1"
    by (simp add: chunked_end_def find_sub_bytes)
  moreover have "take 1 (chunked_end @ rest) = as_bytes ''0''"
    by (simp add: chunked_end_def as_bytes_def)
  moreover have "hex_digit 0 = CHR ''0''" by code_simp
  then have "chunk_size_of (as_bytes ''0'') = Some 0"
    using chunk_size_show_hex [of 0] by (simp add: show_hex_unfold [of 0])
  ultimately show ?thesis by (intro decode_chunks_stop [of _ 1]) simp_all
qed

text \<open>
  C31 Decoding inverts chunked encoding: whatever non-empty chunks a service sends, in whatever sizes,
  and whatever follows the final chunk, the decoder returns exactly their concatenation, provided the
  encoding is shorter than the address space.
\<close>

theorem decode_chunked_roundtrip:
  assumes "list_all (\<lambda>c. c \<noteq> []) cs" and "length (encode_chunked cs) < 2 ^ 64"
  shows "decode_chunked_body (encode_chunked cs @ rest) = Returned (concat cs)"
proof -
  have "decode_chunks pos (encode_chunked cs @ rest) = Returned (concat cs)"
    if "pos + length (encode_chunked cs) < 2 ^ 64" for pos
    using assms(1) that
  proof (induction cs arbitrary: pos)
    case Nil
    show ?case by (simp add: encode_chunked_def decode_chunks_end)
  next
    case (Cons c cs)
    have e: "encode_chunked (c # cs) @ rest = encode_chunk c @ encode_chunked cs @ rest"
      by (simp add: encode_chunked_def)
    have "pos + length (encode_chunk c) + length (encode_chunked cs) < 2 ^ 64"
      using Cons.prems by (simp add: encode_chunked_def)
    with Cons show ?case by (simp add: e decode_chunk_step)
  qed
  from this [of 0] assms(2) show ?thesis by (simp add: decode_chunked_body_def)
qed

theorem decode_chunked_roundtrip_witness:
  "decode_chunked_body (encode_chunked [[1, 2], [13, 10, 48]] @ [7]) = Returned [1, 2, 13, 10, 48]"
proof -
  have "length (encode_chunked [[1, 2], [13, 10, 48]]) = 20" by code_simp
  then show ?thesis using decode_chunked_roundtrip [of "[[1, 2], [13, 10, 48]]" "[7]"] by simp
qed

text \<open>
  A chunk size close to the end of the address space makes the client panic: the end of the chunk
  overflows, whatever the chunk holds.
\<close>

theorem chunk_size_overflow_panics:
  assumes "n < 2 ^ 64" and "2 ^ 64 \<le> n + length (show_hex n) + 2"
  shows "decode_chunked_body (as_bytes (show_hex n) @ as_bytes crlf @ data) = Panicked"
proof -
  let ?d = "as_bytes (show_hex n) @ as_bytes crlf @ data"
  have "find_sub (as_bytes crlf) ?d = Some (length (show_hex n))"
    using find_line_end [OF show_hex_clean(2)] by (simp add: find_sub_bytes)
  moreover have "chunk_size_of (take (length (show_hex n)) ?d) = Some n"
    using chunk_size_show_hex [OF assms(1)] by simp
  moreover have "n \<noteq> 0"
  proof
    assume "n = 0"
    with assms(2) show False by (simp add: show_hex_unfold [of 0])
  qed
  moreover have "?d \<noteq> []" by (simp add: as_bytes_def crlf_def)
  ultimately show ?thesis
    using assms(2) decode_chunks_unfold [of ?d "length (show_hex n)" n 0]
    by (simp add: decode_chunked_body_def add_ac)
qed

theorem chunk_size_overflow_panics_witness:
  "decode_chunked_body (as_bytes ''ffffffffffffffff'' @ as_bytes crlf @ [1]) = Panicked"
proof -
  have "hex_digit 15 = CHR ''f''" by code_simp
  then have "show_hex (2 ^ 64 - 1) = ''ffffffffffffffff''" by (simp add: show_hex_unfold)
  then show ?thesis using chunk_size_overflow_panics [of "2 ^ 64 - 1" "[1]"] by simp
qed

section \<open>Reading the response\<close>

lemma starts_with_take: "starts_with (take k s) p \<longleftrightarrow> starts_with s p \<and> length p \<le> k \<or> p = []"
proof (cases "length p \<le> k")
  case True
  then show ?thesis by (auto simp: starts_with_def min_def)
next
  case False
  have "take (length p) (take k s) \<noteq> p"
  proof
    assume "take (length p) (take k s) = p"
    then have "length p \<le> k" by (metis length_take min.bounded_iff nat_le_linear take_take)
    with False show False by simp
  qed
  with False show ?thesis by (auto simp: starts_with_def)
qed

lemma find_sub_take:
  assumes "p \<noteq> []"
  shows "find_sub p (take k s) =
    (case find_sub p s of Some n \<Rightarrow> if n + length p \<le> k then Some n else None | None \<Rightarrow> None)"
proof (induction s arbitrary: k)
  case (Cons c s)
  show ?case
  proof (cases k)
    case 0
    with assms show ?thesis by (auto split: option.split)
  next
    case (Suc k')
    with Cons.IH [of k'] starts_with_take [of k "c # s" p] assms show ?thesis
      by (auto split: option.split)
  qed
qed (simp add: assms)

definition lines_text :: "string list \<Rightarrow> string" where
  "lines_text ls = concat (map (\<lambda>l. l @ crlf) ls)"

lemma no_blank_lf:
  assumes "list_all (\<lambda>l. LF \<notin> set l) ls"
  shows "find_sub [LF, LF] (lines_text ls) = None"
proof -
  have lf: "CR \<noteq> LF" by (simp add: CR_def LF_def)
  have skip: "find_sub [LF, LF] (l @ crlf @ rest) = None"
    if "LF \<notin> set l" "find_sub [LF, LF] rest = None" "\<not> starts_with rest [LF]" for l rest
    using that lf by (induction l) (auto simp: crlf_def starts_with_def neq_Nil_conv)
  have "\<not> starts_with (lines_text ls) [LF]"
    using assms lf by (cases ls; cases "hd ls") (auto simp: lines_text_def starts_with_def crlf_def)
  then show ?thesis using assms
  proof (induction ls)
    case (Cons l ls)
    have "\<not> starts_with (lines_text ls) [LF]"
      using Cons.prems lf by (cases ls; cases "hd ls") (auto simp: lines_text_def starts_with_def crlf_def)
    with Cons skip [of l "lines_text ls"] show ?case by (simp add: lines_text_def)
  qed (simp add: lines_text_def)
qed

definition head_text :: "string \<Rightarrow> headers \<Rightarrow> string" where
  "head_text line hs = line @ crlf @ render_headers hs @ crlf"

lemma render_request_head: "render_request line hs body = as_bytes (head_text line hs) @ body"
  by (simp add: render_request_def head_text_def)

lemma head_text_lines:
  assumes "LF \<notin> set line" "list_all plain_header hs"
  shows "\<exists>ls. head_text line hs = lines_text ls \<and> list_all (\<lambda>l. LF \<notin> set l) ls"
proof (intro exI conjI)
  let ?ls = "line # map (\<lambda>(n, v). n @ '': '' @ v) hs @ [[]]"
  show "head_text line hs = lines_text ?ls"
    by (simp add: head_text_def lines_text_def render_headers_def case_prod_unfold comp_def)
  show "list_all (\<lambda>l. LF \<notin> set l) ?ls"
    using assms plain_header_line(1) by (auto simp: list_all_iff)
qed

lemma head_end_render:
  assumes "header_text line" and "list_all plain_header hs"
  shows "head_end (take k (render_request line hs body)) =
    (if length (head_text line hs) \<le> k then Some (length (head_text line hs)) else None)"
proof -
  let ?full = "render_request line hs body" and ?n = "length line + length (render_headers hs)"
  have len: "length (head_text line hs) = ?n + 4" by (simp add: head_text_def)
  have chars: "map char_of_byte ?full = line @ crlf @ render_headers hs @ crlf @ map char_of_byte body"
    by (simp add: render_request_def)
  have "find_sub (as_bytes (crlf @ crlf)) ?full = Some ?n"
    using find_blank_render [OF assms(2) header_text_LF [OF assms(1)]]
    unfolding find_sub_bytes [of "crlf @ crlf"] chars .
  moreover have "as_bytes (crlf @ crlf) \<noteq> []" by (simp add: as_bytes_def crlf_def)
  ultimately have blank: "find_sub (as_bytes (crlf @ crlf)) (take k ?full) = (if ?n + 4 \<le> k then Some ?n else None)"
    by (simp add: find_sub_take)
  have "find_sub (as_bytes [LF, LF]) (take k ?full) = None" if "k < ?n + 4"
  proof -
    have "take k ?full = take k (as_bytes (head_text line hs))" using that len by (simp add: render_request_head)
    moreover have "find_sub (as_bytes [LF, LF]) (as_bytes (head_text line hs)) = None"
      using head_text_lines [OF header_text_LF [OF assms(1)] assms(2)] no_blank_lf by (auto simp: find_sub_bytes)
    ultimately show ?thesis by (simp add: find_sub_take as_bytes_def)
  qed
  with blank len show ?thesis by (simp add: head_end_def)
qed

lemma read_head_segments:
  assumes "\<And>k. head_end (take k full) = (if n \<le> k then Some n else None)"
    and "list_all (\<lambda>b. b \<noteq> []) bs" and "buf @ concat bs = full" and "length buf < n" and "n \<le> length full"
  shows "\<exists>pre post. bs = pre @ post \<and> n \<le> length (buf @ concat pre) \<and>
    read_head (map LocalBytes bs @ later) buf = Some (Ok (buf @ concat pre, n, map LocalBytes post @ later))"
  using assms(2-4)
proof (induction bs arbitrary: buf)
  case Nil
  with assms(5) show ?case by simp
next
  case (Cons b bs)
  have pre: "buf @ b = take (length (buf @ b)) full" using Cons.prems(2) by (metis append.assoc append_eq_conv_conj concat.simps(2))
  show ?case
  proof (cases "n \<le> length (buf @ b)")
    case True
    then have "head_end (buf @ b) = Some n" using pre assms(1) [of "length (buf @ b)"] by metis
    with True Cons.prems(1) have "b # bs = [b] @ bs \<and> n \<le> length (buf @ concat [b]) \<and>
        read_head (map LocalBytes (b # bs) @ later) buf = Some (Ok (buf @ concat [b], n, map LocalBytes bs @ later))"
      by simp
    then show ?thesis by blast
  next
    case False
    then have "head_end (buf @ b) = None" using pre assms(1) [of "length (buf @ b)"] by metis
    moreover obtain pre post where "bs = pre @ post" "n \<le> length ((buf @ b) @ concat pre)"
      "read_head (map LocalBytes bs @ later) (buf @ b) = Some (Ok ((buf @ b) @ concat pre, n, map LocalBytes post @ later))"
      using Cons.IH [of "buf @ b"] Cons.prems False by auto
    ultimately have "b # bs = (b # pre) @ post \<and> n \<le> length (buf @ concat (b # pre)) \<and>
        read_head (map LocalBytes (b # bs) @ later) buf = Some (Ok (buf @ concat (b # pre), n, map LocalBytes post @ later))"
      using Cons.prems(1) by simp
    then show ?thesis by blast
  qed
qed

lemma read_exact_segments:
  assumes "list_all (\<lambda>b. b \<noteq> []) bs" and "n \<le> length (data @ concat bs)"
  shows "\<exists>got. read_exact_body n (map LocalBytes bs @ later) data = Some got \<and> take n got = take n (data @ concat bs)"
  using assms
proof (induction bs arbitrary: data)
  case Nil
  then show ?case by (cases later) simp_all
next
  case (Cons b bs)
  then show ?case using Cons.IH [of "data @ b"] by (cases "n \<le> length data") simp_all
qed

lemma response_head:
  assumes "header_text line" and "list_all plain_header hs"
  shows "response_headers (head_text line hs) = hs"
    and "response_status (head_text line hs) =
      (case split_whitespace line of _ # s # _ \<Rightarrow> (case parse_u16 s of Some x \<Rightarrow> x | None \<Rightarrow> 200) | _ \<Rightarrow> 200)"
  using str_lines_crlf [OF header_text_LF [OF assms(1)]] str_lines_headers [OF assms(2), of "[]"]
  by (simp_all add: response_headers_def response_status_def head_text_def split: list.split option.split)

text \<open>
  However the network cuts a response into pieces, the client reads its status, all its headers and
  exactly its body, when the response declares the length of the body.
\<close>

lemma read_response_segments:
  assumes "header_text line" and "list_all plain_header hs" and "declared_length hs = Some (length body)"
    and "list_all (\<lambda>b. b \<noteq> []) bs" and "concat bs = render_request line hs body"
  shows "read_local_response (map LocalBytes bs @ later) =
    Some (Returned (Ok (response_status (head_text line hs), hs, some_body body)))"
proof -
  let ?n = "length (head_text line hs)" and ?full = "render_request line hs body"
  have full: "take ?n ?full = as_bytes (head_text line hs)" "drop ?n ?full = body" "?n \<le> length ?full" "0 < ?n"
    by (simp_all add: render_request_head) (simp add: head_text_def crlf_def)
  obtain pre post where split: "bs = pre @ post" "?n \<le> length (concat pre)"
    and head: "read_head (map LocalBytes bs @ later) [] = Some (Ok (concat pre, ?n, map LocalBytes post @ later))"
    using read_head_segments [of ?full ?n bs "[]" later, OF head_end_render [OF assms(1,2)]] assms(4,5) full by auto
  have cut: "take ?n (concat pre) = take ?n ?full" "drop ?n (concat pre) @ concat post = body"
    using split assms(5) full(2) by (metis append_Nil2 concat_append diff_is_0_eq' take0 take_append)
      (metis assms(5) concat_append diff_is_0_eq' drop0 drop_append full(2) split)
  have "list_all (\<lambda>c. of_char c < (128::nat)) (head_text line hs)"
    using render_headers_ascii [OF assms(2)] header_text_ascii [OF assms(1)] crlf_ascii by (simp add: head_text_def)
  from lossy_as_bytes [OF this, of "[]"] have lossy: "from_utf8_lossy (take ?n (concat pre)) = head_text line hs"
    using cut(1) full(1) by (simp add: from_utf8_lossy_def)
  obtain got where "read_exact_body (length body) (map LocalBytes post @ later) (drop ?n (concat pre)) = Some got"
    "take (length body) got = body"
    using read_exact_segments [of post "length body" "drop ?n (concat pre)" later] assms(4) split(1) cut(2)
    by auto
  then show ?thesis
    by (simp add: read_local_response_def head lossy Let_def response_head(1) [OF assms(1,2)] assms(3))
qed


lemma local_request_render: "local_request m u hs @ body = render_request (request_line m u) hs body"
  by (simp add: local_request_def render_request_def render_headers_def request_line_def)

text \<open>What the client writes to the local service is the request line, the headers and the body of the message.\<close>

lemma exchange_writes:
  "local_exchange (Ok ()) (Ok ()) (Ok ()) m u hs body reads =
     map_option (\<lambda>r. and_then r (\<lambda>x. Returned (render_request (request_line m u) hs (case body of None \<Rightarrow> [] | Some b \<Rightarrow> b), x)))
       (read_local_response reads)"
proof (cases body)
  case None
  with local_request_render [of m u hs "[]"] show ?thesis by (simp add: local_exchange_def Let_def)
next
  case (Some b)
  with local_request_render [of m u hs b] show ?thesis by (simp add: local_exchange_def Let_def)
qed

text \<open>
  A request that arrives as a message reaches the local service as it was, and the service's
  response comes back as it was: the client writes the request line, every header in order and the
  body, and, however the network cuts the response into pieces, answers with its status, its headers
  in order and exactly the body whose length it declares.
\<close>

lemma http_message_exchange:
  assumes "first_http_port config = Some port"
    and "header_text line" and "split_whitespace line = version # code # reason" and "parse_u16 code = Some status"
    and "list_all plain_header rhs" and "declared_length rhs = Some (length rbody)"
    and "list_all (\<lambda>b. b \<noteq> []) bs" and "concat bs = render_request line rhs rbody"
  shows "\<exists>s'. handle_http_request_static env config (Ok ()) (Ok ()) (Ok ()) (map LocalBytes bs @ later) sid m u hs body s =
    Some (Returned (render_request (request_line m u) hs (case body of None \<Rightarrow> [] | Some b \<Rightarrow> b),
      HttpResponse sid status rhs (some_body rbody), s'))"
proof -
  have "response_status (head_text line rhs) = status"
    using assms(3,4) by (simp add: response_head(2) [OF assms(2,5)])
  then show ?thesis
    using read_response_segments [OF assms(2,5-8), of later] assms(1)
    by (simp add: handle_http_request_static_def exchange_writes split: prod.split)
qed

lemma head_end_prefix: "head_end s = None \<Longrightarrow> head_end (take k s) = None"
  by (simp add: head_end_def find_sub_take as_bytes_def crlf_def split: option.splits)

text \<open>
  A service that closes the connection before its response head is complete is reported as a success:
  the client answers with status 200, no headers, and whatever bytes the service sent as the body.
\<close>

theorem early_close_reported_ok:
  assumes "first_http_port config = Some port" and "list_all (\<lambda>b. b \<noteq> []) bs" and "head_end (concat bs) = None"
  shows "\<exists>s'. handle_http_request_static env config (Ok ()) (Ok ()) (Ok ()) (map LocalBytes bs @ [LocalBytes []]) sid m u hs body s =
    Some (Returned (render_request (request_line m u) hs (case body of None \<Rightarrow> [] | Some b \<Rightarrow> b),
      HttpResponse sid 200 [] (some_body (concat bs)), s'))"
proof -
  have "read_head (map LocalBytes cs @ rs) buf = read_head rs (buf @ concat cs)"
    if "list_all (\<lambda>b. b \<noteq> []) cs" "\<And>k. head_end (buf @ concat (take k cs)) = None" for cs rs buf
    using that
  proof (induction cs arbitrary: buf)
    case (Cons c cs)
    have "head_end ((buf @ c) @ concat (take k cs)) = None" for k using Cons.prems(2) [of "Suc k"] by simp
    moreover from this [of 0] have "head_end (buf @ c) = None" by simp
    ultimately show ?case using Cons.prems(1) Cons.IH [of "buf @ c"] by simp
  qed simp
  moreover have "head_end (concat (take k bs)) = None" for k
    using head_end_prefix [OF assms(3), of "length (concat (take k bs))"]
    by (metis append_eq_conv_conj append_take_drop_id concat_append)
  ultimately have "read_head (map LocalBytes bs @ [LocalBytes []]) [] = Some (Ok (concat bs, 0, [LocalBytes []]))"
    using assms(2) by simp
  moreover have "response_status [] = 200" "response_headers [] = []"
    by (simp_all add: response_status_def response_headers_def str_lines.simps [of "[]"])
  ultimately have "read_local_response (map LocalBytes bs @ [LocalBytes []]) = Some (Returned (Ok (200, [], some_body (concat bs))))"
    by (simp add: read_local_response_def Let_def from_utf8_lossy_def declared_length_def declares_chunked_def)
  then show ?thesis
    using assms(1) by (simp add: handle_http_request_static_def exchange_writes split: prod.split)
qed

definition demo_http_config :: ClientConfig where
  "demo_http_config = client_config_default\<lparr>cc_protocols := [PcHttp 3000 None None]\<rparr>"

definition demo_metrics_env :: "(unit, unit) metrics_env" where
  "demo_metrics_env =
     \<lparr>me_from_slice = (\<lambda>_. None),
      me_histogram = \<lparr>hist_empty = (), hist_record = (\<lambda>_ _. None), hist_summary = (\<lambda>_. None)\<rparr>,
      me_hasher = (\<lambda>_. 5), me_id = ''m1'', me_timestamp = 3, me_start = 0, me_end = 1, me_duration = 2\<rparr>"

theorem early_close_reported_ok_witness:
  "\<exists>s'. handle_http_request_static demo_metrics_env demo_http_config (Ok ()) (Ok ()) (Ok ())
       (map LocalBytes [[72, 84], [84, 80]] @ [LocalBytes []]) 7 ''GET'' ''/'' [] None (metrics_new (me_histogram demo_metrics_env) 9) =
     Some (Returned (render_request ''GET / HTTP/1.1'' [] [], HttpResponse 7 200 [] (Some [72, 84, 84, 80]), s'))"
proof -
  have "head_end [72, 84, 84, 80] = None" by code_simp
  then show ?thesis
    using early_close_reported_ok [of demo_http_config 3000 "[[72, 84], [84, 80]]" demo_metrics_env 7 "''GET''" "''/''" "[]" None
        "metrics_new (me_histogram demo_metrics_env) 9"]
    by (simp add: first_http_port_def demo_http_config_def request_line_def some_body_def)
qed

end
