(* ===== verification/ClientProxy.thy ===== *)
theory ClientProxy
  imports ClientHttp
begin

text \<open>
  The client's HTTP proxy (\<open>crates/localup-client/src/http_proxy.rs\<close>) with its pool of connections to
  the local service, and the stream of requests that uses it (\<open>handle_http_transparent_stream\<close> in
  \<open>crates/localup-client/src/localup.rs\<close>). The libraries that parse requests (httparse) and speak HTTP to
  the local service (hyper) are parameters.
\<close>

section \<open>The proxy\<close>

datatype ProxyError =
    ConnectionFailed string
  | InvalidRequest string
  | RequestFailed string
  | ResponseError string

fun proxy_error_display :: "ProxyError \<Rightarrow> string" where
  "proxy_error_display (ConnectionFailed e) = ''Connection failed: '' @ e"
| "proxy_error_display (InvalidRequest e) = ''Invalid request: '' @ e"
| "proxy_error_display (RequestFailed e) = ''Request failed: '' @ e"
| "proxy_error_display (ResponseError e) = ''Response error: '' @ e"

text \<open>The requests and responses of hyper, as far as the proxy looks at them.\<close>

record hyper_request =
  hr_method :: string
  hr_uri :: string
  hr_headers :: "(string \<times> bytes) list"
  hr_body :: bytes

record hyper_response =
  hs_status :: u16
  hs_headers :: "(string \<times> bytes) list"
  hs_body :: "(string, bytes) result"

text \<open>
  The libraries: parsing a request head (an error; nothing if it is incomplete; method, path, headers
  and length of the head), building a request, reading a header value as text, the text of a status.
\<close>

record proxy_lib =
  pl_httparse :: "bytes \<Rightarrow> (string, (string option \<times> string option \<times> (string \<times> bytes) list \<times> nat) option) result"
  pl_build :: "string \<Rightarrow> string \<Rightarrow> (string \<times> bytes) list \<Rightarrow> bytes \<Rightarrow> (string, hyper_request) result"
  pl_to_str :: "bytes \<Rightarrow> string option"
  pl_reason :: "u16 \<Rightarrow> string option"

definition parse_request :: "proxy_lib \<Rightarrow> bytes \<Rightarrow> (ProxyError, hyper_request \<times> nat) result" where
  "parse_request lib data =
     (case pl_httparse lib data of
        Err e \<Rightarrow> Err (InvalidRequest (''Invalid HTTP request: '' @ e))
      | Ok None \<Rightarrow> Err (InvalidRequest ''Incomplete HTTP request'')
      | Ok (Some (req_method, path, hs, header_len)) \<Rightarrow>
          (case pl_build lib (case req_method of Some m \<Rightarrow> m | None \<Rightarrow> ''GET'') (case path of Some p \<Rightarrow> p | None \<Rightarrow> ''/'') hs
                  (drop header_len data) of
             Err e \<Rightarrow> Err (InvalidRequest (''Failed to build request: '' @ e))
           | Ok request \<Rightarrow> Ok (request, header_len)))"

definition is_text_content_type :: "string \<Rightarrow> bool" where
  "is_text_content_type content_type =
     find_subs [''json'', ''html'', ''xml'', ''text/'', ''javascript'', ''css''] (to_lowercase content_type)"

definition header_strings :: "proxy_lib \<Rightarrow> (string \<times> bytes) list \<Rightarrow> headers" where
  "header_strings lib hs = map (\<lambda>(n, v). (n, case pl_to_str lib v of Some s \<Rightarrow> s | None \<Rightarrow> [])) hs"

definition MAX_CAPTURE :: nat where
  "MAX_CAPTURE = 524288"

text \<open>Status, headers, raw bytes and the body captured for the metrics.\<close>

definition serialize_response ::
    "proxy_lib \<Rightarrow> hyper_response \<Rightarrow> (ProxyError, u16 \<times> headers \<times> bytes \<times> bytes option) result" where
  "serialize_response lib response =
     (let status = hs_status response;
          kept = filter (\<lambda>h. \<not> length_header h) (header_strings lib (hs_headers response));
          is_text = fold (\<lambda>(n, v) acc. if to_lowercase n = ''content-type'' then is_text_content_type v else acc) kept False
      in case hs_body response of
           Err e \<Rightarrow> Err (ResponseError (''Failed to read response body: '' @ e))
         | Ok body \<Rightarrow>
             (let hs = kept @ [(''content-length'', show_nat (length body))];
                  raw = as_bytes (''HTTP/1.1 '' @ show_nat (unat status) @ '' ''
                          @ (case pl_reason lib status of Some r \<Rightarrow> r | None \<Rightarrow> ''OK'') @ crlf
                          @ concat (map (\<lambda>(n, v). n @ '': '' @ v @ crlf) hs) @ crlf) @ body
              in Ok (status, hs, raw, if is_text \<and> length body \<le> MAX_CAPTURE then Some body else None)))"

text \<open>
  The pool. Whether a connection can still be used changes with time, so that it is asked with one
  predicate when a connection is taken and with another when it is returned.
\<close>

definition MAX_POOL_SIZE :: nat where
  "MAX_POOL_SIZE = 10"

definition get_connection ::
    "('k \<Rightarrow> bool) \<Rightarrow> (ProxyError, 'k) result \<Rightarrow> 'k list \<Rightarrow> (ProxyError, 'k) result \<times> 'k list" where
  "get_connection is_ready connect pool =
     (case dropWhile (\<lambda>c. \<not> is_ready c) (rev pool) of
        c # cs \<Rightarrow> (Ok c, rev cs)
      | [] \<Rightarrow> (connect, []))"

definition return_connection :: "('k \<Rightarrow> bool) \<Rightarrow> 'k \<Rightarrow> 'k list \<Rightarrow> 'k list" where
  "return_connection is_ready sender pool =
     (if is_ready sender \<and> length pool < MAX_POOL_SIZE then pool @ [sender] else pool)"

text \<open>What the surroundings contribute to one call: readiness, the new connection, the answer.\<close>

record ('k, 'j, 'h) proxy_env =
  pe_metrics :: "('j, 'h) metrics_env"
  pe_ready_before :: "'k \<Rightarrow> bool"
  pe_ready_after :: "'k \<Rightarrow> bool"
  pe_connect :: "(ProxyError, 'k) result"
  pe_send :: "'k \<Rightarrow> hyper_request \<Rightarrow> (string, hyper_response) result"

definition captured_request_body :: "headers \<Rightarrow> bytes \<Rightarrow> nat \<Rightarrow> bytes option" where
  "captured_request_body hs data header_len =
     (if header_len < length data then
        (let body = drop header_len data;
             content_type = (case find (\<lambda>(k, _). to_lowercase k = ''content-type'') hs of Some (_, v) \<Rightarrow> v | None \<Rightarrow> [])
         in if is_text_content_type content_type \<and> length body \<le> MAX_CAPTURE then Some body else None)
      else None)"

text \<open>The result: metric, status and raw response, or an error; the pool and the metrics after it.\<close>

definition forward_request ::
    "proxy_lib \<Rightarrow> ('k, 'j, 'h) proxy_env \<Rightarrow> string \<Rightarrow> bytes \<Rightarrow> 'k list \<times> ('j, 'h) MetricsStore \<Rightarrow>
     (ProxyError, string \<times> u16 \<times> bytes) result \<times> 'k list \<times> ('j, 'h) MetricsStore" where
  "forward_request lib env stream_id data st =
     (case st of (pool, s) \<Rightarrow>
        let me = pe_metrics env in
        case parse_request lib data of
          Err e \<Rightarrow> (Err e, pool, s)
        | Ok (request, header_len) \<Rightarrow>
            (let req_headers = header_strings lib (hr_headers request) in
             case record_request (me_from_slice me) (me_id me) (me_timestamp me) (me_start me) stream_id
                    (hr_method request) (hr_uri request) req_headers
                    (captured_request_body req_headers data header_len) s of
               (metric_id, s1) \<Rightarrow>
                 (case get_connection (pe_ready_before env) (pe_connect env) pool of
                    (Err e, pool1) \<Rightarrow> (Err e, pool1, s1)
                  | (Ok sender, pool1) \<Rightarrow>
                      (case pe_send env sender request of
                         Err e \<Rightarrow> (Err (RequestFailed (''Failed to send request: '' @ e)), pool1, s1)
                       | Ok response \<Rightarrow>
                           (let pool2 = return_connection (pe_ready_after env) sender pool1 in
                            case serialize_response lib response of
                              Err e \<Rightarrow> (Err e, pool2, s1)
                            | Ok (status, hs, raw, body) \<Rightarrow>
                                (Ok (metric_id, status, raw), pool2,
                                 record_response (me_from_slice me) (me_histogram me) (me_end me) metric_id status hs body
                                   (me_duration me) s1))))))"

definition forward_request_safe ::
    "proxy_lib \<Rightarrow> ('k, 'j, 'h) proxy_env \<Rightarrow> string \<Rightarrow> bytes \<Rightarrow> 'k list \<times> ('j, 'h) MetricsStore \<Rightarrow>
     (bytes \<times> string option) \<times> 'k list \<times> ('j, 'h) MetricsStore" where
  "forward_request_safe lib env stream_id data st =
     (case forward_request lib env stream_id data st of
        (Ok (metric_id, _, raw), st') \<Rightarrow> ((raw, Some metric_id), st')
      | (Err e, st') \<Rightarrow>
          ((as_bytes (''HTTP/1.1 502 Bad Gateway'' @ crlf @ ''Content-Type: text/plain'' @ crlf
              @ ''Content-Length: '' @ show_nat (length (proxy_error_display e)) @ crlf @ crlf @ proxy_error_display e),
            None), st'))"

section \<open>The stream of requests\<close>

definition is_websocket_upgrade :: "bytes \<Rightarrow> bool" where
  "is_websocket_upgrade data =
     find_subs [''upgrade: websocket'', ''connection: upgrade''] (to_lowercase (from_utf8_lossy data))"

definition looks_like_http_request :: "bytes \<Rightarrow> bool" where
  "looks_like_http_request data \<longleftrightarrow>
     4 \<le> length data \<and>
     starts_with_any [''GET '', ''POST '', ''PUT '', ''DELETE '', ''PATCH '', ''HEAD '', ''OPTIONS '', ''CONNECT '', ''TRACE ''] data"

text \<open>
  What the stream's task does next: go on reading, stop without a word, stop with a close message, or
  hand the stream to the loops that copy bytes.
\<close>

datatype stream_next = GoOn | Stop | StopWithClose | SwitchToRaw bytes

definition transparent_start ::
    "proxy_lib \<Rightarrow> ('k, 'j, 'h) proxy_env \<Rightarrow> ('j, 'h) metrics_env \<Rightarrow> u32 \<Rightarrow> bytes \<Rightarrow> bool \<Rightarrow> ('j, 'h) MetricsStore \<Rightarrow>
     TunnelMessage list \<times> stream_next \<times> 'k list \<times> ('j, 'h) MetricsStore" where
  "transparent_start lib env err_env stream_id initial_data send_ok s =
     (if is_websocket_upgrade initial_data then ([], SwitchToRaw initial_data, [], s)
      else
        let base = generate_short_id (me_hasher (pe_metrics env)) stream_id in
        case forward_request lib env base initial_data ([], s) of
          (Ok (_, _, raw), pool, s1) \<Rightarrow>
            if send_ok then ([HttpStreamData stream_id raw], GoOn, pool, s1) else ([], Stop, pool, s1)
        | (Err e, pool, s1) \<Rightarrow>
            (case record_request (me_from_slice err_env) (me_id err_env) (me_timestamp err_env) (me_start err_env) base
                    ''UNKNOWN'' ''/'' [] None s1 of
               (err_id, s2) \<Rightarrow>
                 ([], StopWithClose, pool,
                  record_error (me_histogram err_env) (me_end err_env) err_id (proxy_error_display e) 0 s2)))"

definition keep_alive_step ::
    "proxy_lib \<Rightarrow> ('k, 'j, 'h) proxy_env \<Rightarrow> u32 \<Rightarrow> recv_result \<Rightarrow> bool \<Rightarrow> u32 \<times> 'k list \<times> ('j, 'h) MetricsStore \<Rightarrow>
     TunnelMessage list \<times> stream_next \<times> u32 \<times> 'k list \<times> ('j, 'h) MetricsStore" where
  "keep_alive_step lib env stream_id received send_ok st =
     (case st of (request_num, pool, s) \<Rightarrow>
        case received of
          Message (HttpStreamData _ data) \<Rightarrow>
            if \<not> looks_like_http_request data then ([], GoOn, st)
            else
              let n = request_num + 1;
                  req_stream_id = generate_short_id (me_hasher (pe_metrics env)) stream_id @ ''-'' @ show_nat (unat n)
              in if is_websocket_upgrade data then ([], SwitchToRaw data, n, pool, s)
                 else (case forward_request lib env req_stream_id data (pool, s) of
                         (Ok (_, _, raw), st') \<Rightarrow>
                           if send_ok then ([HttpStreamData stream_id raw], GoOn, n, st') else ([], StopWithClose, n, st')
                       | (Err e, st') \<Rightarrow> ([], GoOn, n, st'))
        | Message (HttpStreamClose _) \<Rightarrow> ([], StopWithClose, st)
        | StreamEnd \<Rightarrow> ([], StopWithClose, st)
        | RecvError \<Rightarrow> ([], StopWithClose, st)
        | Message _ \<Rightarrow> ([], GoOn, st))"

text \<open>The loop over what arrives, each with the surroundings of its step; the messages sent.\<close>

fun keep_alive ::
    "proxy_lib \<Rightarrow> u32 \<Rightarrow> (('k, 'j, 'h) proxy_env \<times> recv_result \<times> bool) list \<Rightarrow> u32 \<times> 'k list \<times> ('j, 'h) MetricsStore \<Rightarrow>
     TunnelMessage list \<times> stream_next \<times> u32 \<times> 'k list \<times> ('j, 'h) MetricsStore" where
  "keep_alive lib stream_id [] st = ([], GoOn, st)"
| "keep_alive lib stream_id ((env, received, send_ok) # es) st =
     (case keep_alive_step lib env stream_id received send_ok st of
        (ms, GoOn, st') \<Rightarrow> (case keep_alive lib stream_id es st' of (ms', r) \<Rightarrow> (ms @ ms', r))
      | (ms, StopWithClose, st') \<Rightarrow> (ms @ [HttpStreamClose stream_id], StopWithClose, st')
      | (ms, r) \<Rightarrow> (ms, r))"

section \<open>Properties of the proxy\<close>

lemma declared_length_last:
  "to_lowercase n = ''content-length'' \<Longrightarrow> declared_length (hs @ [(n, v)]) = parse_uint 64 v"
  by (simp add: declared_length_def)

lemma serialize_render:
  assumes "serialize_response lib response = Ok (status, hs, raw, captured)"
  obtains body where "hs_body response = Ok body" and "status = hs_status response"
    and "hs = filter (\<lambda>h. \<not> length_header h) (header_strings lib (hs_headers response)) @ [(''content-length'', show_nat (length body))]"
    and "raw = render_request (''HTTP/1.1 '' @ show_nat (unat status) @ '' '' @ (case pl_reason lib status of Some r \<Rightarrow> r | None \<Rightarrow> ''OK'')) hs body"
  using assms
  by (auto simp: serialize_response_def Let_def render_request_def render_headers_def split: sum.split_asm)

lemma content_length_plain: "plain_header (''content-length'', show_nat n)"
  by (simp add: plain_header_def show_nat_header_text) (simp add: header_text_def LF_def trim_def is_whitespace_def)

lemma status_line_split:
  assumes "header_text reason"
  shows "\<exists>rest. split_whitespace (''HTTP/1.1 '' @ show_nat n @ '' '' @ reason) = ''HTTP/1.1'' # show_nat n # rest"
proof -
  have v: "word_text ''HTTP/1.1''" by (simp add: word_text_def header_text_def LF_def is_whitespace_def)
  have "word_text (show_nat n)"
    using show_nat_digits digit_char by (auto simp: word_text_def show_nat_header_text list_all_iff)
  from split_whitespace_word [OF this, of reason] split_whitespace_word [OF v, of "show_nat n @ '' '' @ reason"]
  show ?thesis by simp
qed

text \<open>
  The proxy's responses are well framed: whatever lengths and encodings the local service declared,
  and however the response is cut into pieces on its way, a reader finds the service's status, its
  other headers in order followed by the length of the body, and exactly the body.
\<close>

lemma proxy_response_framed:
  assumes "serialize_response lib response = Ok (status, hs, raw, captured)" and "hs_body response = Ok body"
    and "list_all plain_header (header_strings lib (hs_headers response))"
    and "header_text (case pl_reason lib (hs_status response) of Some r \<Rightarrow> r | None \<Rightarrow> ''OK'')"
    and "length body < 2 ^ 64" and "list_all (\<lambda>b. b \<noteq> []) bs" and "concat bs = raw"
  shows "read_local_response (map LocalBytes bs @ later) =
    Some (Returned (Ok (hs_status response,
      filter (\<lambda>h. \<not> length_header h) (header_strings lib (hs_headers response)) @ [(''content-length'', show_nat (length body))],
      some_body body)))"
proof -
  let ?reason = "case pl_reason lib (hs_status response) of Some r \<Rightarrow> r | None \<Rightarrow> ''OK''"
  let ?line = "''HTTP/1.1 '' @ show_nat (unat (hs_status response)) @ '' '' @ ?reason"
  let ?hs = "filter (\<lambda>h. \<not> length_header h) (header_strings lib (hs_headers response)) @ [(''content-length'', show_nat (length body))]"
  have raw: "concat bs = render_request ?line ?hs body"
    using assms(1,2,7) by (auto elim!: serialize_render)
  have "header_text ''HTTP/1.1 ''" "header_text '' ''" by (simp_all add: header_text_def LF_def)
  then have line: "header_text ?line"
    using assms(4) show_nat_header_text(1) by (simp only: header_text_append simp_thms)
  have plain: "list_all plain_header ?hs" using assms(3) content_length_plain by (auto simp: list_all_iff)
  have "to_lowercase ''content-length'' = ''content-length''" by code_simp
  then have len: "declared_length ?hs = Some (length body)"
    using parse_uint_show_nat [OF assms(5)] by (simp add: declared_length_last)
  have "unat (hs_status response) < 2 ^ 16" using unat_u16_bound by simp
  then have "parse_u16 (show_nat (unat (hs_status response))) = Some (hs_status response)"
    by (simp add: parse_u16_def parse_uint_show_nat)
  moreover obtain rest where "split_whitespace ?line = ''HTTP/1.1'' # show_nat (unat (hs_status response)) # rest"
    using status_line_split [OF assms(4), of "unat (hs_status response)"] by blast
  ultimately have "response_status (head_text ?line ?hs) = hs_status response"
    unfolding response_head(2) [OF line plain] by simp
  with read_response_segments [OF line plain len assms(6) raw, of later] show ?thesis by simp
qed

text \<open>The pool never holds more than its limit.\<close>

lemma get_connection_length: "get_connection r c pool = (x, pool') \<Longrightarrow> length pool' \<le> length pool"
  using length_dropWhile_le [of "\<lambda>c. \<not> r c" "rev pool"]
  by (auto simp: get_connection_def split: list.split_asm)

lemma return_connection_length: "length pool \<le> MAX_POOL_SIZE \<Longrightarrow> length (return_connection r c pool) \<le> MAX_POOL_SIZE"
  by (simp add: return_connection_def)

lemma forward_request_pool:
  assumes "forward_request lib env i data (pool, s) = (res, pool', s')" and "length pool \<le> MAX_POOL_SIZE"
  shows "length pool' \<le> MAX_POOL_SIZE"
  using assms get_connection_length [of "pe_ready_before env" "pe_connect env" pool]
  by (fastforce simp: forward_request_def Let_def intro: return_connection_length
      split: sum.split_asm prod.split_asm)

lemma keep_alive_step_pool:
  assumes "keep_alive_step lib env sid r ok (n, pool, s) = (ms, nx, n', pool', s')" and "length pool \<le> MAX_POOL_SIZE"
  shows "length pool' \<le> MAX_POOL_SIZE"
  using assms forward_request_pool
  by (auto simp: keep_alive_step_def Let_def split: recv_result.split_asm TunnelMessage.split_asm if_split_asm
      sum.split_asm prod.split_asm) blast+


lemma keep_alive_pool:
  "keep_alive lib sid es (n, pool, s) = (ms, nx, n', pool', s') \<Longrightarrow> length pool \<le> MAX_POOL_SIZE \<Longrightarrow>
     length pool' \<le> MAX_POOL_SIZE"
proof (induction es arbitrary: n pool s ms)
  case (Cons e es)
  obtain env r ok where e: "e = (env, r, ok)" by (cases e)
  obtain ms1 nx1 n1 pool1 s1 where step: "keep_alive_step lib env sid r ok (n, pool, s) = (ms1, nx1, n1, pool1, s1)"
    using prod_cases5 by blast
  from keep_alive_step_pool [OF this Cons.prems(2)] have "length pool1 \<le> MAX_POOL_SIZE" .
  with Cons.prems Cons.IH [of n1 pool1 s1] show ?case
    by (auto simp: e step split: stream_next.split_asm prod.split_asm)
qed simp

text \<open>
  The client never keeps more than ten idle connections to the local service for a stream, from the
  first request on and whatever arrives, fails or becomes unusable in between.
\<close>

theorem proxy_pool_bounded:
  assumes "transparent_start lib env err_env sid data ok s = (ms, nx, pool, s')"
    and "keep_alive lib sid es (1, pool, s') = (ms', nx', n, pool', s'')"
  shows "length pool' \<le> MAX_POOL_SIZE"
proof (rule keep_alive_pool [OF assms(2)])
  show "length pool \<le> MAX_POOL_SIZE"
    using assms(1) forward_request_pool [of lib env "generate_short_id (me_hasher (pe_metrics env)) sid" data "[]" s]
    by (auto simp: transparent_start_def Let_def split: if_split_asm prod.split_asm sum.split_asm)
qed

text \<open>
  Only the bytes of the relay's first read reach the local service as a request's body. What follows
  in later messages and does not begin like a request, such as the rest of an upload, is dropped: the
  request sent to the service carries the body as far as it came with the head, and the messages after
  it change nothing and are answered by nothing.
\<close>

theorem late_body_dropped:
  assumes "pl_httparse lib data = Ok (Some (Some m, Some u, hs, header_len))"
    and "pl_build lib m u hs (drop header_len data) = Ok request"
    and "\<And>b r. pl_build lib m u hs b = Ok r \<Longrightarrow> hr_body r = b"
    and "list_all (\<lambda>d. \<not> looks_like_http_request d) later_data" and "length envs = length later_data"
  shows "parse_request lib data = Ok (request, header_len) \<and> hr_body request = drop header_len data \<and>
    keep_alive lib sid (map2 (\<lambda>env d. (env, Message (HttpStreamData sid d), ok)) envs later_data) st = ([], GoOn, st)"
proof -
  have "keep_alive lib sid (map2 (\<lambda>env d. (env, Message (HttpStreamData sid d), ok)) envs later_data) st = ([], GoOn, st)"
    using assms(5,4)
  proof (induction envs later_data rule: list_induct2)
    case (Cons env envs d ds)
    then show ?case by (simp add: keep_alive_step_def split: prod.split)
  qed simp
  with assms(1-3) show ?thesis by (simp add: parse_request_def)
qed

text \<open>
  A request that cannot be delivered is counted twice: once by the proxy, as a request that never
  gets an answer, and once more as a failed request of its own with method UNKNOWN.
\<close>

lemma failed_request_counted_twice:
  assumes "\<not> is_websocket_upgrade data" and "parse_request lib data = Ok (request, header_len)"
    and "pe_connect env = Err e"
    and "transparent_start lib env err_env sid data ok s = (ms, nx, pool, s')"
  shows "ms = [] \<and> nx = StopWithClose \<and>
    total_requests (cached_stats s') = total_requests (cached_stats s) + 2 \<and>
    methods (cached_stats s') = bump ''UNKNOWN'' (bump (hr_method request) (methods (cached_stats s)))"
proof -
  have keep: "total_requests (cached_stats (record_error h t i m d r)) = total_requests (cached_stats r)"
    "methods (cached_stats (record_error h t i m d r)) = methods (cached_stats r)" for h t i m d and r :: "('b, 'c) MetricsStore"
    by (simp_all add: record_error_def record_duration_def Let_def broadcast_stats_debounced_def publish_def
        split: option.split prod.split)
  show ?thesis
    using assms
    by (auto simp: transparent_start_def forward_request_def get_connection_def Let_def record_request_def keep
        broadcast_stats_debounced_def publish_def split: prod.split_asm)
qed

definition demo_lib :: proxy_lib where
  "demo_lib =
     \<lparr>pl_httparse = (\<lambda>d. if length d < 9 then Ok None else Ok (Some (Some ''PUT'', Some ''/'', [], 9))),
      pl_build = (\<lambda>m u hs b. Ok \<lparr>hr_method = m, hr_uri = u, hr_headers = hs, hr_body = b\<rparr>),
      pl_to_str = (\<lambda>_. None), pl_reason = (\<lambda>_. None)\<rparr>"

definition demo_proxy_env :: "(nat, unit, unit) proxy_env" where
  "demo_proxy_env =
     \<lparr>pe_metrics = demo_metrics_env, pe_ready_before = (\<lambda>_. True), pe_ready_after = (\<lambda>_. True), pe_connect = Ok 4,
      pe_send = (\<lambda>_ _. Ok \<lparr>hs_status = 204, hs_headers = [], hs_body = Ok []\<rparr>)\<rparr>"

definition demo_store :: "(unit, unit) MetricsStore" where
  "demo_store = metrics_new (me_histogram demo_metrics_env) 9"

theorem late_body_dropped_witness:
  "parse_request demo_lib (replicate 9 80 @ [1]) =
     Ok (\<lparr>hr_method = ''PUT'', hr_uri = ''/'', hr_headers = [], hr_body = [1]\<rparr>, 9) \<and>
   keep_alive demo_lib 7 [(demo_proxy_env, Message (HttpStreamData 7 [2, 3]), True)] (1, [], demo_store) =
     ([], GoOn, 1, [], demo_store)"
  using late_body_dropped [of demo_lib "replicate 9 80 @ [1]" "''PUT''" "''/''" "[]" 9
      "\<lparr>hr_method = ''PUT'', hr_uri = ''/'', hr_headers = [], hr_body = [1]\<rparr>" "[[2, 3]]" "[demo_proxy_env]" 7 True
      "(1, [], demo_store)"]
  by (simp add: demo_lib_def looks_like_http_request_def eval_nat_numeral)

theorem proxy_pool_bounded_witness:
  "\<exists>ms nx pool s. transparent_start demo_lib demo_proxy_env demo_metrics_env 7 (replicate 9 80) True demo_store = (ms, nx, pool, s) \<and>
     (\<exists>ms' nx' n pool' s'. keep_alive demo_lib 7 [(demo_proxy_env, Message (HttpStreamData 7 (as_bytes ''PUT / HTTP'')), True)] (1, pool, s)
        = (ms', nx', n, pool', s') \<and> length pool' \<le> MAX_POOL_SIZE)"
proof -
  obtain ms nx pool s where a:
    "transparent_start demo_lib demo_proxy_env demo_metrics_env 7 (replicate 9 80) True demo_store = (ms, nx, pool, s)"
    using prod_cases4 by blast
  obtain ms' nx' n pool' s' where b:
    "keep_alive demo_lib 7 [(demo_proxy_env, Message (HttpStreamData 7 (as_bytes ''PUT / HTTP'')), True)] (1, pool, s)
      = (ms', nx', n, pool', s')"
    using prod_cases5 by blast
  from proxy_pool_bounded [OF a b] a b show ?thesis by blast
qed

end
