(* ===== verification/Codec.thy ===== *)
theory Codec
  imports Messages
begin

text \<open>
  The length-prefixed message codec, \<open>crates/localup-proto/src/codec.rs\<close>. \<open>bincode\<close>, which turns a
  message into a payload and back, is the parameter \<open>ser\<close> of the encoder and \<open>deser\<close> of the
  decoder. The mutable buffer of the decoder is passed in and returned.
\<close>

datatype 'b CodecError = SerializationError 'b | MessageTooLarge nat | IncompleteMessage

definition MAX_MESSAGE_SIZE :: nat where
  "MAX_MESSAGE_SIZE = 16 * 1024 * 1024"

definition codec_encode ::
  "(TunnelMessage \<Rightarrow> ('b, bytes) result) \<Rightarrow> TunnelMessage \<Rightarrow> ('b CodecError, bytes) result" where
  "codec_encode ser msg =
     (case ser msg of
        Err e \<Rightarrow> Err (SerializationError e)
      | Ok payload \<Rightarrow>
          if length payload > MAX_MESSAGE_SIZE then Err (MessageTooLarge (length payload))
          else Ok (u32_to_be_bytes (of_nat (length payload)) @ payload))"

definition codec_decode ::
  "(bytes \<Rightarrow> ('b, TunnelMessage) result) \<Rightarrow> bytes
    \<Rightarrow> ('b CodecError, TunnelMessage option) result \<times> bytes" where
  "codec_decode deser buf =
     (if length buf < 4 then (Ok None, buf)
      else let len = unat (u32_from_be_bytes (take 4 buf))
           in if len > MAX_MESSAGE_SIZE then (Err (MessageTooLarge len), buf)
              else if length buf < 4 + len then (Ok None, buf)
              else let buf1 = drop 4 buf; msg_bytes = take len buf1; buf2 = drop len buf1
                   in case deser msg_bytes of
                        Err e \<Rightarrow> (Err (SerializationError e), buf2)
                      | Ok msg \<Rightarrow> (Ok (Some msg), buf2))"

lemma codec_decode_shrinks:
  "codec_decode deser buf = (Ok (Some m), buf') \<Longrightarrow> length buf' < length buf"
  by (auto simp: codec_decode_def Let_def split: if_splits sum.splits)

function decode_all_loop ::
  "(bytes \<Rightarrow> ('b, TunnelMessage) result) \<Rightarrow> TunnelMessage list \<Rightarrow> bytes
    \<Rightarrow> ('b CodecError, TunnelMessage list) result \<times> bytes" where
  "decode_all_loop deser messages buf =
     (case codec_decode deser buf of
        (Err e, buf') \<Rightarrow> (Err e, buf')
      | (Ok None, buf') \<Rightarrow> (Ok messages, buf')
      | (Ok (Some msg), buf') \<Rightarrow> decode_all_loop deser (messages @ [msg]) buf')"
  by pat_completeness auto
termination
  by (relation "measure (\<lambda>(deser, ms, buf). length buf)") (auto dest: codec_decode_shrinks [OF sym])

declare decode_all_loop.simps [simp del]

definition decode_all ::
  "(bytes \<Rightarrow> ('b, TunnelMessage) result) \<Rightarrow> bytes
    \<Rightarrow> ('b CodecError, TunnelMessage list) result \<times> bytes" where
  "decode_all deser buf = decode_all_loop deser [] buf"

section \<open>Properties\<close>

lemma unat_len_u32: "n \<le> MAX_MESSAGE_SIZE \<Longrightarrow> unat (of_nat n :: u32) = n"
  by (simp add: MAX_MESSAGE_SIZE_def unat_of_nat)

lemma codec_decode_encoded:
  assumes "codec_encode ser msg = Ok bs" and "ser msg = Ok p"
  shows "codec_decode deser (bs @ rest) =
           (case deser p of Err e \<Rightarrow> (Err (SerializationError e), rest)
                          | Ok m \<Rightarrow> (Ok (Some m), rest))"
proof -
  from assms have p: "length p \<le> MAX_MESSAGE_SIZE"
    and bs: "bs = u32_to_be_bytes (of_nat (length p)) @ p"
    by (auto simp: codec_encode_def split: if_splits)
  show ?thesis unfolding bs
    using p by (simp add: codec_decode_def Let_def unat_len_u32 not_less split: sum.split)
qed

lemma decode_all_loop_acc:
  "decode_all_loop deser (xs @ ms) buf = apfst (map_sum id ((@) xs)) (decode_all_loop deser ms buf)"
proof (induction deser ms buf rule: decode_all_loop.induct)
  case (1 deser ms buf)
  then show ?case
    by (subst (1 2) decode_all_loop.simps) (auto simp: id_def split: prod.splits sum.splits option.splits)
qed

lemma decode_all_loop_step:
  "codec_decode deser buf = (Ok (Some m), b) \<Longrightarrow>
   decode_all_loop deser ms buf = decode_all_loop deser (ms @ [m]) b"
  by (subst decode_all_loop.simps) simp

lemma decode_all_loop_stop:
  "codec_decode deser buf = (Ok None, b) \<Longrightarrow> decode_all_loop deser ms buf = (Ok ms, b)"
  by (subst decode_all_loop.simps) simp

text \<open>
  C18 A stream of encoded messages followed by an incomplete tail decodes to exactly those messages,
  in order, and leaves the tail in the buffer, provided \<open>bincode\<close> reads back what it wrote for each
  of them.
\<close>

theorem decode_all_stream:
  assumes "list_all2 (\<lambda>m bs. codec_encode ser m = Ok bs) msgs frames"
    and "\<forall>m \<in> set msgs. \<forall>p. ser m = Ok p \<longrightarrow> deser p = Ok m"
    and "codec_decode deser tail = (Ok None, tail)"
  shows "decode_all deser (concat frames @ tail) = (Ok msgs, tail)"
proof -
  have "decode_all_loop deser ms (concat frames @ tail) = (Ok (ms @ msgs), tail)" for ms
    using assms(1,2)
  proof (induction arbitrary: ms rule: list_all2_induct)
    case Nil
    then show ?case using assms(3) by (simp add: decode_all_loop_stop)
  next
    case (Cons m msgs bs frames)
    from Cons.hyps(1) obtain p where p: "ser m = Ok p"
      by (auto simp: codec_encode_def split: sum.splits)
    with Cons.prems have "deser p = Ok m" by simp
    then have "codec_decode deser (bs @ concat frames @ tail) = (Ok (Some m), concat frames @ tail)"
      by (simp add: codec_decode_encoded [OF Cons.hyps(1) p])
    with Cons.IH [of "ms @ [m]"] Cons.prems show ?case by (simp add: decode_all_loop_step)
  qed
  from this [of "[]"] show ?thesis by (simp add: decode_all_def)
qed

definition sample_ser :: "TunnelMessage \<Rightarrow> (unit, bytes) result" where
  "sample_ser m = (case m of Ping t \<Rightarrow> Ok [0, ucast t] | Pong t \<Rightarrow> Ok [1, ucast t, 0] | _ \<Rightarrow> Err ())"

definition sample_deser :: "bytes \<Rightarrow> (unit, TunnelMessage) result" where
  "sample_deser bs = (case bs of [_, t] \<Rightarrow> Ok (Ping (ucast t)) | [_, t, _] \<Rightarrow> Ok (Pong (ucast t)) | _ \<Rightarrow> Err ())"

theorem decode_all_stream_witness:
  "decode_all sample_deser (concat [[0, 0, 0, 2, 0, 5], [0, 0, 0, 3, 1, 7, 0]] @ [0, 0, 0, 9, 1])
     = (Ok [Ping 5, Pong 7], [0, 0, 0, 9, 1])"
proof (rule decode_all_stream [where ser = sample_ser])
  show "list_all2 (\<lambda>m bs. codec_encode sample_ser m = Ok bs) [Ping 5, Pong 7]
          [[0, 0, 0, 2, 0, 5], [0, 0, 0, 3, 1, 7, 0]]"
    by (simp add: codec_encode_def sample_ser_def MAX_MESSAGE_SIZE_def u32_to_be_bytes_eval)
  show "\<forall>m \<in> set [Ping 5, Pong 7]. \<forall>p. sample_ser m = Ok p \<longrightarrow> sample_deser p = Ok m"
    by (simp add: sample_ser_def sample_deser_def)
  show "codec_decode sample_deser [0, 0, 0, 9, 1] = (Ok None, [0, 0, 0, 9, 1])"
    by (simp add: codec_decode_def MAX_MESSAGE_SIZE_def u32_from_be_bytes_def)
qed

lemma codec_decode_extend:
  "codec_decode deser a = (Ok (Some m), a') \<Longrightarrow> codec_decode deser (a @ b) = (Ok (Some m), a' @ b)"
  by (auto simp: codec_decode_def Let_def split: if_splits sum.splits)

lemma codec_decode_None: "codec_decode deser a = (Ok None, a') \<Longrightarrow> a' = a"
  by (auto simp: codec_decode_def Let_def split: if_splits sum.splits)

lemma decode_all_loop_chunks:
  "decode_all_loop deser xs a = (Ok ms, r) \<Longrightarrow>
   decode_all_loop deser xs (a @ b) = decode_all_loop deser ms (r @ b)"
proof (induction deser xs a rule: decode_all_loop.induct)
  case (1 deser xs a)
  obtain res a' where dec: "codec_decode deser a = (res, a')" by fastforce
  from "1.prems" consider (stop) "res = Ok None" "ms = xs" "r = a'" | (more) m where "res = Ok (Some m)"
    by (subst (asm) decode_all_loop.simps) (auto simp: dec split: sum.splits option.splits)
  then show ?case
  proof cases
    case stop
    with dec codec_decode_None show ?thesis by blast
  next
    case more
    with dec have dec': "codec_decode deser a = (Ok (Some m), a')" by simp
    from "1.prems" have "decode_all_loop deser (xs @ [m]) a' = (Ok ms, r)"
      by (simp add: decode_all_loop_step [OF dec'])
    with "1.IH" [OF dec [symmetric] more refl] show ?thesis
      by (simp add: decode_all_loop_step [OF codec_decode_extend [OF dec']])
  qed
qed

text \<open>
  Decoding does not depend on how the transport cuts the byte stream: decoding a prefix and then
  the bytes left over together with what arrives later gives the same messages, the same error and
  the same remaining bytes as decoding everything at once.
\<close>

theorem decode_all_chunks:
  assumes "decode_all deser a = (Ok ms, r)"
  shows "decode_all deser (a @ b) = apfst (map_sum id ((@) ms)) (decode_all deser (r @ b))"
  using decode_all_loop_chunks [OF assms [unfolded decode_all_def], of b]
    decode_all_loop_acc [of deser ms "[]" "r @ b"]
  by (simp add: decode_all_def)

theorem decode_all_chunks_witness:
  "decode_all sample_deser ([0, 0, 0, 2, 0, 5, 0, 0] @ [0, 3, 1, 7, 0])
     = apfst (map_sum id ((@) [Ping 5])) (decode_all sample_deser ([0, 0] @ [0, 3, 1, 7, 0]))"
proof (rule decode_all_chunks)
  have "codec_decode sample_deser [0, 0, 0, 2, 0, 5, 0, 0] = (Ok (Some (Ping 5)), [0, 0])"
    by (simp add: codec_decode_def MAX_MESSAGE_SIZE_def u32_from_be_bytes_def sample_deser_def)
  moreover have "codec_decode sample_deser [0, 0] = (Ok None, [0, 0])"
    by (simp add: codec_decode_def)
  ultimately show "decode_all sample_deser [0, 0, 0, 2, 0, 5, 0, 0] = (Ok [Ping 5], [0, 0])"
    by (simp add: decode_all_def decode_all_loop_step decode_all_loop_stop)
qed

text \<open>
  What one decoding step consumes, on every branch: nothing when more bytes are needed or the
  announced length is over 16 MB, and otherwise exactly the length header and the payload, at most
  16 MB of it, also when \<open>bincode\<close> rejects the payload, so the next step starts at the next frame.
\<close>

lemma codec_decode_consumes:
  "\<exists>pre. buf = pre @ snd (codec_decode deser buf) \<and>
     (case fst (codec_decode deser buf) of
        Ok None \<Rightarrow> pre = []
      | Ok (Some m) \<Rightarrow> 4 \<le> length pre \<and> length pre \<le> 4 + MAX_MESSAGE_SIZE \<and> deser (drop 4 pre) = Ok m
      | Err (SerializationError e) \<Rightarrow>
          4 \<le> length pre \<and> length pre \<le> 4 + MAX_MESSAGE_SIZE \<and> deser (drop 4 pre) = Err e
      | Err (MessageTooLarge n) \<Rightarrow> pre = [] \<and> n > MAX_MESSAGE_SIZE
      | Err IncompleteMessage \<Rightarrow> False)"
proof -
  define len where "len = unat (u32_from_be_bytes (take 4 buf))"
  consider "length buf < 4" | "4 \<le> length buf" "len > MAX_MESSAGE_SIZE"
    | "4 \<le> length buf" "len \<le> MAX_MESSAGE_SIZE" "length buf < 4 + len"
    | (full) "4 + len \<le> length buf" "len \<le> MAX_MESSAGE_SIZE" by linarith
  then show ?thesis
  proof cases
    case full
    then have "buf = take (4 + len) buf @ drop len (drop 4 buf)"
      "drop 4 (take (4 + len) buf) = take len (drop 4 buf)"
      by (simp_all add: drop_take add.commute [of len 4])
    with full show ?thesis
      by (intro exI [of _ "take (4 + len) buf"])
         (simp add: codec_decode_def Let_def not_less flip: len_def split: sum.split)
  qed (simp_all add: codec_decode_def Let_def flip: len_def)
qed

end
