(* ===== verification/Transports.thy ===== *)
theory Transports
  imports Codec
begin

text \<open>
  The streams of the three transports: \<open>crates/localup-transport-quic/src/stream.rs\<close> and
  \<open>connection.rs\<close>, \<open>crates/localup-transport-h2/src/stream.rs\<close> and \<open>connection.rs\<close>, and
  \<open>crates/localup-transport-websocket/src/stream.rs\<close> and \<open>connection.rs\<close> with its multiplexing of
  streams over one socket.

  \<open>quinn\<close>, \<open>h2\<close> and the WebSocket library appear as what they hand to this code: the events of a
  receiving side in their order, and the answer of a sending side to a write. An asynchronous call
  that would wait is \<open>Pending\<close>. The text of a foreign error is its cause; the codec of messages is
  the parameter \<open>ser\<close> and \<open>deser\<close> of the theory of the codec.
\<close>

section \<open>Results, events and sending sides\<close>

datatype ('b, 'e) cause = CodecCause "'b CodecError" | LibCause 'e | TextCause string

datatype ('b, 'e) TransportError =
  ConnectionError "('b, 'e) cause"
| IoError "('b, 'e) cause"
| BindError string u16 string
| StreamClosed
| ProtocolError "('b, 'e) cause"
| Timeout
| AuthenticationFailed string
| TlsError string
| ConfigurationError string

type_synonym ('b, 'e, 'a) TransportResult = "(('b, 'e) TransportError, 'a) result"

datatype 'a poll = Pending | Ready 'a

datatype 'e recv_event = Chunk bytes | Finished | ConnectionLost 'e | ReadError 'e

record 'e send_side =
  written :: bytes
  fin_sent :: bool
  write_fails :: "'e option"

definition stream_write :: "bytes \<Rightarrow> 'e send_side \<Rightarrow> ('e, 'e send_side) result" where
  "stream_write data s =
     (case write_fails s of Some e \<Rightarrow> Err e | None \<Rightarrow> Ok (s\<lparr>written := written s @ data\<rparr>))"

definition send_finish :: "'e send_side \<Rightarrow> ('e, 'e send_side) result" where
  "send_finish s = (case write_fails s of Some e \<Rightarrow> Err e | None \<Rightarrow> Ok (s\<lparr>fin_sent := True\<rparr>))"

text \<open>\<open>RecvStream::read_chunk(max, true)\<close>: the next event, a chunk cut at \<open>max\<close> bytes.\<close>

fun read_chunk :: "nat \<Rightarrow> 'e recv_event list \<Rightarrow> 'e recv_event option \<times> 'e recv_event list" where
  "read_chunk maxlen [] = (None, [])"
| "read_chunk maxlen (Chunk b # evs) =
     (if length b \<le> maxlen then (Some (Chunk b), evs)
      else (Some (Chunk (take maxlen b)), Chunk (drop maxlen b) # evs))"
| "read_chunk maxlen (ev # evs) = (Some ev, evs)"

fun event_size :: "'e recv_event \<Rightarrow> nat" where
  "event_size (Chunk b) = Suc (length b)"
| "event_size _ = 1"

lemma read_chunk_size:
  "read_chunk maxlen evs = (Some ev, evs') \<Longrightarrow> 0 < maxlen \<Longrightarrow>
     sum_list (map event_size evs') < sum_list (map event_size evs)"
  by (induction maxlen evs rule: read_chunk.induct) (auto split: if_splits)

section \<open>QUIC streams\<close>

record 'e QuicStream =
  qs_send :: "'e send_side"
  qs_recv :: "'e recv_event list"
  qs_stream_id :: u64
  qs_closed :: bool
  qs_buffer :: bytes

definition QuicStream_new :: "'e send_side \<Rightarrow> 'e recv_event list \<Rightarrow> u64 \<Rightarrow> 'e QuicStream" where
  "QuicStream_new send rcv sid =
     \<lparr>qs_send = send, qs_recv = rcv, qs_stream_id = sid, qs_closed = False, qs_buffer = []\<rparr>"

definition quic_send_bytes ::
  "bytes \<Rightarrow> 'e QuicStream \<Rightarrow> ('b, 'e, unit) TransportResult \<times> 'e QuicStream" where
  "quic_send_bytes data s =
     (if qs_closed s then (Err StreamClosed, s)
      else case stream_write data (qs_send s) of
             Err e \<Rightarrow> (Err (ConnectionError (LibCause e)), s)
           | Ok snd' \<Rightarrow> (Ok (), s\<lparr>qs_send := snd'\<rparr>))"

definition quic_send_message ::
  "(TunnelMessage \<Rightarrow> ('b, bytes) result) \<Rightarrow> TunnelMessage \<Rightarrow> 'e QuicStream
    \<Rightarrow> ('b, 'e, unit) TransportResult \<times> 'e QuicStream" where
  "quic_send_message ser m s =
     (if qs_closed s then (Err StreamClosed, s)
      else case codec_encode ser m of
             Err e \<Rightarrow> (Err (ProtocolError (CodecCause e)), s)
           | Ok encoded \<Rightarrow> quic_send_bytes encoded s)"

function quic_recv_loop ::
  "(bytes \<Rightarrow> ('b, TunnelMessage) result) \<Rightarrow> 'e QuicStream
    \<Rightarrow> ('b, 'e, TunnelMessage option) TransportResult poll \<times> 'e QuicStream" where
  "quic_recv_loop deser s =
     (case codec_decode deser (qs_buffer s) of
        (Err e, buf) \<Rightarrow> (Ready (Err (ProtocolError (CodecCause e))), s\<lparr>qs_buffer := buf\<rparr>)
      | (Ok (Some msg), buf) \<Rightarrow> (Ready (Ok (Some msg)), s\<lparr>qs_buffer := buf\<rparr>)
      | (Ok None, buf) \<Rightarrow>
          (case read_chunk 8192 (qs_recv s) of
             (None, evs) \<Rightarrow> (Pending, s)
           | (Some (Chunk b), evs) \<Rightarrow> quic_recv_loop deser (s\<lparr>qs_buffer := buf @ b, qs_recv := evs\<rparr>)
           | (Some Finished, evs) \<Rightarrow>
               (if buf = [] then Ready (Ok None)
                else Ready (Err (ProtocolError (TextCause ''Incomplete message in buffer''))),
                s\<lparr>qs_closed := True, qs_recv := evs\<rparr>)
           | (Some (ConnectionLost e), evs) \<Rightarrow>
               (Ready (Err (ConnectionError (LibCause e))), s\<lparr>qs_closed := True, qs_recv := evs\<rparr>)
           | (Some (ReadError e), evs) \<Rightarrow>
               (Ready (Err (ConnectionError (LibCause e))), s\<lparr>qs_closed := True, qs_recv := evs\<rparr>)))"
  by pat_completeness auto
termination
  by (relation "measure (\<lambda>(deser, s). sum_list (map event_size (qs_recv s)))")
     (auto dest: read_chunk_size [OF sym])

declare quic_recv_loop.simps [simp del]

definition quic_recv_message ::
  "(bytes \<Rightarrow> ('b, TunnelMessage) result) \<Rightarrow> 'e QuicStream
    \<Rightarrow> ('b, 'e, TunnelMessage option) TransportResult poll \<times> 'e QuicStream" where
  "quic_recv_message deser s = (if qs_closed s then (Ready (Ok None), s) else quic_recv_loop deser s)"

definition quic_recv_bytes ::
  "nat \<Rightarrow> 'e QuicStream \<Rightarrow> ('b, 'e, bytes) TransportResult poll \<times> 'e QuicStream" where
  "quic_recv_bytes max_size s =
     (if qs_closed s then (Ready (Ok []), s)
      else case read_chunk max_size (qs_recv s) of
             (None, evs) \<Rightarrow> (Pending, s)
           | (Some (Chunk b), evs) \<Rightarrow> (Ready (Ok b), s\<lparr>qs_recv := evs\<rparr>)
           | (Some Finished, evs) \<Rightarrow> (Ready (Ok []), s\<lparr>qs_closed := True, qs_recv := evs\<rparr>)
           | (Some (ConnectionLost e), evs) \<Rightarrow>
               (Ready (Err (ConnectionError (LibCause e))), s\<lparr>qs_closed := True, qs_recv := evs\<rparr>)
           | (Some (ReadError e), evs) \<Rightarrow>
               (Ready (Err (ConnectionError (LibCause e))), s\<lparr>qs_recv := evs\<rparr>))"

definition quic_finish :: "'e QuicStream \<Rightarrow> ('b, 'e, unit) TransportResult \<times> 'e QuicStream" where
  "quic_finish s =
     (if qs_closed s then (Ok (), s)
      else case send_finish (qs_send s) of
             Err e \<Rightarrow> (Err (ConnectionError (LibCause e)), s)
           | Ok snd' \<Rightarrow> (Ok (), s\<lparr>qs_send := snd', qs_closed := True\<rparr>))"

subsection \<open>The halves of a split stream\<close>

record 'e QuicSendHalf =
  qh_send :: "'e send_side"
  qh_stream_id :: u64
  qh_closed :: bool

record 'e QuicRecvHalf =
  qr_recv :: "'e recv_event list"
  qr_stream_id :: u64
  qr_closed :: bool
  qr_buffer :: bytes

definition quic_split :: "'e QuicStream \<Rightarrow> 'e QuicSendHalf \<times> 'e QuicRecvHalf" where
  "quic_split s =
     (\<lparr>qh_send = qs_send s, qh_stream_id = qs_stream_id s, qh_closed = False\<rparr>,
      \<lparr>qr_recv = qs_recv s, qr_stream_id = qs_stream_id s, qr_closed = False, qr_buffer = qs_buffer s\<rparr>)"

definition half_send_message ::
  "(TunnelMessage \<Rightarrow> ('b, bytes) result) \<Rightarrow> TunnelMessage \<Rightarrow> 'e QuicSendHalf
    \<Rightarrow> ('b, 'e, unit) TransportResult \<times> 'e QuicSendHalf" where
  "half_send_message ser m h =
     (if qh_closed h then (Err StreamClosed, h)
      else case codec_encode ser m of
             Err e \<Rightarrow> (Err (ProtocolError (CodecCause e)), h)
           | Ok encoded \<Rightarrow>
               (case stream_write encoded (qh_send h) of
                  Err e \<Rightarrow> (Err (ConnectionError (LibCause e)), h)
                | Ok snd' \<Rightarrow> (Ok (), h\<lparr>qh_send := snd'\<rparr>)))"

definition half_finish :: "'e QuicSendHalf \<Rightarrow> ('b, 'e, unit) TransportResult \<times> 'e QuicSendHalf" where
  "half_finish h =
     (case send_finish (qh_send h) of
        Err e \<Rightarrow> (Err (ConnectionError (LibCause e)), h)
      | Ok snd' \<Rightarrow> (Ok (), h\<lparr>qh_send := snd', qh_closed := True\<rparr>))"

function half_recv_loop ::
  "(bytes \<Rightarrow> ('b, TunnelMessage) result) \<Rightarrow> 'e QuicRecvHalf
    \<Rightarrow> ('b, 'e, TunnelMessage option) TransportResult poll \<times> 'e QuicRecvHalf" where
  "half_recv_loop deser h =
     (case codec_decode deser (qr_buffer h) of
        (Err e, buf) \<Rightarrow> (Ready (Err (ProtocolError (CodecCause e))), h\<lparr>qr_buffer := buf\<rparr>)
      | (Ok (Some msg), buf) \<Rightarrow> (Ready (Ok (Some msg)), h\<lparr>qr_buffer := buf\<rparr>)
      | (Ok None, buf) \<Rightarrow>
          (case read_chunk 8192 (qr_recv h) of
             (None, evs) \<Rightarrow> (Pending, h)
           | (Some (Chunk b), evs) \<Rightarrow> half_recv_loop deser (h\<lparr>qr_buffer := buf @ b, qr_recv := evs\<rparr>)
           | (Some Finished, evs) \<Rightarrow> (Ready (Ok None), h\<lparr>qr_closed := True, qr_recv := evs\<rparr>)
           | (Some (ConnectionLost e), evs) \<Rightarrow>
               (Ready (Err (ConnectionError (LibCause e))), h\<lparr>qr_closed := True, qr_recv := evs\<rparr>)
           | (Some (ReadError e), evs) \<Rightarrow>
               (Ready (Err (ConnectionError (LibCause e))), h\<lparr>qr_recv := evs\<rparr>)))"
  by pat_completeness auto
termination
  by (relation "measure (\<lambda>(deser, h). sum_list (map event_size (qr_recv h)))")
     (auto dest: read_chunk_size [OF sym])

declare half_recv_loop.simps [simp del]

definition half_recv_message ::
  "(bytes \<Rightarrow> ('b, TunnelMessage) result) \<Rightarrow> 'e QuicRecvHalf
    \<Rightarrow> ('b, 'e, TunnelMessage option) TransportResult poll \<times> 'e QuicRecvHalf" where
  "half_recv_message deser h = (if qr_closed h then (Ready (Ok None), h) else half_recv_loop deser h)"

section \<open>HTTP/2 streams\<close>

record 'e H2Stream =
  h2_send :: "'e send_side"
  h2_recv :: "'e recv_event list"
  h2_stream_id :: u64
  h2_closed :: bool
  h2_buffer :: bytes
  h2_data_queue :: "bytes list"

definition H2Stream_new :: "'e send_side \<Rightarrow> 'e recv_event list \<Rightarrow> u32 \<Rightarrow> 'e H2Stream" where
  "H2Stream_new send rcv sid =
     \<lparr>h2_send = send, h2_recv = rcv, h2_stream_id = ucast sid, h2_closed = False, h2_buffer = [],
      h2_data_queue = []\<rparr>"

definition h2_send_bytes ::
  "bytes \<Rightarrow> 'e H2Stream \<Rightarrow> ('b, 'e, unit) TransportResult \<times> 'e H2Stream" where
  "h2_send_bytes data s =
     (if h2_closed s then (Err StreamClosed, s)
      else case stream_write data (h2_send s) of
             Err e \<Rightarrow> (Err (ConnectionError (LibCause e)), s)
           | Ok snd' \<Rightarrow> (Ok (), s\<lparr>h2_send := snd'\<rparr>))"

definition h2_send_message ::
  "(TunnelMessage \<Rightarrow> ('b, bytes) result) \<Rightarrow> TunnelMessage \<Rightarrow> 'e H2Stream
    \<Rightarrow> ('b, 'e, unit) TransportResult \<times> 'e H2Stream" where
  "h2_send_message ser m s =
     (if h2_closed s then (Err StreamClosed, s)
      else case codec_encode ser m of
             Err e \<Rightarrow> (Err (ProtocolError (CodecCause e)), s)
           | Ok encoded \<Rightarrow> h2_send_bytes encoded s)"

function h2_recv_loop ::
  "(bytes \<Rightarrow> ('b, TunnelMessage) result) \<Rightarrow> 'e H2Stream
    \<Rightarrow> ('b, 'e, TunnelMessage option) TransportResult poll \<times> 'e H2Stream" where
  "h2_recv_loop deser s =
     (case codec_decode deser (h2_buffer s) of
        (Err e, buf) \<Rightarrow> (Ready (Err (ProtocolError (CodecCause e))), s\<lparr>h2_buffer := buf\<rparr>)
      | (Ok (Some msg), buf) \<Rightarrow> (Ready (Ok (Some msg)), s\<lparr>h2_buffer := buf\<rparr>)
      | (Ok None, buf) \<Rightarrow>
          (case h2_data_queue s of
             data # q \<Rightarrow> h2_recv_loop deser (s\<lparr>h2_buffer := buf @ data, h2_data_queue := q\<rparr>)
           | [] \<Rightarrow>
               (case h2_recv s of
                  [] \<Rightarrow> (Pending, s)
                | Chunk b # evs \<Rightarrow> h2_recv_loop deser (s\<lparr>h2_buffer := buf @ b, h2_recv := evs\<rparr>)
                | Finished # evs \<Rightarrow>
                    (if buf = [] then Ready (Ok None)
                     else Ready (Err (ProtocolError (TextCause ''Incomplete message in buffer''))),
                     s\<lparr>h2_closed := True, h2_recv := evs\<rparr>)
                | ConnectionLost e # evs \<Rightarrow>
                    (Ready (Err (ConnectionError (LibCause e))), s\<lparr>h2_closed := True, h2_recv := evs\<rparr>)
                | ReadError e # evs \<Rightarrow>
                    (Ready (Err (ConnectionError (LibCause e))), s\<lparr>h2_closed := True, h2_recv := evs\<rparr>))))"
  by pat_completeness auto
termination
  by (relation "measure (\<lambda>(deser, s). length (h2_data_queue s) + length (h2_recv s))") auto

declare h2_recv_loop.simps [simp del]

definition h2_recv_message ::
  "(bytes \<Rightarrow> ('b, TunnelMessage) result) \<Rightarrow> 'e H2Stream
    \<Rightarrow> ('b, 'e, TunnelMessage option) TransportResult poll \<times> 'e H2Stream" where
  "h2_recv_message deser s =
     (if h2_closed s \<and> h2_buffer s = [] \<and> h2_data_queue s = [] then (Ready (Ok None), s)
      else h2_recv_loop deser s)"

definition h2_recv_bytes ::
  "nat \<Rightarrow> 'e H2Stream \<Rightarrow> ('b, 'e, bytes) TransportResult poll \<times> 'e H2Stream" where
  "h2_recv_bytes max_size s =
     (if h2_closed s \<and> h2_data_queue s = [] then (Ready (Ok []), s)
      else case h2_data_queue s of
        data # q \<Rightarrow>
          (if length data \<le> max_size then (Ready (Ok data), s\<lparr>h2_data_queue := q\<rparr>)
           else (Ready (Ok (take max_size data)), s\<lparr>h2_data_queue := drop max_size data # q\<rparr>))
      | [] \<Rightarrow>
          (case h2_recv s of
             [] \<Rightarrow> (Pending, s)
           | Chunk b # evs \<Rightarrow>
               (if length b \<le> max_size then (Ready (Ok b), s\<lparr>h2_recv := evs\<rparr>)
                else (Ready (Ok (take max_size b)),
                      s\<lparr>h2_recv := evs, h2_data_queue := [drop max_size b]\<rparr>))
           | Finished # evs \<Rightarrow> (Ready (Ok []), s\<lparr>h2_closed := True, h2_recv := evs\<rparr>)
           | ConnectionLost e # evs \<Rightarrow>
               (Ready (Err (ConnectionError (LibCause e))), s\<lparr>h2_closed := True, h2_recv := evs\<rparr>)
           | ReadError e # evs \<Rightarrow>
               (Ready (Err (ConnectionError (LibCause e))), s\<lparr>h2_closed := True, h2_recv := evs\<rparr>)))"

definition h2_finish :: "'e H2Stream \<Rightarrow> ('b, 'e, unit) TransportResult \<times> 'e H2Stream" where
  "h2_finish s =
     (if h2_closed s then (Ok (), s)
      else case send_finish (h2_send s) of
             Err e \<Rightarrow> (Err (ConnectionError (LibCause e)), s)
           | Ok snd' \<Rightarrow> (Ok (), s\<lparr>h2_send := snd', h2_closed := True\<rparr>))"

section \<open>WebSocket streams\<close>

definition MSG_TYPE_DATA :: u8 where
  "MSG_TYPE_DATA = 0"

definition MSG_TYPE_FIN :: u8 where
  "MSG_TYPE_FIN = 1"

definition encode_frame :: "u32 \<Rightarrow> u8 \<Rightarrow> bytes \<Rightarrow> bytes" where
  "encode_frame stream_id msg_type payload = u32_to_be_bytes stream_id @ [msg_type] @ payload"

definition decode_frame_header :: "bytes \<Rightarrow> (u32 \<times> u8 \<times> bytes) option" where
  "decode_frame_header data =
     (if length data < 5 then None
      else Some (u32_from_be_bytes (take 4 data), data ! 4, drop 5 data))"

text \<open>
  A stream holds the receiving end of a channel of the connection, named by its number, and sends
  through the channel of frames that all streams of the connection share.
\<close>

record WebSocketStream =
  wss_stream_id :: u64
  wss_rx :: nat
  wss_buffer :: bytes
  wss_closed :: bool
  wss_data_queue :: "bytes list"

definition WebSocketStream_new :: "u64 \<Rightarrow> nat \<Rightarrow> WebSocketStream" where
  "WebSocketStream_new sid rx =
     \<lparr>wss_stream_id = sid, wss_rx = rx, wss_buffer = [], wss_closed = False, wss_data_queue = []\<rparr>"

text \<open>
  Receiving from the channel whose content is \<open>q\<close>; \<open>alive\<close> says whether its sender still exists,
  so an empty channel makes the call wait or tells it that the channel is closed.
\<close>

function wss_recv_loop ::
  "(bytes \<Rightarrow> ('b, TunnelMessage) result) \<Rightarrow> bool \<Rightarrow> bytes list \<Rightarrow> WebSocketStream
    \<Rightarrow> ('b, 'e, TunnelMessage option) TransportResult poll \<times> bytes list \<times> WebSocketStream" where
  "wss_recv_loop deser alive q s =
     (case codec_decode deser (wss_buffer s) of
        (Err e, buf) \<Rightarrow> (Ready (Err (ProtocolError (CodecCause e))), q, s\<lparr>wss_buffer := buf\<rparr>)
      | (Ok (Some msg), buf) \<Rightarrow> (Ready (Ok (Some msg)), q, s\<lparr>wss_buffer := buf\<rparr>)
      | (Ok None, buf) \<Rightarrow>
          (case wss_data_queue s of
             data # dq \<Rightarrow>
               wss_recv_loop deser alive q (s\<lparr>wss_buffer := buf @ data, wss_data_queue := dq\<rparr>)
           | [] \<Rightarrow>
               (case q of
                  data # q' \<Rightarrow>
                    if data = [] then
                      (if buf = [] then Ready (Ok None)
                       else Ready (Err (ProtocolError (TextCause ''Incomplete message in buffer''))),
                       q', s\<lparr>wss_closed := True\<rparr>)
                    else wss_recv_loop deser alive q' (s\<lparr>wss_buffer := buf @ data\<rparr>)
                | [] \<Rightarrow>
                    if alive then (Pending, q, s)
                    else
                      (if buf = [] then Ready (Ok None)
                       else Ready (Err (ProtocolError
                              (TextCause ''Channel closed with incomplete message''))),
                       q, s\<lparr>wss_closed := True\<rparr>))))"
  by pat_completeness auto
termination
  by (relation "measure (\<lambda>(deser, alive, q, s). length (wss_data_queue s) + length q)") auto

declare wss_recv_loop.simps [simp del]

definition wss_recv_message ::
  "(bytes \<Rightarrow> ('b, TunnelMessage) result) \<Rightarrow> bool \<Rightarrow> bytes list \<Rightarrow> WebSocketStream
    \<Rightarrow> ('b, 'e, TunnelMessage option) TransportResult poll \<times> bytes list \<times> WebSocketStream" where
  "wss_recv_message deser alive q s =
     (if wss_closed s \<and> wss_buffer s = [] \<and> wss_data_queue s = [] then (Ready (Ok None), q, s)
      else wss_recv_loop deser alive q s)"

definition wss_recv_bytes ::
  "bool \<Rightarrow> nat \<Rightarrow> bytes list \<Rightarrow> WebSocketStream
    \<Rightarrow> ('b, 'e, bytes) TransportResult poll \<times> bytes list \<times> WebSocketStream" where
  "wss_recv_bytes alive max_size q s =
     (if wss_closed s \<and> wss_data_queue s = [] then (Ready (Ok []), q, s)
      else case wss_data_queue s of
        data # dq \<Rightarrow>
          (if length data \<le> max_size then (Ready (Ok data), q, s\<lparr>wss_data_queue := dq\<rparr>)
           else (Ready (Ok (take max_size data)), q,
                 s\<lparr>wss_data_queue := drop max_size data # dq\<rparr>))
      | [] \<Rightarrow>
          (case q of
             data # q' \<Rightarrow>
               if data = [] then (Ready (Ok []), q', s\<lparr>wss_closed := True\<rparr>)
               else if length data \<le> max_size then (Ready (Ok data), q', s)
               else (Ready (Ok (take max_size data)), q',
                     s\<lparr>wss_data_queue := [drop max_size data]\<rparr>)
           | [] \<Rightarrow>
               if alive then (Pending, q, s) else (Ready (Ok []), q, s\<lparr>wss_closed := True\<rparr>)))"

section \<open>WebSocket connections\<close>

text \<open>
  A connection: the channel of frames to its writer task, the streams with the channels their
  frames go to, the channel of streams to accept, and its counters. Channels are named by numbers;
  a channel has its queued items and a receiver that may have been dropped. The channel of a
  stream holds 256 items, the channel of accepted streams 64, the channel of frames 256.
\<close>

record ws_chan =
  ch_queue :: "bytes list"
  ch_rx :: bool

record WebSocketConnection =
  ws_frames :: "bytes list"
  ws_writer :: bool
  ws_streams :: "(u32 \<times> nat) list"
  ws_chans :: "nat \<Rightarrow> ws_chan"
  ws_next_chan :: nat
  ws_accept :: "(u32 \<times> nat) list"
  ws_accept_open :: bool
  ws_next_stream_id :: u32
  ws_is_server :: bool
  ws_bytes_sent :: u64
  ws_bytes_received :: u64
  ws_closed :: bool

definition STREAM_CAP :: nat where
  "STREAM_CAP = 256"

definition ACCEPT_CAP :: nat where
  "ACCEPT_CAP = 64"

definition FRAME_CAP :: nat where
  "FRAME_CAP = 256"

definition WebSocketConnection_new :: "bool \<Rightarrow> WebSocketConnection" where
  "WebSocketConnection_new is_server =
     \<lparr>ws_frames = [], ws_writer = True, ws_streams = [], ws_chans = (\<lambda>_. \<lparr>ch_queue = [], ch_rx = False\<rparr>),
      ws_next_chan = 0, ws_accept = [], ws_accept_open = True,
      ws_next_stream_id = (if is_server then 2 else 1), ws_is_server = is_server,
      ws_bytes_sent = 0, ws_bytes_received = 0, ws_closed = False\<rparr>"

text \<open>What the WebSocket library yields to the reader task.\<close>

datatype ws_message = WsBinary bytes | WsPing bytes | WsPong bytes | WsClose | WsText string | WsError

text \<open>
  One turn of the reader task. A send into a full channel waits, and the whole task with it:
  \<open>None\<close>. A send into a channel without receiver drops the item. \<open>Some (c, False)\<close> leaves the loop.
\<close>

definition chan_send :: "nat \<Rightarrow> bytes \<Rightarrow> WebSocketConnection \<Rightarrow> WebSocketConnection option" where
  "chan_send h b c =
     (let ch = ws_chans c h
      in if \<not> ch_rx ch then Some c
         else if length (ch_queue ch) \<ge> STREAM_CAP then None
         else Some (c\<lparr>ws_chans := (ws_chans c)(h := ch\<lparr>ch_queue := ch_queue ch @ [b]\<rparr>)\<rparr>))"

definition put_stream :: "u32 \<Rightarrow> nat \<Rightarrow> (u32 \<times> nat) list \<Rightarrow> (u32 \<times> nat) list" where
  "put_stream sid h streams = (sid, h) # filter (\<lambda>(i, _). i \<noteq> sid) streams"

definition dispatch :: "u32 \<Rightarrow> u8 \<Rightarrow> bytes \<Rightarrow> WebSocketConnection \<Rightarrow> WebSocketConnection option" where
  "dispatch stream_id msg_type payload c =
     (case map_of (ws_streams c) stream_id of
        Some h \<Rightarrow>
          if msg_type = MSG_TYPE_DATA then chan_send h payload c
          else if msg_type = MSG_TYPE_FIN then chan_send h [] c
          else Some c
      | None \<Rightarrow>
          if msg_type = MSG_TYPE_DATA then
            (if ws_accept_open c \<and> length (ws_accept c) \<ge> ACCEPT_CAP then None
             else let h = ws_next_chan c;
                      c1 = c\<lparr>ws_chans := (ws_chans c)(h := \<lparr>ch_queue = [payload], ch_rx = ws_accept_open c\<rparr>),
                             ws_next_chan := Suc h,
                             ws_streams := put_stream stream_id h (ws_streams c)\<rparr>
                  in Some (if ws_accept_open c then c1\<lparr>ws_accept := ws_accept c @ [(stream_id, h)]\<rparr>
                           else c1))
          else Some c)"

definition reader_turn :: "ws_message \<Rightarrow> WebSocketConnection \<Rightarrow> (WebSocketConnection \<times> bool) option" where
  "reader_turn msg c =
     (case msg of
        WsBinary data \<Rightarrow>
          (let c1 = c\<lparr>ws_bytes_received := ws_bytes_received c + of_nat (length data)\<rparr>
           in case decode_frame_header data of
                Some (stream_id, msg_type, payload) \<Rightarrow>
                  map_option (\<lambda>c'. (c', True)) (dispatch stream_id msg_type payload c1)
              | None \<Rightarrow> Some (c1, True))
      | WsPing _ \<Rightarrow> Some (c, True)
      | WsPong _ \<Rightarrow> Some (c, True)
      | WsClose \<Rightarrow> Some (c, False)
      | WsText _ \<Rightarrow> Some (c, True)
      | WsError \<Rightarrow> Some (c, False))"

text \<open>
  The end of the reader task: the flag, then the close signal to every stream; a full channel
  makes it wait for room, so this is the state once all signals are in.
\<close>

definition tell_end :: "(nat \<Rightarrow> ws_chan) \<Rightarrow> u32 \<times> nat \<Rightarrow> nat \<Rightarrow> ws_chan" where
  "tell_end chans x =
     (let h = snd x
      in if ch_rx (chans h) then chans(h := (chans h)\<lparr>ch_queue := ch_queue (chans h) @ [[]]\<rparr>) else chans)"

definition reader_end :: "WebSocketConnection \<Rightarrow> WebSocketConnection" where
  "reader_end c =
     c\<lparr>ws_closed := True,
       ws_chans := foldl tell_end (ws_chans c) (ws_streams c)\<rparr>"

text \<open>The reader task on everything the socket yields; \<open>None\<close> where a full channel stops it.\<close>

fun reader_task :: "ws_message list \<Rightarrow> WebSocketConnection \<Rightarrow> WebSocketConnection option" where
  "reader_task [] c = Some (reader_end c)"
| "reader_task (msg # msgs) c =
     (case reader_turn msg c of
        None \<Rightarrow> None
      | Some (c', True) \<Rightarrow> reader_task msgs c'
      | Some (c', False) \<Rightarrow> Some (reader_end c'))"

text \<open>
  One turn of the writer task: the next frame is counted and given to the socket, whose answer is
  \<open>ok\<close>; the result is the frame that went out. When the send fails the task ends.
\<close>

definition writer_turn :: "bool \<Rightarrow> WebSocketConnection \<Rightarrow> ws_message option \<times> WebSocketConnection" where
  "writer_turn ok c =
     (case ws_frames c of
        [] \<Rightarrow> (None, c)
      | frame # rest \<Rightarrow>
          let c1 = c\<lparr>ws_frames := rest, ws_bytes_sent := ws_bytes_sent c + of_nat (length frame)\<rparr>
          in if ok then (Some (WsBinary frame), c1)
             else (None, c1\<lparr>ws_frames := [], ws_writer := False, ws_closed := True\<rparr>))"

definition ws_open_stream ::
  "WebSocketConnection \<Rightarrow> ('b, 'e, WebSocketStream) TransportResult \<times> WebSocketConnection" where
  "ws_open_stream c =
     (if ws_closed c then (Err (ConnectionError (TextCause ''Connection closed'')), c)
      else let stream_id = ws_next_stream_id c; h = ws_next_chan c
           in (Ok (WebSocketStream_new (ucast stream_id) h),
               c\<lparr>ws_next_stream_id := stream_id + 2,
                 ws_chans := (ws_chans c)(h := \<lparr>ch_queue = [], ch_rx = True\<rparr>),
                 ws_next_chan := Suc h,
                 ws_streams := put_stream stream_id h (ws_streams c)\<rparr>))"

text \<open>
  \<open>accept_stream\<close> looks at the flag when it is called and then waits on the channel, whose other
  sender is a field of the connection itself; \<open>accept_wait\<close> is what a waiting call does when it is
  polled again.
\<close>

definition accept_wait ::
  "WebSocketConnection \<Rightarrow> ('b, 'e, WebSocketStream option) TransportResult poll \<times> WebSocketConnection" where
  "accept_wait c =
     (case ws_accept c of
        (stream_id, h) # rest \<Rightarrow>
          (Ready (Ok (Some (WebSocketStream_new (ucast stream_id) h))), c\<lparr>ws_accept := rest\<rparr>)
      | [] \<Rightarrow> (Pending, c))"

definition ws_accept_stream ::
  "WebSocketConnection \<Rightarrow> ('b, 'e, WebSocketStream option) TransportResult poll \<times> WebSocketConnection" where
  "ws_accept_stream c = (if ws_closed c then (Ready (Ok None), c) else accept_wait c)"

definition ws_close :: "WebSocketConnection \<Rightarrow> WebSocketConnection" where
  "ws_close c = c\<lparr>ws_closed := True\<rparr>"

definition ws_active_streams :: "WebSocketConnection \<Rightarrow> nat" where
  "ws_active_streams c = length (ws_streams c)"

text \<open>The operations of a stream that send go to the channel of frames.\<close>

definition frame_send ::
  "bytes \<Rightarrow> WebSocketConnection \<Rightarrow> ('b, 'e, unit) TransportResult poll \<times> WebSocketConnection" where
  "frame_send frame c =
     (if \<not> ws_writer c then (Ready (Err (ConnectionError (TextCause ''WebSocket send failed''))), c)
      else if length (ws_frames c) \<ge> FRAME_CAP then (Pending, c)
      else (Ready (Ok ()), c\<lparr>ws_frames := ws_frames c @ [frame]\<rparr>))"

definition wss_send_bytes ::
  "bytes \<Rightarrow> WebSocketStream \<Rightarrow> WebSocketConnection
    \<Rightarrow> ('b, 'e, unit) TransportResult poll \<times> WebSocketConnection" where
  "wss_send_bytes data s c =
     (if wss_closed s then (Ready (Err StreamClosed), c)
      else frame_send (encode_frame (ucast (wss_stream_id s)) MSG_TYPE_DATA data) c)"

definition wss_send_message ::
  "(TunnelMessage \<Rightarrow> ('b, bytes) result) \<Rightarrow> TunnelMessage \<Rightarrow> WebSocketStream \<Rightarrow> WebSocketConnection
    \<Rightarrow> ('b, 'e, unit) TransportResult poll \<times> WebSocketConnection" where
  "wss_send_message ser m s c =
     (if wss_closed s then (Ready (Err StreamClosed), c)
      else case codec_encode ser m of
             Err e \<Rightarrow> (Ready (Err (ProtocolError (CodecCause e))), c)
           | Ok encoded \<Rightarrow> wss_send_bytes encoded s c)"

definition wss_finish ::
  "WebSocketStream \<Rightarrow> WebSocketConnection
    \<Rightarrow> ('b, 'e, unit) TransportResult poll \<times> WebSocketStream \<times> WebSocketConnection" where
  "wss_finish s c =
     (if wss_closed s then (Ready (Ok ()), s, c)
      else case frame_send (encode_frame (ucast (wss_stream_id s)) MSG_TYPE_FIN []) c
                :: (unit, unit, unit) TransportResult poll \<times> WebSocketConnection of
             (Pending, c') \<Rightarrow> (Pending, s, c')
           | (Ready _, c') \<Rightarrow> (Ready (Ok ()), s\<lparr>wss_closed := True\<rparr>, c'))"

text \<open>Receiving on a stream of a connection.\<close>

definition sender_alive :: "WebSocketConnection \<Rightarrow> nat \<Rightarrow> bool" where
  "sender_alive c h = list_ex (\<lambda>(_, h'). h' = h) (ws_streams c)"

definition ws_recv ::
  "(bytes \<Rightarrow> ('b, TunnelMessage) result) \<Rightarrow> WebSocketConnection \<times> WebSocketStream
    \<Rightarrow> ('b, 'e, TunnelMessage option) TransportResult poll \<times> WebSocketConnection \<times> WebSocketStream" where
  "ws_recv deser cs =
     (let (c, s) = cs; h = wss_rx s; ch = ws_chans c h;
          (r, q', s') = wss_recv_message deser (sender_alive c h) (ch_queue ch) s
      in (r, c\<lparr>ws_chans := (ws_chans c)(h := ch\<lparr>ch_queue := q'\<rparr>)\<rparr>, s'))"

section \<open>HTTP/2 and QUIC connections\<close>

record 'e H2ServerConnection =
  h2s_accept :: "(('e, 'e send_side \<times> u32) result \<times> 'e recv_event list) list"
  h2s_driver :: bool
  h2s_closed :: bool
  h2s_active_streams :: nat

definition h2_server_open_stream :: "'e H2ServerConnection \<Rightarrow> ('b, 'e, 'e H2Stream) TransportResult" where
  "h2_server_open_stream c = Err (ProtocolError (TextCause ''Server cannot initiate HTTP/2 streams''))"

text \<open>
  An accepted stream is paired with the answer of \<open>send_response\<close> for it. The sender of the
  channel lives in the driver task.
\<close>

definition h2_server_accept_stream ::
  "'e H2ServerConnection \<Rightarrow> ('b, 'e, 'e H2Stream option) TransportResult poll \<times> 'e H2ServerConnection" where
  "h2_server_accept_stream c =
     (if h2s_closed c then (Ready (Ok None), c)
      else case h2s_accept c of
        (Err e, _) # rest \<Rightarrow> (Ready (Err (ConnectionError (LibCause e))), c\<lparr>h2s_accept := rest\<rparr>)
      | (Ok (send, sid), rcv) # rest \<Rightarrow>
          (Ready (Ok (Some (H2Stream_new send rcv sid))),
           c\<lparr>h2s_accept := rest, h2s_active_streams := Suc (h2s_active_streams c)\<rparr>)
      | [] \<Rightarrow> if h2s_driver c then (Pending, c) else (Ready (Ok None), c))"

record H2ClientConnection =
  h2c_closed :: bool
  h2c_active_streams :: nat

text \<open>
  The steps of opening a stream are answers of \<open>h2\<close>: ready, request sent, response (its
  status, as a number and as text, and its body). The receiver of accepted streams has no sender: the other
  end of its channel is dropped when the connection has been made.
\<close>

definition h2_client_open_stream ::
  "('e, unit) result \<Rightarrow> ('e, 'e send_side \<times> u32) result \<Rightarrow> ('e, u16 \<times> string \<times> 'e recv_event list) result
    \<Rightarrow> H2ClientConnection \<Rightarrow> ('b, 'e, 'e H2Stream) TransportResult \<times> H2ClientConnection" where
  "h2_client_open_stream ready sent response c =
     (if h2c_closed c then (Err (ConnectionError (TextCause ''Connection closed'')), c)
      else case ready of
        Err e \<Rightarrow> (Err (ConnectionError (LibCause e)), c)
      | Ok _ \<Rightarrow>
          (case sent of
             Err e \<Rightarrow> (Err (ConnectionError (LibCause e)), c)
           | Ok (send, sid) \<Rightarrow>
               (case response of
                  Err e \<Rightarrow> (Err (ConnectionError (LibCause e)), c)
                | Ok (status, shown, rcv) \<Rightarrow>
                    if \<not> (200 \<le> status \<and> status < 300) then
                      (Err (ConnectionError (TextCause (''Server returned '' @ shown))), c)
                    else (Ok (H2Stream_new send rcv sid),
                          c\<lparr>h2c_active_streams := Suc (h2c_active_streams c)\<rparr>))))"

definition h2_client_accept_stream ::
  "H2ClientConnection \<Rightarrow> ('b, 'e, 'e H2Stream option) TransportResult poll" where
  "h2_client_accept_stream c = Ready (Ok None)"

datatype 'e H2Connection = H2Server "'e H2ServerConnection" | H2Client H2ClientConnection

definition h2_is_closed :: "'e H2Connection \<Rightarrow> bool" where
  "h2_is_closed c = (case c of H2Server s \<Rightarrow> h2s_closed s | H2Client s \<Rightarrow> h2c_closed s)"

definition h2_close :: "'e H2Connection \<Rightarrow> 'e H2Connection" where
  "h2_close c =
     (case c of H2Server s \<Rightarrow> H2Server (s\<lparr>h2s_closed := True\<rparr>)
              | H2Client s \<Rightarrow> H2Client (s\<lparr>h2c_closed := True\<rparr>))"

definition quic_open_stream ::
  "('e, 'e send_side \<times> 'e recv_event list \<times> u64) result \<Rightarrow> ('b, 'e, 'e QuicStream) TransportResult" where
  "quic_open_stream opened =
     (case opened of
        Err e \<Rightarrow> Err (ConnectionError (LibCause e))
      | Ok (send, rcv, sid) \<Rightarrow> Ok (QuicStream_new send rcv sid))"

definition quic_accept_stream ::
  "('e, 'e send_side \<times> 'e recv_event list \<times> u64) result
    \<Rightarrow> ('b, 'e, 'e QuicStream option) TransportResult" where
  "quic_accept_stream accepted =
     (case accepted of
        Ok (send, rcv, sid) \<Rightarrow> Ok (Some (QuicStream_new send rcv sid))
      | Err _ \<Rightarrow> Ok None)"


section \<open>What a stream of messages promises\<close>

text \<open>
  The interface the forwarding code relies on, whatever the transport. \<open>avail\<close> are the bytes that
  have arrived and are not decoded, \<open>tail\<close> says what comes after them, \<open>ready\<close> that the stream has
  not been closed on this side. Receiving depends on these bytes alone, not on how they are cut.
\<close>

datatype stream_tail = StillOpen | Ended | Broken

fun recv_many ::
  "('s \<Rightarrow> ('err, TunnelMessage option) result poll \<times> 's) \<Rightarrow> nat \<Rightarrow> 's \<Rightarrow> TunnelMessage list \<times> 's" where
  "recv_many rcv 0 s = ([], s)"
| "recv_many rcv (Suc n) s =
     (case rcv s of
        (Ready (Ok (Some m)), s') \<Rightarrow> apfst ((#) m) (recv_many rcv n s')
      | (_, s') \<Rightarrow> ([], s'))"

locale message_stream =
  fixes deser :: "bytes \<Rightarrow> ('b, TunnelMessage) result"
    and rcv :: "'s \<Rightarrow> (('b, 'e) TransportError, TunnelMessage option) result poll \<times> 's"
    and avail :: "'s \<Rightarrow> bytes"
    and tail :: "'s \<Rightarrow> stream_tail"
    and ready :: "'s \<Rightarrow> bool"
  assumes recv_message: "ready s \<Longrightarrow> codec_decode deser (avail s) = (Ok (Some m), r) \<Longrightarrow>
      \<exists>s'. rcv s = (Ready (Ok (Some m)), s') \<and> ready s' \<and> avail s' = r \<and> tail s' = tail s"
    and recv_waits: "ready s \<Longrightarrow> codec_decode deser (avail s) = (Ok None, r) \<Longrightarrow> tail s = StillOpen \<Longrightarrow>
      \<exists>s'. rcv s = (Pending, s') \<and> ready s' \<and> avail s' = avail s \<and> tail s' = tail s"
    and recv_end: "ready s \<Longrightarrow> avail s = [] \<Longrightarrow> tail s = Ended \<Longrightarrow>
      \<exists>s'. rcv s = (Ready (Ok None), s') \<and> \<not> ready s'"
begin

lemma recv_many_frames:
  assumes "list_all2 (\<lambda>m bs. codec_encode ser m = Ok bs) msgs frames"
    and "\<forall>m \<in> set msgs. \<forall>p. ser m = Ok p \<longrightarrow> deser p = Ok m"
    and "ready s" and "avail s = concat frames @ rest"
  shows "\<exists>s'. recv_many rcv (length msgs) s = (msgs, s') \<and> ready s' \<and> avail s' = rest \<and> tail s' = tail s"
  using assms
proof (induction arbitrary: s rule: list_all2_induct)
  case (Cons m msgs bs frames)
  from Cons.hyps(1) obtain p where p: "ser m = Ok p"
    by (auto simp: codec_encode_def split: sum.splits)
  with Cons.prems(1) have "deser p = Ok m" by simp
  then have "codec_decode deser (avail s) = (Ok (Some m), concat frames @ rest)"
    by (simp add: Cons.prems(3) codec_decode_encoded [OF Cons.hyps(1) p])
  then obtain s1 where s1: "rcv s = (Ready (Ok (Some m)), s1)" "ready s1"
    "avail s1 = concat frames @ rest" "tail s1 = tail s"
    using recv_message [OF Cons.prems(2)] by blast
  with Cons.IH [of s1] Cons.prems(1) show ?case by auto
qed simp

text \<open>Everything sent before the end is received, in order, and then the end.\<close>

lemma recv_until_end:
  assumes "list_all2 (\<lambda>m bs. codec_encode ser m = Ok bs) msgs frames"
    and "\<forall>m \<in> set msgs. \<forall>p. ser m = Ok p \<longrightarrow> deser p = Ok m"
    and "ready s" and "avail s = concat frames" and "tail s = Ended"
  shows "\<exists>s' s''. recv_many rcv (length msgs) s = (msgs, s') \<and> rcv s' = (Ready (Ok None), s'')"
  using recv_many_frames [OF assms(1,2,3), of "[]"] assms(4,5) recv_end by fastforce

lemma recv_until_wait:
  assumes "list_all2 (\<lambda>m bs. codec_encode ser m = Ok bs) msgs frames"
    and "\<forall>m \<in> set msgs. \<forall>p. ser m = Ok p \<longrightarrow> deser p = Ok m"
    and "ready s" and "avail s = concat frames @ rest" and "tail s = StillOpen"
    and "codec_decode deser rest = (Ok None, rest)"
  shows "\<exists>s' s''. recv_many rcv (length msgs) s = (msgs, s') \<and> rcv s' = (Pending, s'') \<and> avail s'' = rest"
  using recv_many_frames [OF assms(1-4)] assms(5,6) recv_waits by fastforce

end

text \<open>A stream that also reports a message cut off by the end.\<close>

locale checked_stream = message_stream +
  assumes recv_truncated: "ready s \<Longrightarrow> codec_decode deser (avail s) = (Ok None, r) \<Longrightarrow> avail s \<noteq> [] \<Longrightarrow>
      tail s = Ended \<Longrightarrow> \<exists>e s'. rcv s = (Ready (Err (ProtocolError e)), s') \<and> \<not> ready s'"
begin

lemma recv_until_truncated:
  assumes "list_all2 (\<lambda>m bs. codec_encode ser m = Ok bs) msgs frames"
    and "\<forall>m \<in> set msgs. \<forall>p. ser m = Ok p \<longrightarrow> deser p = Ok m"
    and "ready s" and "avail s = concat frames @ rest" and "tail s = Ended"
    and "codec_decode deser rest = (Ok None, rest)" and "rest \<noteq> []"
  shows "\<exists>s' e s''. recv_many rcv (length msgs) s = (msgs, s') \<and>
           rcv s' = (Ready (Err (ProtocolError e)), s'')"
  using recv_many_frames [OF assms(1-4)] assms(5-7) recv_truncated by fastforce

end

subsection \<open>The three transports keep the promise\<close>

fun ev_bytes :: "'e recv_event list \<Rightarrow> bytes" where
  "ev_bytes (Chunk b # evs) = b @ ev_bytes evs"
| "ev_bytes _ = []"

fun ev_tail :: "'e recv_event list \<Rightarrow> stream_tail" where
  "ev_tail [] = StillOpen"
| "ev_tail (Chunk b # evs) = ev_tail evs"
| "ev_tail (Finished # evs) = Ended"
| "ev_tail (_ # evs) = Broken"

lemma read_chunk_cases:
  assumes "read_chunk maxlen evs = (r, evs')"
  shows "(r = None \<and> evs = [] \<and> evs' = []) \<or>
    (\<exists>b. r = Some (Chunk b) \<and> ev_bytes evs = b @ ev_bytes evs' \<and> ev_tail evs' = ev_tail evs) \<or>
    (r = Some Finished \<and> ev_bytes evs = [] \<and> ev_tail evs = Ended) \<or>
    ((\<exists>e. r = Some (ConnectionLost e) \<or> r = Some (ReadError e)) \<and> ev_bytes evs = [] \<and> ev_tail evs = Broken)"
  using assms by (induction maxlen evs rule: read_chunk.induct) (auto split: if_splits)

lemma codec_decode_extend_Err:
  "codec_decode deser a = (Err e, a') \<Longrightarrow> codec_decode deser (a @ b) = (Err e, a' @ b)"
  by (auto simp: codec_decode_def Let_def split: if_splits sum.splits)

lemma codec_decode_Nil: "codec_decode deser [] = (Ok None, [])"
  by (simp add: codec_decode_def)

text \<open>
  What a receiving loop does depends on the decoder at the bytes it has and at the bytes it can
  still get: a message or an error of the first is one of both.
\<close>

lemma codec_decode_buffer_cases:
  obtains (message) m r where "codec_decode deser buf = (Ok (Some m), r)"
      and "codec_decode deser (buf @ more_bytes) = (Ok (Some m), r @ more_bytes)"
  | (failure) e r where "codec_decode deser buf = (Err e, r)"
      and "codec_decode deser (buf @ more_bytes) = (Err e, r @ more_bytes)"
  | (short) "codec_decode deser buf = (Ok None, buf)"
proof (cases "codec_decode deser buf")
  case (Pair res r)
  show ?thesis
  proof (cases res)
    case (Inl e)
    with Pair show ?thesis using failure codec_decode_extend_Err by metis
  next
    case (Inr mo)
    show ?thesis
    proof (cases mo)
      case None
      with Pair Inr have "codec_decode deser buf = (Ok None, r)" by simp
      with codec_decode_None show ?thesis by (metis short)
    next
      case (Some m)
      with Pair Inr have "codec_decode deser buf = (Ok (Some m), r)" by simp
      with codec_decode_extend show ?thesis by (blast intro: message)
    qed
  qed
qed


text \<open>
  What a receiving loop gives for the bytes \<open>av\<close> and the tail \<open>te\<close>: its result and the bytes and
  tail it leaves. \<open>checked\<close> tells the loops that report a message cut off by the end.
\<close>

definition recv_spec ::
  "(bytes \<Rightarrow> ('b, TunnelMessage) result) \<Rightarrow> bool \<Rightarrow> bytes \<Rightarrow> stream_tail
    \<Rightarrow> ('b, 'e, TunnelMessage option) TransportResult poll \<Rightarrow> bytes \<Rightarrow> stream_tail \<Rightarrow> bool \<Rightarrow> bool" where
  "recv_spec deser checked av te r av' te' rdy \<longleftrightarrow>
     (case codec_decode deser av of
        (Ok (Some m), rest) \<Rightarrow> r = Ready (Ok (Some m)) \<and> rdy \<and> av' = rest \<and> te' = te
      | (Err e, rest) \<Rightarrow> r = Ready (Err (ProtocolError (CodecCause e))) \<and> rdy \<and> av' = rest \<and> te' = te
      | (Ok None, rest) \<Rightarrow>
          (case te of
             StillOpen \<Rightarrow> r = Pending \<and> rdy \<and> av' = av \<and> te' = StillOpen
           | Ended \<Rightarrow> \<not> rdy \<and>
               (if av = [] \<or> \<not> checked then r = Ready (Ok None)
                else \<exists>t. r = Ready (Err (ProtocolError (TextCause t))))
           | Broken \<Rightarrow> \<exists>e. r = Ready (Err (ConnectionError (LibCause e)))))"

lemma recv_spec_short:
  "codec_decode deser av = (Ok None, av) \<Longrightarrow>
   recv_spec deser checked av te r av' te' rdy \<longleftrightarrow>
     (case te of
        StillOpen \<Rightarrow> r = Pending \<and> rdy \<and> av' = av \<and> te' = StillOpen
      | Ended \<Rightarrow> \<not> rdy \<and>
          (if av = [] \<or> \<not> checked then r = Ready (Ok None)
           else \<exists>t. r = Ready (Err (ProtocolError (TextCause t))))
      | Broken \<Rightarrow> \<exists>e. r = Ready (Err (ConnectionError (LibCause e))))"
  by (simp add: recv_spec_def)

lemma message_stream_spec:
  assumes spec: "\<And>s r s'. ready s \<Longrightarrow> rcv s = (r, s') \<Longrightarrow>
     recv_spec deser checked (avail s) (tail s) r (avail s') (tail s') (ready s')"
  shows "message_stream deser rcv avail tail ready"
proof (unfold_locales, goal_cases)
  case (1 s m r)
  with spec [OF 1(1)] show ?case by (cases "rcv s") (simp add: recv_spec_def)
next
  case (2 s r)
  with spec [OF 2(1)] show ?case by (cases "rcv s") (simp add: recv_spec_def)
next
  case (3 s)
  with spec [OF 3(1)] show ?case by (cases "rcv s") (simp add: recv_spec_def codec_decode_Nil)
qed

lemma checked_stream_spec:
  assumes spec: "\<And>s r s'. ready s \<Longrightarrow> rcv s = (r, s') \<Longrightarrow>
     recv_spec deser True (avail s) (tail s) r (avail s') (tail s') (ready s')"
  shows "checked_stream deser rcv avail tail ready"
proof (intro checked_stream.intro message_stream_spec [OF spec] checked_stream_axioms.intro, goal_cases)
  case (3 s r)
  with spec [OF 3(1)] show ?case by (cases "rcv s") (auto simp: recv_spec_def)
qed auto

abbreviation quic_avail :: "'e QuicStream \<Rightarrow> bytes" where
  "quic_avail s \<equiv> qs_buffer s @ ev_bytes (qs_recv s)"

lemma quic_recv_loop_spec:
  fixes s :: "'e QuicStream"
  assumes "\<not> qs_closed s" and "quic_recv_loop deser s = (r, s')"
  shows "recv_spec deser True (quic_avail s) (ev_tail (qs_recv s)) r
           (quic_avail s') (ev_tail (qs_recv s')) (\<not> qs_closed s')"
  using assms
proof (induction deser s rule: quic_recv_loop.induct)
  case (1 deser s)
  show ?case
  proof (cases rule: codec_decode_buffer_cases [of deser "qs_buffer s" "ev_bytes (qs_recv s)"])
    case (message m rest)
    with "1.prems" show ?thesis by (subst (asm) quic_recv_loop.simps) (auto simp: recv_spec_def)
  next
    case (failure e rest)
    with "1.prems" show ?thesis by (subst (asm) quic_recv_loop.simps) (auto simp: recv_spec_def)
  next
    case short
    obtain ro evs where rc: "read_chunk 8192 (qs_recv s) = (ro, evs)" by fastforce
    show ?thesis
    proof (cases "\<exists>b. ro = Some (Chunk b)")
      case True
      then obtain b where b: "ro = Some (Chunk b)" by blast
      from read_chunk_cases [OF rc] b
      have ev: "ev_bytes (qs_recv s) = b @ ev_bytes evs" "ev_tail evs = ev_tail (qs_recv s)" by auto
      have "quic_recv_loop deser (s\<lparr>qs_buffer := qs_buffer s @ b, qs_recv := evs\<rparr>) = (r, s')"
        using "1.prems"(2) by (subst (asm) quic_recv_loop.simps) (simp add: short rc b)
      from "1.IH" [OF short [symmetric] refl refl rc [symmetric] b refl _ this] "1.prems"(1)
      show ?thesis by (simp add: ev)
    next
      case False
      with read_chunk_cases [OF rc] have "ev_bytes (qs_recv s) = []" by auto
      with short "1.prems" read_chunk_cases [OF rc] False show ?thesis
        by (subst (asm) quic_recv_loop.simps) (auto simp: rc recv_spec_short split: if_splits)
    qed
  qed
qed

lemma quic_recv_spec:
  "\<not> qs_closed s \<Longrightarrow> quic_recv_message deser s = (r, s') \<Longrightarrow>
     recv_spec deser True (quic_avail s) (ev_tail (qs_recv s)) r
       (quic_avail s') (ev_tail (qs_recv s')) (\<not> qs_closed s')"
  by (simp add: quic_recv_message_def quic_recv_loop_spec)

interpretation quic: checked_stream deser "quic_recv_message deser :: 'e QuicStream \<Rightarrow> _" quic_avail
    "\<lambda>s. ev_tail (qs_recv s)" "\<lambda>s. \<not> qs_closed s"
  for deser :: "bytes \<Rightarrow> ('b, TunnelMessage) result"
  by (rule checked_stream_spec) (rule quic_recv_spec)

abbreviation half_avail :: "'e QuicRecvHalf \<Rightarrow> bytes" where
  "half_avail h \<equiv> qr_buffer h @ ev_bytes (qr_recv h)"

lemma half_recv_loop_spec:
  fixes h :: "'e QuicRecvHalf"
  assumes "\<not> qr_closed h" and "half_recv_loop deser h = (r, h')"
  shows "recv_spec deser False (half_avail h) (ev_tail (qr_recv h)) r
           (half_avail h') (ev_tail (qr_recv h')) (\<not> qr_closed h')"
  using assms
proof (induction deser h rule: half_recv_loop.induct)
  case (1 deser h)
  show ?case
  proof (cases rule: codec_decode_buffer_cases [of deser "qr_buffer h" "ev_bytes (qr_recv h)"])
    case (message m rest)
    with "1.prems" show ?thesis by (subst (asm) half_recv_loop.simps) (auto simp: recv_spec_def)
  next
    case (failure e rest)
    with "1.prems" show ?thesis by (subst (asm) half_recv_loop.simps) (auto simp: recv_spec_def)
  next
    case short
    obtain ro evs where rc: "read_chunk 8192 (qr_recv h) = (ro, evs)" by fastforce
    show ?thesis
    proof (cases "\<exists>b. ro = Some (Chunk b)")
      case True
      then obtain b where b: "ro = Some (Chunk b)" by blast
      from read_chunk_cases [OF rc] b
      have ev: "ev_bytes (qr_recv h) = b @ ev_bytes evs" "ev_tail evs = ev_tail (qr_recv h)" by auto
      have "half_recv_loop deser (h\<lparr>qr_buffer := qr_buffer h @ b, qr_recv := evs\<rparr>) = (r, h')"
        using "1.prems"(2) by (subst (asm) half_recv_loop.simps) (simp add: short rc b)
      from "1.IH" [OF short [symmetric] refl refl rc [symmetric] b refl _ this] "1.prems"(1)
      show ?thesis by (simp add: ev)
    next
      case False
      with read_chunk_cases [OF rc] have "ev_bytes (qr_recv h) = []" by auto
      with short "1.prems" read_chunk_cases [OF rc] False show ?thesis
        by (subst (asm) half_recv_loop.simps) (auto simp: rc recv_spec_short split: if_splits)
    qed
  qed
qed

interpretation quic_half: message_stream deser "half_recv_message deser :: 'e QuicRecvHalf \<Rightarrow> _" half_avail
    "\<lambda>h. ev_tail (qr_recv h)" "\<lambda>h. \<not> qr_closed h"
  for deser :: "bytes \<Rightarrow> ('b, TunnelMessage) result"
  by (rule message_stream_spec [where checked = False])
     (simp add: half_recv_message_def half_recv_loop_spec)

abbreviation h2_avail :: "'e H2Stream \<Rightarrow> bytes" where
  "h2_avail s \<equiv> h2_buffer s @ concat (h2_data_queue s) @ ev_bytes (h2_recv s)"

lemma h2_recv_loop_spec:
  fixes s :: "'e H2Stream"
  assumes "\<not> h2_closed s" and "h2_recv_loop deser s = (r, s')"
  shows "recv_spec deser True (h2_avail s) (ev_tail (h2_recv s)) r
           (h2_avail s') (ev_tail (h2_recv s')) (\<not> h2_closed s')"
  using assms
proof (induction deser s rule: h2_recv_loop.induct)
  case (1 deser s)
  show ?case
  proof (cases rule: codec_decode_buffer_cases
      [of deser "h2_buffer s" "concat (h2_data_queue s) @ ev_bytes (h2_recv s)"])
    case (message m rest)
    with "1.prems" show ?thesis by (subst (asm) h2_recv_loop.simps) (auto simp: recv_spec_def)
  next
    case (failure e rest)
    with "1.prems" show ?thesis by (subst (asm) h2_recv_loop.simps) (auto simp: recv_spec_def)
  next
    case short
    note IH = "1.IH" [OF short [symmetric] refl refl]
    show ?thesis
    proof (cases "h2_data_queue s")
      case (Cons data q)
      have "h2_recv_loop deser (s\<lparr>h2_buffer := h2_buffer s @ data, h2_data_queue := q\<rparr>) = (r, s')"
        using "1.prems"(2) by (subst (asm) h2_recv_loop.simps) (simp add: short Cons)
      with IH(2) [OF Cons _ this] "1.prems"(1) show ?thesis by (simp add: Cons)
    next
      case Nil
      show ?thesis
      proof (cases "\<exists>b evs. h2_recv s = Chunk b # evs")
        case True
        then obtain b evs where ev: "h2_recv s = Chunk b # evs" by blast
        have "h2_recv_loop deser (s\<lparr>h2_buffer := h2_buffer s @ b, h2_recv := evs\<rparr>) = (r, s')"
          using "1.prems"(2) by (subst (asm) h2_recv_loop.simps) (simp add: short Nil ev)
        with IH(1) [OF Nil ev refl _ this] "1.prems"(1) show ?thesis by (simp add: Nil ev)
      next
        case False
        with short "1.prems" Nil show ?thesis
          by (subst (asm) h2_recv_loop.simps)
             (auto simp: recv_spec_short split: if_splits list.splits recv_event.splits)
      qed
    qed
  qed
qed

interpretation h2: checked_stream deser "h2_recv_message deser :: 'e H2Stream \<Rightarrow> _" h2_avail
    "\<lambda>s. ev_tail (h2_recv s)" "\<lambda>s. \<not> h2_closed s"
  for deser :: "bytes \<Rightarrow> ('b, TunnelMessage) result"
  by (rule checked_stream_spec) (simp add: h2_recv_message_def h2_recv_loop_spec)

text \<open>The bytes in the channel of a WebSocket stream up to the close signal, the empty item.\<close>

abbreviation q_bytes :: "bytes list \<Rightarrow> bytes" where
  "q_bytes q \<equiv> concat (takeWhile (\<lambda>b. b \<noteq> []) q)"

definition q_tail :: "bool \<Rightarrow> bytes list \<Rightarrow> stream_tail" where
  "q_tail alive q = (if [] \<in> set q \<or> \<not> alive then Ended else StillOpen)"

lemma wss_recv_loop_spec:
  assumes "\<not> wss_closed s" and "wss_recv_loop deser alive q s = (r, q', s')"
  shows "recv_spec deser True (wss_buffer s @ concat (wss_data_queue s) @ q_bytes q) (q_tail alive q) r
           (wss_buffer s' @ concat (wss_data_queue s') @ q_bytes q') (q_tail alive q') (\<not> wss_closed s') \<and>
         wss_rx s' = wss_rx s"
  using assms
proof (induction deser alive q s rule: wss_recv_loop.induct)
  case (1 deser alive q s)
  show ?case
  proof (cases rule: codec_decode_buffer_cases
      [of deser "wss_buffer s" "concat (wss_data_queue s) @ q_bytes q"])
    case (message m rest)
    with "1.prems" show ?thesis by (subst (asm) wss_recv_loop.simps) (auto simp: recv_spec_def)
  next
    case (failure e rest)
    with "1.prems" show ?thesis by (subst (asm) wss_recv_loop.simps) (auto simp: recv_spec_def)
  next
    case short
    note IH = "1.IH" [OF short [symmetric] refl refl]
    show ?thesis
    proof (cases "wss_data_queue s")
      case (Cons data dq)
      have "wss_recv_loop deser alive q (s\<lparr>wss_buffer := wss_buffer s @ data, wss_data_queue := dq\<rparr>)
          = (r, q', s')"
        using "1.prems"(2) by (subst (asm) wss_recv_loop.simps) (simp add: short Cons)
      with IH(2) [OF Cons _ this] "1.prems"(1) show ?thesis by (simp add: Cons)
    next
      case Nil
      show ?thesis
      proof (cases "\<exists>b qs. q = b # qs \<and> b \<noteq> []")
        case True
        then obtain b qs where q: "q = b # qs" "b \<noteq> []" by blast
        have "wss_recv_loop deser alive qs (s\<lparr>wss_buffer := wss_buffer s @ b\<rparr>) = (r, q', s')"
          using "1.prems"(2) by (subst (asm) wss_recv_loop.simps) (simp add: short Nil q)
        with IH(1) [OF Nil q(1) q(2) _ this] "1.prems"(1) q show ?thesis by (simp add: Nil q_tail_def)
      next
        case False
        with short "1.prems" Nil show ?thesis
          by (subst (asm) wss_recv_loop.simps)
             (auto simp: recv_spec_short q_tail_def split: if_splits list.splits)
      qed
    qed
  qed
qed

abbreviation ws_queue :: "WebSocketConnection \<times> WebSocketStream \<Rightarrow> bytes list" where
  "ws_queue cs \<equiv> ch_queue (ws_chans (fst cs) (wss_rx (snd cs)))"

abbreviation ws_avail :: "WebSocketConnection \<times> WebSocketStream \<Rightarrow> bytes" where
  "ws_avail cs \<equiv> wss_buffer (snd cs) @ concat (wss_data_queue (snd cs)) @ q_bytes (ws_queue cs)"

abbreviation ws_tail :: "WebSocketConnection \<times> WebSocketStream \<Rightarrow> stream_tail" where
  "ws_tail cs \<equiv> q_tail (sender_alive (fst cs) (wss_rx (snd cs))) (ws_queue cs)"

lemma sender_alive_chans [simp]: "sender_alive (c\<lparr>ws_chans := x\<rparr>) h = sender_alive c h"
  by (simp add: sender_alive_def)

interpretation websocket: checked_stream deser "ws_recv deser" ws_avail ws_tail "\<lambda>cs. \<not> wss_closed (snd cs)"
  for deser :: "bytes \<Rightarrow> ('b, TunnelMessage) result"
proof (rule checked_stream_spec)
  fix cs cs' and r :: "('b, 'e, TunnelMessage option) TransportResult poll"
  assume open_cs: "\<not> wss_closed (snd cs)" and run: "ws_recv deser cs = (r, cs')"
  obtain c s where cs: "cs = (c, s)" by fastforce
  obtain r' :: "('b, 'e, TunnelMessage option) TransportResult poll" and q' s'
    where rm: "wss_recv_message deser (sender_alive c (wss_rx s)) (ch_queue (ws_chans c (wss_rx s))) s
      = (r', q', s')" by (metis prod_cases3)
  have "wss_recv_loop deser (sender_alive c (wss_rx s)) (ch_queue (ws_chans c (wss_rx s))) s = (r', q', s')"
    using rm open_cs by (simp add: wss_recv_message_def cs)
  from wss_recv_loop_spec [OF _ this] open_cs run
  show "recv_spec deser True (ws_avail cs) (ws_tail cs) r (ws_avail cs') (ws_tail cs') (\<not> wss_closed (snd cs'))"
    by (auto simp: ws_recv_def cs rm Let_def)
qed

section \<open>Frames\<close>

text \<open>A multiplexed frame is read back as it was written, and only frames are read.\<close>

theorem frame_header_roundtrip:
  "decode_frame_header (encode_frame sid t payload) = Some (sid, t, payload) \<and>
   (decode_frame_header data = Some (sid', t', payload') \<longrightarrow> data = encode_frame sid' t' payload')"
proof
  show "decode_frame_header (encode_frame sid t payload) = Some (sid, t, payload)"
    by (simp add: decode_frame_header_def encode_frame_def nth_append)
  show "decode_frame_header data = Some (sid', t', payload') \<longrightarrow> data = encode_frame sid' t' payload'"
  proof
    assume d: "decode_frame_header data = Some (sid', t', payload')"
    then have len: "5 \<le> length data"
      by (simp add: decode_frame_header_def split: if_splits)
    have "data = take 4 data @ data ! 4 # drop 5 data"
      using id_take_nth_drop [of 4 data] len by simp
    moreover have "u32_to_be_bytes (u32_from_be_bytes (take 4 data)) = take 4 data"
      using len by (intro u32_be_inverse) simp
    ultimately show "data = encode_frame sid' t' payload'"
      using d by (simp add: decode_frame_header_def encode_frame_def split: if_splits)
  qed
qed

section \<open>Demultiplexing\<close>

text \<open>
  Schedules of a connection: frames that arrive, items taken from a channel by its stream, streams
  opened on this side, streams accepted. Each is one step. The log has what was taken from each
  channel, in order, and the streams accepted with their channels.
\<close>

datatype ws_action = Arrive ws_message | Take nat | Open | Accept

record ws_log =
  taken :: "nat \<Rightarrow> bytes list"
  accepted :: "(u32 \<times> nat) list"

definition take_item :: "nat \<Rightarrow> WebSocketConnection \<Rightarrow> bytes list \<times> WebSocketConnection" where
  "take_item h c =
     (case ch_queue (ws_chans c h) of
        [] \<Rightarrow> ([], c)
      | b # q \<Rightarrow> ([b], c\<lparr>ws_chans := (ws_chans c)(h := (ws_chans c h)\<lparr>ch_queue := q\<rparr>)\<rparr>))"

fun ws_act ::
  "ws_action \<Rightarrow> WebSocketConnection \<times> ws_log \<Rightarrow> (WebSocketConnection \<times> ws_log) option" where
  "ws_act (Arrive msg) (c, l) =
     (case reader_turn msg c of Some (c', True) \<Rightarrow> Some (c', l) | _ \<Rightarrow> None)"
| "ws_act (Take h) (c, l) =
     (let (bs, c') = take_item h c in Some (c', l\<lparr>taken := (taken l)(h := taken l h @ bs)\<rparr>))"
| "ws_act Open (c, l) =
     Some (snd (ws_open_stream c :: (unit, unit, WebSocketStream) TransportResult \<times> _), l)"
| "ws_act Accept (c, l) =
     Some (snd (accept_wait c :: (unit, unit, WebSocketStream option) TransportResult poll \<times> _),
           l\<lparr>accepted := accepted l @ take 1 (ws_accept c)\<rparr>)"

fun ws_run ::
  "ws_action list \<Rightarrow> WebSocketConnection \<times> ws_log \<Rightarrow> (WebSocketConnection \<times> ws_log) option" where
  "ws_run [] cl = Some cl"
| "ws_run (a # as) cl = (case ws_act a cl of None \<Rightarrow> None | Some cl' \<Rightarrow> ws_run as cl')"

definition log_start :: ws_log where
  "log_start = \<lparr>taken = (\<lambda>_. []), accepted = []\<rparr>"

text \<open>The items that frames for one stream put into its channel.\<close>

definition frame_items :: "u32 \<Rightarrow> ws_message \<Rightarrow> bytes list" where
  "frame_items sid msg =
     (case msg of
        WsBinary data \<Rightarrow>
          (case decode_frame_header data of
             Some (i, t, payload) \<Rightarrow>
               if i = sid \<and> t = MSG_TYPE_DATA then [payload]
               else if i = sid \<and> t = MSG_TYPE_FIN then [[]] else []
           | None \<Rightarrow> [])
      | _ \<Rightarrow> [])"

fun stream_items :: "u32 \<Rightarrow> ws_action list \<Rightarrow> bytes list" where
  "stream_items sid [] = []"
| "stream_items sid (Arrive msg # as) = frame_items sid msg @ stream_items sid as"
| "stream_items sid (_ # as) = stream_items sid as"

fun opens :: "ws_action list \<Rightarrow> nat" where
  "opens [] = 0"
| "opens (Open # as) = Suc (opens as)"
| "opens (_ # as) = opens as"

text \<open>
  The invariant of a connection with its log: every stream has a channel of its own, a channel not
  yet made is empty, streams wait or have been accepted.
\<close>

definition ws_inv :: "WebSocketConnection \<times> ws_log \<Rightarrow> bool" where
  "ws_inv cl \<longleftrightarrow>
     (let (c, l) = cl
      in distinct (map snd (ws_streams c)) \<and> (\<forall>(i, h) \<in> set (ws_streams c). h < ws_next_chan c) \<and>
         (\<forall>h \<ge> ws_next_chan c. ch_queue (ws_chans c h) = [] \<and> taken l h = []) \<and> ws_accept_open c)"

lemma put_stream_simps [simp]:
  "map_of (put_stream i h xs) j = (if j = i then Some h else map_of xs j)"
  "set (put_stream i h xs) = insert (i, h) {x \<in> set xs. fst x \<noteq> i}"
proof -
  have "map_of (filter (\<lambda>(k, _). k \<noteq> i) xs) j = (if j = i then None else map_of xs j)"
    by (induction xs) auto
  then show "map_of (put_stream i h xs) j = (if j = i then Some h else map_of xs j)"
    by (simp add: put_stream_def)
qed (auto simp: put_stream_def)

lemma distinct_put_stream:
  "distinct (map snd xs) \<Longrightarrow> h \<notin> snd ` set xs \<Longrightarrow> distinct (map snd (put_stream i h xs))"
  by (auto simp: put_stream_def distinct_map_filter)

lemma chan_send_Some:
  "chan_send h b c = Some c' \<longleftrightarrow>
     (if \<not> ch_rx (ws_chans c h) then c' = c
      else length (ch_queue (ws_chans c h)) < STREAM_CAP \<and>
        c' = c\<lparr>ws_chans := (ws_chans c)(h := (ws_chans c h)\<lparr>ch_queue := ch_queue (ws_chans c h) @ [b]\<rparr>)\<rparr>)"
  by (auto simp: chan_send_def Let_def not_le)

lemma ws_inv_fresh: "ws_inv (c, l) \<Longrightarrow> ws_next_chan c \<notin> snd ` set (ws_streams c)"
  by (auto simp: ws_inv_def)

lemma ws_inv_bound: "ws_inv (c, l) \<Longrightarrow> map_of (ws_streams c) i = Some h \<Longrightarrow> h < ws_next_chan c"
  by (fastforce simp: ws_inv_def dest: map_of_SomeD)

lemma dispatch_inv:
  assumes "ws_inv (c, l)" and "dispatch i t payload c = Some c'"
  shows "ws_inv (c', l)"
proof (cases "map_of (ws_streams c) i")
  case None
  show ?thesis
  proof (cases "t = MSG_TYPE_DATA")
    case True
    have "distinct (map snd (put_stream i (ws_next_chan c) (ws_streams c)))"
      using assms(1) ws_inv_fresh [OF assms(1)] by (intro distinct_put_stream) (simp_all add: ws_inv_def)
    with True None assms show ?thesis
      by (auto simp: dispatch_def ws_inv_def Let_def less_Suc_eq split: if_splits)
  qed (use None assms in \<open>simp add: dispatch_def\<close>)
next
  case (Some h)
  from ws_inv_bound [OF assms(1) Some] Some assms show ?thesis
    by (auto simp: dispatch_def ws_inv_def chan_send_Some split: if_splits)
qed

lemma reader_turn_inv:
  assumes "ws_inv (c, l)" and "reader_turn msg c = Some (c', b)"
  shows "ws_inv (c', l)"
proof -
  have "ws_inv (c\<lparr>ws_bytes_received := n\<rparr>, l)" for n using assms(1) by (simp add: ws_inv_def)
  with assms show ?thesis
    by (auto simp: reader_turn_def Let_def dest: dispatch_inv split: ws_message.splits option.splits)
qed

lemma ws_act_inv:
  assumes "ws_inv (c, l)" and "ws_act a (c, l) = Some (c', l')"
  shows "ws_inv (c', l')"
proof (cases a)
  case (Arrive msg)
  with assms show ?thesis by (auto dest: reader_turn_inv split: option.splits bool.splits)
next
  case (Take h)
  have "ch_queue (ws_chans c h) = []" if "\<not> h < ws_next_chan c"
    using assms(1) that by (simp add: ws_inv_def)
  with Take assms show ?thesis by (fastforce simp: ws_inv_def take_item_def split: list.splits)
next
  case Open
  have "distinct (map snd (put_stream i (ws_next_chan c) (ws_streams c)))" for i
    using assms(1) ws_inv_fresh [OF assms(1)] by (intro distinct_put_stream) (simp_all add: ws_inv_def)
  with Open assms show ?thesis
    by (cases "ws_closed c") (auto simp: ws_open_stream_def ws_inv_def Let_def less_Suc_eq)
next
  case Accept
  with assms show ?thesis by (auto simp: accept_wait_def ws_inv_def split: list.splits)
qed

text \<open>The state of a stream that has its channel, and one step of the connection.\<close>

definition registered :: "u32 \<Rightarrow> nat \<Rightarrow> WebSocketConnection \<Rightarrow> bool" where
  "registered i h c \<longleftrightarrow> map_of (ws_streams c) i = Some h \<and> ch_rx (ws_chans c h)"

definition chan_history :: "nat \<Rightarrow> WebSocketConnection \<times> ws_log \<Rightarrow> bytes list" where
  "chan_history h cl = taken (snd cl) h @ ch_queue (ws_chans (fst cl) h)"

lemma map_of_snd_inject:
  assumes "distinct (map snd xs)" and "map_of xs i = Some h" and "map_of xs j = Some h"
  shows "i = j"
proof -
  from assms(2,3) have "(i, h) \<in> set xs" "(j, h) \<in> set xs" by (auto dest: map_of_SomeD)
  with assms(1) have "(i, h) = (j, h)" unfolding distinct_map by (metis inj_on_def snd_conv)
  then show ?thesis by simp
qed

lemma dispatch_registered:
  assumes "ws_inv (c, l)" and "registered i h c" and "dispatch j t payload c = Some c'"
  shows "registered i h c' \<and>
    chan_history h (c', l) = chan_history h (c, l) @
      (if j = i \<and> t = MSG_TYPE_DATA then [payload] else if j = i \<and> t = MSG_TYPE_FIN then [[]] else []) \<and>
    ws_next_stream_id c' = ws_next_stream_id c \<and> set (ws_accept c) \<subseteq> set (ws_accept c')"
proof (cases "map_of (ws_streams c) j")
  case None
  with assms(2) have "j \<noteq> i" by (auto simp: registered_def)
  moreover from assms(2) have "h \<noteq> ws_next_chan c"
    using ws_inv_bound [OF assms(1)] by (auto simp: registered_def)
  ultimately show ?thesis using None assms(2,3)
    by (auto simp: dispatch_def registered_def chan_history_def Let_def split: if_splits)
next
  case (Some h')
  have "h' = h \<longleftrightarrow> j = i"
    using Some assms(1,2) map_of_snd_inject [of "ws_streams c" i h j] by (auto simp: registered_def ws_inv_def)
  with Some assms(2,3) show ?thesis
    by (auto simp: dispatch_def registered_def chan_history_def chan_send_Some split: if_splits)
qed

lemma reader_turn_registered:
  assumes "ws_inv (c, l)" and "registered i h c" and "reader_turn msg c = Some (c', b)"
  shows "registered i h c' \<and> chan_history h (c', l) = chan_history h (c, l) @ frame_items i msg \<and>
    ws_next_stream_id c' = ws_next_stream_id c \<and> set (ws_accept c) \<subseteq> set (ws_accept c')"
proof -
  have upd: "ws_inv (c\<lparr>ws_bytes_received := n\<rparr>, l)" "registered i h (c\<lparr>ws_bytes_received := n\<rparr>)"
    "chan_history h (c\<lparr>ws_bytes_received := n\<rparr>, l) = chan_history h (c, l)" for n
    using assms(1,2) by (simp_all add: ws_inv_def registered_def chan_history_def)
  show ?thesis
    using assms upd dispatch_registered [OF upd(1,2)]
    by (fastforce simp: reader_turn_def frame_items_def Let_def split: ws_message.splits option.splits)
qed

lemma ws_act_registered:
  assumes "ws_inv (c, l)" and "registered i h c" and "ws_act a (c, l) = Some (c', l')"
    and "a = Open \<longrightarrow> ws_next_stream_id c \<noteq> i"
  shows "registered i h c' \<and> chan_history h (c', l') = chan_history h (c, l) @ stream_items i [a] \<and>
    set (accepted l @ ws_accept c) \<subseteq> set (accepted l' @ ws_accept c') \<and>
    (ws_next_stream_id c' = ws_next_stream_id c \<or>
     a = Open \<and> ws_next_stream_id c' = ws_next_stream_id c + 2)"
proof (cases a)
  case (Arrive msg)
  with assms reader_turn_registered [OF assms(1,2)] show ?thesis
    by (fastforce split: option.splits bool.splits)
next
  case (Take h')
  with assms show ?thesis
    by (auto simp: registered_def chan_history_def take_item_def split: list.splits)
next
  case Open
  from assms(2) have "h \<noteq> ws_next_chan c"
    using ws_inv_bound [OF assms(1)] by (auto simp: registered_def)
  with Open assms show ?thesis
    by (cases "ws_closed c") (auto simp: registered_def chan_history_def ws_open_stream_def Let_def)
next
  case Accept
  with assms show ?thesis
    by (auto simp: registered_def chan_history_def accept_wait_def split: list.splits)
qed

lemma ws_run_registered:
  assumes "ws_inv (c, l)" and "registered i h c" and "ws_run as (c, l) = Some (c', l')"
    and "\<forall>k < opens as. ws_next_stream_id c + 2 * of_nat k \<noteq> i"
  shows "registered i h c' \<and> chan_history h (c', l') = chan_history h (c, l) @ stream_items i as \<and>
    set (accepted l @ ws_accept c) \<subseteq> set (accepted l' @ ws_accept c')"
  using assms
proof (induction as arbitrary: c l)
  case (Cons a as)
  then obtain c1 l1 where act: "ws_act a (c, l) = Some (c1, l1)" and run: "ws_run as (c1, l1) = Some (c', l')"
    by (auto split: option.splits)
  have "a = Open \<longrightarrow> ws_next_stream_id c \<noteq> i" using Cons.prems(4) by fastforce
  note one = ws_act_registered [OF Cons.prems(1,2) act this]
  have "\<forall>k < opens as. ws_next_stream_id c1 + 2 * of_nat k \<noteq> i"
  proof (intro allI impI)
    fix k assume k: "k < opens as"
    have "opens as \<le> opens (a # as)" by (cases a) auto
    show "ws_next_stream_id c1 + 2 * of_nat k \<noteq> i"
    proof (cases "ws_next_stream_id c1 = ws_next_stream_id c")
      case True
      with k Cons.prems(4) \<open>opens as \<le> opens (a # as)\<close> show ?thesis by simp
    next
      case False
      with one have "a = Open" "ws_next_stream_id c1 = ws_next_stream_id c + 2" by auto
      with k Cons.prems(4) [rule_format, of "Suc k"] show ?thesis by (simp add: algebra_simps)
    qed
  qed
  from Cons.IH [OF ws_act_inv [OF Cons.prems(1) act] _ run this] one
  have "registered i h c'" "chan_history h (c', l') = chan_history h (c1, l1) @ stream_items i as"
    "set (accepted l1 @ ws_accept c1) \<subseteq> set (accepted l' @ ws_accept c')" by blast+
  moreover have "stream_items i (a # as) = stream_items i [a] @ stream_items i as" by (cases a) auto
  ultimately show ?case using one by auto
qed simp

lemma ws_run_append: "ws_run (as @ bs) cl = (case ws_run as cl of None \<Rightarrow> None | Some cl' \<Rightarrow> ws_run bs cl')"
  by (induction as arbitrary: cl) (auto split: option.splits)

lemma ws_run_inv: "ws_inv cl \<Longrightarrow> ws_run as cl = Some cl' \<Longrightarrow> ws_inv cl'"
proof (induction as arbitrary: cl)
  case (Cons a as)
  from Cons.prems(2) obtain c1 where "ws_act a cl = Some c1" "ws_run as c1 = Some cl'"
    by (auto split: option.splits)
  with Cons.IH Cons.prems(1) ws_act_inv show ?case by (metis surj_pair)
qed simp

text \<open>The parity of the ids opened on this side never changes, not even when the counter wraps.\<close>

lemma even_add_2: "even (unat (w + 2 :: u32)) \<longleftrightarrow> even (unat w)"
  by (simp add: unat_word_ariths dvd_mod_iff)

lemma even_add_2_mult: "even (unat (w + 2 * of_nat k :: u32)) \<longleftrightarrow> even (unat w)"
proof (induction k)
  case (Suc k)
  have "w + 2 * of_nat (Suc k) = (w + 2 * of_nat k) + 2" by (simp add: algebra_simps)
  with Suc show ?case by (simp only: even_add_2)
qed simp

lemma ws_act_unregistered:
  assumes "map_of (ws_streams c) i = None" and "ws_act a (c, l) = Some (c', l')"
    and "stream_items i [a] = []" and "even (unat i) \<noteq> even (unat (ws_next_stream_id c))"
  shows "map_of (ws_streams c') i = None \<and> even (unat i) \<noteq> even (unat (ws_next_stream_id c'))"
proof (cases a)
  case (Arrive msg)
  with assms show ?thesis
    by (auto simp: reader_turn_def frame_items_def dispatch_def chan_send_Some Let_def
        split: option.splits bool.splits ws_message.splits if_splits)
next
  case (Take h)
  with assms show ?thesis by (auto simp: take_item_def split: list.splits)
next
  case Open
  with assms show ?thesis
    by (cases "ws_closed c") (auto simp: ws_open_stream_def Let_def even_add_2)
next
  case Accept
  with assms show ?thesis by (auto simp: accept_wait_def split: list.splits)
qed

lemma ws_run_unregistered:
  assumes "map_of (ws_streams c) i = None" and "ws_run as (c, l) = Some (c', l')"
    and "stream_items i as = []" and "even (unat i) \<noteq> even (unat (ws_next_stream_id c))"
  shows "map_of (ws_streams c') i = None \<and> even (unat i) \<noteq> even (unat (ws_next_stream_id c'))"
  using assms
proof (induction as arbitrary: c l)
  case (Cons a as)
  then obtain c1 l1 where act: "ws_act a (c, l) = Some (c1, l1)" and run: "ws_run as (c1, l1) = Some (c', l')"
    by (auto split: option.splits)
  from Cons.prems(3) have "stream_items i [a] = []" "stream_items i as = []" by (cases a; auto)+
  with ws_act_unregistered [OF Cons.prems(1) act _ Cons.prems(4)] Cons.IH [OF _ run] show ?case by blast
qed simp

lemma ws_inv_start: "ws_inv (WebSocketConnection_new srv, log_start)"
  by (simp add: ws_inv_def WebSocketConnection_new_def log_start_def)

text \<open>
  C15 Streams of the peer are kept apart: whatever frames of other streams, streams opened here,
  accepted or read come between, the first data frame of a stream of the peer makes one stream to
  accept, and what its channel has been given, read or not, is exactly the payloads of the frames
  of this stream, in their order, with an empty item for its FIN.
\<close>

theorem ws_demultiplexes:
  assumes "ws_run (before @ Arrive (WsBinary (encode_frame i MSG_TYPE_DATA payload)) # after)
             (WebSocketConnection_new srv, log_start) = Some (c, l)"
    and "even (unat i) = (\<not> srv)"
    and "stream_items i before = []"
  shows "\<exists>h. (i, h) \<in> set (accepted l @ ws_accept c) \<and> map_of (ws_streams c) i = Some h \<and>
           taken l h @ ch_queue (ws_chans c h) = payload # stream_items i after"
proof -
  let ?msg = "WsBinary (encode_frame i MSG_TYPE_DATA payload)"
  obtain c1 l1 where run1: "ws_run before (WebSocketConnection_new srv, log_start) = Some (c1, l1)"
    and rest: "ws_run (Arrive ?msg # after) (c1, l1) = Some (c, l)"
    using assms(1) by (auto simp: ws_run_append split: option.splits)
  note inv1 = ws_run_inv [OF ws_inv_start run1]
  have none: "map_of (ws_streams c1) i = None" and par: "even (unat i) \<noteq> even (unat (ws_next_stream_id c1))"
    using ws_run_unregistered [OF _ run1 assms(3)] assms(2) by (auto simp: WebSocketConnection_new_def)
  obtain c2 where act: "reader_turn ?msg c1 = Some (c2, True)" and run2: "ws_run after (c2, l1) = Some (c, l)"
    using rest by (auto split: option.splits bool.splits)
  define h where "h = ws_next_chan c1"
  have dec: "decode_frame_header (encode_frame i MSG_TYPE_DATA payload) = Some (i, MSG_TYPE_DATA, payload)"
    by (simp add: decode_frame_header_def encode_frame_def nth_append)
  have "registered i h c2" "chan_history h (c2, l1) = [payload]" "(i, h) \<in> set (ws_accept c2)"
    "ws_next_stream_id c2 = ws_next_stream_id c1"
    using act none inv1 by (auto simp: reader_turn_def dec dispatch_def registered_def chan_history_def ws_inv_def
        h_def Let_def split: if_splits)
  moreover have "\<forall>k < opens after. ws_next_stream_id c1 + 2 * of_nat k \<noteq> i"
    using par even_add_2_mult by metis
  ultimately show ?thesis
    using ws_run_registered [OF reader_turn_inv [OF inv1 act] _ run2, of i h]
    by (auto simp: registered_def chan_history_def)
qed

lemma decode_encode_frame: "decode_frame_header (encode_frame i t p) = Some (i, t, p)"
  by (simp add: decode_frame_header_def encode_frame_def nth_append)

lemmas ws_eval = decode_encode_frame reader_turn_def dispatch_def chan_send_def take_item_def accept_wait_def
  put_stream_def WebSocketConnection_new_def log_start_def MSG_TYPE_DATA_def MSG_TYPE_FIN_def ACCEPT_CAP_def
  STREAM_CAP_def frame_items_def

theorem ws_demultiplexes_witness:
  "\<exists>c l h. ws_run ([] @ Arrive (WsBinary (encode_frame 2 MSG_TYPE_DATA [7])) #
          [Arrive (WsBinary (encode_frame 4 MSG_TYPE_DATA [1])), Accept, Take 0,
           Arrive (WsBinary (encode_frame 2 MSG_TYPE_FIN []))])
       (WebSocketConnection_new False, log_start) = Some (c, l) \<and>
     (2, h) \<in> set (accepted l @ ws_accept c) \<and>
     taken l h @ ch_queue (ws_chans c h) = [[7], []]"
proof -
  let ?as = "[Arrive (WsBinary (encode_frame 4 MSG_TYPE_DATA [1])), Accept, Take 0,
           Arrive (WsBinary (encode_frame 2 MSG_TYPE_FIN []))]"
  let ?run = "ws_run ([] @ Arrive (WsBinary (encode_frame 2 MSG_TYPE_DATA [7])) # ?as)
       (WebSocketConnection_new False, log_start)"
  have "?run \<noteq> None" by (simp add: ws_eval)
  then obtain c l where run: "?run = Some (c, l)" by auto
  have "stream_items 2 ?as = [[]]" by (simp add: ws_eval)
  with ws_demultiplexes [OF run] run show ?thesis by fastforce
qed

lemma codec_encode_nonempty: "codec_encode ser m = Ok bs \<Longrightarrow> bs \<noteq> []"
  by (auto simp: codec_encode_def u32_to_be_bytes_eval split: sum.splits if_splits)

text \<open>
  Messages over a WebSocket: when the frames of a stream of the peer carry the encoded messages
  and then FIN, the accepted stream receives exactly these messages in order and then the end,
  whatever frames of other streams come between.
\<close>

theorem ws_messages_delivered:
  assumes "ws_run (before @ Arrive (WsBinary (encode_frame i MSG_TYPE_DATA payload)) # after)
             (WebSocketConnection_new srv, log_start) = Some (c, l)"
    and "even (unat i) = (\<not> srv)" and "stream_items i before = []" and "\<forall>h. Take h \<notin> set (before @ after)"
    and "payload # stream_items i after = frames @ [[]]"
    and "list_all2 (\<lambda>m bs. codec_encode ser m = Ok bs) msgs frames"
    and "\<forall>m \<in> set msgs. \<forall>p. ser m = Ok p \<longrightarrow> deser p = Ok m"
  shows "\<exists>h cs cs'. (i, h) \<in> set (accepted l @ ws_accept c) \<and>
           recv_many (ws_recv deser :: _ \<Rightarrow> ('b, 'e, TunnelMessage option) TransportResult poll \<times> _) (length msgs) (c, WebSocketStream_new (ucast i) h) = (msgs, cs) \<and>
           ws_recv deser cs = (Ready (Ok None :: ('b, 'e, TunnelMessage option) TransportResult), cs')"
proof -
  have "taken l = (\<lambda>_. [])"
  proof -
    have "taken l' = taken l0" if "ws_run as (c0, l0) = Some (c', l')" "\<forall>h. Take h \<notin> set as" for as c0 l0 c' l'
      using that
    proof (induction as arbitrary: c0 l0)
      case (Cons a as)
      then show ?case by (cases a) (fastforce split: option.splits bool.splits)+
    qed simp
    from this [OF assms(1)] assms(4) show ?thesis by (simp add: log_start_def)
  qed
  then obtain h where h: "(i, h) \<in> set (accepted l @ ws_accept c)"
    and q: "ch_queue (ws_chans c h) = frames @ [[]]"
    using ws_demultiplexes [OF assms(1-3)] assms(5) by fastforce
  from assms(6) have "\<forall>bs \<in> set frames. bs \<noteq> []"
    by (induction rule: list_all2_induct) (auto dest: codec_encode_nonempty)
  then have tk: "takeWhile (\<lambda>b. b \<noteq> []) (frames @ [[]]) = frames" by (simp add: takeWhile_append2)
  let ?cs = "(c, WebSocketStream_new (ucast i) h)"
  have "ws_avail ?cs = concat frames" "ws_tail ?cs = Ended" "\<not> wss_closed (snd ?cs)"
    by (simp_all add: WebSocketStream_new_def q tk q_tail_def)
  then have "\<exists>cs cs'. recv_many (ws_recv deser :: _ \<Rightarrow> ('b, 'e, TunnelMessage option) TransportResult poll \<times> _) (length msgs) ?cs = (msgs, cs) \<and>
      ws_recv deser cs = (Ready (Ok None :: ('b, 'e, TunnelMessage option) TransportResult), cs')"
    by (intro websocket.recv_until_end [OF assms(6,7)]) simp_all
  with h show ?thesis by blast
qed

theorem ws_messages_delivered_witness:
  "\<exists>c l h cs cs'.
     ws_run ([] @ Arrive (WsBinary (encode_frame 2 MSG_TYPE_DATA [0, 0, 0, 2, 0, 5])) #
          [Arrive (WsBinary (encode_frame 4 MSG_TYPE_DATA [1])),
           Arrive (WsBinary (encode_frame 2 MSG_TYPE_FIN []))])
       (WebSocketConnection_new False, log_start) = Some (c, l) \<and>
     (2, h) \<in> set (accepted l @ ws_accept c) \<and>
     recv_many (ws_recv sample_deser :: _ \<Rightarrow> (unit, unit, TunnelMessage option) TransportResult poll \<times> _) (length [Ping 5]) (c, WebSocketStream_new (ucast (2 :: u32)) h) = ([Ping 5], cs) \<and>
     ws_recv sample_deser cs = (Ready (Ok None :: (unit, unit, TunnelMessage option) TransportResult), cs')"
proof -
  let ?as = "[Arrive (WsBinary (encode_frame 4 MSG_TYPE_DATA [1])),
           Arrive (WsBinary (encode_frame 2 MSG_TYPE_FIN []))]"
  let ?run = "ws_run ([] @ Arrive (WsBinary (encode_frame 2 MSG_TYPE_DATA [0, 0, 0, 2, 0, 5])) # ?as)
       (WebSocketConnection_new False, log_start)"
  have "?run \<noteq> None" by (simp add: ws_eval)
  then obtain c l where run: "?run = Some (c, l)" by auto
  have items: "[0, 0, 0, 2, 0, 5] # stream_items 2 ?as = [[0, 0, 0, 2, 0, 5]] @ [[]]"
    by (simp add: ws_eval)
  have enc: "list_all2 (\<lambda>m bs. codec_encode sample_ser m = Ok bs) [Ping 5] [[0, 0, 0, 2, 0, 5]]"
    by (simp add: codec_encode_def sample_ser_def MAX_MESSAGE_SIZE_def u32_to_be_bytes_eval)
  have "\<exists>h cs cs'. (2, h) \<in> set (accepted l @ ws_accept c) \<and>
     recv_many (ws_recv sample_deser :: _ \<Rightarrow> (unit, unit, TunnelMessage option) TransportResult poll \<times> _) (length [Ping 5]) (c, WebSocketStream_new (ucast (2 :: u32)) h)
       = ([Ping 5], cs) \<and>
     ws_recv sample_deser cs = (Ready (Ok None :: (unit, unit, TunnelMessage option) TransportResult), cs')"
    by (rule ws_messages_delivered [OF run _ _ _ items enc])
       (simp_all add: sample_ser_def sample_deser_def)
  with run show ?thesis by blast
qed

fun quic_send_all ::
  "(TunnelMessage \<Rightarrow> ('b, bytes) result) \<Rightarrow> TunnelMessage list \<Rightarrow> 'e QuicStream
    \<Rightarrow> ('b, 'e, unit) TransportResult \<times> 'e QuicStream" where
  "quic_send_all ser [] s = (Ok (), s)"
| "quic_send_all ser (m # ms) s =
     (case quic_send_message ser m s of
        (Err e, s') \<Rightarrow> (Err e, s')
      | (Ok _, s') \<Rightarrow> quic_send_all ser ms s')"

lemma quic_send_all_frames:
  assumes "quic_send_all ser msgs s = (Ok () :: ('b, 'e, unit) TransportResult, s')"
  shows "\<exists>frames. list_all2 (\<lambda>m bs. codec_encode ser m = Ok bs) msgs frames \<and>
           written (qs_send s') = written (qs_send s) @ concat frames"
  using assms
proof (induction msgs arbitrary: s)
  case (Cons m ms)
  from Cons.prems obtain s1 where one: "quic_send_message ser m s = (Ok () :: ('b, 'e, unit) TransportResult, s1)"
    and rest: "quic_send_all ser ms s1 = (Ok () :: ('b, 'e, unit) TransportResult, s')"
    by (auto split: prod.splits sum.splits)
  from one obtain bs where bs: "codec_encode ser m = Ok bs" "written (qs_send s1) = written (qs_send s) @ bs"
    by (auto simp: quic_send_message_def quic_send_bytes_def stream_write_def
        split: if_splits sum.splits option.splits)
  from Cons.IH [OF rest] obtain frames where "list_all2 (\<lambda>m bs. codec_encode ser m = Ok bs) ms frames"
    "written (qs_send s') = written (qs_send s1) @ concat frames" by blast
  with bs show ?case by (intro exI [of _ "bs # frames"]) simp
qed simp

text \<open>
  C16 Messages over QUIC: what one side sends, whatever the chunks it arrives in, is what the other
  receives, in order, and then the end of the stream.
\<close>

theorem quic_exchange:
  assumes "quic_send_all ser msgs s = (Ok () :: ('b, 'e, unit) TransportResult, s')"
    and "written (qs_send s) = []"
    and "ev_bytes evs = written (qs_send s')" and "ev_tail evs = Ended"
    and "\<forall>m \<in> set msgs. \<forall>p. ser m = Ok p \<longrightarrow> deser p = Ok m"
  shows "\<exists>r r'. recv_many (quic_recv_message deser) (length msgs) (QuicStream_new snd0 evs sid) = (msgs, r) \<and>
           quic_recv_message deser r = (Ready (Ok None :: ('b, 'e, TunnelMessage option) TransportResult), r')"
proof -
  from quic_send_all_frames [OF assms(1)] assms(2)
  obtain frames where fr: "list_all2 (\<lambda>m bs. codec_encode ser m = Ok bs) msgs frames"
    "written (qs_send s') = concat frames" by auto
  show ?thesis
    by (rule quic.recv_until_end [OF fr(1) assms(5)])
       (simp_all add: QuicStream_new_def assms(3,4) fr(2))
qed

theorem quic_exchange_witness:
  "\<exists>r r'. recv_many (quic_recv_message sample_deser) (length [Ping 5, Pong 7])
       (QuicStream_new \<lparr>written = [], fin_sent = False, write_fails = None\<rparr>
          [Chunk [0, 0], Chunk [0, 2, 0, 5, 0, 0, 0, 3, 1], Chunk [], Chunk [7, 0], Finished] 4) = ([Ping 5, Pong 7], r) \<and>
     quic_recv_message sample_deser r = (Ready (Ok None :: (unit, nat, TunnelMessage option) TransportResult), r')"
proof -
  let ?s = "QuicStream_new \<lparr>written = [], fin_sent = False, write_fails = None\<rparr> [] 0 :: nat QuicStream"
  obtain r s' where run: "quic_send_all sample_ser [Ping 5, Pong 7] ?s
      = (r :: (unit, nat, unit) TransportResult, s')" by fastforce
  then have "r = Ok ()" "written (qs_send s') = [0, 0, 0, 2, 0, 5, 0, 0, 0, 3, 1, 7, 0]"
    by (auto simp: quic_send_message_def quic_send_bytes_def stream_write_def codec_encode_def sample_ser_def
        MAX_MESSAGE_SIZE_def u32_to_be_bytes_eval QuicStream_new_def)
  with run show ?thesis
    by (intro quic_exchange [where ser = sample_ser and s = ?s and s' = s'])
       (simp_all add: sample_ser_def sample_deser_def QuicStream_new_def)
qed

section \<open>Stream ids\<close>

fun open_ids :: "nat \<Rightarrow> WebSocketConnection \<Rightarrow> u64 list" where
  "open_ids 0 c = []"
| "open_ids (Suc n) c =
     (case ws_open_stream c :: (unit, unit, WebSocketStream) TransportResult \<times> _ of
        (Ok s, c') \<Rightarrow> wss_stream_id s # open_ids n c'
      | (Err _, c') \<Rightarrow> open_ids n c')"

lemma open_ids_eq:
  "\<not> ws_closed c \<Longrightarrow>
   open_ids n c = map (\<lambda>k. ucast (ws_next_stream_id c + 2 * of_nat k :: u32)) [0..<n]"
proof (induction n arbitrary: c)
  case (Suc n)
  have "map f [0..<Suc n] = f 0 # map (\<lambda>k. f (Suc k)) [0..<n]" for f :: "nat \<Rightarrow> u64"
    by (simp only: upt_conv_Cons [OF zero_less_Suc] map_Suc_upt [symmetric] list.map map_map comp_def)
  with Suc show ?case
    by (simp add: ws_open_stream_def Let_def WebSocketStream_new_def algebra_simps del: upt_Suc)
qed simp

lemma ucast_u32_u64_inject: "(ucast (a :: u32) :: u64) = ucast b \<longleftrightarrow> a = b"
proof -
  have "unat (ucast w :: u64) = unat w" for w :: u32
  proof -
    have "unat w < 2 ^ 64" using unsigned_less [of w, where ?'a = nat] by simp
    then show ?thesis by (simp add: unsigned_ucast_eq take_bit_nat_eq_self)
  qed
  then show ?thesis by (metis word_unat_eq_iff)
qed

lemma double_inject: "j < 2 ^ 31 \<Longrightarrow> k < 2 ^ 31 \<Longrightarrow> (2 * of_nat j :: u32) = 2 * of_nat k \<longleftrightarrow> j = k"
proof -
  assume jk: "j < 2 ^ 31" "k < 2 ^ 31"
  have "unat (2 * of_nat i :: u32) = 2 * i" if "i < 2 ^ 31" for i
  proof -
    have "(2 * of_nat i :: u32) = of_nat (2 * i)" by simp
    with that show ?thesis by (simp only: unat_of_nat) simp
  qed
  with jk show ?thesis by (metis mult_left_cancel zero_neq_numeral)
qed

text \<open>
  C32 The two sides of a WebSocket connection never open a stream with the same id, however many
  they open: the ids of the accepting side are even and those of the connecting side odd, also
  past the wrap of the 32-bit counter. One side repeats an id only after \<open>2 ^ 31\<close> streams, and then
  it does: the next stream has the id of the first.
\<close>

theorem ws_stream_ids:
  "set (open_ids n (WebSocketConnection_new True)) \<inter> set (open_ids m (WebSocketConnection_new False)) = {} \<and>
   (k \<le> 2 ^ 31 \<longrightarrow> distinct (open_ids k (WebSocketConnection_new srv))) \<and>
   open_ids (Suc (2 ^ 31)) (WebSocketConnection_new srv) ! (2 ^ 31)
     = open_ids (Suc (2 ^ 31)) (WebSocketConnection_new srv) ! 0"
proof (intro conjI impI)
  have ids: "open_ids n (WebSocketConnection_new srv)
      = map (\<lambda>k. ucast ((if srv then 2 else 1) + 2 * of_nat k :: u32)) [0..<n]" for n srv
    using open_ids_eq [of "WebSocketConnection_new srv" n] by (simp add: WebSocketConnection_new_def)
  have "even (unat (2 :: u32))" "odd (unat (1 :: u32))" by simp_all
  then have "2 + 2 * of_nat j \<noteq> (1 + 2 * of_nat k :: u32)" for j k
    using even_add_2_mult [of 2 j] even_add_2_mult [of 1 k] by metis
  then show "set (open_ids n (WebSocketConnection_new True)) \<inter> set (open_ids m (WebSocketConnection_new False)) = {}"
    by (auto simp: ids ucast_u32_u64_inject)
  show "distinct (open_ids k (WebSocketConnection_new srv))" if "k \<le> 2 ^ 31"
    using that by (auto simp: ids distinct_map inj_on_def ucast_u32_u64_inject double_inject)
  have nth: "open_ids (Suc n) (WebSocketConnection_new srv) ! k
      = ucast ((if srv then 2 else 1) + 2 * of_nat k :: u32)" if "k \<le> n" for n k srv
    using that by (simp add: ids del: upt_Suc)
  have "(b + 2 * of_nat (2 ^ 31) :: u32) = b + 2 * of_nat 0" for b by simp
  then show "open_ids (Suc (2 ^ 31)) (WebSocketConnection_new srv) ! (2 ^ 31)
     = open_ids (Suc (2 ^ 31)) (WebSocketConnection_new srv) ! 0"
    by (simp only: nth [OF order_refl] nth [OF zero_le])
qed

theorem ws_stream_ids_witness:
  "set (open_ids 2 (WebSocketConnection_new True)) \<inter> set (open_ids 3 (WebSocketConnection_new False)) = {} \<and>
   distinct (open_ids 3 (WebSocketConnection_new False))"
  using ws_stream_ids [of 2 3 3 False] by simp

section \<open>Limits of the transports\<close>

lemma reader_task_ends: "reader_task msgs c = Some c' \<Longrightarrow> \<exists>c1. c' = reader_end c1"
  by (induction msgs c rule: reader_task.induct) (auto split: option.splits bool.splits)

lemma tell_end_keeps:
  "ch_rx (foldl tell_end chans xs h) = ch_rx (chans h) \<and>
   (last (ch_queue (chans h)) = [] \<longrightarrow> last (ch_queue (foldl tell_end chans xs h)) = [])"
proof (induction xs arbitrary: chans)
  case (Cons x xs)
  show ?case using Cons.IH [of "tell_end chans x"] by (auto simp: tell_end_def Let_def)
qed simp

lemma tell_end_told:
  "(i, h) \<in> set xs \<Longrightarrow> ch_rx (chans h) \<Longrightarrow> last (ch_queue (foldl tell_end chans xs h)) = []"
proof (induction xs arbitrary: chans)
  case (Cons x xs)
  show ?case
  proof (cases "x = (i, h)")
    case True
    with Cons.prems tell_end_keeps [of "tell_end chans x" xs h] show ?thesis by (simp add: tell_end_def [of chans])
  next
    case False
    moreover have "ch_rx (tell_end chans x h)" using Cons.prems(2) by (simp add: tell_end_def Let_def)
    ultimately show ?thesis using Cons by auto
  qed
qed simp

text \<open>
  The end of a connection does not reach a call of \<open>accept_stream\<close> that is already waiting on
  a WebSocket: when the reader task has ended and no stream is queued, the waiting call waits on,
  because the connection itself holds a sender of the channel, while every stream has been told
  and a new call returns at once.
\<close>

theorem accept_waits_past_end:
  assumes "reader_task msgs c = Some c'" and "ws_accept c' = []"
  shows "accept_wait c' = (Pending :: ('b, 'e, WebSocketStream option) TransportResult poll, c') \<and>
     ws_accept_stream c' = (Ready (Ok None) :: ('b, 'e, WebSocketStream option) TransportResult poll, c') \<and>
     (\<forall>(i, h) \<in> set (ws_streams c'). ch_rx (ws_chans c' h) \<longrightarrow> last (ch_queue (ws_chans c' h)) = [])"
proof -
  from reader_task_ends [OF assms(1)] obtain c1 where c': "c' = reader_end c1" ..
  have "last (ch_queue (ws_chans c' h)) = []"
    if "(i, h) \<in> set (ws_streams c')" "ch_rx (ws_chans c' h)" for i h
    using that tell_end_told [of i h "ws_streams c1" "ws_chans c1"] tell_end_keeps [of "ws_chans c1" "ws_streams c1" h]
    by (simp add: c' reader_end_def)
  then show ?thesis using assms(2)
    by (auto simp: c' accept_wait_def ws_accept_stream_def reader_end_def)
qed

text \<open>
  One stream that is not read stops the whole WebSocket connection: once 256 items wait in its
  channel, the next frame for it holds the reader task, and nothing that arrives after it, for
  whatever stream, is delivered until that stream is read.
\<close>

theorem stalled_stream_blocks:
  assumes "registered i h c" and "length (ch_queue (ws_chans c h)) = STREAM_CAP"
    and "msg = WsBinary (encode_frame i t payload)" and "t = MSG_TYPE_DATA \<or> t = MSG_TYPE_FIN"
  shows "reader_turn msg c = None \<and> reader_task (msg # msgs) c = None"
  using assms
  by (auto simp: reader_turn_def decode_encode_frame dispatch_def registered_def chan_send_def Let_def)

text \<open>
  A message cut off by the end of a QUIC stream is an error on a whole stream and nothing on
  the receiving half of a split one: there the call reports a clean end and the bytes are lost.
\<close>

theorem truncated_message_on_half:
  assumes "codec_decode deser (quic_avail s) = (Ok None, r)" and "quic_avail s \<noteq> []"
    and "ev_tail (qs_recv s) = Ended" and "\<not> qs_closed s"
  shows "(\<exists>e s'. quic_recv_message deser s
             = (Ready (Err (ProtocolError e)) :: ('b, 'e, TunnelMessage option) TransportResult poll, s')) \<and>
         (\<exists>h'. half_recv_message deser (snd (quic_split s))
             = (Ready (Ok None) :: ('b, 'e, TunnelMessage option) TransportResult poll, h'))"
proof
  show "\<exists>e s'. quic_recv_message deser s
      = (Ready (Err (ProtocolError e)) :: ('b, 'e, TunnelMessage option) TransportResult poll, s')"
    using quic.recv_truncated [OF assms(4,1,2,3)] by blast
  obtain r0 h' where run: "half_recv_message deser (snd (quic_split s))
      = (r0 :: ('b, 'e, TunnelMessage option) TransportResult poll, h')" by fastforce
  then show "\<exists>h'. half_recv_message deser (snd (quic_split s))
      = (Ready (Ok None) :: ('b, 'e, TunnelMessage option) TransportResult poll, h')"
    using half_recv_loop_spec [of "snd (quic_split s)" deser r0 h'] assms
    by (auto simp: quic_split_def half_recv_message_def recv_spec_def)
qed

text \<open>
  An empty write closes the peer's stream on a WebSocket: the frame of \<open>send_bytes\<close> with no data
  leaves in the peer's channel the item that stands for FIN.
\<close>

theorem empty_write_is_fin:
  assumes "\<not> wss_closed s" and "ws_writer c" and "length (ws_frames c) < FRAME_CAP"
  shows "\<exists>frame c'. wss_send_bytes [] s c = (Ready (Ok () :: ('b, 'e, unit) TransportResult), c') \<and>
     ws_frames c' = ws_frames c @ [frame] \<and>
     frame_items i (WsBinary frame) =
       frame_items i (WsBinary (encode_frame (ucast (wss_stream_id s)) MSG_TYPE_FIN []))"
  using assms
  by (simp add: wss_send_bytes_def frame_send_def frame_items_def decode_encode_frame
      MSG_TYPE_DATA_def MSG_TYPE_FIN_def)

end
