(* ===== verification/RestAuth.thy ===== *)
theory RestAuth
  imports Handler
begin

text \<open>
  Users, sessions and tunnel tokens of the REST API: the middleware
  \<open>crates/localup-api/src/middleware/auth.rs\<close>, the helpers for cookies and the handlers for
  registration, login and auth tokens of \<open>crates/localup-api/src/handlers.rs\<close>, over the tables of
  \<open>crates/localup-relay-db/src/entities\<close>.

  The tables are lists of rows. A database call may fail: \<open>dbf n\<close> is the error of the \<open>n\<close>-th call of
  a handler. The libraries for identifiers, passwords, tokens, hashes and dates are the record
  \<open>lib\<close>; the identifiers a handler draws, the clock and the request are arguments. Times are
  nanoseconds.
\<close>

section \<open>Tables, libraries, requests\<close>

type_synonym uuid = u128

datatype UserRole = AdminRole | PlainRole

record user_row =
  u_id :: uuid
  u_email :: string
  u_password_hash :: string
  u_full_name :: "string option"
  u_role :: UserRole
  u_is_active :: bool
  u_created_at :: int
  u_updated_at :: int

record token_row =
  t_id :: uuid
  t_user :: uuid
  t_team :: "uuid option"
  t_name :: string
  t_description :: "string option"
  t_hash :: string
  t_last_used :: "int option"
  t_expires :: "int option"
  t_active :: bool
  t_created :: int

datatype TeamRole = TeamOwner | TeamAdmin | TeamMember

record team_row =
  tm_id :: uuid
  tm_name :: string
  tm_slug :: string
  tm_owner :: uuid
  tm_created :: int
  tm_updated :: int

record member_row =
  mb_team :: uuid
  mb_user :: uuid
  mb_role :: TeamRole
  mb_joined :: int

record tables =
  users :: "user_row list"
  auth_tokens :: "token_row list"
  teams :: "team_row list"
  team_members :: "member_row list"

record api_config =
  allow_signup :: bool
  jwt_secret :: string
  is_https :: bool

record ('k, 'e) lib =
  uuid_parse :: "string \<Rightarrow> uuid option"
  uuid_show :: "uuid \<Rightarrow> string"
  hash_password :: "string \<Rightarrow> (string, string) result"
  verify_password :: "string \<Rightarrow> string \<Rightarrow> (string, bool) result"
  jwt_encode :: "string \<Rightarrow> JwtClaims \<Rightarrow> (string, string) result"
  from_secret :: "bytes \<Rightarrow> 'k"
  jwt_decode :: "'k \<Rightarrow> Validation \<Rightarrow> string \<Rightarrow> ('e, JwtClaims) result"
  show_jwt_error :: "'e \<Rightarrow> string"
  sha256_hex :: "string \<Rightarrow> string"
  plus_days :: "int \<Rightarrow> int \<Rightarrow> int option"

record ErrorResponse =
  err_text :: string
  err_code :: "string option"

type_synonym 'a answer = "(nat \<times> ErrorResponse, 'a) result"

definition http_error :: "nat \<Rightarrow> string \<Rightarrow> string \<Rightarrow> 'a answer" where
  "http_error status txt code = Err (status, \<lparr>err_text = txt, err_code = Some code\<rparr>)"

definition internal_error :: "string \<Rightarrow> 'a answer" where
  "internal_error code = http_error 500 ''Internal server error'' code"

text \<open>Inserts fail on the keys the entities declare unique.\<close>

definition insert_user :: "user_row \<Rightarrow> tables \<Rightarrow> tables option" where
  "insert_user u t =
     (if list_ex (\<lambda>v. u_id v = u_id u \<or> u_email v = u_email u) (users t) then None
      else Some (t\<lparr>users := users t @ [u]\<rparr>))"

definition insert_token :: "token_row \<Rightarrow> tables \<Rightarrow> tables option" where
  "insert_token r t =
     (if list_ex (\<lambda>v. t_id v = t_id r \<or> t_hash v = t_hash r) (auth_tokens t) then None
      else Some (t\<lparr>auth_tokens := auth_tokens t @ [r]\<rparr>))"

definition find_user_by_email :: "string \<Rightarrow> tables \<Rightarrow> user_row option" where
  "find_user_by_email email t = List.find (\<lambda>u. u_email u = email) (users t)"

definition find_user_by_id :: "uuid \<Rightarrow> tables \<Rightarrow> user_row option" where
  "find_user_by_id i t = List.find (\<lambda>u. u_id u = i) (users t)"

definition find_token_by_id :: "uuid \<Rightarrow> tables \<Rightarrow> token_row option" where
  "find_token_by_id i t = List.find (\<lambda>r. t_id r = i) (auth_tokens t)"

section \<open>Sessions\<close>

text \<open>\<open>HeaderMap::get\<close>: the first value; names are kept in lower case. \<open>to_str\<close> wants visible ASCII.\<close>

type_synonym headers = "(string \<times> string) list"

definition header_get :: "headers \<Rightarrow> string \<Rightarrow> string option" where
  "header_get hs name = map_option snd (List.find (\<lambda>(n, _). n = name) hs)"

definition to_str :: "string \<Rightarrow> string option" where
  "to_str v =
     (if list_all (\<lambda>c. c = CHR 0x09 \<or> ((32::nat) \<le> of_char c \<and> of_char c < (127::nat))) v then Some v else None)"

definition strip_prefix :: "string \<Rightarrow> string \<Rightarrow> string option" where
  "strip_prefix p s = (if starts_with s p then Some (drop (length p) s) else None)"

definition is_request_secure :: "headers \<Rightarrow> bool \<Rightarrow> bool" where
  "is_request_secure hs server_is_https =
     (case Option.bind (header_get hs ''x-forwarded-proto'') to_str of
        Some proto \<Rightarrow> eq_ignore_ascii_case proto ''https''
      | None \<Rightarrow>
          (case Option.bind (header_get hs ''x-forwarded-ssl'') to_str of
             Some ssl \<Rightarrow> eq_ignore_ascii_case ssl ''on''
           | None \<Rightarrow> server_is_https))"

definition create_session_cookie :: "string \<Rightarrow> bool \<Rightarrow> string" where
  "create_session_cookie token https =
     ''session_token='' @ token @ ''; HttpOnly; SameSite=Lax; Path=/; Max-Age='' @ show_nat (7 * 24 * 60 * 60)
     @ (if https then ''; Secure'' else [])"

definition create_logout_cookie :: "bool \<Rightarrow> string" where
  "create_logout_cookie https =
     ''session_token=; HttpOnly; SameSite=Lax; Path=/; Max-Age=0'' @ (if https then ''; Secure'' else [])"

record AuthUser =
  au_user_id :: string
  au_role :: string
  au_token_type :: string
  au_team_id :: "string option"
  au_team_role :: "string option"

definition cookie_token :: "headers \<Rightarrow> string option" where
  "cookie_token hs =
     (case header_get hs ''cookie'' of
        None \<Rightarrow> None
      | Some cookie_header \<Rightarrow>
          (case to_str cookie_header of
             None \<Rightarrow> None
           | Some cookies \<Rightarrow>
               Option.bind
                 (List.find (\<lambda>c. starts_with c ''session_token='') (map trim (split_char CHR '';'' cookies)))
                 (strip_prefix ''session_token='')))"

definition request_token :: "headers \<Rightarrow> string answer" where
  "request_token hs =
     (case cookie_token hs of
        Some t \<Rightarrow> Ok t
      | None \<Rightarrow>
          (case Option.bind (header_get hs ''authorization'') to_str of
             None \<Rightarrow> http_error 401 ''Missing authentication token (cookie or Authorization header)'' ''MISSING_AUTH''
           | Some auth_header \<Rightarrow>
               (case strip_prefix ''Bearer '' auth_header of
                  None \<Rightarrow>
                    http_error 401 (''Invalid Authorization header format. Expected '' @ [CHR 0x27]
                      @ ''Bearer <token>'' @ [CHR 0x27]) ''INVALID_AUTH_FORMAT''
                | Some t \<Rightarrow> Ok t)))"

definition session_claims_ok :: "JwtClaims \<Rightarrow> AuthUser answer" where
  "session_claims_ok claims =
     (case token_type claims of
        None \<Rightarrow>
          http_error 401 (''Token missing '' @ [CHR 0x27] @ ''token_type'' @ [CHR 0x27] @ '' claim'')
            ''MISSING_TOKEN_TYPE''
      | Some tt \<Rightarrow>
          if tt \<noteq> ''session'' then
            http_error 401 (''Invalid token type '' @ [CHR 0x27] @ tt @ [CHR 0x27] @ ''. Expected ''
              @ [CHR 0x27] @ ''session'' @ [CHR 0x27] @ '' token for API access'') ''INVALID_TOKEN_TYPE''
          else
            (case claims_user_id claims of
               None \<Rightarrow>
                 http_error 401 (''Token missing '' @ [CHR 0x27] @ ''user_id'' @ [CHR 0x27] @ '' claim'')
                   ''MISSING_USER_ID''
             | Some uid \<Rightarrow>
                 Ok \<lparr>au_user_id = uid,
                     au_role = (case user_role claims of Some r \<Rightarrow> r | None \<Rightarrow> ''user''),
                     au_token_type = tt, au_team_id = team_id claims, au_team_role = team_role claims\<rparr>))"

definition api_validate :: "('k, 'e) lib \<Rightarrow> api_config \<Rightarrow> int \<Rightarrow> string \<Rightarrow> (string, JwtClaims) result" where
  "api_validate L cfg now token =
     map_err (jwt_error_display (show_jwt_error L))
       (jwt_validate (jwt_decode L) (now div 1000000000) (jwt_new (from_secret L) (as_bytes (jwt_secret cfg))) token)"

definition require_auth :: "('k, 'e) lib \<Rightarrow> api_config \<Rightarrow> int \<Rightarrow> headers \<Rightarrow> AuthUser answer" where
  "require_auth L cfg now hs =
     (case request_token hs of
        Err e \<Rightarrow> Err e
      | Ok token \<Rightarrow>
          (case api_validate L cfg now token of
             Err e \<Rightarrow> http_error 401 (''Invalid or expired token: '' @ e) ''INVALID_TOKEN''
           | Ok claims \<Rightarrow> session_claims_ok claims))"

section \<open>Registration and login\<close>

definition DAY :: int where
  "DAY = 86400 * 1000000000"

definition role_str :: "UserRole \<Rightarrow> string" where
  "role_str r = (case r of AdminRole \<Rightarrow> ''admin'' | PlainRole \<Rightarrow> ''user'')"

record user_view =
  v_id :: string
  v_email :: string
  v_full_name :: "string option"
  v_role :: UserRole
  v_is_active :: bool
  v_created_at :: int
  v_updated_at :: int

definition user_response :: "('k, 'e) lib \<Rightarrow> user_row \<Rightarrow> user_view" where
  "user_response L u =
     \<lparr>v_id = uuid_show L (u_id u), v_email = u_email u, v_full_name = u_full_name u, v_role = u_role u,
      v_is_active = u_is_active u, v_created_at = u_created_at u, v_updated_at = u_updated_at u\<rparr>"

definition default_claims :: "('k, 'e) lib \<Rightarrow> int \<Rightarrow> uuid \<Rightarrow> uuid \<Rightarrow> JwtClaims" where
  "default_claims L now tid uid =
     with_token_type ''auth'' (with_user_id (uuid_show L uid)
       (claims_new now (uuid_show L tid) ''localup-relay'' ''localup-tunnel'' (36500 * DAY)))"

definition session_claims :: "('k, 'e) lib \<Rightarrow> int \<Rightarrow> user_row \<Rightarrow> JwtClaims" where
  "session_claims L now u =
     with_token_type ''session'' (with_user_role (role_str (u_role u)) (with_user_id (uuid_show L (u_id u))
       (claims_new now (uuid_show L (u_id u)) ''localup-relay'' ''localup-web-ui'' (7 * DAY))))"

definition default_token :: "('k, 'e) lib \<Rightarrow> int \<Rightarrow> uuid \<Rightarrow> uuid \<Rightarrow> string \<Rightarrow> token_row" where
  "default_token L now tid uid jwt =
     \<lparr>t_id = tid, t_user = uid, t_team = None, t_name = ''Default'',
      t_description = Some ''Auto-generated default authentication token'', t_hash = sha256_hex L jwt,
      t_last_used = None, t_expires = None, t_active = True, t_created = now\<rparr>"

record RegisterRequest =
  rq_email :: string
  rq_password :: string
  rq_full_name :: "string option"

record session_response =
  sr_user :: user_view
  sr_token :: string
  sr_expires_at :: int
  sr_auth_token :: "string option"
  sr_cookie :: string

definition try_insert_token :: "string option \<Rightarrow> token_row \<Rightarrow> tables \<Rightarrow> tables" where
  "try_insert_token failure r t =
     (if failure \<noteq> None then t else case insert_token r t of None \<Rightarrow> t | Some t' \<Rightarrow> t')"

definition register_user ::
  "('k, 'e) lib \<Rightarrow> api_config \<Rightarrow> (nat \<Rightarrow> string option) \<Rightarrow> int \<Rightarrow> uuid \<Rightarrow> uuid \<Rightarrow> headers \<Rightarrow> RegisterRequest
    \<Rightarrow> tables \<Rightarrow> session_response answer \<times> tables" where
  "register_user L cfg dbf now uid tid hs req t =
     (if \<not> allow_signup cfg then
        (http_error 403 ''Public registration is disabled. Please contact your administrator for an invitation.''
           ''SIGNUP_DISABLED'', t)
      else if CHR ''@'' \<notin> set (rq_email req) then
        (http_error 400 ''Invalid email format'' ''INVALID_EMAIL'', t)
      else if length (rq_password req) < 8 then
        (http_error 400 ''Password must be at least 8 characters'' ''WEAK_PASSWORD'', t)
      else if dbf 0 \<noteq> None then (internal_error ''DB_ERROR'', t)
      else if find_user_by_email (rq_email req) t \<noteq> None then
        (http_error 400 ''Email already registered'' ''EMAIL_EXISTS'', t)
      else case hash_password L (rq_password req) of
        Err _ \<Rightarrow> (internal_error ''HASH_ERROR'', t)
      | Ok ph \<Rightarrow>
          let u = \<lparr>u_id = uid, u_email = rq_email req, u_password_hash = ph, u_full_name = rq_full_name req,
                   u_role = PlainRole, u_is_active = True, u_created_at = now, u_updated_at = now\<rparr>
          in case (if dbf 1 \<noteq> None then None else insert_user u t) of
               None \<Rightarrow> (internal_error ''DB_ERROR'', t)
             | Some t1 \<Rightarrow>
                 (case jwt_encode L (jwt_secret cfg) (default_claims L now tid uid) of
                    Err _ \<Rightarrow> (internal_error ''JWT_ERROR'', t1)
                  | Ok auth_jwt \<Rightarrow>
                      let t2 = try_insert_token (dbf 2) (default_token L now tid uid auth_jwt) t1
                      in case jwt_encode L (jwt_secret cfg) (session_claims L now u) of
                           Err _ \<Rightarrow> (internal_error ''JWT_ERROR'', t2)
                         | Ok token \<Rightarrow>
                             (Ok \<lparr>sr_user = user_response L u, sr_token = token, sr_expires_at = now + 7 * DAY,
                                 sr_auth_token = Some auth_jwt,
                                 sr_cookie = create_session_cookie token (is_request_secure hs (is_https cfg))\<rparr>,
                              t2)))"

definition has_default_token :: "string option \<Rightarrow> uuid \<Rightarrow> tables \<Rightarrow> bool" where
  "has_default_token failure uid t =
     (failure = None \<and> list_ex (\<lambda>r. t_user r = uid \<and> t_name r = ''Default'') (auth_tokens t))"

definition ensure_default_token ::
  "('k, 'e) lib \<Rightarrow> api_config \<Rightarrow> (nat \<Rightarrow> string option) \<Rightarrow> int \<Rightarrow> uuid \<Rightarrow> user_row \<Rightarrow> tables \<Rightarrow> tables" where
  "ensure_default_token L cfg dbf now tid u t =
     (if has_default_token (dbf 1) (u_id u) t then t
      else case jwt_encode L (jwt_secret cfg) (default_claims L now tid (u_id u)) of
             Err _ \<Rightarrow> t
           | Ok auth_jwt \<Rightarrow> try_insert_token (dbf 2) (default_token L now tid (u_id u) auth_jwt) t)"

definition login ::
  "('k, 'e) lib \<Rightarrow> api_config \<Rightarrow> (nat \<Rightarrow> string option) \<Rightarrow> int \<Rightarrow> uuid \<Rightarrow> headers \<Rightarrow> string \<Rightarrow> string
    \<Rightarrow> tables \<Rightarrow> session_response answer \<times> tables" where
  "login L cfg dbf now tid hs email password t =
     (if dbf 0 \<noteq> None then (internal_error ''DB_ERROR'', t)
      else case find_user_by_email email t of
        None \<Rightarrow> (http_error 401 ''Invalid email or password'' ''INVALID_CREDENTIALS'', t)
      | Some u \<Rightarrow>
          if \<not> u_is_active u then (http_error 401 ''Account is disabled'' ''ACCOUNT_DISABLED'', t)
          else case verify_password L password (u_password_hash u) of
            Err _ \<Rightarrow> (internal_error ''VERIFY_ERROR'', t)
          | Ok False \<Rightarrow> (http_error 401 ''Invalid email or password'' ''INVALID_CREDENTIALS'', t)
          | Ok True \<Rightarrow>
              let t1 = ensure_default_token L cfg dbf now tid u t
              in case jwt_encode L (jwt_secret cfg) (session_claims L now u) of
                   Err _ \<Rightarrow> (internal_error ''JWT_ERROR'', t1)
                 | Ok token \<Rightarrow>
                     (Ok \<lparr>sr_user = user_response L u, sr_token = token, sr_expires_at = now + 7 * DAY,
                         sr_auth_token = None,
                         sr_cookie = create_session_cookie token (is_request_secure hs (is_https cfg))\<rparr>, t1))"

definition logout :: "api_config \<Rightarrow> headers \<Rightarrow> string" where
  "logout cfg hs = create_logout_cookie (is_request_secure hs (is_https cfg))"

definition get_current_user ::
  "('k, 'e) lib \<Rightarrow> (nat \<Rightarrow> string option) \<Rightarrow> AuthUser \<Rightarrow> tables \<Rightarrow> user_row answer outcome" where
  "get_current_user L dbf au t =
     (case uuid_parse L (au_user_id au) of
        None \<Rightarrow> Panicked
      | Some uid \<Rightarrow>
          Returned
            (if dbf 0 \<noteq> None then internal_error ''DB_ERROR''
             else case find_user_by_id uid t of
                    None \<Rightarrow> http_error 401 ''User not found'' ''USER_NOT_FOUND''
                  | Some u \<Rightarrow> Ok u))"

definition team_role_str :: "TeamRole \<Rightarrow> string" where
  "team_role_str r = (case r of TeamOwner \<Rightarrow> ''owner'' | TeamAdmin \<Rightarrow> ''admin'' | TeamMember \<Rightarrow> ''member'')"

definition parse_user :: "('k, 'e) lib \<Rightarrow> AuthUser \<Rightarrow> uuid answer" where
  "parse_user L au =
     (case uuid_parse L (au_user_id au) of
        None \<Rightarrow> http_error 500 ''Invalid user ID format'' ''INVALID_USER_ID''
      | Some uid \<Rightarrow> Ok uid)"

definition list_user_teams ::
  "('k, 'e) lib \<Rightarrow> (nat \<Rightarrow> string option) \<Rightarrow> AuthUser \<Rightarrow> tables \<Rightarrow> (team_row \<times> string) list answer" where
  "list_user_teams L dbf au t =
     (case parse_user L au of
        Err e \<Rightarrow> Err e
      | Ok uid \<Rightarrow>
          if dbf 0 \<noteq> None then internal_error ''DB_ERROR''
          else Ok (List.map_filter
                 (\<lambda>mb. map_option (\<lambda>tm. (tm, team_role_str (mb_role mb)))
                         (List.find (\<lambda>tm. tm_id tm = mb_team mb) (teams t)))
                 (filter (\<lambda>mb. mb_user mb = uid) (team_members t))))"

section \<open>Auth tokens\<close>

record token_view =
  tv_id :: string
  tv_user_id :: string
  tv_team_id :: "string option"
  tv_name :: string
  tv_description :: "string option"
  tv_last_used :: "int option"
  tv_expires :: "int option"
  tv_active :: bool
  tv_created :: int

definition token_response :: "('k, 'e) lib \<Rightarrow> token_row \<Rightarrow> token_view" where
  "token_response L r =
     \<lparr>tv_id = uuid_show L (t_id r), tv_user_id = uuid_show L (t_user r),
      tv_team_id = map_option (uuid_show L) (t_team r), tv_name = t_name r, tv_description = t_description r,
      tv_last_used = t_last_used r, tv_expires = t_expires r, tv_active = t_active r, tv_created = t_created r\<rparr>"

record CreateAuthTokenRequest =
  cr_name :: string
  cr_description :: "string option"
  cr_expires_in_days :: "int option"
  cr_team_id :: "string option"

record created_token =
  ct_id :: string
  ct_name :: string
  ct_token :: string
  ct_expires :: "int option"
  ct_created :: int

text \<open>The date \<open>now + days\<close>; a date outside the range of the library panics.\<close>

definition token_expiry :: "('k, 'e) lib \<Rightarrow> int \<Rightarrow> int option \<Rightarrow> int option outcome" where
  "token_expiry L now days =
     (case days of
        None \<Rightarrow> Returned None
      | Some d \<Rightarrow> (case plus_days L now d of None \<Rightarrow> Panicked | Some e \<Rightarrow> Returned (Some e)))"

definition token_claims ::
  "('k, 'e) lib \<Rightarrow> int \<Rightarrow> uuid \<Rightarrow> uuid \<Rightarrow> int option \<Rightarrow> string option \<Rightarrow> JwtClaims" where
  "token_claims L now tid uid expires team =
     (let claims = with_token_type ''auth'' (with_user_id (uuid_show L uid)
            (claims_new now (uuid_show L tid) ''localup-relay'' ''localup-tunnel''
               (case expires of Some e \<Rightarrow> e - now | None \<Rightarrow> 36500 * DAY)))
      in case team of Some tm \<Rightarrow> with_team_id tm claims | None \<Rightarrow> claims)"

definition create_auth_token ::
  "('k, 'e) lib \<Rightarrow> api_config \<Rightarrow> (nat \<Rightarrow> string option) \<Rightarrow> int \<Rightarrow> uuid \<Rightarrow> AuthUser \<Rightarrow> CreateAuthTokenRequest
    \<Rightarrow> tables \<Rightarrow> (created_token answer \<times> tables) outcome" where
  "create_auth_token L cfg dbf now tid au req t =
     (if trim (cr_name req) = [] then
        Returned (http_error 400 ''Token name cannot be empty'' ''INVALID_NAME'', t)
      else case parse_user L au of
        Err e \<Rightarrow> Returned (Err e, t)
      | Ok uid \<Rightarrow>
          and_then (token_expiry L now (cr_expires_in_days req)) (\<lambda>expires.
            case jwt_encode L (jwt_secret cfg) (token_claims L now tid uid expires (cr_team_id req)) of
              Err _ \<Rightarrow> Returned (internal_error ''JWT_ERROR'', t)
            | Ok token \<Rightarrow>
                let r = \<lparr>t_id = tid, t_user = uid, t_team = Option.bind (cr_team_id req) (uuid_parse L),
                         t_name = cr_name req, t_description = cr_description req,
                         t_hash = sha256_hex L token, t_last_used = None, t_expires = expires,
                         t_active = True, t_created = now\<rparr>
                in case (if dbf 0 \<noteq> None then None else insert_token r t) of
                     None \<Rightarrow> Returned (internal_error ''DB_ERROR'', t)
                   | Some t' \<Rightarrow>
                       Returned (Ok \<lparr>ct_id = uuid_show L tid, ct_name = cr_name req, ct_token = token,
                                    ct_expires = expires, ct_created = now\<rparr>, t')))"

definition list_auth_tokens ::
  "('k, 'e) lib \<Rightarrow> (nat \<Rightarrow> string option) \<Rightarrow> AuthUser \<Rightarrow> tables \<Rightarrow> token_view list answer" where
  "list_auth_tokens L dbf au t =
     (case parse_user L au of
        Err e \<Rightarrow> Err e
      | Ok uid \<Rightarrow>
          if dbf 0 \<noteq> None then internal_error ''DB_ERROR''
          else Ok (map (token_response L) (filter (\<lambda>r. t_user r = uid) (auth_tokens t))))"

text \<open>
  The steps that reading, updating and deleting a token share: the id of the path, the user of the
  session, the row, its owner. The refusal names what was asked for.
\<close>

definition owned_token ::
  "('k, 'e) lib \<Rightarrow> (nat \<Rightarrow> string option) \<Rightarrow> string \<Rightarrow> AuthUser \<Rightarrow> string \<Rightarrow> tables \<Rightarrow> token_row answer" where
  "owned_token L dbf verb au i t =
     (case uuid_parse L i of
        None \<Rightarrow> http_error 400 ''Invalid token ID format'' ''INVALID_ID''
      | Some tid \<Rightarrow>
          (case parse_user L au of
             Err e \<Rightarrow> Err e
           | Ok uid \<Rightarrow>
               if dbf 0 \<noteq> None then internal_error ''DB_ERROR''
               else (case find_token_by_id tid t of
                       None \<Rightarrow> http_error 404 ''Auth token not found'' ''NOT_FOUND''
                     | Some r \<Rightarrow>
                         if t_user r \<noteq> uid then
                           http_error 403 (''You don'' @ [CHR 0x27] @ ''t have permission to '' @ verb
                             @ '' this token'') ''FORBIDDEN''
                         else Ok r)))"

definition get_token_details ::
  "('k, 'e) lib \<Rightarrow> (nat \<Rightarrow> string option) \<Rightarrow> AuthUser \<Rightarrow> string \<Rightarrow> tables \<Rightarrow> token_view answer" where
  "get_token_details L dbf au i t =
     (case owned_token L dbf ''access'' au i t of Err e \<Rightarrow> Err e | Ok r \<Rightarrow> Ok (token_response L r))"

record UpdateAuthTokenRequest =
  ur_name :: "string option"
  ur_description :: "string option"
  ur_is_active :: "bool option"

definition updated_row :: "UpdateAuthTokenRequest \<Rightarrow> token_row \<Rightarrow> token_row" where
  "updated_row req r =
     r\<lparr>t_name := (case ur_name req of Some n \<Rightarrow> n | None \<Rightarrow> t_name r),
       t_description := (case ur_description req of Some d \<Rightarrow> Some d | None \<Rightarrow> t_description r),
       t_active := (case ur_is_active req of Some a \<Rightarrow> a | None \<Rightarrow> t_active r)\<rparr>"

definition update_auth_token ::
  "('k, 'e) lib \<Rightarrow> (nat \<Rightarrow> string option) \<Rightarrow> AuthUser \<Rightarrow> string \<Rightarrow> UpdateAuthTokenRequest \<Rightarrow> tables
    \<Rightarrow> token_view answer \<times> tables" where
  "update_auth_token L dbf au i req t =
     (case owned_token L dbf ''modify'' au i t of
        Err e \<Rightarrow> (Err e, t)
      | Ok r \<Rightarrow>
          if dbf 1 \<noteq> None then (internal_error ''DB_ERROR'', t)
          else (Ok (token_response L (updated_row req r)),
                t\<lparr>auth_tokens := map (\<lambda>r'. if t_id r' = t_id r then updated_row req r else r') (auth_tokens t)\<rparr>))"

definition delete_auth_token ::
  "('k, 'e) lib \<Rightarrow> (nat \<Rightarrow> string option) \<Rightarrow> AuthUser \<Rightarrow> string \<Rightarrow> tables \<Rightarrow> unit answer \<times> tables" where
  "delete_auth_token L dbf au i t =
     (case owned_token L dbf ''delete'' au i t of
        Err e \<Rightarrow> (Err e, t)
      | Ok r \<Rightarrow>
          if dbf 1 \<noteq> None then (internal_error ''DB_ERROR'', t)
          else (Ok (), t\<lparr>auth_tokens := filter (\<lambda>r'. t_id r' \<noteq> t_id r) (auth_tokens t)\<rparr>))"

section \<open>The routes\<close>

datatype auth_request =
  Register RegisterRequest
| Login string string
| Logout
| Me
| Teams
| CreateToken CreateAuthTokenRequest
| ListTokens
| GetToken string
| UpdateToken string UpdateAuthTokenRequest
| DeleteToken string

datatype auth_response =
  SessionStarted session_response
| SessionCleared string
| MeView user_row
| TeamsView "(team_row \<times> string) list"
| TokenCreated created_token
| TokensView "token_view list"
| TokenView token_view
| NoContent

text \<open>
  The part of \<open>build_router\<close> for these handlers: three public routes, the others behind
  \<open>require_auth\<close>. \<open>uid\<close> and \<open>tid\<close> are the identifiers a handler draws.
\<close>

definition protected ::
  "AuthUser answer \<Rightarrow> tables \<Rightarrow> (AuthUser \<Rightarrow> ('a answer \<times> tables) outcome) \<Rightarrow> ('a answer \<times> tables) outcome" where
  "protected auth t h = (case auth of Err e \<Rightarrow> Returned (Err e, t) | Ok au \<Rightarrow> h au)"

fun auth_api ::
  "('k, 'e) lib \<Rightarrow> api_config \<Rightarrow> (nat \<Rightarrow> string option) \<Rightarrow> int \<Rightarrow> uuid \<Rightarrow> uuid \<Rightarrow> headers \<Rightarrow> auth_request
    \<Rightarrow> tables \<Rightarrow> (auth_response answer \<times> tables) outcome" where
  "auth_api L cfg dbf now uid tid hs (Register req) t =
     Returned (apfst (map_sum id SessionStarted) (register_user L cfg dbf now uid tid hs req t))"
| "auth_api L cfg dbf now uid tid hs (Login email password) t =
     Returned (apfst (map_sum id SessionStarted) (login L cfg dbf now tid hs email password t))"
| "auth_api L cfg dbf now uid tid hs Logout t = Returned (Ok (SessionCleared (logout cfg hs)), t)"
| "auth_api L cfg dbf now uid tid hs Me t =
     protected (require_auth L cfg now hs) t (\<lambda>au.
       and_then (get_current_user L dbf au t) (\<lambda>r. Returned (map_sum id MeView r, t)))"
| "auth_api L cfg dbf now uid tid hs Teams t =
     protected (require_auth L cfg now hs) t (\<lambda>au.
       Returned (map_sum id TeamsView (list_user_teams L dbf au t), t))"
| "auth_api L cfg dbf now uid tid hs (CreateToken req) t =
     protected (require_auth L cfg now hs) t (\<lambda>au.
       and_then (create_auth_token L cfg dbf now tid au req t)
         (\<lambda>(r, t'). Returned (map_sum id TokenCreated r, t')))"
| "auth_api L cfg dbf now uid tid hs ListTokens t =
     protected (require_auth L cfg now hs) t (\<lambda>au.
       Returned (map_sum id TokensView (list_auth_tokens L dbf au t), t))"
| "auth_api L cfg dbf now uid tid hs (GetToken i) t =
     protected (require_auth L cfg now hs) t (\<lambda>au.
       Returned (map_sum id TokenView (get_token_details L dbf au i t), t))"
| "auth_api L cfg dbf now uid tid hs (UpdateToken i req) t =
     protected (require_auth L cfg now hs) t (\<lambda>au.
       Returned (apfst (map_sum id TokenView) (update_auth_token L dbf au i req t)))"
| "auth_api L cfg dbf now uid tid hs (DeleteToken i) t =
     protected (require_auth L cfg now hs) t (\<lambda>au.
       Returned (apfst (map_sum id (\<lambda>_. NoContent)) (delete_auth_token L dbf au i t)))"

section \<open>Properties\<close>

text \<open>The keys the schema declares unique stay unique.\<close>

definition tables_ok :: "tables \<Rightarrow> bool" where
  "tables_ok t \<longleftrightarrow> distinct (map u_id (users t)) \<and> distinct (map u_email (users t)) \<and>
     distinct (map t_id (auth_tokens t)) \<and> distinct (map t_hash (auth_tokens t))"

lemma insert_user_Some:
  "insert_user u t = Some t' \<longleftrightarrow>
     (\<forall>v \<in> set (users t). u_id v \<noteq> u_id u \<and> u_email v \<noteq> u_email u) \<and> t' = t\<lparr>users := users t @ [u]\<rparr>"
  by (auto simp: insert_user_def list_ex_iff)

lemma insert_token_Some:
  "insert_token r t = Some t' \<longleftrightarrow>
     (\<forall>v \<in> set (auth_tokens t). t_id v \<noteq> t_id r \<and> t_hash v \<noteq> t_hash r) \<and>
     t' = t\<lparr>auth_tokens := auth_tokens t @ [r]\<rparr>"
  by (auto simp: insert_token_def list_ex_iff)

lemma insert_user_ok: "tables_ok t \<Longrightarrow> insert_user u t = Some t' \<Longrightarrow> tables_ok t'"
  by (auto simp: tables_ok_def insert_user_Some)

lemma insert_token_ok: "tables_ok t \<Longrightarrow> insert_token r t = Some t' \<Longrightarrow> tables_ok t'"
  by (auto simp: tables_ok_def insert_token_Some)

lemma try_insert_token_ok: "tables_ok t \<Longrightarrow> tables_ok (try_insert_token f r t)"
  by (auto simp: try_insert_token_def insert_token_ok split: option.split)

lemma ensure_default_token_ok: "tables_ok t \<Longrightarrow> tables_ok (ensure_default_token L cfg dbf now tid u t)"
  by (auto simp: ensure_default_token_def try_insert_token_ok split: sum.split)

lemma owned_token_Ok:
  "owned_token L dbf verb au i t = Ok r \<longleftrightarrow>
     (\<exists>tid uid. uuid_parse L i = Some tid \<and> uuid_parse L (au_user_id au) = Some uid \<and> dbf 0 = None \<and>
        find_token_by_id tid t = Some r \<and> t_user r = uid)"
  by (auto simp: owned_token_def parse_user_def http_error_def internal_error_def
      split: option.splits if_splits)

lemma find_token_by_id_Some: "find_token_by_id i t = Some r \<Longrightarrow> r \<in> set (auth_tokens t) \<and> t_id r = i"
  by (auto simp: find_token_by_id_def find_Some_iff in_set_conv_nth)

lemma updated_row_keys [simp]:
  "t_id (updated_row req r) = t_id r" "t_hash (updated_row req r) = t_hash r" "t_user (updated_row req r) = t_user r"
  by (simp_all add: updated_row_def)

lemma map_key_update:
  assumes "distinct (map t_id xs)" and "r \<in> set xs" and "f r0 = f r" and "t_id r0 = t_id r"
  shows "map f (map (\<lambda>r'. if t_id r' = t_id r then r0 else r') xs) = map f xs"
proof -
  have "t_id r' = t_id r \<longleftrightarrow> r' = r" if "r' \<in> set xs" for r'
    using assms(1,2) that by (metis distinct_map inj_on_def)
  with assms(3) show ?thesis by auto
qed

lemma update_auth_token_ok:
  assumes "tables_ok t" and "update_auth_token L dbf au i req t = (res, t')"
  shows "tables_ok t'"
proof (cases "owned_token L dbf ''modify'' au i t")
  case (Inr r)
  then have r: "r \<in> set (auth_tokens t)" by (auto simp: owned_token_Ok dest: find_token_by_id_Some)
  let ?xs = "map (\<lambda>r'. if t_id r' = t_id r then updated_row req r else r') (auth_tokens t)"
  have "map t_id ?xs = map t_id (auth_tokens t)" "map t_hash ?xs = map t_hash (auth_tokens t)"
    using assms(1) by (intro map_key_update [OF _ r]; simp add: tables_ok_def)+
  with assms Inr show ?thesis
    by (auto simp: update_auth_token_def tables_ok_def simp del: map_map split: if_splits)
qed (use assms in \<open>simp add: update_auth_token_def\<close>)

lemma delete_auth_token_ok:
  "tables_ok t \<Longrightarrow> delete_auth_token L dbf au i t = (res, t') \<Longrightarrow> tables_ok t'"
  by (auto simp: delete_auth_token_def tables_ok_def distinct_map_filter split: sum.splits if_splits)

lemma create_auth_token_Returned:
  assumes "create_auth_token L cfg dbf now tid au req t = Returned (res, t')"
  shows "t' = t \<or> (\<exists>uid r. uuid_parse L (au_user_id au) = Some uid \<and> t_user r = uid \<and> insert_token r t = Some t')"
  using assms
  by (auto simp: create_auth_token_def parse_user_def http_error_def internal_error_def Let_def
      elim!: and_then_ReturnedE split: if_splits sum.splits option.splits)

lemma register_user_ok:
  assumes "tables_ok t" and "register_user L cfg dbf now uid tid hs req t = (res, t')"
  shows "tables_ok t'"
  using assms
  by (auto simp: register_user_def Let_def intro: try_insert_token_ok dest: insert_user_ok
      split: if_splits sum.splits option.splits)

lemma login_ok: "tables_ok t \<Longrightarrow> login L cfg dbf now tid hs email password t = (res, t') \<Longrightarrow> tables_ok t'"
  by (auto simp: login_def Let_def ensure_default_token_ok split: if_splits sum.splits option.splits bool.splits)

lemma protected_Returned:
  "protected auth t h = Returned (res, t') \<longleftrightarrow>
     (case auth of Err e \<Rightarrow> res = Err e \<and> t' = t | Ok au \<Rightarrow> h au = Returned (res, t'))"
  by (auto simp: protected_def split: sum.split)

text \<open>
  Whatever is asked of the user and token routes, with whatever database failures, identifiers,
  e-mail addresses and token hashes stay unique.
\<close>

theorem auth_api_keys_unique:
  assumes "tables_ok t" and "auth_api L cfg dbf now uid tid hs req t = Returned (res, t')"
  shows "tables_ok t'"
proof (cases req)
  case (Register x)
  with assms show ?thesis
    by (cases "register_user L cfg dbf now uid tid hs x t") (auto dest: register_user_ok)
next
  case (Login e p)
  with assms show ?thesis
    by (cases "login L cfg dbf now tid hs e p t") (auto dest: login_ok)
next
  case (CreateToken x)
  with assms show ?thesis
    by (auto simp: protected_Returned dest!: create_auth_token_Returned intro: insert_token_ok
        elim!: and_then_ReturnedE split: sum.splits prod.splits)
next
  case (UpdateToken i x)
  with assms show ?thesis
    by (auto simp: protected_Returned dest: update_auth_token_ok split: sum.splits)
       (metis (no_types) apfst_conv prod.collapse prod.inject update_auth_token_ok)
next
  case (DeleteToken i)
  with assms show ?thesis
    by (auto simp: protected_Returned split: sum.splits)
       (metis (no_types) apfst_conv prod.collapse prod.inject delete_auth_token_ok)
qed (use assms in \<open>auto simp: protected_Returned elim!: and_then_ReturnedE split: sum.splits\<close>)

definition token_owner_of ::
  "('k, 'e) lib \<Rightarrow> api_config \<Rightarrow> int \<Rightarrow> headers \<Rightarrow> uuid \<Rightarrow> auth_request \<Rightarrow> tables \<Rightarrow> uuid \<Rightarrow> bool" where
  "token_owner_of L cfg now hs uid req t owner \<longleftrightarrow>
     (case req of
        Register _ \<Rightarrow> owner = uid
      | Login email password \<Rightarrow>
          (\<exists>u. find_user_by_email email t = Some u \<and> u_is_active u \<and>
             verify_password L password (u_password_hash u) = Ok True \<and> owner = u_id u)
      | _ \<Rightarrow> (\<exists>au. require_auth L cfg now hs = Ok au \<and> uuid_parse L (au_user_id au) = Some owner))"

lemma try_insert_token_new:
  "r \<in> set (auth_tokens (try_insert_token f r0 t)) \<Longrightarrow> r \<in> set (auth_tokens t) \<or> r = r0"
  by (auto simp: try_insert_token_def insert_token_Some split: if_splits option.splits)

lemma try_insert_token_keeps:
  "r \<in> set (auth_tokens t) \<Longrightarrow> r \<in> set (auth_tokens (try_insert_token f r0 t))"
  by (auto simp: try_insert_token_def insert_token_Some split: option.splits)

lemma insert_user_tokens: "insert_user u t = Some t' \<Longrightarrow> auth_tokens t' = auth_tokens t"
  by (auto simp: insert_user_Some)

lemma register_user_tokens:
  assumes "register_user L cfg dbf now uid tid hs req t = (res, t')"
  shows "set (auth_tokens t) \<subseteq> set (auth_tokens t')"
    and "r \<in> set (auth_tokens t') \<Longrightarrow> r \<in> set (auth_tokens t) \<or> t_user r = uid"
  using assms
  by (auto simp: register_user_def Let_def default_token_def
      intro!: try_insert_token_keeps dest!: insert_user_tokens try_insert_token_new
      split: if_splits sum.splits option.splits)

lemma ensure_default_token_tokens:
  "set (auth_tokens t) \<subseteq> set (auth_tokens (ensure_default_token L cfg dbf now tid u t))"
  "r \<in> set (auth_tokens (ensure_default_token L cfg dbf now tid u t)) \<Longrightarrow>
     r \<in> set (auth_tokens t) \<or> t_user r = u_id u"
  by (auto simp: ensure_default_token_def default_token_def intro!: try_insert_token_keeps
      dest!: try_insert_token_new split: if_splits sum.splits)

lemma login_tokens:
  assumes "login L cfg dbf now tid hs email password t = (res, t')"
  shows "set (auth_tokens t) \<subseteq> set (auth_tokens t')"
    and "r \<in> set (auth_tokens t') \<Longrightarrow> r \<in> set (auth_tokens t) \<or>
       (\<exists>u. find_user_by_email email t = Some u \<and> u_is_active u \<and>
             verify_password L password (u_password_hash u) = Ok True \<and> t_user r = u_id u)"
  using assms ensure_default_token_tokens [where t = t and L = L and cfg = cfg and dbf = dbf and now = now and tid = tid]
  by (auto simp: login_def Let_def split: if_splits sum.splits option.splits bool.splits)

lemma update_auth_token_tokens:
  assumes "tables_ok t" and "update_auth_token L dbf au i req t = (res, t')"
  shows "(r \<in> set (auth_tokens t)) \<noteq> (r \<in> set (auth_tokens t')) \<Longrightarrow> uuid_parse L (au_user_id au) = Some (t_user r)"
proof (cases "owned_token L dbf ''modify'' au i t")
  case (Inr r0)
  assume diff: "(r \<in> set (auth_tokens t)) \<noteq> (r \<in> set (auth_tokens t'))"
  from Inr have r0: "r0 \<in> set (auth_tokens t)" and u: "uuid_parse L (au_user_id au) = Some (t_user r0)"
    by (auto simp: owned_token_Ok dest: find_token_by_id_Some)
  have "r = r0 \<or> r = updated_row req r0"
  proof (rule ccontr)
    assume no: "\<not> (r = r0 \<or> r = updated_row req r0)"
    have "t_id r' = t_id r0 \<longleftrightarrow> r' = r0" if "r' \<in> set (auth_tokens t)" for r'
      using assms(1) r0 that unfolding tables_ok_def by (metis distinct_map inj_on_def)
    with no diff assms(2) Inr show False
      by (auto simp: update_auth_token_def split: if_splits)
  qed
  with u show ?thesis by auto
qed (use assms in \<open>simp add: update_auth_token_def\<close>)

lemma delete_auth_token_tokens:
  assumes "tables_ok t" and "delete_auth_token L dbf au i t = (res, t')"
  shows "(r \<in> set (auth_tokens t)) \<noteq> (r \<in> set (auth_tokens t')) \<Longrightarrow> uuid_parse L (au_user_id au) = Some (t_user r)"
proof (cases "owned_token L dbf ''delete'' au i t")
  case (Inr r0)
  assume diff: "(r \<in> set (auth_tokens t)) \<noteq> (r \<in> set (auth_tokens t'))"
  from Inr have r0: "r0 \<in> set (auth_tokens t)" and u: "uuid_parse L (au_user_id au) = Some (t_user r0)"
    by (auto simp: owned_token_Ok dest: find_token_by_id_Some)
  have "t_id r' = t_id r0 \<longleftrightarrow> r' = r0" if "r' \<in> set (auth_tokens t)" for r'
    using assms(1) r0 that unfolding tables_ok_def by (metis distinct_map inj_on_def)
  with u diff assms(2) Inr show ?thesis
    by (auto simp: delete_auth_token_def split: if_splits)
qed (use assms in \<open>simp add: delete_auth_token_def\<close>)

lemma map_sum_Ok: "map_sum id f x = Ok y \<longleftrightarrow> (\<exists>z. x = Ok z \<and> y = f z)"
  by (cases x) auto

lemma apfst_eq_pair: "apfst f p = (x, y) \<longleftrightarrow> (\<exists>w. p = (w, y) \<and> x = f w)"
  by (cases p) auto

text \<open>
  C9 Tunnel tokens are the property of their user: a stored token is changed or removed only by a
  request whose session names the token's user, and a token that appears belongs to the user of
  the session, or to the user who has just registered or logged in with the password.
\<close>

theorem tokens_belong_to_users:
  assumes "tables_ok t" and "auth_api L cfg dbf now uid tid hs req t = Returned (res, t')"
    and "(r \<in> set (auth_tokens t)) \<noteq> (r \<in> set (auth_tokens t'))"
  shows "token_owner_of L cfg now hs uid req t (t_user r) \<and>
    (r \<in> set (auth_tokens t) \<longrightarrow> (\<exists>i x. req = UpdateToken i x \<or> req = DeleteToken i))"
proof (cases req)
  case (Register x)
  with assms(2,3) show ?thesis
    by (auto simp: token_owner_of_def apfst_eq_pair dest: register_user_tokens)
next
  case (Login e p)
  with assms(2,3) show ?thesis
    by (auto simp: token_owner_of_def apfst_eq_pair dest: login_tokens)
next
  case (CreateToken x)
  with assms(2) consider au w where "require_auth L cfg now hs = Ok au"
    "create_auth_token L cfg dbf now tid au x t = Returned (w, t')" | "t' = t"
    by (auto simp: protected_Returned elim!: and_then_ReturnedE split: sum.splits)
  then show ?thesis
    using CreateToken assms(3)
    by cases (auto simp: token_owner_of_def insert_token_Some dest!: create_auth_token_Returned)
next
  case (UpdateToken i x)
  with assms show ?thesis
    by (auto simp: token_owner_of_def protected_Returned apfst_eq_pair
        dest: update_auth_token_tokens split: sum.splits)
next
  case (DeleteToken i)
  with assms show ?thesis
    by (auto simp: token_owner_of_def protected_Returned apfst_eq_pair
        dest: delete_auth_token_tokens split: sum.splits)
qed (use assms in \<open>auto simp: protected_Returned elim!: and_then_ReturnedE split: sum.splits\<close>)

definition any_token_lib :: "(unit, unit) lib" where
  "any_token_lib =
     \<lparr>uuid_parse = (\<lambda>_. None), uuid_show = (\<lambda>u. show_nat (unat u)),
      hash_password = (\<lambda>p. Ok p), verify_password = (\<lambda>p h. Ok (p = h)),
      jwt_encode = (\<lambda>_ _. Ok ''tok''), from_secret = (\<lambda>_. ()),
      jwt_decode = (\<lambda>_ _ _. Err ()), show_jwt_error = (\<lambda>_. []), sha256_hex = (\<lambda>s. s),
      plus_days = (\<lambda>_ _. None)\<rparr>"

theorem tokens_belong_to_users_witness:
  "token_owner_of any_token_lib \<lparr>allow_signup = True, jwt_secret = [], is_https = True\<rparr> 0 [] 7
     (Register \<lparr>rq_email = ''a@b'', rq_password = ''password'', rq_full_name = None\<rparr>)
     \<lparr>users = [], auth_tokens = [], teams = [], team_members = []\<rparr> 7"
proof -
  let ?cfg = "\<lparr>allow_signup = True, jwt_secret = [], is_https = True\<rparr>"
  let ?t = "\<lparr>users = [], auth_tokens = [], teams = [], team_members = []\<rparr>"
  let ?req = "\<lparr>rq_email = ''a@b'', rq_password = ''password'', rq_full_name = None\<rparr>"
  let ?r = "default_token any_token_lib 0 9 7 ''tok''"
  obtain res t' where reg: "register_user any_token_lib ?cfg (\<lambda>_. None) 0 7 9 [] ?req ?t = (res, t')" by fastforce
  have "jwt_encode any_token_lib sec c = Ok ''tok''" "hash_password any_token_lib p = Ok p" for sec c p
    by (simp_all add: any_token_lib_def)
  with reg have mem: "?r \<in> set (auth_tokens t')"
    by (auto simp: register_user_def find_user_by_email_def insert_user_def try_insert_token_def insert_token_def
        Let_def)
  have run: "auth_api any_token_lib ?cfg (\<lambda>_. None) 0 7 9 [] (Register ?req) ?t
      = Returned (map_sum id SessionStarted res, t')"
    by (simp add: reg)
  from mem tokens_belong_to_users [OF _ run, of ?r] show ?thesis
    by (simp add: tables_ok_def default_token_def)
qed

text \<open>
  A session sees only its own tokens: every token in an answer is one of the stored tokens of
  the session's user, and the list has all of them.
\<close>

theorem session_sees_own_tokens:
  assumes "auth_api L cfg dbf now uid tid hs req t = Returned (Ok res, t')"
    and "res = TokensView vs \<or> (res = TokenView v \<and> vs = [v])"
  shows "\<exists>au u. require_auth L cfg now hs = Ok au \<and> uuid_parse L (au_user_id au) = Some u \<and>
     (\<forall>v \<in> set vs. \<exists>r \<in> set (auth_tokens t'). t_user r = u \<and> v = token_response L r) \<and>
     (req = ListTokens \<longrightarrow> vs = map (token_response L) (filter (\<lambda>r. t_user r = u) (auth_tokens t)))"
proof (cases req)
  case ListTokens
  with assms show ?thesis
    by (auto simp: protected_Returned list_auth_tokens_def parse_user_def http_error_def internal_error_def
        split: sum.splits if_splits option.splits)
next
  case (GetToken i)
  with assms show ?thesis
    by (auto simp: protected_Returned get_token_details_def owned_token_Ok dest!: find_token_by_id_Some
        split: sum.splits)
next
  case (UpdateToken i x)
  with assms obtain au w where au: "require_auth L cfg now hs = Ok au"
    and w: "update_auth_token L dbf au i x t = (w, t')" "Ok res = map_sum id TokenView w"
    by (auto simp: protected_Returned apfst_eq_pair split: sum.splits)
  then obtain v' where v: "w = Ok v'" "res = TokenView v'" by (cases w) auto
  with w(1) obtain r where r: "owned_token L dbf ''modify'' au i t = Ok r" "v' = token_response L (updated_row x r)"
    "t' = t\<lparr>auth_tokens := map (\<lambda>r'. if t_id r' = t_id r then updated_row x r else r') (auth_tokens t)\<rparr>"
    by (auto simp: update_auth_token_def internal_error_def http_error_def split: sum.splits if_splits)
  from r(1) have "r \<in> set (auth_tokens t)" "uuid_parse L (au_user_id au) = Some (t_user r)"
    by (auto simp: owned_token_Ok dest: find_token_by_id_Some)
  with r au v assms(2) UpdateToken show ?thesis by (auto intro!: bexI [of _ "updated_row x r"])
qed (use assms in \<open>auto simp: protected_Returned apfst_eq_pair map_sum_Ok elim!: and_then_ReturnedE
      split: sum.splits dest!: sym [of "Ok _"]\<close>)

section \<open>A tunnel token from its creation to its revocation\<close>

text \<open>The tables of the API are the database of the tunnel handler.\<close>

definition token_db :: "('k, 'e) lib \<Rightarrow> tables \<Rightarrow> database" where
  "token_db L t =
     \<lparr>find_domain = (\<lambda>_. Ok None), find_wildcard_domain = (\<lambda>_. Ok None),
      find_token = (\<lambda>h. Ok (map_option
         (\<lambda>r. \<lparr>row_user_id = uuid_show L (t_user r), row_expires_at = t_expires r, row_is_active = t_active r\<rparr>)
         (List.find (\<lambda>r. t_hash r = h) (auth_tokens t))))\<rparr>"

lemma find_token_token_db:
  assumes "distinct (map t_hash (auth_tokens t))" and "r \<in> set (auth_tokens t)"
  shows "find_token (token_db L t) (t_hash r) =
     Ok (Some \<lparr>row_user_id = uuid_show L (t_user r), row_expires_at = t_expires r, row_is_active = t_active r\<rparr>)"
proof -
  have "List.find (\<lambda>r'. t_hash r' = t_hash r) (auth_tokens t) = Some r"
    using assms by (auto simp: find_Some_iff distinct_conv_nth in_set_conv_nth)
  then show ?thesis by (simp add: token_db_def)
qed

lemma find_token_token_db_None:
  "h \<notin> t_hash ` set (auth_tokens t) \<Longrightarrow> find_token (token_db L t) h = Ok None"
  by (auto simp: token_db_def find_None_iff)

definition tunnel_check :: "('k, 'e) lib \<Rightarrow> api_config \<Rightarrow> int \<Rightarrow> string \<Rightarrow> tables \<Rightarrow> (string, string) result" where
  "tunnel_check L cfg now token t =
     fst (validate_auth_token (Some (api_validate L cfg now)) (Some (token_db L t)) (sha256_hex L) now token)"

lemma token_claims_fields:
  "token_type (token_claims L now tid uid e tm) = Some ''auth''"
  "claims_user_id (token_claims L now tid uid e tm) = Some (uuid_show L uid)"
  "exp (token_claims L now tid uid e tm) = (case e of Some x \<Rightarrow> x | None \<Rightarrow> now + 36500 * DAY) div 1000000000"
  by (auto simp: token_claims_def Let_def with_token_type_def with_user_id_def with_team_id_def claims_new_def
      split: option.split)

lemma create_auth_token_Ok:
  assumes "create_auth_token L cfg dbf now tid au req t = Returned (Ok ct, t')"
  obtains uid expires r where
    "uuid_parse L (au_user_id au) = Some uid" and "ct_expires ct = expires" and "ct_id ct = uuid_show L tid"
    and "jwt_encode L (jwt_secret cfg) (token_claims L now tid uid expires (cr_team_id req)) = Ok (ct_token ct)"
    and "insert_token r t = Some t'" and "t_id r = tid" and "t_user r = uid"
    and "t_hash r = sha256_hex L (ct_token ct)" and "t_expires r = expires" and "t_active r"
  using assms
  by (auto simp: create_auth_token_def parse_user_def http_error_def internal_error_def Let_def
      elim!: and_then_ReturnedE split: if_splits sum.splits option.splits)


definition sample_claims :: JwtClaims where
  "sample_claims = with_token_type ''auth'' (with_user_id ''7'' (claims_new 0 ''9'' ''localup-relay'' ''localup-tunnel'' DAY))"

definition sample_lib :: "(unit, unit) lib" where
  "sample_lib =
     \<lparr>uuid_parse = (\<lambda>s. map_option of_nat (parse_uint 128 s)), uuid_show = (\<lambda>u. show_nat (unat u)),
      hash_password = (\<lambda>p. Ok p), verify_password = (\<lambda>p h. Ok (p = h)),
      jwt_encode = (\<lambda>_ c. if c = sample_claims then Ok ''tok'' else Err ''no''), from_secret = (\<lambda>_. ()),
      jwt_decode = (\<lambda>_ _ _. Ok sample_claims), show_jwt_error = (\<lambda>_. []), sha256_hex = (\<lambda>s. s),
      plus_days = (\<lambda>now d. Some (now + d * DAY))\<rparr>"

lemma show_nat_small: "show_nat 7 = ''7''" "show_nat 9 = ''9''"
  by code_simp+

lemma sample_lib_uuid: "\<forall>u. uuid_parse sample_lib (uuid_show sample_lib u) = Some u"
proof
  fix u :: uuid
  have "unat u < 2 ^ 128" using unsigned_less [of u, where ?'a = nat] by simp
  then show "uuid_parse sample_lib (uuid_show sample_lib u) = Some u"
    by (simp add: sample_lib_def parse_uint_show_nat)
qed

lemma sample_lib_jwt:
  "jwt_encode sample_lib sec c = (if c = sample_claims then Ok ''tok'' else Err ''no'')"
  "jwt_decode sample_lib k v tok = Ok sample_claims" "sha256_hex sample_lib x = x"
  "plus_days sample_lib now d = Some (now + d * DAY)"
  by (simp_all add: sample_lib_def)


lemma login_Ok:
  assumes "login L cfg dbf now tid hs email password t = (Ok sr, t')"
  obtains u where "find_user_by_email email t = Some u" and "u_is_active u"
    and "verify_password L password (u_password_hash u) = Ok True"
    and "jwt_encode L (jwt_secret cfg) (session_claims L now u) = Ok (sr_token sr)"
    and "sr_cookie sr = create_session_cookie (sr_token sr) (is_request_secure hs (is_https cfg))"
  using assms
  by (auto simp: login_def Let_def http_error_def internal_error_def
      split: if_splits sum.splits option.splits bool.splits)

definition token_text :: "string \<Rightarrow> bool" where
  "token_text s = list_all (\<lambda>c. is_alphanumeric c \<or> c \<in> set ''.-_'') s"

lemma token_text_visible:
  assumes "token_text s"
  shows "CHR '';'' \<notin> set s" and "\<forall>c \<in> set s. \<not> is_whitespace c"
    and "\<forall>c \<in> set s. (32::nat) \<le> of_char c \<and> of_char c < (127::nat)"
  using assms
  by (auto simp: token_text_def list_all_iff is_alphanumeric_def is_ascii_upper_def is_ascii_lower_def
      is_ascii_digit_def is_whitespace_def)

lemma split_char_none: "c \<notin> set s \<Longrightarrow> split_char c s = [s]"
  by (induction s) auto

lemma cookie_token_session:
  assumes "token_text tok"
  shows "cookie_token [(''cookie'', ''session_token='' @ tok)] = Some tok"
proof -
  let ?v = "''session_token='' @ tok"
  have vis: "to_str ?v = Some ?v" using token_text_visible(3) [OF assms] by (auto simp: to_str_def list_all_iff)
  have "CHR '';'' \<notin> set ?v" using token_text_visible(1) [OF assms] by simp
  moreover have "trim ?v = ?v"
    using token_text_visible(2) [OF assms] by (intro trim_no_whitespace) (auto simp: list_all_iff is_whitespace_def)
  ultimately show ?thesis
    by (simp add: cookie_token_def header_get_def vis [simplified] split_char_none [simplified] strip_prefix_def starts_with_def)
qed

text \<open>
  A login gives a working session: the token of the answer, sent back in the cookie of the answer,
  passes the middleware as the user who logged in, with the user's role, for seven days.
\<close>

theorem login_session_works:
  assumes "login L cfg dbf now tid hs email password t = (Ok sr, t')"
    and "\<forall>c tok. jwt_encode L (jwt_secret cfg) c = Ok tok \<longrightarrow>
       jwt_decode L (from_secret L (as_bytes (jwt_secret cfg))) (only_exp HS256) tok = Ok c"
    and "token_text (sr_token sr)" and "now' \<le> now + 7 * DAY"
  shows "\<exists>u. find_user_by_email email t = Some u \<and> u_is_active u \<and>
      verify_password L password (u_password_hash u) = Ok True \<and>
      starts_with (sr_cookie sr) (''session_token='' @ sr_token sr @ '';'') \<and>
      require_auth L cfg now' [(''cookie'', ''session_token='' @ sr_token sr)] =
        Ok \<lparr>au_user_id = uuid_show L (u_id u), au_role = role_str (u_role u), au_token_type = ''session'',
            au_team_id = None, au_team_role = None\<rparr>"
proof -
  obtain u where u: "find_user_by_email email t = Some u" "u_is_active u"
      "verify_password L password (u_password_hash u) = Ok True"
    and enc: "jwt_encode L (jwt_secret cfg) (session_claims L now u) = Ok (sr_token sr)"
    and ck: "sr_cookie sr = create_session_cookie (sr_token sr) (is_request_secure hs (is_https cfg))"
    using login_Ok [OF assms(1)] by metis
  have "now' div 1000000000 \<le> exp (session_claims L now u)"
    using assms(4) by (simp add: session_claims_def with_token_type_def with_user_id_def with_user_role_def
        claims_new_def zdiv_mono1)
  then have "api_validate L cfg now' (sr_token sr) = Ok (session_claims L now u)"
    using assms(2) enc by (simp add: api_validate_def jwt_validate_def jwt_new_def is_expired_def)
  then have "require_auth L cfg now' [(''cookie'', ''session_token='' @ sr_token sr)] =
      session_claims_ok (session_claims L now u)"
    by (simp only: require_auth_def request_token_def cookie_token_session [OF assms(3)]) simp
  moreover have "session_claims_ok (session_claims L now u) =
      Ok \<lparr>au_user_id = uuid_show L (u_id u), au_role = role_str (u_role u), au_token_type = ''session'',
            au_team_id = None, au_team_role = None\<rparr>"
    by (simp add: session_claims_ok_def session_claims_def with_token_type_def with_user_id_def
        with_user_role_def claims_new_def)
  moreover have "starts_with (sr_cookie sr) (''session_token='' @ sr_token sr @ '';'')"
    by (simp add: ck create_session_cookie_def starts_with_def)
  ultimately show ?thesis using u by auto
qed

end
