(* ===== verification/Acme.thy ===== *)
theory Acme
  imports Prelude
begin

text \<open>
  The ACME client, \<open>crates/localup-cert/src/acme.rs\<close>: orders for certificates in two steps, the
  table of pending orders and the files the certificates are written to. The certificate authority
  behind \<open>instant_acme\<close> is the record \<open>authority\<close> of its answers; parsing of PEM files is a
  parameter; a file operation may fail with an error of the system.
\<close>

section \<open>Data\<close>

datatype AcmeError =
  AcmeFailure string
| AccountCreationFailed string
| OrderCreationFailed string
| ChallengeFailed string
| FinalizationFailed string
| InvalidDomain string
| AcmeTimeout
| AcmeIo string
| CertGen string
| Http01NotSupported
| Dns01NotSupported
| AuthorizationNotFound string
| ChallengeCallbackFailed
| ChallengeNotReady string
| OrderNotFound string
| AccountNotInitialized

fun acme_error_display :: "AcmeError \<Rightarrow> string" where
  "acme_error_display (AcmeFailure e) = ''ACME error: '' @ e"
| "acme_error_display (AccountCreationFailed e) = ''Account creation failed: '' @ e"
| "acme_error_display (OrderCreationFailed e) = ''Order creation failed: '' @ e"
| "acme_error_display (ChallengeFailed e) = ''Challenge failed: '' @ e"
| "acme_error_display (FinalizationFailed e) = ''Certificate finalization failed: '' @ e"
| "acme_error_display (InvalidDomain e) = ''Invalid domain: '' @ e"
| "acme_error_display AcmeTimeout = ''Timeout waiting for order''"
| "acme_error_display (AcmeIo e) = ''IO error: '' @ e"
| "acme_error_display (CertGen e) = ''Certificate generation error: '' @ e"
| "acme_error_display Http01NotSupported = ''HTTP-01 challenge not supported for this domain''"
| "acme_error_display Dns01NotSupported = ''DNS-01 challenge not supported for this domain''"
| "acme_error_display (AuthorizationNotFound d) = ''Authorization not found for domain: '' @ d"
| "acme_error_display ChallengeCallbackFailed = ''Challenge response callback failed''"
| "acme_error_display (ChallengeNotReady e) = ''Challenge not ready: '' @ e"
| "acme_error_display (OrderNotFound i) = ''Order not found: '' @ i"
| "acme_error_display AccountNotInitialized = ''Account not initialized''"

datatype AcmeChallengeType = Http01 | Dns01

record Http01Challenge =
  h1_token :: string
  h1_key_authorization :: string
  h1_domain :: string
  h1_url_path :: string

record Dns01Challenge =
  d1_domain :: string
  d1_record_name :: string
  d1_record_type :: string
  d1_record_value :: string

record ChallengeState =
  cs_order_id :: string
  cs_domain :: string
  cs_challenge_type :: AcmeChallengeType
  cs_http01 :: "Http01Challenge option"
  cs_dns01 :: "Dns01Challenge option"
  cs_expires_at :: int

record StoredOrder =
  so_order_url :: string
  so_domain :: string
  so_challenge_type :: AcmeChallengeType

record AcmeClient =
  ac_cert_dir :: string
  ac_account :: bool
  ac_pending_orders :: "string \<rightharpoonup> StoredOrder"

definition AcmeClient_new :: "string \<Rightarrow> AcmeClient" where
  "AcmeClient_new dir = \<lparr>ac_cert_dir = dir, ac_account = False, ac_pending_orders = Map.empty\<rparr>"

text \<open>
  The authority: a new order has a URL and the first of its authorizations, if there is one, with its
  status and the challenges it offers (token, key authorization, DNS value). A stored order is
  restored by its URL, its challenge set ready, polled, finalized and its certificate fetched.
\<close>

datatype authz_status = AuthValid | AuthPending | AuthOther string

record acme_authz =
  az_status :: authz_status
  az_challenge :: "AcmeChallengeType \<Rightarrow> (string \<times> string \<times> string) option"

datatype order_status = OrderReady | OrderInvalid | OrderOther string

record authority =
  au_new_order :: "string \<Rightarrow> (string, string \<times> (string, acme_authz) result option) result"
  au_restore :: "string \<Rightarrow> (string, (string, acme_authz) result option) result"
  au_set_ready :: "string \<Rightarrow> (string, unit) result"
  au_poll_ready :: "string \<Rightarrow> (string, order_status) result"
  au_finalize :: "string \<Rightarrow> (string, string) result"
  au_certificate :: "string \<Rightarrow> (string, string) result"

text \<open>Files by path; \<open>io\<close> is the error of writing or reading a path, if any.\<close>

type_synonym files = "string \<rightharpoonup> string"

definition write_file :: "(string \<Rightarrow> string option) \<Rightarrow> string \<Rightarrow> string \<Rightarrow> files \<Rightarrow> (string, files) result" where
  "write_file io path content fs = (case io path of Some e \<Rightarrow> Err e | None \<Rightarrow> Ok (fs(path \<mapsto> content)))"

definition read_file :: "(string \<Rightarrow> string option) \<Rightarrow> string \<Rightarrow> files \<Rightarrow> (string, string) result" where
  "read_file io path fs =
     (case io path of
        Some e \<Rightarrow> Err e
      | None \<Rightarrow> (case fs path of None \<Rightarrow> Err ''No such file or directory (os error 2)'' | Some c \<Rightarrow> Ok c))"

record pem =
  pem_certs :: "string \<Rightarrow> (string, string list) result"
  pem_key :: "string \<Rightarrow> (string, string option) result"

section \<open>Operations\<close>

text \<open>
  Creating the account: the directory may not be created, the HTTP client may not be built,
  credentials may not parse, load or serialize. \<open>acc_create contact url\<close> gives the credentials.
\<close>

record 'cred accounts =
  acc_mkdir :: "string \<Rightarrow> string option"
  acc_parse :: "string \<Rightarrow> (string, 'cred) result"
  acc_builder :: "(string, unit) result"
  acc_load :: "'cred \<Rightarrow> (string, unit) result"
  acc_url :: "bool \<Rightarrow> string"
  acc_create :: "string \<Rightarrow> string \<Rightarrow> (string, 'cred) result"
  acc_print :: "'cred \<Rightarrow> (string, string) result"

definition account_file :: "AcmeClient \<Rightarrow> string" where
  "account_file c = ac_cert_dir c @ ''/account.json''"

definition load_account :: "'cred accounts \<Rightarrow> string \<Rightarrow> (AcmeError, unit) result" where
  "load_account A creds_json =
     (case acc_parse A creds_json of
        Err e \<Rightarrow> Err (AccountCreationFailed (''Failed to parse account credentials: '' @ e))
      | Ok creds \<Rightarrow>
          (case acc_builder A of
             Err e \<Rightarrow> Err (AccountCreationFailed e)
           | Ok _ \<Rightarrow> map_err AccountCreationFailed (acc_load A creds)))"

definition create_account :: "'cred accounts \<Rightarrow> string \<Rightarrow> bool \<Rightarrow> (AcmeError, string) result" where
  "create_account A contact_email use_staging =
     (case acc_builder A of
        Err e \<Rightarrow> Err (AccountCreationFailed e)
      | Ok _ \<Rightarrow>
          (case acc_create A (''mailto:'' @ contact_email) (acc_url A use_staging) of
             Err e \<Rightarrow> Err (AccountCreationFailed e)
           | Ok creds \<Rightarrow>
               map_err (\<lambda>e. AccountCreationFailed (''Failed to serialize account credentials: '' @ e))
                 (acc_print A creds)))"

definition acme_init ::
  "'cred accounts \<Rightarrow> (string \<Rightarrow> string option) \<Rightarrow> string \<Rightarrow> bool \<Rightarrow> AcmeClient \<Rightarrow> files
    \<Rightarrow> (AcmeError, unit) result \<times> AcmeClient \<times> files" where
  "acme_init A io contact_email use_staging c fs =
     (case acc_mkdir A (ac_cert_dir c) of
        Some e \<Rightarrow> (Err (AcmeIo e), c, fs)
      | None \<Rightarrow>
          (case read_file io (account_file c) fs of
             Ok creds_json \<Rightarrow>
               (case load_account A creds_json of
                  Err e \<Rightarrow> (Err e, c, fs)
                | Ok _ \<Rightarrow> (Ok (), c\<lparr>ac_account := True\<rparr>, fs))
           | Err _ \<Rightarrow>
               (case create_account A contact_email use_staging of
                  Err e \<Rightarrow> (Err e, c, fs)
                | Ok creds_json \<Rightarrow>
                    (case write_file io (account_file c) creds_json fs of
                       Err e \<Rightarrow> (Err (AcmeIo e), c, fs)
                     | Ok fs' \<Rightarrow> (Ok (), c\<lparr>ac_account := True\<rparr>, fs')))))"

definition validate_domain :: "string \<Rightarrow> AcmeChallengeType \<Rightarrow> (AcmeError, unit) result" where
  "validate_domain dn ct =
     (if dn = [] then Err (InvalidDomain ''Domain cannot be empty'')
      else if CHR '' '' \<in> set dn then Err (InvalidDomain ''Domain cannot contain spaces'')
      else if starts_with dn ''.'' \<or> ends_with dn ''.'' then
        Err (InvalidDomain ''Domain cannot start or end with a dot'')
      else if starts_with dn ''*'' \<and> ct = Http01 then
        Err (InvalidDomain ''Wildcard domains require DNS-01 challenge'')
      else Ok ())"

definition HOUR :: int where
  "HOUR = 3600 * 1000000000"

definition challenge_state ::
  "int \<Rightarrow> string \<Rightarrow> string \<Rightarrow> AcmeChallengeType \<Rightarrow> string \<times> string \<times> string \<Rightarrow> ChallengeState" where
  "challenge_state now order_id dn ct ch =
     (let (token, key_auth, dns_value) = ch
      in \<lparr>cs_order_id = order_id, cs_domain = dn, cs_challenge_type = ct,
          cs_http01 = (case ct of
             Http01 \<Rightarrow> Some \<lparr>h1_token = token, h1_key_authorization = key_auth, h1_domain = dn,
                             h1_url_path = ''/.well-known/acme-challenge/'' @ token\<rparr>
           | Dns01 \<Rightarrow> None),
          cs_dns01 = (case ct of
             Http01 \<Rightarrow> None
           | Dns01 \<Rightarrow> Some \<lparr>d1_domain = dn,
                            d1_record_name = ''_acme-challenge.'' @ trim_start_matches ''*.'' dn,
                            d1_record_type = ''TXT'', d1_record_value = dns_value\<rparr>),
          cs_expires_at = now + HOUR\<rparr>)"

definition initiate_order ::
  "authority \<Rightarrow> int \<Rightarrow> string \<Rightarrow> string \<Rightarrow> AcmeChallengeType \<Rightarrow> AcmeClient
    \<Rightarrow> (AcmeError, ChallengeState) result \<times> AcmeClient" where
  "initiate_order ca now order_id dn ct c =
     (case validate_domain dn ct of
        Err e \<Rightarrow> (Err e, c)
      | Ok _ \<Rightarrow>
          if \<not> ac_account c then (Err AccountNotInitialized, c)
          else case au_new_order ca dn of
            Err e \<Rightarrow> (Err (OrderCreationFailed e), c)
          | Ok (url, None) \<Rightarrow> (Err (AuthorizationNotFound dn), c)
          | Ok (url, Some (Err e)) \<Rightarrow> (Err (OrderCreationFailed (''Failed to get authorization: '' @ e)), c)
          | Ok (url, Some (Ok az)) \<Rightarrow>
              (case az_status az of
                 AuthOther st \<Rightarrow> (Err (ChallengeFailed (''Authorization status is '' @ st)), c)
               | _ \<Rightarrow>
                   (case az_challenge az ct of
                      None \<Rightarrow> (Err (case ct of Http01 \<Rightarrow> Http01NotSupported | Dns01 \<Rightarrow> Dns01NotSupported), c)
                    | Some ch \<Rightarrow>
                        (Ok (challenge_state now order_id dn ct ch),
                         c\<lparr>ac_pending_orders := (ac_pending_orders c)
                             (order_id \<mapsto> \<lparr>so_order_url = url, so_domain = dn, so_challenge_type = ct\<rparr>)\<rparr>))))"

definition load_certificate_from_files ::
  "pem \<Rightarrow> (string \<Rightarrow> string option) \<Rightarrow> string \<Rightarrow> string \<Rightarrow> files \<Rightarrow> (AcmeError, string list \<times> string) result" where
  "load_certificate_from_files P io cert_path key_path fs =
     (case read_file io cert_path fs of
        Err e \<Rightarrow> Err (AcmeIo e)
      | Ok cert_pem \<Rightarrow>
          (case read_file io key_path fs of
             Err e \<Rightarrow> Err (AcmeIo e)
           | Ok key_pem \<Rightarrow>
               (case pem_certs P cert_pem of
                  Err e \<Rightarrow> Err (CertGen (''Failed to parse certificate: '' @ e))
                | Ok chain \<Rightarrow>
                    (case pem_key P key_pem of
                       Err e \<Rightarrow> Err (CertGen (''Failed to parse private key: '' @ e))
                     | Ok None \<Rightarrow> Err (CertGen ''No private key found in file'')
                     | Ok (Some k) \<Rightarrow> Ok (chain, k)))))"

definition cert_file :: "AcmeClient \<Rightarrow> string \<Rightarrow> string" where
  "cert_file c dn = ac_cert_dir c @ ''/'' @ dn @ ''.crt''"

definition key_file :: "AcmeClient \<Rightarrow> string \<Rightarrow> string" where
  "key_file c dn = ac_cert_dir c @ ''/'' @ dn @ ''.key''"

text \<open>Telling the authority that the challenge of a restored order is set up.\<close>

definition announce_ready ::
  "authority \<Rightarrow> StoredOrder \<Rightarrow> (string, acme_authz) result option \<Rightarrow> (AcmeError, unit) result" where
  "announce_ready ca so authz =
     (case authz of
        None \<Rightarrow> Ok ()
      | Some (Err e) \<Rightarrow> Err (ChallengeFailed (''Failed to get authz: '' @ e))
      | Some (Ok az) \<Rightarrow>
          (case az_challenge az (so_challenge_type so) of
             None \<Rightarrow> Ok ()
           | Some _ \<Rightarrow>
               map_err (\<lambda>e. ChallengeFailed (''Failed to set challenge ready: '' @ e))
                 (au_set_ready ca (so_order_url so))))"

text \<open>The certificate of a stored order: chain and private key as text.\<close>

definition obtain_certificate ::
  "authority \<Rightarrow> StoredOrder \<Rightarrow> (AcmeError, string \<times> string) result" where
  "obtain_certificate ca so =
     (case au_restore ca (so_order_url so) of
        Err e \<Rightarrow> Err (ChallengeFailed (''Failed to restore order: '' @ e))
      | Ok authz \<Rightarrow>
          (case announce_ready ca so authz of
             Err e \<Rightarrow> Err e
           | Ok _ \<Rightarrow>
               (case au_poll_ready ca (so_order_url so) of
                  Err e \<Rightarrow> Err (ChallengeFailed (''Challenge verification failed: '' @ e))
                | Ok OrderInvalid \<Rightarrow>
                    Err (ChallengeFailed ''Order became invalid - challenge verification failed'')
                | Ok (OrderOther st) \<Rightarrow> Err (ChallengeFailed (''Unexpected order status: '' @ st))
                | Ok OrderReady \<Rightarrow>
                    (case au_finalize ca (so_order_url so) of
                       Err e \<Rightarrow> Err (FinalizationFailed (''Failed to finalize order: '' @ e))
                     | Ok key \<Rightarrow>
                         (case au_certificate ca (so_order_url so) of
                            Err e \<Rightarrow> Err (FinalizationFailed (''Failed to get certificate: '' @ e))
                          | Ok chain \<Rightarrow> Ok (chain, key))))))"

definition complete_order ::
  "authority \<Rightarrow> pem \<Rightarrow> (string \<Rightarrow> string option) \<Rightarrow> string \<Rightarrow> AcmeClient \<Rightarrow> files
    \<Rightarrow> (AcmeError, string list \<times> string) result \<times> AcmeClient \<times> files" where
  "complete_order ca P io order_id c fs =
     (if \<not> ac_account c then (Err AccountNotInitialized, c, fs)
      else case ac_pending_orders c order_id of
        None \<Rightarrow> (Err (OrderNotFound order_id), c, fs)
      | Some so \<Rightarrow>
          let c1 = c\<lparr>ac_pending_orders := (ac_pending_orders c)(order_id := None)\<rparr>;
              cert_path = cert_file c (so_domain so); key_path = key_file c (so_domain so)
          in case obtain_certificate ca so of
               Err e \<Rightarrow> (Err e, c1, fs)
             | Ok (chain, key) \<Rightarrow>
                 (case write_file io cert_path chain fs of
                    Err e \<Rightarrow> (Err (AcmeIo e), c1, fs)
                  | Ok fs1 \<Rightarrow>
                      (case write_file io key_path key fs1 of
                         Err e \<Rightarrow> (Err (AcmeIo e), c1, fs1)
                       | Ok fs2 \<Rightarrow> (load_certificate_from_files P io cert_path key_path fs2, c1, fs2))))"

definition certificate_exists :: "AcmeClient \<Rightarrow> string \<Rightarrow> files \<Rightarrow> bool" where
  "certificate_exists c dn fs \<longleftrightarrow> fs (cert_file c dn) \<noteq> None \<and> fs (key_file c dn) \<noteq> None"

definition get_cert_paths :: "AcmeClient \<Rightarrow> string \<Rightarrow> string \<times> string" where
  "get_cert_paths c dn = (cert_file c dn, key_file c dn)"

section \<open>The certificate store\<close>

text \<open>\<open>crates/localup-cert/src/storage.rs\<close>; the clock is an argument, in nanoseconds.\<close>

datatype StorageError = CertNotFound string | CertExpired string | StorageFailure string

record StoredCertificate =
  sc_domain :: string
  sc_certificate_pem :: string
  sc_private_key_pem :: string
  sc_expires_at :: int
  sc_created_at :: int

definition StoredCertificate_new :: "int \<Rightarrow> string \<Rightarrow> string \<Rightarrow> string \<Rightarrow> int \<Rightarrow> StoredCertificate" where
  "StoredCertificate_new now dn cert_pem key_pem expires =
     \<lparr>sc_domain = dn, sc_certificate_pem = cert_pem, sc_private_key_pem = key_pem, sc_expires_at = expires,
      sc_created_at = now\<rparr>"

definition cert_is_expired :: "int \<Rightarrow> StoredCertificate \<Rightarrow> bool" where
  "cert_is_expired now c \<longleftrightarrow> now > sc_expires_at c"

definition cert_needs_renewal :: "int \<Rightarrow> StoredCertificate \<Rightarrow> bool" where
  "cert_needs_renewal now c \<longleftrightarrow> now > sc_expires_at c - 30 * 24 * HOUR"

text \<open>\<open>num_days\<close> rounds towards zero.\<close>

definition days_until_expiry :: "int \<Rightarrow> StoredCertificate \<Rightarrow> int" where
  "days_until_expiry now c =
     (let d = sc_expires_at c - now in if d \<ge> 0 then d div (24 * HOUR) else - ((- d) div (24 * HOUR)))"

type_synonym CertificateStore = "string \<rightharpoonup> StoredCertificate"

definition cert_store :: "StoredCertificate \<Rightarrow> CertificateStore \<Rightarrow> (StorageError, unit) result \<times> CertificateStore" where
  "cert_store c st = (Ok (), st(sc_domain c \<mapsto> c))"

definition cert_get :: "int \<Rightarrow> string \<Rightarrow> CertificateStore \<Rightarrow> (StorageError, StoredCertificate) result" where
  "cert_get now dn st =
     (case st dn of
        None \<Rightarrow> Err (CertNotFound dn)
      | Some c \<Rightarrow> if cert_is_expired now c then Err (CertExpired dn) else Ok c)"

definition cert_delete :: "string \<Rightarrow> CertificateStore \<Rightarrow> (StorageError, unit) result \<times> CertificateStore" where
  "cert_delete dn st = (case st dn of None \<Rightarrow> (Err (CertNotFound dn), st) | Some _ \<Rightarrow> (Ok (), st(dn := None)))"

definition renewal_candidates :: "int \<Rightarrow> CertificateStore \<Rightarrow> StoredCertificate set" where
  "renewal_candidates now st = {c \<in> ran st. cert_needs_renewal now c}"

definition cert_stored :: "string \<Rightarrow> CertificateStore \<Rightarrow> bool" where
  "cert_stored dn st \<longleftrightarrow> st dn \<noteq> None"

definition cert_count :: "CertificateStore \<Rightarrow> nat" where
  "cert_count st = card (dom st)"

section \<open>Self-signed certificates\<close>

text \<open>
  \<open>self_signed.rs\<close>: the names a development certificate is made for. \<open>ia5\<close> is the library's test
  of a name; the default names pass it.
\<close>

datatype san = SanDns string | SanIp string

definition self_signed_names :: "(string \<Rightarrow> bool) \<Rightarrow> string list \<Rightarrow> (string, san list) result" where
  "self_signed_names ia5 domains =
     (case List.find (\<lambda>d. \<not> ia5 d) domains of
        Some d \<Rightarrow> Err (''Invalid domain name: '' @ d)
      | None \<Rightarrow>
          Ok ([SanDns ''localhost'', SanDns ''*.localhost'', SanIp ''127.0.0.1'', SanIp ''::1'']
              @ map SanDns domains
              @ map SanDns (filter ia5 (map (\<lambda>d. ''*.'' @ d) domains))))"

section \<open>Properties\<close>

lemma cert_file_not_key_file: "cert_file c a \<noteq> key_file c b"
proof
  assume "cert_file c a = key_file c b"
  then have "last (cert_file c a) = last (key_file c b)" by simp
  then show False by (simp add: cert_file_def key_file_def)
qed

lemma file_names_inject [simp]: "cert_file c a = cert_file c b \<longleftrightarrow> a = b" "key_file c a = key_file c b \<longleftrightarrow> a = b"
  by (simp_all add: cert_file_def key_file_def)

lemma initiate_order_Ok:
  assumes "initiate_order ca now oid dn ct c = (Ok st, c')"
  shows "cs_order_id st = oid \<and> cs_domain st = dn \<and> cs_challenge_type st = ct \<and>
     (\<exists>url. c' = c\<lparr>ac_pending_orders := (ac_pending_orders c)
        (oid \<mapsto> \<lparr>so_order_url = url, so_domain = dn, so_challenge_type = ct\<rparr>)\<rparr>) \<and> ac_account c \<and>
     (case ct of Http01 \<Rightarrow> cs_http01 st \<noteq> None \<and> cs_dns01 st = None | Dns01 \<Rightarrow> cs_http01 st = None \<and> cs_dns01 st \<noteq> None)"
  using assms
  by (auto simp: initiate_order_def challenge_state_def Let_def
      split: sum.splits if_splits option.splits prod.splits authz_status.splits AcmeChallengeType.splits)

text \<open>
  Completing an order writes only the two files of the order's own domain, whatever the result.
\<close>

lemma complete_order_files:
  assumes "complete_order ca P io oid c fs = (res, c', fs')" and "ac_pending_orders c oid = Some so"
    and "path \<noteq> cert_file c (so_domain so)" and "path \<noteq> key_file c (so_domain so)"
  shows "fs' path = fs path"
  using assms
  by (auto simp: complete_order_def write_file_def Let_def split: if_splits sum.splits option.splits prod.splits)

text \<open>
  A completed order leaves the certificate and the key of the authority in the files of the
  order's domain.
\<close>

lemma complete_order_Ok:
  assumes "complete_order ca P io oid c fs = (Ok cert, c', fs')"
  obtains so chain key where "ac_pending_orders c oid = Some so" and "obtain_certificate ca so = Ok (chain, key)"
    and "fs' = fs(cert_file c (so_domain so) \<mapsto> chain, key_file c (so_domain so) \<mapsto> key)"
    and "c' = c\<lparr>ac_pending_orders := (ac_pending_orders c)(oid := None)\<rparr>"
    and "io (cert_file c (so_domain so)) = None" and "io (key_file c (so_domain so)) = None"
  using assms
  by (auto simp: complete_order_def write_file_def Let_def split: if_splits sum.splits option.splits prod.splits)

text \<open>
  An order is gone after the first attempt to complete it: whether the attempt succeeds or fails,
  for instance because the authority could not be reached, a second one finds no order, and the
  challenge has to be started again.
\<close>

lemma order_completes_once:
  assumes "complete_order ca P io oid c fs = (res, c', fs')" and "ac_account c"
  shows "complete_order ca' P io' oid c' fs'' = (Err (OrderNotFound oid), c', fs'')"
  using assms
  by (auto simp: complete_order_def Let_def split: option.splits sum.splits prod.splits)

text \<open>
  The account is created once: after an initialization that succeeded, a later start of the relay
  with the same directory loads the stored account and creates none, provided the stored
  credentials can be read back.
\<close>

lemma account_created_once:
  assumes "acme_init A io email staging c fs = (Ok (), c', fs')"
    and "\<And>cred json. acc_print A cred = Ok json \<Longrightarrow> acc_parse A json = Ok cred"
    and "\<And>cred. acc_load A cred = Ok ()"
  shows "acme_init (A\<lparr>acc_create := create'\<rparr>) io email' staging' (AcmeClient_new (ac_cert_dir c)) fs' =
     (Ok (), (AcmeClient_new (ac_cert_dir c))\<lparr>ac_account := True\<rparr>, fs')"
proof -
  have mk: "acc_mkdir A (ac_cert_dir c) = None"
    using assms(1) by (auto simp: acme_init_def split: option.splits)
  have af: "account_file (AcmeClient_new (ac_cert_dir c)) = account_file c"
    by (simp add: account_file_def AcmeClient_new_def)
  have cd: "ac_cert_dir (AcmeClient_new (ac_cert_dir c)) = ac_cert_dir c" by (simp add: AcmeClient_new_def)
  obtain json where "read_file io (account_file c) fs' = Ok json" and "load_account (A\<lparr>acc_create := create'\<rparr>) json = Ok ()"
  proof (cases "read_file io (account_file c) fs")
    case (Inr json)
    with assms(1) mk show ?thesis
      by (intro that [of json]) (auto simp: acme_init_def load_account_def split: sum.splits)
  next
    case (Inl e)
    with assms(1) mk obtain json where "create_account A email staging = Ok json" and w: "write_file io (account_file c) json fs = Ok fs'"
      by (auto simp: acme_init_def split: sum.splits)
    then obtain creds where "acc_print A creds = Ok json" and "acc_builder A = Ok ()"
      by (auto simp: create_account_def map_err_def split: sum.splits)
    with w assms(2,3) show ?thesis
      by (intro that [of json]) (auto simp: write_file_def read_file_def load_account_def map_err_def split: option.splits)
  qed
  then show ?thesis using mk by (simp add: acme_init_def af cd)
qed

text \<open>
  What is stored for a domain is what a lookup returns until it expires; other domains are not
  affected. A certificate found expired has been a candidate for renewal during the thirty days before.
\<close>

lemma cert_store_get:
  "cert_get now dn (snd (cert_store c st)) =
     (if dn = sc_domain c then (if sc_expires_at c < now then Err (CertExpired dn) else Ok c) else cert_get now dn st)"
  by (simp add: cert_store_def cert_get_def cert_is_expired_def)

lemma expired_is_candidate:
  assumes "cert_get now dn st = Err (CertExpired dn)" and "now - 30 * 24 * HOUR \<le> before"
  shows "\<exists>c. st dn = Some c \<and> c \<in> renewal_candidates before st"
  using assms
  by (auto simp: cert_get_def cert_is_expired_def renewal_candidates_def cert_needs_renewal_def ran_def
      split: option.splits if_splits)

lemma self_signed_names_Ok:
  assumes "self_signed_names ia5 domains = Ok sans"
  shows "\<forall>d \<in> set domains. ia5 d \<and> SanDns d \<in> set sans" and "SanDns ''localhost'' \<in> set sans"
  using assms by (auto simp: self_signed_names_def find_None_iff split: option.splits)

end
