(* ===== verification/RestDomains.thy ===== *)
theory RestDomains
  imports RestAuth Acme
begin

text \<open>
  Custom domains over the REST API, \<open>crates/localup-api/src/handlers.rs\<close>: upload of certificates,
  reading and deleting domains, and the ACME challenges from their start to the certificate, with
  the table of domains the tunnel handler consults. \<open>dbf n\<close> is the error of the \<open>n\<close>-th database call
  of a handler, \<open>io\<close> the error of a file operation; \<open>base64\<close> decoding, the HTTP client and the DNS
  resolver are parameters.
\<close>

section \<open>Tables\<close>

record domain_row =
  d_domain :: string
  d_id :: "string option"
  d_cert_path :: "string option"
  d_key_path :: "string option"
  d_status :: DomainStatus
  d_provisioned :: int
  d_expires :: "int option"
  d_auto_renew :: bool
  d_error :: "string option"
  d_cert_pem :: "string option"
  d_key_pem :: "string option"
  d_is_wildcard :: bool

datatype ChallengeStatus = ChPending | ChCompleted | ChFailed | ChExpired

record challenge_row =
  c_id :: string
  c_domain :: string
  c_type :: AcmeChallengeType
  c_status :: ChallengeStatus
  c_name :: "string option"
  c_value :: "string option"
  c_order_url :: "string option"
  c_created :: int
  c_expires :: int
  c_error :: "string option"

record domain_state =
  st_domains :: "domain_row list"
  st_challenges :: "challenge_row list"
  st_http01 :: "string \<rightharpoonup> string"
  st_files :: files
  st_acme :: "AcmeClient option"

definition find_domain_row :: "string \<Rightarrow> domain_state \<Rightarrow> domain_row option" where
  "find_domain_row dn s = List.find (\<lambda>d. d_domain d = dn) (st_domains s)"

definition find_challenge :: "string \<Rightarrow> domain_state \<Rightarrow> challenge_row option" where
  "find_challenge i s = List.find (\<lambda>c. c_id c = i) (st_challenges s)"

text \<open>Inserting a domain that is there fails, or updates some columns when the statement says so.\<close>

definition insert_domain :: "domain_row \<Rightarrow> domain_state \<Rightarrow> domain_state option" where
  "insert_domain d s =
     (if find_domain_row (d_domain d) s \<noteq> None then None else Some (s\<lparr>st_domains := st_domains s @ [d]\<rparr>))"

definition upsert_domain ::
  "(domain_row \<Rightarrow> domain_row \<Rightarrow> domain_row) \<Rightarrow> domain_row \<Rightarrow> domain_state \<Rightarrow> domain_state" where
  "upsert_domain upd d s =
     (if find_domain_row (d_domain d) s = None then s\<lparr>st_domains := st_domains s @ [d]\<rparr>
      else s\<lparr>st_domains := map (\<lambda>d'. if d_domain d' = d_domain d then upd d d' else d') (st_domains s)\<rparr>)"

definition db_error :: "string \<Rightarrow> string \<Rightarrow> string \<Rightarrow> 'a answer" where
  "db_error what code e = http_error 500 (what @ '': '' @ e) code"

section \<open>Domains\<close>

text \<open>\<open>Path::join\<close>: an absolute path replaces the directory.\<close>

definition path_join :: "string \<Rightarrow> string \<Rightarrow> string" where
  "path_join dir p = (if starts_with p ''/'' then p else dir @ ''/'' @ p)"

record UploadCustomDomainRequest =
  up_domain :: string
  up_cert_pem :: string
  up_key_pem :: string
  up_auto_renew :: bool

record domain_message =
  dm_domain :: string
  dm_status :: DomainStatus
  dm_message :: string

definition uploaded_row ::
  "int \<Rightarrow> string \<Rightarrow> UploadCustomDomainRequest \<Rightarrow> string \<Rightarrow> string \<Rightarrow> bytes \<Rightarrow> bytes \<Rightarrow> domain_row" where
  "uploaded_row now new_id req cert_path key_path cert_pem key_pem =
     \<lparr>d_domain = up_domain req, d_id = Some new_id, d_cert_path = Some cert_path,
      d_key_path = Some key_path, d_status = DomainActive, d_provisioned = now,
      d_expires = Some (now + 90 * DAY), d_auto_renew = up_auto_renew req, d_error = None,
      d_cert_pem = Some (from_utf8_lossy cert_pem), d_key_pem = Some (from_utf8_lossy key_pem),
      d_is_wildcard = is_wildcard_pattern (up_domain req)\<rparr>"

definition save_uploaded ::
  "(nat \<Rightarrow> string option) \<Rightarrow> domain_row \<Rightarrow> domain_state \<Rightarrow> domain_message answer \<times> domain_state" where
  "save_uploaded dbf d s =
     (case (case dbf 0 of
              Some e \<Rightarrow> Err e
            | None \<Rightarrow> (case insert_domain d s of None \<Rightarrow> Err ''UNIQUE constraint failed'' | Some s' \<Rightarrow> Ok s')) of
        Err e \<Rightarrow> (db_error ''Failed to save domain'' ''DB_INSERT_FAILED'' e, s)
      | Ok s' \<Rightarrow>
          (Ok \<lparr>dm_domain = d_domain d, dm_status = DomainActive,
              dm_message = ''Certificate uploaded and validated successfully''\<rparr>, s'))"

definition store_uploaded ::
  "pem \<Rightarrow> (string \<Rightarrow> string option) \<Rightarrow> string \<Rightarrow> string \<Rightarrow> bytes \<Rightarrow> bytes \<Rightarrow> domain_state
    \<Rightarrow> unit answer \<times> domain_state" where
  "store_uploaded P io cert_path key_path cert_pem key_pem s =
     (case write_file io cert_path (map char_of_byte cert_pem) (st_files s) of
        Err e \<Rightarrow> (http_error 500 (''Failed to write certificate: '' @ e) ''CERT_WRITE_FAILED'', s)
      | Ok fs1 \<Rightarrow>
          (case write_file io key_path (map char_of_byte key_pem) fs1 of
             Err e \<Rightarrow>
               (http_error 500 (''Failed to write private key: '' @ e) ''KEY_WRITE_FAILED'', s\<lparr>st_files := fs1\<rparr>)
           | Ok fs2 \<Rightarrow>
               (case load_certificate_from_files P io cert_path key_path fs2 of
                  Err e \<Rightarrow>
                    (http_error 400 (''Invalid certificate or key: '' @ acme_error_display e) ''INVALID_CERT'',
                     s\<lparr>st_files := fs2\<rparr>)
                | Ok _ \<Rightarrow> (Ok (), s\<lparr>st_files := fs2\<rparr>))))"

definition upload_custom_domain ::
  "(string \<Rightarrow> (string, bytes) result) \<Rightarrow> pem \<Rightarrow> (string \<Rightarrow> string option) \<Rightarrow> string option \<Rightarrow> (nat \<Rightarrow> string option)
    \<Rightarrow> int \<Rightarrow> string \<Rightarrow> UploadCustomDomainRequest \<Rightarrow> domain_state \<Rightarrow> domain_message answer \<times> domain_state" where
  "upload_custom_domain base64 P io mkdir dbf now new_id req s =
     (case base64 (up_cert_pem req) of
        Err e \<Rightarrow> (http_error 400 (''Invalid base64 in cert_pem: '' @ e) ''INVALID_BASE64'', s)
      | Ok cert_pem \<Rightarrow>
          (case base64 (up_key_pem req) of
             Err e \<Rightarrow> (http_error 400 (''Invalid base64 in key_pem: '' @ e) ''INVALID_BASE64'', s)
           | Ok key_pem \<Rightarrow>
               (case mkdir of
                  Some e \<Rightarrow>
                    (http_error 500 (''Failed to create cert directory: '' @ e) ''CERT_DIR_CREATE_FAILED'', s)
                | None \<Rightarrow>
                    (let cert_path = path_join ''./.certs'' (up_domain req @ ''.crt'');
                         key_path = path_join ''./.certs'' (up_domain req @ ''.key'')
                     in case store_uploaded P io cert_path key_path cert_pem key_pem s of
                          (Err e, s') \<Rightarrow> (Err e, s')
                        | (Ok _, s') \<Rightarrow>
                            save_uploaded dbf (uploaded_row now new_id req cert_path key_path cert_pem key_pem) s'))))"

record CustomDomain =
  cd_id :: string
  cd_domain :: string
  cd_status :: DomainStatus
  cd_provisioned_at :: int
  cd_expires_at :: "int option"
  cd_auto_renew :: bool
  cd_error_message :: "string option"

definition domain_response :: "string \<Rightarrow> domain_row \<Rightarrow> CustomDomain" where
  "domain_response new_id d =
     \<lparr>cd_id = (case d_id d of Some i \<Rightarrow> i | None \<Rightarrow> new_id), cd_domain = d_domain d, cd_status = d_status d,
      cd_provisioned_at = d_provisioned d, cd_expires_at = d_expires d, cd_auto_renew = d_auto_renew d,
      cd_error_message = d_error d\<rparr>"

definition list_custom_domains ::
  "(nat \<Rightarrow> string option) \<Rightarrow> (domain_row \<Rightarrow> string) \<Rightarrow> domain_state \<Rightarrow> (CustomDomain list \<times> nat) answer" where
  "list_custom_domains dbf new_id s =
     (case dbf 0 of
        Some e \<Rightarrow> db_error ''Failed to list domains'' ''DB_QUERY_FAILED'' e
      | None \<Rightarrow> Ok (map (\<lambda>d. domain_response (new_id d) d) (st_domains s), length (st_domains s)))"

definition get_custom_domain ::
  "(nat \<Rightarrow> string option) \<Rightarrow> string \<Rightarrow> string \<Rightarrow> domain_state \<Rightarrow> CustomDomain answer" where
  "get_custom_domain dbf new_id dn s =
     (case dbf 0 of
        Some e \<Rightarrow> db_error ''Failed to get domain'' ''DB_QUERY_FAILED'' e
      | None \<Rightarrow>
          (case find_domain_row dn s of
             None \<Rightarrow> http_error 404 (''Domain not found: '' @ dn) ''DOMAIN_NOT_FOUND''
           | Some d \<Rightarrow> Ok (domain_response new_id d)))"

definition remove_file :: "(string \<Rightarrow> string option) \<Rightarrow> string option \<Rightarrow> files \<Rightarrow> files" where
  "remove_file io p fs = (case p of None \<Rightarrow> fs | Some q \<Rightarrow> if io q = None then fs(q := None) else fs)"

definition delete_custom_domain ::
  "(string \<Rightarrow> string option) \<Rightarrow> (nat \<Rightarrow> string option) \<Rightarrow> string \<Rightarrow> domain_state \<Rightarrow> unit answer \<times> domain_state" where
  "delete_custom_domain io dbf dn s =
     (case dbf 0 of
        Some e \<Rightarrow> (db_error ''Failed to find domain'' ''DB_QUERY_FAILED'' e, s)
      | None \<Rightarrow>
          (case find_domain_row dn s of
             None \<Rightarrow> (http_error 404 (''Domain not found: '' @ dn) ''DOMAIN_NOT_FOUND'', s)
           | Some d \<Rightarrow>
               (let s1 = s\<lparr>st_files := remove_file io (d_key_path d) (remove_file io (d_cert_path d) (st_files s))\<rparr>
                in case dbf 1 of
                    Some e \<Rightarrow> (db_error ''Failed to delete domain'' ''DB_DELETE_FAILED'' e, s1)
                  | None \<Rightarrow>
                      (Ok (), s1\<lparr>st_domains := filter (\<lambda>d'. d_domain d' \<noteq> dn) (st_domains s)\<rparr>))))"

definition get_domain_by_id ::
  "(nat \<Rightarrow> string option) \<Rightarrow> string \<Rightarrow> string \<Rightarrow> domain_state \<Rightarrow> CustomDomain answer" where
  "get_domain_by_id dbf new_id i s =
     (case dbf 0 of
        Some e \<Rightarrow> db_error ''Database error'' ''DB_QUERY_FAILED'' e
      | None \<Rightarrow>
          (case List.find (\<lambda>d. d_id d = Some i) (st_domains s) of
             None \<Rightarrow> http_error 404 (''Domain not found with ID: '' @ i) ''DOMAIN_NOT_FOUND''
           | Some d \<Rightarrow> Ok (domain_response new_id d)))"

section \<open>Challenges\<close>

datatype ChallengeInfo =
  InfoHttp01 string string string string "string list"
| InfoDns01 string string string "string list"

record InitiateChallengeResponse =
  ir_domain :: string
  ir_challenge :: ChallengeInfo
  ir_challenge_id :: string
  ir_expires_at :: int

definition acme_not_configured :: "'a answer" where
  "acme_not_configured =
     http_error 503 (''ACME client not configured. Use --acme-email flag or set ACME_EMAIL environment variable to enable Let'' @ [CHR 0x27] @ ''s Encrypt.'') ''ACME_NOT_CONFIGURED''"

definition missing_data :: "string \<Rightarrow> 'a answer" where
  "missing_data what = http_error 500 (what @ '' challenge data not available'') ''CHALLENGE_DATA_MISSING''"

definition http01_info :: "string \<Rightarrow> Http01Challenge \<Rightarrow> ChallengeInfo" where
  "http01_info dn h =
     InfoHttp01 dn (h1_token h) (h1_key_authorization h) (''http://'' @ dn @ h1_url_path h)
       [''1. Ensure your domain DNS points to this server'',
        ''2. The challenge response is automatically served by this relay'',
        ''3. Verify URL: http://'' @ dn @ h1_url_path h,
        ''4. Call POST /api/domains/challenge/complete to complete verification'']"

definition dns01_info :: "string \<Rightarrow> Dns01Challenge \<Rightarrow> ChallengeInfo" where
  "dns01_info dn d =
     InfoDns01 dn (d1_record_name d) (d1_record_value d)
       [''1. Add a TXT record to your DNS:'',
        ''   Name: '' @ d1_record_name d,
        ''   Type: '' @ d1_record_type d,
        ''   Value: '' @ d1_record_value d,
        ''2. Wait for DNS propagation (can take up to 48 hours)'',
        ''3. Call POST /api/domains/challenge/complete with the challenge_id'']"

text \<open>The challenge for the answer, and the two columns it is stored in.\<close>

definition challenge_parts ::
  "string \<Rightarrow> AcmeChallengeType \<Rightarrow> ChallengeState \<Rightarrow> (ChallengeInfo \<times> string \<times> string) answer" where
  "challenge_parts dn ct cs =
     (case ct of
        Http01 \<Rightarrow>
          (case cs_http01 cs of
             None \<Rightarrow> missing_data ''HTTP-01''
           | Some h \<Rightarrow> Ok (http01_info dn h, h1_token h, h1_key_authorization h))
      | Dns01 \<Rightarrow>
          (case cs_dns01 cs of
             None \<Rightarrow> missing_data ''DNS-01''
           | Some d \<Rightarrow> Ok (dns01_info dn d, d1_record_name d, d1_record_value d)))"

definition pending_row :: "int \<Rightarrow> string \<Rightarrow> string \<Rightarrow> int \<Rightarrow> domain_row" where
  "pending_row now new_id dn expires =
     \<lparr>d_domain = dn, d_id = Some new_id, d_cert_path = None, d_key_path = None, d_status = DomainPending,
      d_provisioned = now, d_expires = Some expires, d_auto_renew = True, d_error = None, d_cert_pem = None,
      d_key_pem = None, d_is_wildcard = is_wildcard_pattern dn\<rparr>"

definition update_pending :: "domain_row \<Rightarrow> domain_row \<Rightarrow> domain_row" where
  "update_pending d old = old\<lparr>d_status := d_status d, d_expires := d_expires d, d_error := d_error d\<rparr>"

definition store_challenge :: "ChallengeState \<Rightarrow> domain_state \<Rightarrow> domain_state" where
  "store_challenge cs s =
     (case cs_http01 cs of
        None \<Rightarrow> s
      | Some h \<Rightarrow> s\<lparr>st_http01 := (st_http01 s)(h1_token h \<mapsto> h1_key_authorization h)\<rparr>)"

definition insert_challenge :: "challenge_row \<Rightarrow> domain_state \<Rightarrow> domain_state option" where
  "insert_challenge c s =
     (if find_challenge (c_id c) s \<noteq> None then None else Some (s\<lparr>st_challenges := st_challenges s @ [c]\<rparr>))"

definition challenge_row_of ::
  "int \<Rightarrow> string \<Rightarrow> AcmeChallengeType \<Rightarrow> ChallengeState \<Rightarrow> string \<Rightarrow> string \<Rightarrow> challenge_row" where
  "challenge_row_of now dn ct cs name_col value_col =
     \<lparr>c_id = cs_order_id cs, c_domain = dn, c_type = ct, c_status = ChPending, c_name = Some name_col,
      c_value = Some value_col, c_order_url = Some (cs_order_id cs), c_created = now,
      c_expires = cs_expires_at cs, c_error = None\<rparr>"

definition persist_challenge ::
  "(nat \<Rightarrow> string option) \<Rightarrow> int \<Rightarrow> string \<Rightarrow> string \<Rightarrow> AcmeChallengeType \<Rightarrow> ChallengeState
    \<Rightarrow> ChallengeInfo \<times> string \<times> string \<Rightarrow> domain_state \<Rightarrow> InitiateChallengeResponse answer \<times> domain_state" where
  "persist_challenge dbf now new_id dn ct cs parts s =
     (case parts of (info, name_col, value_col) \<Rightarrow>
        (case dbf 0 of
           Some e \<Rightarrow> (db_error ''Failed to save domain'' ''DB_ERROR'' e, s)
         | None \<Rightarrow>
             (let s1 = upsert_domain update_pending (pending_row now new_id dn (cs_expires_at cs)) s
              in case (case dbf 1 of
                         Some e \<Rightarrow> Err e
                       | None \<Rightarrow>
                           (case insert_challenge (challenge_row_of now dn ct cs name_col value_col) s1 of
                              None \<Rightarrow> Err ''UNIQUE constraint failed''
                            | Some s2 \<Rightarrow> Ok s2)) of
                   Err e \<Rightarrow> (db_error ''Failed to save challenge'' ''DB_ERROR'' e, s1)
                 | Ok s2 \<Rightarrow>
                     (Ok \<lparr>ir_domain = dn, ir_challenge = info, ir_challenge_id = cs_order_id cs,
                         ir_expires_at = cs_expires_at cs\<rparr>, s2))))"

definition initiate_challenge ::
  "authority \<Rightarrow> (nat \<Rightarrow> string option) \<Rightarrow> int \<Rightarrow> string \<Rightarrow> string \<Rightarrow> string \<Rightarrow> string \<Rightarrow> domain_state
    \<Rightarrow> InitiateChallengeResponse answer \<times> domain_state" where
  "initiate_challenge ca dbf now order_id new_id dn ctype s =
     (case st_acme s of
        None \<Rightarrow> (acme_not_configured, s)
      | Some client \<Rightarrow>
          (let ct = (if ctype = ''dns-01'' then Dns01 else Http01)
           in case initiate_order ca now order_id dn ct client of
                (Err e, client') \<Rightarrow>
                  (http_error 400 (''Failed to initiate certificate request: '' @ acme_error_display e)
                     ''ACME_INIT_FAILED'', s\<lparr>st_acme := Some client'\<rparr>)
              | (Ok cs, client') \<Rightarrow>
                  (let s1 = store_challenge cs (s\<lparr>st_acme := Some client'\<rparr>)
                   in case challenge_parts dn ct cs of
                        Err e \<Rightarrow> (Err e, s1)
                      | Ok parts \<Rightarrow> persist_challenge dbf now new_id dn ct cs parts s1)))"

definition completed_row :: "int \<Rightarrow> string \<Rightarrow> string \<Rightarrow> string \<Rightarrow> string \<Rightarrow> string \<Rightarrow> domain_row" where
  "completed_row now dn cert_path key_path cert_pem key_pem =
     \<lparr>d_domain = dn, d_id = None, d_cert_path = Some cert_path, d_key_path = Some key_path,
      d_status = DomainActive, d_provisioned = now, d_expires = Some (now + 90 * DAY), d_auto_renew = True,
      d_error = None, d_cert_pem = Some cert_pem, d_key_pem = Some key_pem,
      d_is_wildcard = is_wildcard_pattern dn\<rparr>"

definition update_completed :: "domain_row \<Rightarrow> domain_row \<Rightarrow> domain_row" where
  "update_completed d old = d\<lparr>d_id := d_id old, d_is_wildcard := d_is_wildcard old\<rparr>"

definition finish_challenge :: "(nat \<Rightarrow> string option) \<Rightarrow> string \<Rightarrow> string \<Rightarrow> domain_state \<Rightarrow> domain_state" where
  "finish_challenge dbf challenge_id dn s =
     s\<lparr>st_challenges :=
         (if dbf 1 = None \<and> dbf 2 = None then
            map (\<lambda>c. if c_id c = challenge_id then c\<lparr>c_status := ChCompleted\<rparr> else c) (st_challenges s)
          else st_challenges s),
       st_http01 := (\<lambda>tok. case st_http01 s tok of
                       Some v \<Rightarrow> if contains_sub v dn then None else Some v
                     | None \<Rightarrow> None)\<rparr>"

definition complete_challenge ::
  "authority \<Rightarrow> pem \<Rightarrow> (string \<Rightarrow> string option) \<Rightarrow> (nat \<Rightarrow> string option) \<Rightarrow> int \<Rightarrow> string \<Rightarrow> string \<Rightarrow> domain_state
    \<Rightarrow> domain_message answer \<times> domain_state" where
  "complete_challenge ca P io dbf now dn challenge_id s =
     (case st_acme s of
        None \<Rightarrow> (acme_not_configured, s)
      | Some client \<Rightarrow>
          (case complete_order ca P io challenge_id client (st_files s) of
             (res, client', fs) \<Rightarrow>
               (let s1 = s\<lparr>st_acme := Some client', st_files := fs\<rparr>;
                    cert_path = cert_file client' dn; key_path = key_file client' dn
                in case res of
                     Err e \<Rightarrow>
                       (http_error 500 (''Failed to complete ACME challenge: '' @ acme_error_display e)
                          ''ACME_COMPLETE_FAILED'', s1)
                   | Ok _ \<Rightarrow>
                       (case read_file io cert_path fs of
                          Err e \<Rightarrow> (http_error 500 (''Failed to read certificate: '' @ e) ''CERT_READ_FAILED'', s1)
                        | Ok cert_pem \<Rightarrow>
                            (case read_file io key_path fs of
                               Err e \<Rightarrow> (http_error 500 (''Failed to read key: '' @ e) ''KEY_READ_FAILED'', s1)
                             | Ok key_pem \<Rightarrow>
                                 (case dbf 0 of
                                    Some e \<Rightarrow> (db_error ''Failed to save domain'' ''DB_INSERT_FAILED'' e, s1)
                                  | None \<Rightarrow>
                                      (Ok \<lparr>dm_domain = dn, dm_status = DomainActive,
                                          dm_message = ''Let'' @ [CHR 0x27] @ ''s Encrypt certificate issued successfully''\<rparr>,
                                       finish_challenge dbf challenge_id dn
                                         (upsert_domain update_completed
                                            (completed_row now dn cert_path key_path cert_pem key_pem) s1))))))))"

text \<open>The stored challenges of a domain, shown again.\<close>

definition stored_info :: "challenge_row \<Rightarrow> InitiateChallengeResponse" where
  "stored_info c =
     \<lparr>ir_domain = c_domain c,
      ir_challenge =
        (let nm = (case c_name c of Some n \<Rightarrow> n | None \<Rightarrow> []); vl = (case c_value c of Some v \<Rightarrow> v | None \<Rightarrow> [])
         in case c_type c of
              Http01 \<Rightarrow>
                InfoHttp01 (c_domain c) nm vl (''http://'' @ c_domain c @ ''/.well-known/acme-challenge/'' @ nm)
                  [''1. Ensure your domain DNS points to this server'',
                   ''2. The challenge response is automatically served by this relay'']
            | Dns01 \<Rightarrow>
                InfoDns01 (c_domain c) nm vl
                  [''1. Add a TXT record to your DNS'', ''2. Wait for DNS propagation'']),
      ir_challenge_id = c_id c, ir_expires_at = c_expires c\<rparr>"

definition pending_of :: "string \<Rightarrow> challenge_row \<Rightarrow> bool" where
  "pending_of dn c \<longleftrightarrow> c_domain c = dn \<and> c_status c = ChPending"

definition get_domain_challenges ::
  "(nat \<Rightarrow> string option) \<Rightarrow> string \<Rightarrow> domain_state \<Rightarrow> InitiateChallengeResponse list answer" where
  "get_domain_challenges dbf dn s =
     (case dbf 0 of
        Some e \<Rightarrow> db_error ''Database error'' ''DB_ERROR'' e
      | None \<Rightarrow> Ok (map stored_info (filter (pending_of dn) (st_challenges s))))"

text \<open>The HTTP-01 tokens of challenges are no longer served.\<close>

definition forget_tokens :: "challenge_row list \<Rightarrow> (string \<rightharpoonup> string) \<Rightarrow> (string \<rightharpoonup> string)" where
  "forget_tokens cs m =
     foldl (\<lambda>m' c. if c_type c = Http01 then (case c_name c of Some tok \<Rightarrow> m'(tok := None) | None \<Rightarrow> m') else m') m cs"

definition drop_pending :: "string \<Rightarrow> domain_state \<Rightarrow> domain_state" where
  "drop_pending dn s = s\<lparr>st_challenges := filter (\<lambda>c. \<not> pending_of dn c) (st_challenges s)\<rparr>"

definition cancel_challenge ::
  "(nat \<Rightarrow> string option) \<Rightarrow> string \<Rightarrow> domain_state \<Rightarrow> (string \<times> nat) answer \<times> domain_state" where
  "cancel_challenge dbf dn s =
     (case dbf 0 of
        Some e \<Rightarrow> (db_error ''Database error'' ''DB_ERROR'' e, s)
      | None \<Rightarrow>
          (let cs = filter (pending_of dn) (st_challenges s)
           in if cs = [] then
                (http_error 404 (''No pending challenges found for domain: '' @ dn) ''NO_PENDING_CHALLENGE'', s)
              else
                (let s1 = s\<lparr>st_http01 := forget_tokens cs (st_http01 s)\<rparr>
                 in case dbf 1 of
                      Some e \<Rightarrow> (db_error ''Failed to delete challenges'' ''DB_DELETE_FAILED'' e, s1)
                    | None \<Rightarrow>
                        (let s2 = drop_pending dn s1;
                             s3 = (if dbf 2 = None then
                                     s2\<lparr>st_domains := map (\<lambda>d. if d_domain d = dn
                                          then d\<lparr>d_status := DomainFailed, d_error := Some ''Challenge cancelled by user''\<rparr>
                                          else d) (st_domains s2)\<rparr>
                                   else s2)
                         in (Ok (''Cancelled '' @ show_nat (length cs) @ '' challenge(s) for domain '' @ dn, length cs), s3)))))"

definition restart_challenge ::
  "authority \<Rightarrow> (nat \<Rightarrow> string option) \<Rightarrow> int \<Rightarrow> string \<Rightarrow> string \<Rightarrow> string \<Rightarrow> string \<Rightarrow> domain_state
    \<Rightarrow> InitiateChallengeResponse answer \<times> domain_state" where
  "restart_challenge ca dbf now order_id new_id dn ctype s =
     (let cs = (if dbf 0 = None then filter (pending_of dn) (st_challenges s) else []);
          s1 = s\<lparr>st_http01 := forget_tokens cs (st_http01 s)\<rparr>;
          s2 = (if dbf 1 = None then drop_pending dn s1 else s1)
      in initiate_challenge ca (\<lambda>n. dbf (n + 2)) now order_id new_id dn ctype s2)"

definition serve_acme_challenge :: "string \<Rightarrow> domain_state \<Rightarrow> (nat, string) result" where
  "serve_acme_challenge tok s = (case st_http01 s tok of Some v \<Rightarrow> Ok v | None \<Rightarrow> Err 404)"

definition request_acme_certificate ::
  "authority \<Rightarrow> int \<Rightarrow> string \<Rightarrow> string \<Rightarrow> domain_state \<Rightarrow> InitiateChallengeResponse answer \<times> domain_state" where
  "request_acme_certificate ca now order_id dn s =
     (case st_acme s of
        None \<Rightarrow> (acme_not_configured, s)
      | Some client \<Rightarrow>
          (case initiate_order ca now order_id dn Http01 client of
             (Err e, client') \<Rightarrow>
               (http_error 400 (''Failed to initiate certificate request: '' @ acme_error_display e) ''ACME_INIT_FAILED'',
                s\<lparr>st_acme := Some client'\<rparr>)
           | (Ok cs, client') \<Rightarrow>
               (case cs_http01 cs of
                  None \<Rightarrow> (missing_data ''HTTP-01'', s\<lparr>st_acme := Some client'\<rparr>)
                | Some h \<Rightarrow>
                    (Ok \<lparr>ir_domain = dn,
                        ir_challenge = InfoHttp01 dn (h1_token h) (h1_key_authorization h)
                          (''http://'' @ dn @ h1_url_path h)
                          [''1. Ensure your domain DNS points to this server'',
                           ''2. The challenge response is automatically served at the URL above'',
                           ''3. Call POST /api/domains/challenge/complete to complete the verification''],
                        ir_challenge_id = cs_order_id cs, ir_expires_at = cs_expires_at cs\<rparr>,
                     s\<lparr>st_acme := Some client',
                       st_http01 := (st_http01 s)(h1_token h \<mapsto> h1_key_authorization h)\<rparr>))))"

section \<open>Checking a challenge before it is submitted\<close>

record PreValidateChallengeResponse =
  pv_ready :: bool
  pv_challenge_type :: string
  pv_checked :: string
  pv_expected :: string
  pv_found :: "string option"
  pv_error :: "string option"
  pv_details :: "string option"

text \<open>The HTTP client: it may not be built, the request may fail, and a body may not be read.\<close>

datatype fetch =
  NoClient string
| FetchFailed string bool bool
| BadStatus string
| BodyFailed string
| Fetched string

definition check_mark :: string where
  "check_mark = [CHR 0xE2, CHR 0x9C, CHR 0x85, CHR '' '']"

definition apostrophe :: string where
  "apostrophe = [CHR 0x27]"

definition unwrap_str :: "string option \<Rightarrow> string" where
  "unwrap_str o1 = (case o1 of Some s \<Rightarrow> s | None \<Rightarrow> [])"

definition newline :: string where
  "newline = [LF]"

definition pre_validate_http01_challenge ::
  "(string \<Rightarrow> fetch) \<Rightarrow> string \<Rightarrow> challenge_row \<Rightarrow> PreValidateChallengeResponse" where
  "pre_validate_http01_challenge get dn c =
     (let expected = unwrap_str (c_value c);
          url = ''http://'' @ dn @ ''/.well-known/acme-challenge/'' @ unwrap_str (c_name c);
          failed = (\<lambda>err details. \<lparr>pv_ready = False, pv_challenge_type = ''http-01'', pv_checked = url,
                      pv_expected = expected, pv_found = None, pv_error = Some err, pv_details = details\<rparr>)
      in case get url of
           NoClient e \<Rightarrow> failed (''Failed to create HTTP client: '' @ e) None
         | FetchFailed e is_connect is_timeout \<Rightarrow>
             failed (''HTTP request failed: '' @ e)
               (Some (if is_connect then
                        ''Connection failed. Make sure:'' @ newline @ ''1. Domain '' @ dn @ '' has DNS pointing to this server''
                        @ newline @ ''2. Port 80 is open and accessible'' @ newline @ ''3. No firewall blocking HTTP traffic''
                      else if is_timeout then
                        ''Request timed out. Make sure:'' @ newline @ ''1. The server is responding on port 80''
                        @ newline @ ''2. Network latency is not too high'' @ newline @ ''3. Domain '' @ dn @ '' resolves correctly''
                      else ''HTTP request failed: '' @ e))
         | BadStatus st \<Rightarrow>
             failed (''HTTP request returned status: '' @ st)
               (Some (''Let'' @ apostrophe @ ''s Encrypt expects HTTP 200. Make sure your domain '' @ dn
                  @ '' points to this server and port 80 is accessible.''))
         | BodyFailed e \<Rightarrow> failed (''Failed to read response body: '' @ e) None
         | Fetched body \<Rightarrow>
             (let found = trim body; ok = (found = expected)
              in \<lparr>pv_ready = ok, pv_challenge_type = ''http-01'', pv_checked = url, pv_expected = expected,
                  pv_found = Some found,
                  pv_error = (if ok then None else Some ''Response does not match expected key authorization''),
                  pv_details = Some (if ok then
                      check_mark @ ''HTTP-01 challenge is properly configured. You can now submit the challenge to Let''
                      @ apostrophe @ ''s Encrypt.''
                    else ''The server returned a response, but it doesn'' @ apostrophe
                      @ ''t match the expected key authorization. Make sure the challenge token is being served correctly.'')\<rparr>))"

text \<open>The DNS resolver: it may not be built; a lookup fails or gives records of byte strings.\<close>

datatype txt_lookup = NoResolver string | LookupFailed string | Records "bytes list list"

fun join_str :: "string \<Rightarrow> string list \<Rightarrow> string" where
  "join_str sep [] = []"
| "join_str sep [x] = x"
| "join_str sep (x # xs) = x @ sep @ join_str sep xs"

definition pre_validate_dns01_challenge ::
  "(string \<Rightarrow> txt_lookup) \<Rightarrow> string \<Rightarrow> challenge_row \<Rightarrow> PreValidateChallengeResponse" where
  "pre_validate_dns01_challenge look dn c =
     (let rec_name = (case c_name c of Some n \<Rightarrow> n | None \<Rightarrow> ''_acme-challenge.'' @ dn);
          expected = unwrap_str (c_value c);
          answer = (\<lambda>ok found err details. \<lparr>pv_ready = ok, pv_challenge_type = ''dns-01'',
                      pv_checked = ''TXT '' @ rec_name, pv_expected = expected, pv_found = found,
                      pv_error = err, pv_details = details\<rparr>)
      in case look rec_name of
           NoResolver e \<Rightarrow> answer False None (Some (''Failed to create DNS resolver: '' @ e)) None
         | LookupFailed e \<Rightarrow>
             answer False None (Some (''DNS lookup failed: '' @ e))
               (Some (if contains_sub e ''no records found'' \<or> contains_sub e ''NXDOMAIN'' \<or> contains_sub e ''NoRecordsFound''
                      then ''No TXT record found for '' @ rec_name @ ''. Please add the following TXT record to your DNS:''
                        @ newline @ newline @ ''Name: '' @ rec_name @ newline @ ''Type: TXT'' @ newline @ ''Value: '' @ expected
                        @ newline @ newline @ ''Note: DNS propagation can take minutes to hours.''
                      else ''DNS lookup failed. This could be due to:'' @ newline @ ''1. DNS propagation not complete''
                        @ newline @ ''2. Network issues'' @ newline @ ''3. Invalid domain name'' @ newline @ newline
                        @ ''Try again in a few minutes.''))
         | Records rs \<Rightarrow>
             (let txts = map (\<lambda>r. concat (map from_utf8_lossy r)) rs; found = join_str '', '' txts;
                  ok = list_ex (\<lambda>r. r = expected) txts
              in answer ok (Some found)
                   (if ok then None
                    else if txts = [] then Some ''No TXT records found''
                    else Some ''TXT record value does not match expected value'')
                   (Some (if ok then
                        check_mark @ ''DNS-01 challenge is properly configured. You can now submit the challenge to Let''
                        @ apostrophe @ ''s Encrypt.''
                      else if txts = [] then
                        ''No TXT records found for '' @ rec_name @ ''. Add the TXT record and wait for DNS propagation (can take minutes to hours).''
                      else ''Found TXT record(s) but value doesn'' @ apostrophe @ ''t match. Found: ['' @ found @ '']. Expected: '' @ expected))))"

definition pre_validate_challenge ::
  "(string \<Rightarrow> fetch) \<Rightarrow> (string \<Rightarrow> txt_lookup) \<Rightarrow> (nat \<Rightarrow> string option) \<Rightarrow> string \<Rightarrow> string \<Rightarrow> domain_state
    \<Rightarrow> PreValidateChallengeResponse answer" where
  "pre_validate_challenge get look dbf dn challenge_id s =
     (case dbf 0 of
        Some e \<Rightarrow> db_error ''Database error'' ''DB_ERROR'' e
      | None \<Rightarrow>
          (case find_challenge challenge_id s of
             None \<Rightarrow> http_error 404 (''Challenge not found: '' @ challenge_id) ''CHALLENGE_NOT_FOUND''
           | Some c \<Rightarrow>
               if c_domain c \<noteq> dn then
                 http_error 400 ''Challenge does not belong to the specified domain'' ''DOMAIN_MISMATCH''
               else Ok (case c_type c of
                          Http01 \<Rightarrow> pre_validate_http01_challenge get dn c
                        | Dns01 \<Rightarrow> pre_validate_dns01_challenge look dn c)))"

section \<open>Certificate details\<close>

text \<open>A parsed certificate; reading PEM and DER, SHA-256 and the range of dates are parameters.\<close>

datatype general_name = DNSName string | OtherName

record x509_cert =
  xc_subject :: string
  xc_issuer :: string
  xc_serial :: bytes
  xc_not_before :: int
  xc_not_after :: int
  xc_san :: "general_name list option"
  xc_signature_algorithm :: string
  xc_key_algorithm :: string

record x509_lib =
  xl_pem :: "string \<Rightarrow> bytes option"
  xl_der :: "bytes \<Rightarrow> x509_cert option"
  xl_sha256 :: "bytes \<Rightarrow> bytes"
  xl_from_timestamp :: "int \<Rightarrow> int option"

record CertificateDetails =
  de_domain :: string
  de_subject :: string
  de_issuer :: string
  de_serial_number :: string
  de_not_before :: int
  de_not_after :: int
  de_san :: "string list"
  de_signature_algorithm :: string
  de_public_key_algorithm :: string
  de_fingerprint_sha256 :: string
  de_pem :: string

definition upper_hex_digit :: "nat \<Rightarrow> char" where
  "upper_hex_digit n = ''0123456789ABCDEF'' ! n"

text \<open>\<open>{:02X}\<close> of each byte, joined by colons.\<close>

definition colon_hex :: "bytes \<Rightarrow> string" where
  "colon_hex bs = join_str '':'' (map (\<lambda>b. [upper_hex_digit (unat b div 16), upper_hex_digit (unat b mod 16)]) bs)"

fun dns_names :: "general_name list \<Rightarrow> string list" where
  "dns_names [] = []"
| "dns_names (DNSName d # ns) = d # dns_names ns"
| "dns_names (OtherName # ns) = dns_names ns"

definition certificate_details :: "x509_lib \<Rightarrow> string \<Rightarrow> string \<Rightarrow> bytes \<Rightarrow> x509_cert \<Rightarrow> CertificateDetails" where
  "certificate_details X dn pem_text der c =
     (let date = (\<lambda>t. case xl_from_timestamp X t of Some d \<Rightarrow> d | None \<Rightarrow> 0)
      in \<lparr>de_domain = dn, de_subject = xc_subject c, de_issuer = xc_issuer c, de_serial_number = colon_hex (xc_serial c),
          de_not_before = date (xc_not_before c), de_not_after = date (xc_not_after c),
          de_san = (case xc_san c of Some ns \<Rightarrow> dns_names ns | None \<Rightarrow> []),
          de_signature_algorithm = xc_signature_algorithm c, de_public_key_algorithm = xc_key_algorithm c,
          de_fingerprint_sha256 = colon_hex (xl_sha256 X der), de_pem = pem_text\<rparr>)"

definition get_certificate_details ::
  "x509_lib \<Rightarrow> (string \<Rightarrow> string option) \<Rightarrow> (nat \<Rightarrow> string option) \<Rightarrow> string \<Rightarrow> domain_state \<Rightarrow> CertificateDetails answer" where
  "get_certificate_details X io dbf dn s =
     (case dbf 0 of
        Some e \<Rightarrow> db_error ''Database error'' ''DB_QUERY_FAILED'' e
      | None \<Rightarrow>
          (case find_domain_row dn s of
             None \<Rightarrow> http_error 404 (''Domain not found: '' @ dn) ''DOMAIN_NOT_FOUND''
           | Some d \<Rightarrow>
               (case d_cert_path d of
                  None \<Rightarrow> http_error 404 ''Certificate not found for this domain'' ''CERT_NOT_FOUND''
                | Some path \<Rightarrow>
                    (case read_file io path (st_files s) of
                       Err e \<Rightarrow> http_error 500 (''Failed to read certificate: '' @ e) ''CERT_READ_FAILED''
                     | Ok txt \<Rightarrow>
                         (case xl_pem X txt of
                            None \<Rightarrow> http_error 500 ''Failed to parse certificate PEM'' ''CERT_PARSE_FAILED''
                          | Some der \<Rightarrow>
                              (case xl_der X der of
                                 None \<Rightarrow> http_error 500 ''Failed to parse X.509 certificate'' ''CERT_PARSE_FAILED''
                               | Some c \<Rightarrow> Ok (certificate_details X dn txt der c)))))))"

section \<open>Properties\<close>

text \<open>The table of domains as the tunnel handler queries it.\<close>

definition domain_db :: "domain_state \<Rightarrow> database" where
  "domain_db s =
     \<lparr>find_domain = (\<lambda>dn. Ok (map_option d_status (find_domain_row dn s))),
      find_wildcard_domain = (\<lambda>p. Ok (map_option d_status
         (List.find (\<lambda>d. d_domain d = p \<and> d_is_wildcard d) (st_domains s)))),
      find_token = (\<lambda>_. Ok None)\<rparr>"

definition may_use_domain :: "domain_state \<Rightarrow> string \<Rightarrow> (string, bool) result" where
  "may_use_domain s dn = is_custom_domain_registered (Some (domain_db s)) dn"

lemma may_use_domain_row: "find_domain_row dn s = Some d \<Longrightarrow> may_use_domain s dn = Ok (d_status d = DomainActive)"
  by (simp add: may_use_domain_def is_custom_domain_registered_def domain_db_def)

lemma find_domain_row_upsert:
  assumes "\<And>old. d_domain old = d_domain d \<Longrightarrow> d_domain (upd d old) = d_domain d"
  shows "find_domain_row (d_domain d) (upsert_domain upd d s) =
     Some (case find_domain_row (d_domain d) s of None \<Rightarrow> d | Some old \<Rightarrow> upd d old)"
proof -
  let ?f = "\<lambda>d'. if d_domain d' = d_domain d then upd d d' else d'"
  have "List.find (\<lambda>d'. d_domain d' = d_domain d) (map ?f xs) =
      map_option (upd d) (List.find (\<lambda>d'. d_domain d' = d_domain d) xs)" for xs
    using assms by (induction xs) auto
  moreover have "List.find (\<lambda>d'. d_domain d' = d_domain d) (xs @ [d]) =
      (case List.find (\<lambda>d'. d_domain d' = d_domain d) xs of None \<Rightarrow> Some d | Some d' \<Rightarrow> Some d')" for xs
    by (induction xs) auto
  ultimately show ?thesis by (auto simp: upsert_domain_def find_domain_row_def split: option.split)
qed

lemma find_append_fresh: "List.find P xs = None \<Longrightarrow> P x \<Longrightarrow> List.find P (xs @ [x]) = Some x"
  by (induction xs) (auto split: if_splits)

lemma find_domain_row_domain: "find_domain_row dn s = Some d \<Longrightarrow> d_domain d = dn"
  by (auto simp: find_domain_row_def find_Some_iff)

lemma find_domain_row_cong: "st_domains s = st_domains s' \<Longrightarrow> find_domain_row dn s = find_domain_row dn s'"
  by (simp add: find_domain_row_def)

text \<open>A challenge that has been started: the order, the rows and the token it left.\<close>

lemma initiate_challenge_Ok:
  assumes "initiate_challenge ca dbf now oid nid dn ctype s = (Ok r, s')"
  defines "ct \<equiv> (if ctype = ''dns-01'' then Dns01 else Http01)"
  obtains client url cs info nm vl where
    "st_acme s = Some client" and "ac_account client" and "ir_challenge_id r = oid"
    and "st_acme s' = Some (client\<lparr>ac_pending_orders := (ac_pending_orders client)
           (oid \<mapsto> \<lparr>so_order_url = url, so_domain = dn, so_challenge_type = ct\<rparr>)\<rparr>)"
    and "cs_order_id cs = oid" and "challenge_parts dn ct cs = Ok (info, nm, vl)"
    and "st_http01 s' = st_http01 (store_challenge cs s)" and "st_files s' = st_files s"
    and "st_domains s' = st_domains (upsert_domain update_pending (pending_row now nid dn (cs_expires_at cs)) s)"
    and "st_challenges s' = st_challenges s @ [challenge_row_of now dn ct cs nm vl]"
    and "find_challenge oid s = None"
proof -
  from assms obtain client where cl: "st_acme s = Some client"
    by (auto simp: initiate_challenge_def acme_not_configured_def http_error_def split: option.splits)
  from assms cl obtain cs client' where io: "initiate_order ca now oid dn ct client = (Ok cs, client')"
    by (auto simp: initiate_challenge_def http_error_def Let_def split: prod.splits sum.splits)
  from initiate_order_Ok [OF io] obtain url where
    o: "cs_order_id cs = oid" "ac_account client" "client' = client\<lparr>ac_pending_orders := (ac_pending_orders client)
        (oid \<mapsto> \<lparr>so_order_url = url, so_domain = dn, so_challenge_type = ct\<rparr>)\<rparr>" by auto
  define s1 where "s1 = store_challenge cs (s\<lparr>st_acme := Some client'\<rparr>)"
  from assms cl io obtain parts where parts: "challenge_parts dn ct cs = Ok parts"
    and per: "persist_challenge dbf now nid dn ct cs parts s1 = (Ok r, s')"
    by (auto simp: initiate_challenge_def s1_def Let_def split: sum.splits)
  obtain info nm vl where p: "parts = (info, nm, vl)" by (metis prod_cases3)
  define s2 where "s2 = upsert_domain update_pending (pending_row now nid dn (cs_expires_at cs)) s1"
  from per p have ins: "insert_challenge (challenge_row_of now dn ct cs nm vl) s2 = Some s'"
    and rid: "ir_challenge_id r = oid"
    by (auto simp: persist_challenge_def db_error_def http_error_def s2_def o Let_def
        split: option.splits sum.splits)
  have s2: "st_acme s2 = Some client'" "st_http01 s2 = st_http01 (store_challenge cs s)" "st_files s2 = st_files s"
    "st_challenges s2 = st_challenges s"
    "st_domains s2 = st_domains (upsert_domain update_pending (pending_row now nid dn (cs_expires_at cs)) s)"
    by (auto simp: s2_def s1_def upsert_domain_def store_challenge_def find_domain_row_def split: option.split)
  have fresh: "find_challenge oid s = None" and s': "s' = s2\<lparr>st_challenges := st_challenges s @ [challenge_row_of now dn ct cs nm vl]\<rparr>"
    using ins s2(4) o(1) by (auto simp: insert_challenge_def challenge_row_of_def find_challenge_def split: if_splits)
  have "st_acme s' = Some client'" "st_http01 s' = st_http01 s2" "st_files s' = st_files s2"
    "st_domains s' = st_domains s2" "st_challenges s' = st_challenges s @ [challenge_row_of now dn ct cs nm vl]"
    using s2(1) unfolding s' by simp_all
  note f = this [unfolded s2 o(3)]
  show ?thesis by (rule that [OF cl o(2) rid f(1) o(1) parts [unfolded p] f(2,3,4,5) fresh])
qed

text \<open>
  Starting a challenge takes the domain out of use, also one that was active: the tunnel
  handler refuses it until the challenge is completed.
\<close>

lemma initiate_suspends_domain:
  assumes "initiate_challenge ca dbf now oid nid dn ctype s = (Ok r, s')"
  shows "may_use_domain s' dn = Ok False"
proof -
  obtain cs :: ChallengeState where st: "st_domains s' = st_domains (upsert_domain update_pending (pending_row now nid dn (cs_expires_at cs)) s)"
    by (rule initiate_challenge_Ok [OF assms]) (erule that)
  let ?d = "pending_row now nid dn (cs_expires_at cs)"
  have "find_domain_row dn s' = Some (case find_domain_row dn s of None \<Rightarrow> ?d | Some old \<Rightarrow> update_pending ?d old)"
    using find_domain_row_upsert [of ?d update_pending s] find_domain_row_cong [OF st]
    by (simp add: pending_row_def update_pending_def)
  from may_use_domain_row [OF this] show ?thesis
    by (simp add: pending_row_def update_pending_def split: option.split)
qed

lemma finish_challenge_simps:
  "st_domains (finish_challenge dbf i dn s) = st_domains s"
  "st_challenges (finish_challenge (\<lambda>_. None) i dn s) =
     map (\<lambda>c. if c_id c = i then c\<lparr>c_status := ChCompleted\<rparr> else c) (st_challenges s)"
  "st_acme (finish_challenge dbf i dn s) = st_acme s"
  "st_files (finish_challenge dbf i dn s) = st_files s"
  by (simp_all add: finish_challenge_def)

lemma c_id_if_update: "c_id (if b then c\<lparr>c_status := v\<rparr> else c) = c_id c"
  by simp

lemma finish_challenge_completes:
  "\<forall>c \<in> set (st_challenges (finish_challenge (\<lambda>_. None) i dn s)). c_id c = i \<longrightarrow> c_status c = ChCompleted"
  unfolding finish_challenge_simps set_map ball_simps c_id_if_update by simp

text \<open>What completing needs: the order of the challenge, and the certificate files of the domain.\<close>

lemma complete_challenge_run:
  assumes "st_acme s = Some client" and "ac_account client" and "ac_pending_orders client oid = Some so"
    and "obtain_certificate ca so = Ok (chain, key)"
    and "pem_certs P chain = Ok certs" and "pem_key P key = Ok (Some k)"
    and "fs = (st_files s)(cert_file client (so_domain so) \<mapsto> chain, key_file client (so_domain so) \<mapsto> key)"
    and "fs (cert_file client dn) = Some cert" and "fs (key_file client dn) = Some ky"
  shows "\<exists>m s'. complete_challenge ca P (\<lambda>_. None) (\<lambda>_. None) now dn oid s = (Ok m, s') \<and>
     may_use_domain s' dn = Ok True \<and>
     (\<exists>d. find_domain_row dn s' = Some d \<and> d_cert_pem d = Some cert \<and> d_key_pem d = Some ky \<and> d_status d = DomainActive) \<and>
     (\<forall>c \<in> set (st_challenges s'). c_id c = oid \<longrightarrow> c_status c = ChCompleted)"
proof -
  let ?c' = "client\<lparr>ac_pending_orders := (ac_pending_orders client)(oid := None)\<rparr>"
  have files: "cert_file ?c' x = cert_file client x" "key_file ?c' x = key_file client x" for x
    by (simp_all add: cert_file_def key_file_def)
  have fs: "fs (cert_file client (so_domain so)) = Some chain" "fs (key_file client (so_domain so)) = Some key"
    using assms(7) by (simp_all add: cert_file_not_key_file)
  have load: "load_certificate_from_files P (\<lambda>_. None) (cert_file client (so_domain so)) (key_file client (so_domain so)) fs
      = Ok (certs, k)"
    using assms(5,6) fs by (simp add: load_certificate_from_files_def read_file_def)
  have co: "complete_order ca P (\<lambda>_. None) oid client (st_files s) = (Ok (certs, k), ?c', fs)"
    using assms(2,3,4) load by (simp add: complete_order_def write_file_def assms(7) Let_def)
  let ?d = "completed_row now dn (cert_file client dn) (key_file client dn) cert ky"
  let ?s1 = "s\<lparr>st_acme := Some ?c', st_files := fs\<rparr>"
  let ?s' = "finish_challenge (\<lambda>_. None) oid dn (upsert_domain update_completed ?d ?s1)"
  have run: "complete_challenge ca P (\<lambda>_. None) (\<lambda>_. None) now dn oid s =
      (Ok \<lparr>dm_domain = dn, dm_status = DomainActive,
           dm_message = ''Let'' @ [CHR 0x27] @ ''s Encrypt certificate issued successfully''\<rparr>, ?s')"
    using assms(1,8,9) by (simp add: complete_challenge_def co files read_file_def Let_def)
  have row: "find_domain_row dn ?s' = Some (case find_domain_row dn ?s1 of None \<Rightarrow> ?d | Some old \<Rightarrow> update_completed ?d old)"
    using find_domain_row_upsert [of ?d update_completed ?s1]
    by (simp add: finish_challenge_def completed_row_def update_completed_def find_domain_row_def)
  have st: "d_status (case find_domain_row dn ?s1 of None \<Rightarrow> ?d | Some old \<Rightarrow> update_completed ?d old) = DomainActive"
    "d_cert_pem (case find_domain_row dn ?s1 of None \<Rightarrow> ?d | Some old \<Rightarrow> update_completed ?d old) = Some cert"
    "d_key_pem (case find_domain_row dn ?s1 of None \<Rightarrow> ?d | Some old \<Rightarrow> update_completed ?d old) = Some ky"
    by (simp_all add: completed_row_def update_completed_def split: option.split)
  have chal: "\<forall>c \<in> set (st_challenges ?s'). c_id c = oid \<longrightarrow> c_status c = ChCompleted"
    by (rule finish_challenge_completes)
  have use: "may_use_domain ?s' dn = Ok True" using may_use_domain_row [OF row] st(1) by simp
  show ?thesis
    by (rule exI, rule exI, rule conjI [OF run conjI [OF use conjI [OF _ chal]]])
       (rule exI, rule conjI [OF row conjI [OF st(2) conjI [OF st(3) st(1)]]])
qed

text \<open>
  C10 From the start of a challenge to a certificate: a challenge started for a domain keeps the
  domain out of use; when the authority then issues the certificate, completing the challenge
  succeeds, the domain has the issued certificate and key and the tunnel handler accepts it, and
  the challenge is marked completed.
\<close>

theorem certificate_cycle:
  assumes "initiate_challenge ca dbf now oid nid dn ctype s = (Ok r, s1)"
    and "st_acme s1 = Some client" and "ac_pending_orders client (ir_challenge_id r) = Some so"
    and "obtain_certificate ca' so = Ok (chain, key)"
    and "pem_certs P chain = Ok certs" and "pem_key P key = Ok (Some k)"
  shows "may_use_domain s1 dn = Ok False \<and>
    (\<exists>m s2. complete_challenge ca' P (\<lambda>_. None) (\<lambda>_. None) now' dn (ir_challenge_id r) s1 = (Ok m, s2) \<and>
       may_use_domain s2 dn = Ok True \<and>
       (\<exists>d. find_domain_row dn s2 = Some d \<and> d_cert_pem d = Some chain \<and> d_key_pem d = Some key \<and> d_status d = DomainActive) \<and>
       (\<forall>c \<in> set (st_challenges s2). c_id c = ir_challenge_id r \<longrightarrow> c_status c = ChCompleted))"
proof (rule conjI)
  show "may_use_domain s1 dn = Ok False" by (rule initiate_suspends_domain [OF assms(1)])
  obtain client0 url where rid: "ir_challenge_id r = oid" and acc: "ac_account client0"
    and "st_acme s1 = Some (client0\<lparr>ac_pending_orders := (ac_pending_orders client0)(oid \<mapsto>
           \<lparr>so_order_url = url, so_domain = dn, so_challenge_type = (if ctype = ''dns-01'' then Dns01 else Http01)\<rparr>)\<rparr>)"
    by (rule initiate_challenge_Ok [OF assms(1)]) (erule that)
  with assms(2,3) have acc: "ac_account client" and dn: "so_domain so = dn" by auto
  let ?fs = "(st_files s1)(cert_file client (so_domain so) \<mapsto> chain, key_file client (so_domain so) \<mapsto> key)"
  have "?fs (cert_file client dn) = Some chain" "?fs (key_file client dn) = Some key"
    using dn by (simp_all add: cert_file_not_key_file)
  from complete_challenge_run [OF assms(2) acc assms(3,4,5,6) refl this]
  show "\<exists>m s2. complete_challenge ca' P (\<lambda>_. None) (\<lambda>_. None) now' dn (ir_challenge_id r) s1 = (Ok m, s2) \<and>
       may_use_domain s2 dn = Ok True \<and>
       (\<exists>d. find_domain_row dn s2 = Some d \<and> d_cert_pem d = Some chain \<and> d_key_pem d = Some key \<and> d_status d = DomainActive) \<and>
       (\<forall>c \<in> set (st_challenges s2). c_id c = ir_challenge_id r \<longrightarrow> c_status c = ChCompleted)" .
qed

definition ex_authority :: authority where
  "ex_authority =
     \<lparr>au_new_order = (\<lambda>_. Ok (''u'', Some (Ok \<lparr>az_status = AuthPending, az_challenge = (\<lambda>_. Some (''tok'', ''tok.k'', ''v''))\<rparr>))),
      au_restore = (\<lambda>_. Ok None), au_set_ready = (\<lambda>_. Ok ()), au_poll_ready = (\<lambda>_. Ok OrderReady),
      au_finalize = (\<lambda>_. Ok ''K''), au_certificate = (\<lambda>_. Ok ''C'')\<rparr>"

definition ex_pem :: pem where
  "ex_pem = \<lparr>pem_certs = (\<lambda>c. Ok [c]), pem_key = (\<lambda>k. Ok (Some k))\<rparr>"

definition ex_domains :: domain_state where
  "ex_domains = \<lparr>st_domains = [], st_challenges = [], st_http01 = Map.empty, st_files = Map.empty,
     st_acme = Some ((AcmeClient_new ''d'')\<lparr>ac_account := True\<rparr>)\<rparr>"

definition ex_started :: domain_state where
  "ex_started = snd (initiate_challenge ex_authority (\<lambda>_. None) 0 ''o1'' ''n1'' ''a.io'' ''http-01'' ex_domains)"

lemma ex_initiate:
  "initiate_challenge ex_authority (\<lambda>_. None) 0 ''o1'' ''n1'' ''a.io'' ''http-01'' ex_domains =
     (Ok \<lparr>ir_domain = ''a.io'', ir_challenge = http01_info ''a.io'' \<lparr>h1_token = ''tok'', h1_key_authorization = ''tok.k'',
        h1_domain = ''a.io'', h1_url_path = ''/.well-known/acme-challenge/tok''\<rparr>, ir_challenge_id = ''o1'',
        ir_expires_at = HOUR\<rparr>, ex_started)"
proof -
  have "fst (initiate_challenge ex_authority (\<lambda>_. None) 0 ''o1'' ''n1'' ''a.io'' ''http-01'' ex_domains) =
     Ok \<lparr>ir_domain = ''a.io'', ir_challenge = http01_info ''a.io'' \<lparr>h1_token = ''tok'', h1_key_authorization = ''tok.k'',
        h1_domain = ''a.io'', h1_url_path = ''/.well-known/acme-challenge/tok''\<rparr>, ir_challenge_id = ''o1'',
        ir_expires_at = HOUR\<rparr>"
    by code_simp
  then show ?thesis by (simp add: ex_started_def prod_eq_iff)
qed

definition ex_client :: "string \<Rightarrow> AcmeClient" where
  "ex_client url = (AcmeClient_new ''d'')\<lparr>ac_account := True,
     ac_pending_orders := [''o1'' \<mapsto> \<lparr>so_order_url = url, so_domain = ''a.io'', so_challenge_type = Http01\<rparr>]\<rparr>"

lemma ex_started_client: "\<exists>url. st_acme ex_started = Some (ex_client url)"
  by (rule initiate_challenge_Ok [OF ex_initiate])
     (auto simp: ex_domains_def ex_client_def AcmeClient_new_def)

theorem certificate_cycle_witness:
  "may_use_domain ex_started ''a.io'' = Ok False \<and>
    (\<exists>m s2. complete_challenge ex_authority ex_pem (\<lambda>_. None) (\<lambda>_. None) 5 ''a.io'' ''o1'' ex_started = (Ok m, s2) \<and>
       may_use_domain s2 ''a.io'' = Ok True \<and>
       (\<exists>d. find_domain_row ''a.io'' s2 = Some d \<and> d_cert_pem d = Some ''C'' \<and> d_key_pem d = Some ''K'' \<and> d_status d = DomainActive) \<and>
       (\<forall>c \<in> set (st_challenges s2). c_id c = ''o1'' \<longrightarrow> c_status c = ChCompleted))"
proof -
  obtain url where cl: "st_acme ex_started = Some (ex_client url)" using ex_started_client by blast
  show ?thesis
    using certificate_cycle [OF ex_initiate cl, of
        "\<lparr>so_order_url = url, so_domain = ''a.io'', so_challenge_type = Http01\<rparr>" ex_authority "''C''" "''K''" ex_pem "[''C'']" "''K''" 5]
    by (simp add: ex_client_def obtain_certificate_def ex_authority_def announce_ready_def ex_pem_def)
qed

text \<open>
  The name given when completing is not compared with the name of the order. With the files of an
  earlier certificate, another domain is put back into use: here one that was suspended.
\<close>

lemma complete_ignores_order_domain:
  assumes "st_acme s = Some client" and "ac_account client" and "ac_pending_orders client oid = Some so"
    and "obtain_certificate ca so = Ok (chain, key)" and "pem_certs P chain = Ok certs" and "pem_key P key = Ok (Some k)"
    and "other \<noteq> so_domain so"
    and "st_files s (cert_file client other) = Some old_cert" and "st_files s (key_file client other) = Some old_key"
  shows "\<exists>m s'. complete_challenge ca P (\<lambda>_. None) (\<lambda>_. None) now other oid s = (Ok m, s') \<and>
     may_use_domain s' other = Ok True \<and>
     (\<exists>d. find_domain_row other s' = Some d \<and> d_cert_pem d = Some old_cert)"
proof -
  let ?fs = "(st_files s)(cert_file client (so_domain so) \<mapsto> chain, key_file client (so_domain so) \<mapsto> key)"
  have "?fs (cert_file client other) = Some old_cert" "?fs (key_file client other) = Some old_key"
    using assms(7,8,9) by (simp_all add: cert_file_not_key_file cert_file_not_key_file [symmetric])
  from complete_challenge_run [OF assms(1-6) refl this] show ?thesis by blast
qed

text \<open>
  While a challenge is open its token is served with the key authorization, and the check before
  submission, fetching the challenge's own URL from this server, finds it ready.
\<close>

lemma initiated_challenge_ready:
  assumes "initiate_challenge ca dbf now oid nid dn ctype s = (Ok r, s')" and "ctype \<noteq> ''dns-01''"
    and "trim v = v"
    and "get (''http://'' @ dn @ ''/.well-known/acme-challenge/'' @ tok) =
         (case serve_acme_challenge tok s' of Ok body \<Rightarrow> Fetched body | Err _ \<Rightarrow> BadStatus ''404 Not Found'')"
    and "find_challenge (ir_challenge_id r) s' = Some c" and "c_name c = Some tok" and "c_value c = Some v"
  shows "\<exists>p. pre_validate_challenge get look (\<lambda>_. None) dn (ir_challenge_id r) s' = Ok p \<and> pv_ready p"
proof -
  have ct: "(if ctype = ''dns-01'' then Dns01 else Http01) = Http01" using assms(2) by simp
  obtain cs :: ChallengeState and info nm vl where rid: "ir_challenge_id r = oid"
    and parts: "challenge_parts dn Http01 cs = Ok (info, nm, vl)"
    and h: "st_http01 s' = st_http01 (store_challenge cs s)"
    and ch: "st_challenges s' = st_challenges s @ [challenge_row_of now dn Http01 cs nm vl]"
    and fresh: "find_challenge oid s = None" and oid: "cs_order_id cs = oid"
    by (rule initiate_challenge_Ok [OF assms(1), unfolded ct]) (rule that)
  have "find_challenge oid s' = Some (challenge_row_of now dn Http01 cs nm vl)"
    using fresh oid by (simp add: find_challenge_def ch find_append_fresh challenge_row_of_def)
  with assms(5) rid have c: "c = challenge_row_of now dn Http01 cs nm vl" by simp
  from parts obtain hh where hh: "cs_http01 cs = Some hh" "nm = h1_token hh" "vl = h1_key_authorization hh"
    by (auto simp: challenge_parts_def missing_data_def http_error_def split: option.splits)
  have "serve_acme_challenge tok s' = Ok v"
    using assms(6,7) hh by (simp add: serve_acme_challenge_def h store_challenge_def c challenge_row_of_def)
  then show ?thesis
    using assms(3-7) by (simp add: pre_validate_challenge_def pre_validate_http01_challenge_def c challenge_row_of_def
        unwrap_str_def Let_def)
qed

text \<open>
  Cancelling the challenges of a domain leaves it none that is pending; the challenges of other
  domains are as before.
\<close>

lemma find_map_other:
  "dn' \<noteq> dn \<Longrightarrow> (\<And>d. d_domain (f d) = d_domain d) \<Longrightarrow>
     List.find (\<lambda>d. d_domain d = dn') (map (\<lambda>d. if d_domain d = dn then f d else d) ds) =
     List.find (\<lambda>d. d_domain d = dn') ds"
  by (induction ds) auto

lemma cancel_challenge_Ok:
  assumes "cancel_challenge dbf dn s = (Ok r, s')"
  shows "filter (pending_of dn) (st_challenges s') = []"
    and "filter (\<lambda>c. c_domain c \<noteq> dn) (st_challenges s') = filter (\<lambda>c. c_domain c \<noteq> dn) (st_challenges s)"
    and "dn' \<noteq> dn \<Longrightarrow> find_domain_row dn' s' = find_domain_row dn' s"
proof -
  define ds where "ds = map (\<lambda>d. if d_domain d = dn
      then d\<lparr>d_status := DomainFailed, d_error := Some ''Challenge cancelled by user''\<rparr> else d) (st_domains s)"
  have ch: "st_challenges s' = filter (\<lambda>c. \<not> pending_of dn c) (st_challenges s)"
    and dm: "st_domains s' = st_domains s \<or> st_domains s' = ds"
    using assms by (auto simp: cancel_challenge_def db_error_def http_error_def drop_pending_def ds_def Let_def
        split: option.splits if_splits)
  show "filter (pending_of dn) (st_challenges s') = []" by (simp add: ch)
  show "filter (\<lambda>c. c_domain c \<noteq> dn) (st_challenges s') = filter (\<lambda>c. c_domain c \<noteq> dn) (st_challenges s)"
    unfolding ch filter_filter by (rule filter_cong) (auto simp: pending_of_def)
  show "find_domain_row dn' s' = find_domain_row dn' s" if "dn' \<noteq> dn"
    using dm that by (auto simp: find_domain_row_def ds_def find_map_other)
qed

text \<open>
  Uploading a certificate for a domain that is already there answers an error, after the files the
  active row points to have been replaced.
\<close>

lemma upload_existing_overwrites:
  assumes "base64 (up_cert_pem req) = Ok cert" and "base64 (up_key_pem req) = Ok key"
    and "find_domain_row (up_domain req) s \<noteq> None"
    and "pem_certs P (map char_of_byte cert) = Ok chain" and "pem_key P (map char_of_byte key) = Ok (Some k)"
  shows "\<exists>e s'. upload_custom_domain base64 P (\<lambda>_. None) None (\<lambda>_. None) now nid req s = (Err e, s') \<and>
     st_domains s' = st_domains s \<and>
     st_files s' (path_join ''./.certs'' (up_domain req @ ''.crt'')) = Some (map char_of_byte cert)"
proof -
  let ?cp = "path_join ''./.certs'' (up_domain req @ ''.crt'')" and ?kp = "path_join ''./.certs'' (up_domain req @ ''.key'')"
  have ne: "?cp \<noteq> ?kp" by (auto simp: path_join_def starts_with_iff append_eq_append_conv2 Cons_eq_append_conv)
  let ?fs = "(st_files s)(?cp \<mapsto> map char_of_byte cert, ?kp \<mapsto> map char_of_byte key)"
  have "store_uploaded P (\<lambda>_. None) ?cp ?kp cert key s = (Ok (), s\<lparr>st_files := ?fs\<rparr>)"
    using ne assms(4,5) by (simp add: store_uploaded_def write_file_def load_certificate_from_files_def read_file_def)
  moreover have "insert_domain (uploaded_row now nid req ?cp ?kp cert key) (s\<lparr>st_files := ?fs\<rparr>) = None"
    using assms(3) by (simp add: insert_domain_def uploaded_row_def find_domain_row_def)
  ultimately show ?thesis
    using assms(1,2) ne
    by (auto simp: upload_custom_domain_def Let_def save_uploaded_def db_error_def http_error_def)
qed

text \<open>
  A served token is forgotten on completion only when its key authorization contains the name of
  the domain, which the text of the authority (token and thumbprint) does not.
\<close>

lemma token_served_after_completion:
  assumes "complete_challenge ca P io dbf now dn oid s = (Ok m, s')" and "st_http01 s tok = Some v"
    and "\<not> contains_sub v dn"
  shows "serve_acme_challenge tok s' = Ok v"
proof -
  have "st_http01 (upsert_domain u d x) = st_http01 x" for u d x by (simp add: upsert_domain_def)
  then show ?thesis using assms
    by (auto simp: complete_challenge_def acme_not_configured_def db_error_def http_error_def serve_acme_challenge_def
        finish_challenge_def Let_def split: option.splits prod.splits sum.splits)
qed

end
