(* ===== verification/RestTraffic.thy ===== *)
theory RestTraffic
  imports RestAuth "HOL-Library.List_Lexorder" "HOL-Library.Char_ord" "HOL-Library.Multiset"
begin

text \<open>
  Tunnels and captured traffic over the REST API, \<open>crates/localup-api/src/handlers.rs\<close>: the state
  of a tunnel's local service judged from its recent requests, listing, reading and deleting
  tunnels, and the pages of captured requests and TCP connections. A table is a list in the order
  in which the database returns its rows; \<open>newest\<close> is the database's ordering by time, \<open>like\<close> its
  partial match, and \<open>dbf n\<close> the error of the \<open>n\<close>-th query of a handler.
\<close>

section \<open>Tables and answers\<close>

record request_row =
  q_id :: string
  q_localup_id :: string
  q_method :: string
  q_path :: string
  q_host :: "string option"
  q_headers :: string
  q_body :: "string option"
  q_status :: "int option"
  q_response_headers :: "string option"
  q_response_body :: "string option"
  q_created :: int
  q_latency_ms :: "int option"

record tcp_row =
  k_id :: string
  k_localup_id :: string
  k_client_addr :: string
  k_target_port :: int
  k_bytes_received :: int
  k_bytes_sent :: int
  k_connected :: int
  k_disconnected :: "int option"
  k_duration_ms :: "int option"
  k_disconnect_reason :: "string option"

datatype TunnelProtocol = ApiHttp string | ApiHttps string | ApiTcp u16 | ApiTls "string list"

record TunnelEndpoint =
  te_protocol_view :: TunnelProtocol
  te_public_url :: string
  te_port_view :: "u16 option"

datatype TunnelStatus = TunnelConnected | TunnelDisconnected | TunnelConnecting | TunnelError

datatype UpstreamStatus = UpstreamUp | UpstreamDown | UpstreamUnknown

record tunnel_view =
  tv_id :: string
  tv_endpoints :: "TunnelEndpoint list"
  tv_status :: TunnelStatus
  tv_upstream_status :: UpstreamStatus
  tv_region :: string
  tv_connected_at :: int
  tv_local_addr :: "string option"
  tv_recent_upstream_errors :: "nat option"
  tv_recent_request_count :: "nat option"

definition plain_db_error :: "string option \<Rightarrow> string \<Rightarrow> 'a answer" where
  "plain_db_error code e = Err (500, \<lparr>err_text = ''Database error: '' @ e, err_code = code\<rparr>)"

section \<open>Upstream status\<close>

definition recent :: "int \<Rightarrow> string \<Rightarrow> request_row \<Rightarrow> bool" where
  "recent now lid r \<longleftrightarrow> q_localup_id r = lid \<and> q_created r > now - 60 * 1000000000"

definition db_count :: "string option \<Rightarrow> ('a \<Rightarrow> bool) \<Rightarrow> 'a list \<Rightarrow> nat" where
  "db_count failure P rows = (if failure = None then length (filter P rows) else 0)"

definition upstream_decision ::
  "nat \<Rightarrow> nat \<Rightarrow> nat \<Rightarrow> request_row option \<Rightarrow> UpstreamStatus" where
  "upstream_decision recent_502_count total_recent_count pending most_recent =
     (if total_recent_count = 0 then UpstreamUnknown
      else if recent_502_count > 0 then
        (case most_recent of
           None \<Rightarrow> UpstreamUnknown
         | Some req \<Rightarrow>
             (case q_status req of
                None \<Rightarrow> UpstreamDown
              | Some c \<Rightarrow>
                  if c = 502 then UpstreamDown
                  else if recent_502_count * 2 > total_recent_count then UpstreamDown else UpstreamUp))
      else if pending > 0 \<and> pending = total_recent_count then UpstreamDown
      else UpstreamUp)"

definition compute_upstream_status ::
  "(request_row list \<Rightarrow> request_row list) \<Rightarrow> (nat \<Rightarrow> string option) \<Rightarrow> int \<Rightarrow> string \<Rightarrow> request_row list
    \<Rightarrow> UpstreamStatus \<times> nat option \<times> nat option" where
  "compute_upstream_status newest dbf now lid rows =
     (let rs = filter (recent now lid) rows;
          errors = db_count (dbf 0) (\<lambda>r. q_status r = Some 502) rs;
          tot = db_count (dbf 1) (\<lambda>_. True) rs;
          pending = db_count (dbf 2) (\<lambda>r. q_status r = None) rs;
          most_recent = (if dbf 3 = None then (case newest rs of [] \<Rightarrow> None | r # _ \<Rightarrow> Some r) else None)
      in (upstream_decision errors tot pending most_recent,
          if tot > 0 then Some errors else None, if tot > 0 then Some tot else None))"

section \<open>Tunnels\<close>

definition api_protocol :: "Protocol \<Rightarrow> TunnelProtocol" where
  "api_protocol p =
     (case p of
        Http subdomain _ \<Rightarrow> ApiHttp (case subdomain of Some s \<Rightarrow> s | None \<Rightarrow> ''unknown'')
      | Https subdomain _ \<Rightarrow> ApiHttps (case subdomain of Some s \<Rightarrow> s | None \<Rightarrow> ''unknown'')
      | Tcp port \<Rightarrow> ApiTcp port
      | Tls _ sni_patterns \<Rightarrow> ApiTls sni_patterns)"

definition api_endpoint :: "Endpoint \<Rightarrow> TunnelEndpoint" where
  "api_endpoint e =
     \<lparr>te_protocol_view = api_protocol (ep_protocol e), te_public_url = ep_public_url e, te_port_view = ep_port e\<rparr>"

definition active_tunnel ::
  "(request_row list \<Rightarrow> request_row list) \<Rightarrow> (nat \<Rightarrow> string option) \<Rightarrow> int \<Rightarrow> request_row list \<Rightarrow> string \<Rightarrow> Endpoint list
    \<Rightarrow> tunnel_view" where
  "active_tunnel newest dbf now rows lid eps =
     (case compute_upstream_status newest dbf now lid rows of
        (st, errors, tot) \<Rightarrow>
          \<lparr>tv_id = lid, tv_endpoints = map api_endpoint eps, tv_status = TunnelConnected, tv_upstream_status = st,
           tv_region = ''us-east-1'', tv_connected_at = now, tv_local_addr = None,
           tv_recent_upstream_errors = errors, tv_recent_request_count = tot\<rparr>)"

definition inactive_tunnel :: "int \<Rightarrow> TunnelEndpoint list \<Rightarrow> string \<Rightarrow> tunnel_view" where
  "inactive_tunnel now eps lid =
     \<lparr>tv_id = lid, tv_endpoints = eps, tv_status = TunnelDisconnected, tv_upstream_status = UpstreamUnknown,
      tv_region = ''unknown'', tv_connected_at = now, tv_local_addr = None,
      tv_recent_upstream_errors = None, tv_recent_request_count = None\<rparr>"

definition include_inactive :: "(string \<rightharpoonup> string) \<Rightarrow> bool" where
  "include_inactive query = (query ''include_inactive'' = Some ''true'')"

text \<open>\<open>ids\<close> are the keys of the connection table, in its order; \<open>updb\<close> the failures of the status queries.\<close>

definition active_tunnels ::
  "(request_row list \<Rightarrow> request_row list) \<Rightarrow> (string \<Rightarrow> nat \<Rightarrow> string option) \<Rightarrow> int \<Rightarrow> string list
    \<Rightarrow> ('c, 'cb) TunnelConnectionManager \<Rightarrow> request_row list \<Rightarrow> tunnel_view list" where
  "active_tunnels newest updb now ids mgr rows =
     concat (map (\<lambda>lid. case get_endpoints mgr lid of
                          None \<Rightarrow> []
                        | Some eps \<Rightarrow> [active_tunnel newest (updb lid) now rows lid eps]) ids)"

definition inactive_ids :: "string list \<Rightarrow> tcp_row list \<Rightarrow> request_row list \<Rightarrow> string list" where
  "inactive_ids ids tcps rows =
     remdups_adj (sort (filter (\<lambda>i. i \<notin> set ids) (remdups (map k_localup_id tcps) @ remdups (map q_localup_id rows))))"

definition list_tunnels ::
  "(request_row list \<Rightarrow> request_row list) \<Rightarrow> (string \<Rightarrow> nat \<Rightarrow> string option) \<Rightarrow> (nat \<Rightarrow> string option) \<Rightarrow> int
    \<Rightarrow> (string \<rightharpoonup> string) \<Rightarrow> string list \<Rightarrow> ('c, 'cb) TunnelConnectionManager \<Rightarrow> tcp_row list \<Rightarrow> request_row list
    \<Rightarrow> (tunnel_view list \<times> nat) answer" where
  "list_tunnels newest updb dbf now query ids mgr tcps rows =
     (let active = active_tunnels newest updb now ids mgr rows
      in if include_inactive query then
           (case dbf 0 of
              Some e \<Rightarrow> plain_db_error None e
            | None \<Rightarrow>
                (case dbf 1 of
                   Some e \<Rightarrow> plain_db_error None e
                 | None \<Rightarrow>
                     (let ts = active @ map (inactive_tunnel now []) (inactive_ids ids tcps rows)
                      in Ok (ts, length ts))))
         else Ok (active, length active))"

definition tcp_history :: "tcp_row option \<Rightarrow> TunnelEndpoint list" where
  "tcp_history r =
     (case r of
        None \<Rightarrow> []
      | Some k \<Rightarrow> [\<lparr>te_protocol_view = ApiTcp (word_of_int (k_target_port k)),
                    te_public_url = ''tcp://relay:'' @ show_int (k_target_port k),
                    te_port_view = Some (word_of_int (k_target_port k))\<rparr>])"

definition http_history :: "request_row option \<Rightarrow> TunnelEndpoint list" where
  "http_history r =
     (case r of
        None \<Rightarrow> []
      | Some q \<Rightarrow>
          (let subdomain = (case q_host q of Some h \<Rightarrow> hd (split_char CHR ''.'' h) | None \<Rightarrow> ''unknown'')
           in [\<lparr>te_protocol_view = ApiHttp subdomain,
                te_public_url = (case q_host q of Some h \<Rightarrow> h | None \<Rightarrow> subdomain @ ''.localhost''),
                te_port_view = Some 80\<rparr>]))"

definition get_tunnel ::
  "(request_row list \<Rightarrow> request_row list) \<Rightarrow> (nat \<Rightarrow> string option) \<Rightarrow> (nat \<Rightarrow> string option) \<Rightarrow> int \<Rightarrow> string
    \<Rightarrow> ('c, 'cb) TunnelConnectionManager \<Rightarrow> tcp_row list \<Rightarrow> request_row list \<Rightarrow> tunnel_view answer" where
  "get_tunnel newest updb dbf now i mgr tcps rows =
     (case get_endpoints mgr i of
        Some eps \<Rightarrow> Ok (active_tunnel newest updb now rows i eps)
      | None \<Rightarrow>
          (case dbf 0 of
             Some e \<Rightarrow> plain_db_error (Some ''DATABASE_ERROR'') e
           | None \<Rightarrow>
               (case dbf 1 of
                  Some e \<Rightarrow> plain_db_error (Some ''DATABASE_ERROR'') e
                | None \<Rightarrow>
                    (let tcp_exists = List.find (\<lambda>k. k_localup_id k = i) tcps;
                         http_exists = List.find (\<lambda>q. q_localup_id q = i) rows
                     in if tcp_exists \<noteq> None \<or> http_exists \<noteq> None then
                          Ok (inactive_tunnel now (tcp_history tcp_exists @ http_history http_exists) i)
                        else http_error 404 (''Tunnel '' @ [CHR 0x27] @ i @ [CHR 0x27] @ '' not found'')
                               ''TUNNEL_NOT_FOUND''))))"

definition delete_tunnel ::
  "string \<Rightarrow> ('c, 'cb) TunnelConnectionManager \<Rightarrow> nat answer \<times> ('c, 'cb) TunnelConnectionManager" where
  "delete_tunnel i mgr = (Ok 204, conn_unregister i mgr)"

definition health_check :: "string \<Rightarrow> string list \<Rightarrow> string \<times> string \<times> nat" where
  "health_check version ids = (''healthy'', version, length ids)"

section \<open>Captured traffic\<close>

text \<open>
  The two lists share their pages: at most 1000 rows, 100 if nothing is said. A page of no rows
  panics, in the paginator and in the division.
\<close>

definition page_limit :: "nat option \<Rightarrow> nat" where
  "page_limit l = min (case l of Some n \<Rightarrow> n | None \<Rightarrow> 100) 1000"

definition fetch_page :: "nat \<Rightarrow> nat \<Rightarrow> 'a list \<Rightarrow> 'a list" where
  "fetch_page page_size k rows = take page_size (drop (k * page_size) rows)"

definition paginated ::
  "(nat \<Rightarrow> string option) \<Rightarrow> nat option \<Rightarrow> nat option \<Rightarrow> ('a \<Rightarrow> 'b) \<Rightarrow> 'a list \<Rightarrow> ('b list \<times> nat \<times> nat \<times> nat) answer outcome" where
  "paginated dbf off l view rows =
     (let offset = (case off of Some n \<Rightarrow> n | None \<Rightarrow> 0); limit = page_limit l
      in if limit = 0 then Panicked
         else Returned
           (case dbf 0 of
              Some e \<Rightarrow> plain_db_error None e
            | None \<Rightarrow>
                (case dbf 1 of
                   Some e \<Rightarrow> plain_db_error None e
                 | None \<Rightarrow> Ok (map view (fetch_page limit (offset div limit) rows), length rows, offset, limit))))"

record CapturedRequestQuery =
  cq_localup_id :: "string option"
  cq_method :: "string option"
  cq_path :: "string option"
  cq_status :: "u16 option"
  cq_status_min :: "u16 option"
  cq_status_max :: "u16 option"
  cq_offset :: "nat option"
  cq_limit :: "nat option"

text \<open>A comparison with a missing status is not satisfied.\<close>

definition status_matches :: "CapturedRequestQuery \<Rightarrow> request_row \<Rightarrow> bool" where
  "status_matches q r \<longleftrightarrow>
     (case cq_status q of
        Some c \<Rightarrow> q_status r = Some (uint c)
      | None \<Rightarrow>
          (case cq_status_min q of None \<Rightarrow> True | Some lo \<Rightarrow> (case q_status r of None \<Rightarrow> False | Some c \<Rightarrow> uint lo \<le> c)) \<and>
          (case cq_status_max q of None \<Rightarrow> True | Some hi \<Rightarrow> (case q_status r of None \<Rightarrow> False | Some c \<Rightarrow> c \<le> uint hi)))"

definition request_matches ::
  "(string \<Rightarrow> string) \<Rightarrow> (string \<Rightarrow> string \<Rightarrow> bool) \<Rightarrow> CapturedRequestQuery \<Rightarrow> request_row \<Rightarrow> bool" where
  "request_matches to_uppercase like q r \<longleftrightarrow>
     (case cq_localup_id q of None \<Rightarrow> True | Some i \<Rightarrow> q_localup_id r = i) \<and>
     (case cq_method q of None \<Rightarrow> True | Some me \<Rightarrow> q_method r = to_uppercase me) \<and>
     (case cq_path q of None \<Rightarrow> True | Some p \<Rightarrow> like p (q_path r)) \<and>
     status_matches q r"

record captured_request_view =
  v_id :: string
  v_localup_id :: string
  v_method :: string
  v_path :: string
  v_headers :: "(string \<times> string) list"
  v_body :: "string option"
  v_status :: "u16 option"
  v_response_headers :: "(string \<times> string) list option"
  v_response_body :: "string option"
  v_timestamp :: int
  v_duration_ms :: "u64 option"
  v_size_bytes :: nat

definition request_view :: "(string \<Rightarrow> (string \<times> string) list option) \<Rightarrow> request_row \<Rightarrow> captured_request_view" where
  "request_view json r =
     (let size = (\<lambda>b. case b of Some t \<Rightarrow> length t | None \<Rightarrow> 0)
      in \<lparr>v_id = q_id r, v_localup_id = q_localup_id r, v_method = q_method r, v_path = q_path r,
          v_headers = (case json (q_headers r) of Some hs \<Rightarrow> hs | None \<Rightarrow> []), v_body = q_body r,
          v_status = map_option word_of_int (q_status r),
          v_response_headers = Option.bind (q_response_headers r) json, v_response_body = q_response_body r,
          v_timestamp = q_created r, v_duration_ms = map_option word_of_int (q_latency_ms r),
          v_size_bytes = size (q_body r) + size (q_response_body r)\<rparr>)"

definition list_requests ::
  "(request_row list \<Rightarrow> request_row list) \<Rightarrow> (string \<Rightarrow> string) \<Rightarrow> (string \<Rightarrow> string \<Rightarrow> bool)
    \<Rightarrow> (string \<Rightarrow> (string \<times> string) list option) \<Rightarrow> (nat \<Rightarrow> string option) \<Rightarrow> CapturedRequestQuery \<Rightarrow> request_row list
    \<Rightarrow> (captured_request_view list \<times> nat \<times> nat \<times> nat) answer outcome" where
  "list_requests newest to_uppercase like json dbf q rows =
     paginated dbf (cq_offset q) (cq_limit q) (request_view json)
       (newest (filter (request_matches to_uppercase like q) rows))"

definition get_request :: "string \<Rightarrow> captured_request_view answer" where
  "get_request i = http_error 404 (''Request '' @ [CHR 0x27] @ i @ [CHR 0x27] @ '' not found'') ''REQUEST_NOT_FOUND''"

definition replay_request :: "string \<Rightarrow> captured_request_view answer" where
  "replay_request i = http_error 501 ''Request replay not yet implemented'' ''NOT_IMPLEMENTED''"

record CapturedTcpConnectionQuery =
  tq_localup_id :: "string option"
  tq_client_addr :: "string option"
  tq_target_port :: "u16 option"
  tq_offset :: "nat option"
  tq_limit :: "nat option"

definition tcp_matches :: "(string \<Rightarrow> string \<Rightarrow> bool) \<Rightarrow> CapturedTcpConnectionQuery \<Rightarrow> tcp_row \<Rightarrow> bool" where
  "tcp_matches like q k \<longleftrightarrow>
     (case tq_localup_id q of None \<Rightarrow> True | Some i \<Rightarrow> k_localup_id k = i) \<and>
     (case tq_client_addr q of None \<Rightarrow> True | Some a \<Rightarrow> like a (k_client_addr k)) \<and>
     (case tq_target_port q of None \<Rightarrow> True | Some p \<Rightarrow> k_target_port k = uint p)"

record captured_tcp_view =
  w_id :: string
  w_localup_id :: string
  w_client_addr :: string
  w_target_port :: u16
  w_bytes_received :: int
  w_bytes_sent :: int
  w_connected_at :: int
  w_disconnected_at :: "int option"
  w_duration_ms :: "int option"
  w_disconnect_reason :: "string option"

definition tcp_view :: "tcp_row \<Rightarrow> captured_tcp_view" where
  "tcp_view k =
     \<lparr>w_id = k_id k, w_localup_id = k_localup_id k, w_client_addr = k_client_addr k,
      w_target_port = word_of_int (k_target_port k), w_bytes_received = k_bytes_received k,
      w_bytes_sent = k_bytes_sent k, w_connected_at = k_connected k, w_disconnected_at = k_disconnected k,
      w_duration_ms = k_duration_ms k, w_disconnect_reason = k_disconnect_reason k\<rparr>"

definition list_tcp_connections ::
  "(tcp_row list \<Rightarrow> tcp_row list) \<Rightarrow> (string \<Rightarrow> string \<Rightarrow> bool) \<Rightarrow> (nat \<Rightarrow> string option) \<Rightarrow> CapturedTcpConnectionQuery
    \<Rightarrow> tcp_row list \<Rightarrow> (captured_tcp_view list \<times> nat \<times> nat \<times> nat) answer outcome" where
  "list_tcp_connections newest like dbf q tcps =
     paginated dbf (tq_offset q) (tq_limit q) tcp_view (newest (filter (tcp_matches like q) tcps))"

section \<open>Properties\<close>

lemma concat_pages: "concat (map (\<lambda>k. take l (drop (k * l) xs)) [0..<n]) = take (n * l) xs"
  by (induction n) (simp_all add: take_add add.commute [of l])

lemma paginated_pages:
  assumes "0 < l" and "l \<le> 1000"
  shows "paginated (\<lambda>_. None) (Some (k * l)) (Some l) view rows =
     Returned (Ok (map view (take l (drop (k * l) rows)), length rows, k * l, l))"
  using assms by (simp add: paginated_def page_limit_def fetch_page_def Let_def)

text \<open>The rows an answer holds.\<close>

definition page_rows :: "('b list \<times> nat \<times> nat \<times> nat) answer outcome \<Rightarrow> 'b list" where
  "page_rows a = (case a of Returned (Ok (rs, _, _, _)) \<Rightarrow> rs | _ \<Rightarrow> [])"



text \<open>A limit of 0 panics, and an offset inside a page gives the whole page again.\<close>

lemma zero_limit_panics: "cq_limit q = Some 0 \<Longrightarrow> list_requests newest up like json dbf q rows = Panicked"
  by (simp add: list_requests_def paginated_def page_limit_def)

lemma offset_rounded_down:
  assumes "0 < l" and "l \<le> 1000" and "r < l"
  shows "page_rows (paginated (\<lambda>_. None) (Some (k * l + r)) (Some l) view rows) =
     page_rows (paginated (\<lambda>_. None) (Some (k * l)) (Some l) view rows)"
  using assms by (simp add: paginated_def page_limit_def page_rows_def)

text \<open>
  The service of a tunnel is reported up only when a recent request was answered by something other
  than 502, and unknown exactly when there was no recent request.
\<close>

lemma upstream_status_sound:
  fixes newest :: "request_row list \<Rightarrow> request_row list" and now :: int and lid :: string and rows :: "request_row list"
  assumes "\<And>rs. mset (newest rs) = mset rs" and "\<And>n. dbf n = None"
  defines "st \<equiv> fst (compute_upstream_status newest dbf now lid rows)"
  shows "st = UpstreamUp \<Longrightarrow> \<exists>r \<in> set rows. recent now lid r \<and> (\<exists>c. q_status r = Some c \<and> c \<noteq> 502)"
    and "st = UpstreamUnknown \<longleftrightarrow> (\<forall>r \<in> set rows. \<not> recent now lid r)"
proof -
  define rs where "rs = filter (recent now lid) rows"
  have set: "set (newest rs) = set rs" using assms(1) by (metis set_mset_mset)
  have len: "length (newest rs) = length rs" using assms(1) by (metis size_mset)
  have st: "st = upstream_decision (length (filter (\<lambda>r. q_status r = Some 502) rs)) (length rs)
      (length (filter (\<lambda>r. q_status r = None) rs)) (case newest rs of [] \<Rightarrow> None | r # _ \<Rightarrow> Some r)"
    using assms(2) by (simp add: st_def compute_upstream_status_def db_count_def rs_def Let_def)
  show "\<exists>r \<in> set rows. recent now lid r \<and> (\<exists>c. q_status r = Some c \<and> c \<noteq> 502)" if up: "st = UpstreamUp"
  proof (cases "filter (\<lambda>r. q_status r = Some 502) rs = []")
    case True
    with up st have "length (filter (\<lambda>r. q_status r = None) rs) \<noteq> length rs"
      by (auto simp: upstream_decision_def split: if_splits)
    then have "\<not> (\<forall>r \<in> set rs. q_status r = None)" by (metis (mono_tags, lifting) filter_True)
    then obtain r c where "r \<in> set rs" "q_status r = Some c" by auto
    with True show ?thesis by (auto simp: rs_def filter_empty_conv)
  next
    case False
    with up st obtain r rest c where "newest rs = r # rest" "q_status r = Some c" "c \<noteq> 502"
      by (auto simp: upstream_decision_def split: if_splits option.splits list.splits)
    with set show ?thesis by (auto simp: rs_def)
  qed
  have "st = UpstreamUnknown \<longleftrightarrow> rs = []"
    using st len by (auto simp: upstream_decision_def split: if_splits option.splits list.splits)
  then show "st = UpstreamUnknown \<longleftrightarrow> (\<forall>r \<in> set rows. \<not> recent now lid r)"
    by (auto simp: rs_def filter_empty_conv)
qed

text \<open>
  One failed request after any number of good ones is reported as down, although the source's
  comment says that more than half of the recent requests have to fail.
\<close>

lemma last_502_is_down:
  "good \<noteq> [] \<Longrightarrow> list_all (\<lambda>r. q_status r = Some 200) good \<Longrightarrow> q_status bad = Some 502 \<Longrightarrow>
     list_all (recent now lid) (bad # good) \<Longrightarrow>
     fst (compute_upstream_status (\<lambda>rs. rs) (\<lambda>_. None) now lid (bad # good)) = UpstreamDown"
  by (simp add: compute_upstream_status_def db_count_def upstream_decision_def Let_def list_all_iff)

text \<open>
  The list of tunnels names every tunnel once: the connected ones, and with \<open>include_inactive\<close>
  those that appear only in the captured traffic.
\<close>

lemma active_tunnel_id [simp]: "tv_id (active_tunnel newest dbf now rows lid eps) = lid"
  by (simp add: active_tunnel_def split: prod.split)

lemma active_tunnels_ids: "set ids \<subseteq> dom mgr \<Longrightarrow> map tv_id (active_tunnels newest updb now ids mgr rows) = ids"
  by (induction ids) (auto simp: active_tunnels_def get_endpoints_def)

lemma distinct_remdups_adj_sorted: "sorted xs \<Longrightarrow> distinct (remdups_adj (xs :: 'a :: linorder list))"
proof (induction xs rule: remdups_adj.induct)
  case (3 x y xs)
  then show ?case by (cases "x = y") force+
qed auto

lemma list_tunnels_names_once:
  assumes "distinct ids" and "set ids = dom mgr"
    and "list_tunnels newest updb dbf now query ids mgr tcps rows = Ok (ts, n)"
  shows "distinct (map tv_id ts)" and "n = length ts"
    and "set (map tv_id ts) = dom mgr \<union>
      (if include_inactive query then k_localup_id ` set tcps \<union> q_localup_id ` set rows else {})"
proof -
  let ?in = "inactive_ids ids tcps rows"
  have act: "map tv_id (active_tunnels newest updb now ids mgr rows) = ids"
    using assms(2) by (simp add: active_tunnels_ids)
  have inact: "map tv_id (map (inactive_tunnel now []) ?in) = ?in" by (simp add: inactive_tunnel_def comp_def)
  have ids: "map tv_id ts = ids @ (if include_inactive query then ?in else [])" and n: "n = length ts"
    using assms(3) act inact
    by (auto simp: list_tunnels_def plain_db_error_def Let_def split: if_splits option.splits)
  have "distinct ?in" and "set ?in = (k_localup_id ` set tcps \<union> q_localup_id ` set rows) - set ids"
    by (auto simp: inactive_ids_def distinct_remdups_adj_sorted)
  with ids assms(1,2) show "distinct (map tv_id ts)" "set (map tv_id ts) = dom mgr \<union>
      (if include_inactive query then k_localup_id ` set tcps \<union> q_localup_id ` set rows else {})"
    by auto
  show "n = length ts" by (rule n)
qed

end
