(* ===== verification/HttpParser.thy ===== *)
theory HttpParser
  imports ClientHttp
begin

text \<open>
  The incremental HTTP parsers of the client, \<open>crates/localup-client/src/http_parser.rs\<close>, which decide
  when a request or a response has been received completely. Heads are parsed by the library
  \<open>httparse\<close>, a parameter: on a buffer it reports a complete head with its length, or not. An index
  beyond the buffer panics.
\<close>

section \<open>Heads\<close>

record raw_request =
  xr_method :: "string option"
  xr_path :: "string option"
  xr_version :: "u8 option"
  xr_headers :: "(string \<times> bytes) list"

record raw_response =
  xs_code :: "u16 option"
  xs_version :: "u8 option"
  xs_reason :: "string option"
  xs_headers :: "(string \<times> bytes) list"

datatype 'a head_status = HeadComplete nat 'a | HeadPartial | HeadError

record ParsedRequest =
  pq_method :: string
  pq_path :: string
  pq_version :: u8
  pq_headers :: headers
  pq_header_len :: nat
  pq_content_length :: "nat option"
  pq_is_chunked :: bool

record ParsedResponse =
  ps_status :: u16
  ps_version :: u8
  ps_reason :: string
  ps_headers :: headers
  ps_header_len :: nat
  ps_content_length :: "nat option"
  ps_is_chunked :: bool
  ps_no_body :: bool

text \<open>A later \<open>Content-Length\<close> replaces an earlier one, also when it is no number.\<close>

fun scan_headers :: "(string \<times> bytes) list \<Rightarrow> headers \<times> nat option \<times> bool \<Rightarrow> headers \<times> nat option \<times> bool" where
  "scan_headers [] acc = acc"
| "scan_headers ((name, raw) # hs) (seen, content_length, chunked) =
     (let v = from_utf8_lossy raw
      in scan_headers hs
           (seen @ [(name, v)],
            if eq_ignore_ascii_case name ''content-length'' then parse_uint 64 (trim v) else content_length,
            chunked \<or> (eq_ignore_ascii_case name ''transfer-encoding'' \<and> contains_sub (to_lowercase v) ''chunked'')))"

definition or_else_value :: "'a option \<Rightarrow> 'a \<Rightarrow> 'a" where
  "or_else_value x d = (case x of Some v \<Rightarrow> v | None \<Rightarrow> d)"

definition parse_request_head :: "(bytes \<Rightarrow> raw_request head_status) \<Rightarrow> bytes \<Rightarrow> ParsedRequest option" where
  "parse_request_head httparse buffer =
     (case httparse buffer of
        HeadComplete n x \<Rightarrow>
          (case scan_headers (xr_headers x) ([], None, False) of (hs, content_length, chunked) \<Rightarrow>
             Some \<lparr>pq_method = or_else_value (xr_method x) [], pq_path = or_else_value (xr_path x) [],
                   pq_version = or_else_value (xr_version x) 1, pq_headers = hs, pq_header_len = n,
                   pq_content_length = content_length, pq_is_chunked = chunked\<rparr>)
      | _ \<Rightarrow> None)"

definition response_no_body :: "u16 \<Rightarrow> bool" where
  "response_no_body status \<longleftrightarrow> 100 \<le> status \<and> status \<le> 199 \<or> status = 204 \<or> status = 304"

definition parse_response_head :: "(bytes \<Rightarrow> raw_response head_status) \<Rightarrow> bytes \<Rightarrow> ParsedResponse option" where
  "parse_response_head httparse buffer =
     (case httparse buffer of
        HeadComplete n x \<Rightarrow>
          (case scan_headers (xs_headers x) ([], None, False) of (hs, content_length, chunked) \<Rightarrow>
             let status = or_else_value (xs_code x) 0
             in Some \<lparr>ps_status = status, ps_version = or_else_value (xs_version x) 1,
                      ps_reason = or_else_value (xs_reason x) [], ps_headers = hs, ps_header_len = n,
                      ps_content_length = content_length, ps_is_chunked = chunked, ps_no_body = response_no_body status\<rparr>)
      | _ \<Rightarrow> None)"

section \<open>The end of a chunked body\<close>

definition last_chunk_line :: bytes where
  "last_chunk_line = as_bytes (''0'' @ crlf)"

definition check_chunked_complete :: "bytes \<Rightarrow> bool" where
  "check_chunked_complete body \<longleftrightarrow>
     length body \<ge> 5 \<and> drop (length body - 5) body = chunked_end \<or>
     (case find_sub last_chunk_line body of
        Some pos \<Rightarrow> contains_sub (drop (pos + 3) body) (as_bytes crlf)
      | None \<Rightarrow> False)"

section \<open>Requests\<close>

text \<open>The decoder state for chunks is reset but never read.\<close>

record ChunkedState =
  ks_remaining :: nat
  ks_reading_size :: bool
  ks_size_buffer :: bytes
  ks_done :: bool

definition chunked_state_default :: ChunkedState where
  "chunked_state_default = \<lparr>ks_remaining = 0, ks_reading_size = False, ks_size_buffer = [], ks_done = False\<rparr>"

record HttpRequestParser =
  rq_buffer :: bytes
  rq_parsed :: "ParsedRequest option"
  rq_body_received :: nat
  rq_complete :: bool
  rq_chunked_state :: ChunkedState

definition request_parser_new :: HttpRequestParser where
  "request_parser_new =
     \<lparr>rq_buffer = [], rq_parsed = None, rq_body_received = 0, rq_complete = False, rq_chunked_state = chunked_state_default\<rparr>"

definition request_reset :: "HttpRequestParser \<Rightarrow> HttpRequestParser" where
  "request_reset p =
     p\<lparr>rq_buffer := [], rq_parsed := None, rq_body_received := 0, rq_complete := False, rq_chunked_state := chunked_state_default\<rparr>"

definition request_feed :: "(bytes \<Rightarrow> raw_request head_status) \<Rightarrow> bytes \<Rightarrow> HttpRequestParser \<Rightarrow> (nat \<times> HttpRequestParser) outcome" where
  "request_feed httparse data p =
     (if rq_complete p then Returned (0, p)
      else case rq_parsed p of
        None \<Rightarrow>
          (let buf = rq_buffer p @ data in
           case parse_request_head httparse buf of
             None \<Rightarrow> Returned (length data, p\<lparr>rq_buffer := buf\<rparr>)
           | Some h \<Rightarrow>
               if pq_header_len h > length buf then Panicked
               else let got = length buf - pq_header_len h
                    in Returned (length data,
                         p\<lparr>rq_buffer := buf, rq_parsed := Some h, rq_body_received := got,
                           rq_complete :=
                             (case pq_content_length h of
                                Some n \<Rightarrow> got \<ge> n
                              | None \<Rightarrow>
                                  if \<not> pq_is_chunked h then True
                                  else got > 0 \<and> check_chunked_complete (drop (pq_header_len h) buf))\<rparr>))
      | Some h \<Rightarrow>
          if pq_is_chunked h then
            (let buf = rq_buffer p @ data in
             if pq_header_len h > length buf then Panicked
             else Returned (length data,
                    p\<lparr>rq_buffer := buf, rq_complete := check_chunked_complete (drop (pq_header_len h) buf)\<rparr>))
          else
            (let got = rq_body_received p + length data
             in Returned (length data,
                  p\<lparr>rq_body_received := got,
                    rq_complete := (case pq_content_length h of Some n \<Rightarrow> got \<ge> n | None \<Rightarrow> False)\<rparr>)))"

fun request_feed_all :: "(bytes \<Rightarrow> raw_request head_status) \<Rightarrow> bytes list \<Rightarrow> HttpRequestParser \<Rightarrow> HttpRequestParser outcome" where
  "request_feed_all httparse [] p = Returned p"
| "request_feed_all httparse (d # ds) p = and_then (request_feed httparse d p) (\<lambda>(_, p'). request_feed_all httparse ds p')"

section \<open>Responses\<close>

record HttpResponseParser =
  rp_buffer :: bytes
  rp_parsed :: "ParsedResponse option"
  rp_body_received :: nat
  rp_complete :: bool
  rp_chunked_state :: ChunkedState
  rp_last_data_time :: "nat option"
  rp_has_unknown_length :: bool

definition response_parser_new :: HttpResponseParser where
  "response_parser_new =
     \<lparr>rp_buffer = [], rp_parsed = None, rp_body_received = 0, rp_complete = False, rp_chunked_state = chunked_state_default,
      rp_last_data_time = None, rp_has_unknown_length = False\<rparr>"

definition response_reset :: "HttpResponseParser \<Rightarrow> HttpResponseParser" where
  "response_reset p =
     p\<lparr>rp_buffer := [], rp_parsed := None, rp_body_received := 0, rp_complete := False, rp_chunked_state := chunked_state_default,
       rp_last_data_time := None, rp_has_unknown_length := False\<rparr>"

definition response_mark_complete :: "HttpResponseParser \<Rightarrow> HttpResponseParser" where
  "response_mark_complete p = p\<lparr>rp_complete := True\<rparr>"

definition response_feed ::
  "(bytes \<Rightarrow> raw_response head_status) \<Rightarrow> nat \<Rightarrow> bytes \<Rightarrow> HttpResponseParser \<Rightarrow> (nat \<times> HttpResponseParser) outcome" where
  "response_feed httparse now data p =
     (if rp_complete p then Returned (0, p)
      else
        (let p = p\<lparr>rp_last_data_time := Some now\<rparr> in
         case rp_parsed p of
           None \<Rightarrow>
             (let buf = rp_buffer p @ data in
              case parse_response_head httparse buf of
                None \<Rightarrow> Returned (length data, p\<lparr>rp_buffer := buf\<rparr>)
              | Some h \<Rightarrow>
                  if ps_header_len h > length buf then Panicked
                  else
                    (let got = length buf - ps_header_len h;
                         q = p\<lparr>rp_buffer := buf, rp_parsed := Some h, rp_body_received := got\<rparr>
                     in Returned (length data,
                          if ps_no_body h then q\<lparr>rp_complete := True\<rparr>
                          else case ps_content_length h of
                                 Some n \<Rightarrow> q\<lparr>rp_complete := (n = 0 \<or> got \<ge> n)\<rparr>
                               | None \<Rightarrow>
                                   if ps_is_chunked h then
                                     q\<lparr>rp_complete := (got > 0 \<and> check_chunked_complete (drop (ps_header_len h) buf))\<rparr>
                                   else q\<lparr>rp_has_unknown_length := True, rp_complete := (got = 0)\<rparr>)))
         | Some h \<Rightarrow>
             if ps_is_chunked h then
               (let buf = rp_buffer p @ data in
                if ps_header_len h > length buf then Panicked
                else Returned (length data,
                       p\<lparr>rp_buffer := buf, rp_complete := check_chunked_complete (drop (ps_header_len h) buf)\<rparr>))
             else
               (let got = rp_body_received p + length data
                in Returned (length data,
                     p\<lparr>rp_body_received := got,
                       rp_complete := (case ps_content_length h of Some n \<Rightarrow> got \<ge> n | None \<Rightarrow> False)\<rparr>))))"

text \<open>Times are in milliseconds; a response with a body is taken as complete after 100 of them without data.\<close>

definition response_is_complete :: "nat \<Rightarrow> HttpResponseParser \<Rightarrow> bool" where
  "response_is_complete now p =
     (if rp_complete p then True
      else if rp_parsed p = None then False
      else rp_body_received p > 0 \<and> (case rp_last_data_time p of Some t \<Rightarrow> now - t \<ge> 100 | None \<Rightarrow> False))"

definition response_body_data :: "HttpResponseParser \<Rightarrow> bytes option outcome" where
  "response_body_data p =
     (case rp_parsed p of
        None \<Rightarrow> Returned None
      | Some h \<Rightarrow>
          if ps_header_len h > length (rp_buffer p) then Panicked
          else Returned (Some (drop (ps_header_len h) (rp_buffer p))))"

fun response_feed_all ::
  "(bytes \<Rightarrow> raw_response head_status) \<Rightarrow> (nat \<times> bytes) list \<Rightarrow> HttpResponseParser \<Rightarrow> HttpResponseParser outcome" where
  "response_feed_all httparse [] p = Returned p"
| "response_feed_all httparse ((now, d) # ds) p =
     and_then (response_feed httparse now d p) (\<lambda>(_, p'). response_feed_all httparse ds p')"

section \<open>Chunked bodies\<close>

lemma length_last_chunk_line [simp]: "length last_chunk_line = 3"
  by (simp add: last_chunk_line_def crlf_def)

lemma last_chunk_line_not_Nil [simp]: "last_chunk_line \<noteq> []"
  using length_last_chunk_line by (metis list.size(3) numeral_3_eq_3 nat.distinct(1))

lemma chunked_end_split: "chunked_end = last_chunk_line @ as_bytes crlf"
  by (simp add: chunked_end_def last_chunk_line_def as_bytes_def)

lemma find_sub_append: "p \<noteq> [] \<Longrightarrow> find_sub p xs = Some n \<Longrightarrow> find_sub p (xs @ ys) = Some n"
  using find_sub_take [of p "length xs" "xs @ ys"] by (auto split: option.splits if_splits)

lemma find_sub_occurs: "p \<noteq> [] \<Longrightarrow> find_sub p (a @ p @ b) = Some n \<Longrightarrow> n \<le> length a"
proof (induction a arbitrary: n)
  case (Cons x a)
  then show ?case by (auto split: if_splits)
qed (auto simp: starts_with_def neq_Nil_conv)

lemma find_sub_split: "find_sub p xs = Some n \<Longrightarrow> xs = take n xs @ p @ drop (n + length p) xs"
proof (induction xs arbitrary: n)
  case (Cons x xs)
  show ?case
  proof (cases "starts_with (x # xs) p")
    case True
    then show ?thesis using Cons.prems by (auto simp: starts_with_iff)
  next
    case False
    then show ?thesis using Cons by auto
  qed
qed (auto split: if_splits)

lemma find_sub_exists: "p \<noteq> [] \<Longrightarrow> find_sub p (a @ p @ b) \<noteq> None"
proof (induction a)
  case (Cons x a)
  then show ?case by auto
qed (auto simp: starts_with_def neq_Nil_conv)

text \<open>The first test is implied by the second: a body counts as complete once any \<open>0\<close>, CR, LF has a CR, LF behind it.\<close>

lemma check_chunked_complete_iff:
  "check_chunked_complete body \<longleftrightarrow> (\<exists>a b c. body = a @ last_chunk_line @ b @ as_bytes crlf @ c)"
proof
  assume "check_chunked_complete body"
  then consider "length body \<ge> 5" "drop (length body - 5) body = chunked_end"
    | pos where "find_sub last_chunk_line body = Some pos" "contains_sub (drop (pos + 3) body) (as_bytes crlf)"
    by (auto simp: check_chunked_complete_def split: option.splits)
  then show "\<exists>a b c. body = a @ last_chunk_line @ b @ as_bytes crlf @ c"
  proof cases
    case 1
    then have "body = take (length body - 5) body @ last_chunk_line @ [] @ as_bytes crlf @ []"
      using append_take_drop_id [of "length body - 5" body] by (simp add: chunked_end_split)
    then show ?thesis by blast
  next
    case 2
    obtain b c where "drop (pos + 3) body = b @ as_bytes crlf @ c" using 2(2) by (auto simp: contains_sub_iff)
    moreover have "body = take pos body @ last_chunk_line @ drop (pos + 3) body"
      using find_sub_split [OF 2(1)] by simp
    ultimately show ?thesis by metis
  qed
next
  assume "\<exists>a b c. body = a @ last_chunk_line @ b @ as_bytes crlf @ c"
  then obtain a b c where body: "body = a @ last_chunk_line @ b @ as_bytes crlf @ c" by blast
  obtain pos where pos: "find_sub last_chunk_line body = Some pos"
    using find_sub_exists [of last_chunk_line a "b @ as_bytes crlf @ c"] by (auto simp: body)
  have le: "pos \<le> length a" using find_sub_occurs [of last_chunk_line a] pos by (simp add: body)
  have "drop (pos + 3) body = drop (pos + 3) (a @ last_chunk_line) @ b @ as_bytes crlf @ c"
    using le by (simp add: body)
  then have "contains_sub (drop (pos + 3) body) (as_bytes crlf)" unfolding contains_sub_iff by (metis append.assoc)
  then show "check_chunked_complete body" using pos by (simp add: check_chunked_complete_def)
qed

lemma check_chunked_complete_append: "check_chunked_complete a \<Longrightarrow> check_chunked_complete (a @ b)"
  by (fastforce simp: check_chunked_complete_iff)

text \<open>A chunked body that was received to its end counts as complete.\<close>

lemma encode_chunked_complete: "check_chunked_complete (encode_chunked cs)"
  unfolding check_chunked_complete_iff encode_chunked_def chunked_end_split by (metis append_Nil append_Nil2)

text \<open>But one whose first chunk has a size divisible by 16 counts as complete when that chunk is there.\<close>

theorem sixteenth_chunk_completes:
  assumes "c \<noteq> []" and "length c mod 16 = 0"
  shows "check_chunked_complete (encode_chunk c)"
proof -
  have "length c \<ge> 16" using assms by (cases "length c < 16") auto
  moreover have "hex_digit 0 = CHR ''0''" by code_simp
  ultimately obtain h where h: "show_hex (length c) = h @ ''0''"
    using assms(2) by (simp add: show_hex_unfold [of "length c"])
  have "encode_chunk c = as_bytes h @ last_chunk_line @ c @ as_bytes crlf @ []"
    by (simp add: encode_chunk_def h last_chunk_line_def as_bytes_def)
  then show ?thesis unfolding check_chunked_complete_iff by blast
qed


section \<open>Reading in pieces\<close>

text \<open>
  What \<open>httparse\<close> documents: a complete head is a prefix of the buffer of the given length, it is
  recognised whatever follows it, and no shorter prefix, and so no empty buffer, is complete.
\<close>

definition head_law :: "(bytes \<Rightarrow> 'a head_status) \<Rightarrow> bool" where
  "head_law httparse \<longleftrightarrow>
     (\<forall>buf n x. httparse buf = HeadComplete n x \<longrightarrow>
        0 < n \<and> n \<le> length buf \<and> (\<forall>rest. httparse (take n buf @ rest) = HeadComplete n x) \<and>
        (\<forall>k < n. \<forall>m y. httparse (take k buf) \<noteq> HeadComplete m y))"

lemma head_lawD:
  assumes "head_law httparse" and "httparse buf = HeadComplete n x"
  shows "0 < n \<and> n \<le> length buf" and "httparse (take n buf @ rest) = HeadComplete n x"
    and "k < n \<Longrightarrow> httparse (take k buf) \<noteq> HeadComplete m y"
  using assms unfolding head_law_def by blast+

lemma head_extends:
  assumes "head_law httparse" and "httparse buf = HeadComplete n x"
  shows "httparse (buf @ d) = HeadComplete n x"
  using head_lawD(2) [OF assms, of "drop n buf @ d"] append_take_drop_id [of n buf] by (metis append.assoc)

text \<open>When a request is complete, as a condition on what follows its head.\<close>

definition request_message_complete :: "ParsedRequest \<Rightarrow> bytes \<Rightarrow> bool" where
  "request_message_complete h body =
     (case pq_content_length h of
        Some n \<Rightarrow> length body \<ge> n
      | None \<Rightarrow> \<not> pq_is_chunked h \<or> check_chunked_complete body)"

lemma request_message_complete_append: "request_message_complete h b \<Longrightarrow> request_message_complete h (b @ c)"
  by (auto simp: request_message_complete_def check_chunked_complete_append split: option.splits)

text \<open>The parser after the bytes \<open>bs\<close>, in whatever pieces they came.\<close>

definition request_state :: "(bytes \<Rightarrow> raw_request head_status) \<Rightarrow> bytes \<Rightarrow> HttpRequestParser \<Rightarrow> bool" where
  "request_state httparse bs p =
     (case parse_request_head httparse bs of
        None \<Rightarrow> p = request_parser_new\<lparr>rq_buffer := bs\<rparr>
      | Some h \<Rightarrow>
          rq_parsed p = Some h \<and> rq_complete p = request_message_complete h (drop (pq_header_len h) bs) \<and>
          (\<not> rq_complete p \<longrightarrow>
             (if pq_is_chunked h then rq_buffer p = bs else rq_body_received p = length bs - pq_header_len h)))"

lemma check_chunked_Nil [simp]: "\<not> check_chunked_complete []"
  by (simp add: check_chunked_complete_def last_chunk_line_def as_bytes_def)

lemma parse_request_head_extends:
  assumes "head_law httparse" and "parse_request_head httparse bs = Some h"
  shows "0 < pq_header_len h \<and> pq_header_len h \<le> length bs" and "parse_request_head httparse (bs @ d) = Some h"
proof -
  obtain n x where nx: "httparse bs = HeadComplete n x"
    using assms(2) by (auto simp: parse_request_head_def split: head_status.splits)
  then have "pq_header_len h = n"
    using assms(2) by (auto simp: parse_request_head_def split: prod.splits)
  then show "0 < pq_header_len h \<and> pq_header_len h \<le> length bs" using head_lawD(1) [OF assms(1) nx] by simp
  show "parse_request_head httparse (bs @ d) = Some h"
    using assms(2) by (simp add: parse_request_head_def nx head_extends [OF assms(1) nx])
qed

lemma request_state_feed:
  assumes "head_law httparse" and "request_state httparse bs p"
    and "\<And>h. parse_request_head httparse (bs @ d) = Some h \<Longrightarrow> \<not> pq_is_chunked h \<or> pq_content_length h = None"
  shows "\<exists>n p'. request_feed httparse d p = Returned (n, p') \<and> request_state httparse (bs @ d) p'"
proof (cases "parse_request_head httparse bs")
  case None
  then have p: "p = request_parser_new\<lparr>rq_buffer := bs\<rparr>" using assms(2) by (simp add: request_state_def)
  show ?thesis
  proof (cases "parse_request_head httparse (bs @ d)")
    case None
    then show ?thesis by (simp add: p request_feed_def request_parser_new_def request_state_def)
  next
    case (Some h)
    have len: "0 < pq_header_len h \<and> pq_header_len h \<le> length (bs @ d)" using parse_request_head_extends(1) [OF assms(1) Some] .
    have "(0 < length (bs @ d) - pq_header_len h \<and> check_chunked_complete (drop (pq_header_len h) (bs @ d))) =
        check_chunked_complete (drop (pq_header_len h) (bs @ d))"
      using check_chunked_Nil by (metis length_drop length_greater_0_conv)
    then show ?thesis using Some len
      by (auto simp: p request_feed_def request_parser_new_def request_state_def request_message_complete_def Let_def
          split: option.split)
  qed
next
  case (Some h)
  note ext = parse_request_head_extends [OF assms(1) Some]
  have st: "rq_parsed p = Some h" "rq_complete p = request_message_complete h (drop (pq_header_len h) bs)"
      "\<not> rq_complete p \<Longrightarrow> if pq_is_chunked h then rq_buffer p = bs else rq_body_received p = length bs - pq_header_len h"
    using assms(2) Some by (auto simp: request_state_def)
  show ?thesis
  proof (cases "rq_complete p")
    case True
    then show ?thesis
      using st ext request_message_complete_append [of h "drop (pq_header_len h) bs" d]
      by (auto simp: request_feed_def request_state_def)
  next
    case False
    have "pq_is_chunked h \<Longrightarrow> pq_content_length h = None" using assms(3) [OF ext(2)] by blast
    then show ?thesis
      using False st ext
      by (cases "pq_is_chunked h")
        (auto simp: request_feed_def request_state_def request_message_complete_def Let_def split: option.splits)
  qed
qed

lemma request_state_feed_all:
  assumes "head_law httparse" and "request_state httparse bs p"
    and "\<And>h. parse_request_head httparse (bs @ concat ds) = Some h \<Longrightarrow> \<not> pq_is_chunked h \<or> pq_content_length h = None"
  shows "\<exists>p'. request_feed_all httparse ds p = Returned p' \<and> request_state httparse (bs @ concat ds) p'"
  using assms(2,3)
proof (induction ds arbitrary: bs p)
  case (Cons d ds)
  have "\<not> pq_is_chunked h \<or> pq_content_length h = None" if "parse_request_head httparse (bs @ d) = Some h" for h
    using Cons.prems(2) [of h] parse_request_head_extends(2) [OF assms(1) that, of "concat ds"] by simp
  from request_state_feed [OF assms(1) Cons.prems(1) this]
  obtain n p1 where "request_feed httparse d p = Returned (n, p1)" "request_state httparse (bs @ d) p1" by blast
  then show ?case using Cons.IH [of "bs @ d" p1] Cons.prems(2) by simp
qed simp



definition demo_httparse :: "bytes \<Rightarrow> raw_request head_status" where
  "demo_httparse buf = (case buf of
     [] \<Rightarrow> HeadPartial
   | _ \<Rightarrow> HeadComplete 1 \<lparr>xr_method = Some ''GET'', xr_path = Some ''/'', xr_version = Some 1,
       xr_headers = [(''Content-Length'', as_bytes ''2'')]\<rparr>)"


text \<open>The same for responses that declare how they end.\<close>

definition response_message_complete :: "ParsedResponse \<Rightarrow> bytes \<Rightarrow> bool" where
  "response_message_complete h body \<longleftrightarrow>
     ps_no_body h \<or> (case ps_content_length h of Some n \<Rightarrow> length body \<ge> n | None \<Rightarrow> check_chunked_complete body)"

definition declares_end :: "ParsedResponse \<Rightarrow> bool" where
  "declares_end h \<longleftrightarrow> ps_no_body h \<or> (ps_is_chunked h \<longleftrightarrow> ps_content_length h = None)"

definition response_state :: "(bytes \<Rightarrow> raw_response head_status) \<Rightarrow> bytes \<Rightarrow> HttpResponseParser \<Rightarrow> bool" where
  "response_state httparse bs p =
     (case parse_response_head httparse bs of
        None \<Rightarrow> rp_parsed p = None \<and> \<not> rp_complete p \<and> rp_buffer p = bs
      | Some h \<Rightarrow>
          rp_parsed p = Some h \<and> rp_complete p = response_message_complete h (drop (ps_header_len h) bs) \<and>
          (\<not> rp_complete p \<longrightarrow>
             (if ps_is_chunked h then rp_buffer p = bs else rp_body_received p = length bs - ps_header_len h)))"

lemma response_message_complete_append: "response_message_complete h b \<Longrightarrow> response_message_complete h (b @ c)"
  by (auto simp: response_message_complete_def check_chunked_complete_append split: option.splits)

lemma parse_response_head_extends:
  assumes "head_law httparse" and "parse_response_head httparse bs = Some h"
  shows "0 < ps_header_len h \<and> ps_header_len h \<le> length bs" and "parse_response_head httparse (bs @ d) = Some h"
proof -
  obtain n x where nx: "httparse bs = HeadComplete n x"
    using assms(2) by (auto simp: parse_response_head_def split: head_status.splits)
  then have "ps_header_len h = n"
    using assms(2) by (auto simp: parse_response_head_def Let_def split: prod.splits)
  then show "0 < ps_header_len h \<and> ps_header_len h \<le> length bs" using head_lawD(1) [OF assms(1) nx] by simp
  show "parse_response_head httparse (bs @ d) = Some h"
    using assms(2) by (simp add: parse_response_head_def nx head_extends [OF assms(1) nx])
qed

lemma response_state_feed:
  assumes "head_law httparse" and "response_state httparse bs p"
    and "\<And>h. parse_response_head httparse (bs @ d) = Some h \<Longrightarrow> declares_end h"
  shows "\<exists>n p'. response_feed httparse now d p = Returned (n, p') \<and> response_state httparse (bs @ d) p'"
proof (cases "parse_response_head httparse bs")
  case None
  then have p: "rp_parsed p = None" "\<not> rp_complete p" "rp_buffer p = bs" using assms(2) by (auto simp: response_state_def)
  show ?thesis
  proof (cases "parse_response_head httparse (bs @ d)")
    case None
    then show ?thesis using p by (simp add: response_feed_def response_state_def Let_def)
  next
    case (Some h)
    have len: "0 < ps_header_len h \<and> ps_header_len h \<le> length (bs @ d)" using parse_response_head_extends(1) [OF assms(1) Some] .
    have "(0 < length (bs @ d) - ps_header_len h \<and> check_chunked_complete (drop (ps_header_len h) (bs @ d))) =
        check_chunked_complete (drop (ps_header_len h) (bs @ d))"
      using check_chunked_Nil by (metis length_drop length_greater_0_conv)
    then show ?thesis using Some len assms(3) [OF Some] p
      by (auto simp: response_feed_def response_state_def response_message_complete_def declares_end_def Let_def
          split: option.split)
  qed
next
  case (Some h)
  note ext = parse_response_head_extends [OF assms(1) Some]
  have st: "rp_parsed p = Some h" "rp_complete p = response_message_complete h (drop (ps_header_len h) bs)"
      "\<not> rp_complete p \<Longrightarrow> if ps_is_chunked h then rp_buffer p = bs else rp_body_received p = length bs - ps_header_len h"
    using assms(2) Some by (auto simp: response_state_def)
  show ?thesis
  proof (cases "rp_complete p")
    case True
    then show ?thesis
      using st ext response_message_complete_append [of h "drop (ps_header_len h) bs" d]
      by (auto simp: response_feed_def response_state_def)
  next
    case False
    then have "\<not> ps_no_body h" using st(2) by (simp add: response_message_complete_def)
    then show ?thesis
      using False st ext assms(3) [OF ext(2)]
      by (cases "ps_is_chunked h")
        (auto simp: response_feed_def response_state_def response_message_complete_def declares_end_def Let_def split: option.splits)
  qed
qed

lemma response_state_feed_all:
  assumes "head_law httparse" and "response_state httparse bs p"
    and "\<And>h. parse_response_head httparse (bs @ concat (map snd ds)) = Some h \<Longrightarrow> declares_end h"
  shows "\<exists>p'. response_feed_all httparse ds p = Returned p' \<and> response_state httparse (bs @ concat (map snd ds)) p'"
  using assms(2,3)
proof (induction ds arbitrary: bs p)
  case (Cons x ds)
  obtain now d where x: "x = (now, d)" by fastforce
  have "declares_end h" if "parse_response_head httparse (bs @ d) = Some h" for h
    using Cons.prems(2) [of h] parse_response_head_extends(2) [OF assms(1) that, of "concat (map snd ds)"] by (simp add: x)
  from response_state_feed [OF assms(1) Cons.prems(1) this, where now = now]
  obtain n p1 where "response_feed httparse now d p = Returned (n, p1)" "response_state httparse (bs @ d) p1" by blast
  then show ?case using Cons.IH [of "bs @ d" p1] Cons.prems(2) by (simp add: x)
qed simp

text \<open>
  A response that declares its end, by its status, its length or chunks, is recognised as complete
  exactly when it is, whatever the pieces it arrives in and whatever the clock says between them.
\<close>

theorem response_pieces:
  assumes "head_law httparse" and "parse_response_head httparse (concat (map snd ds)) = Some h" and "declares_end h"
  shows "\<exists>p. response_feed_all httparse ds response_parser_new = Returned p \<and> rp_parsed p = Some h \<and>
    (rp_complete p \<longleftrightarrow> response_message_complete h (drop (ps_header_len h) (concat (map snd ds))))"
proof -
  have "response_state httparse [] response_parser_new"
    using parse_response_head_extends(1) [OF assms(1), of "[]"]
    by (cases "parse_response_head httparse []") (auto simp: response_state_def response_parser_new_def)
  from response_state_feed_all [OF assms(1) this, of ds] assms(2,3)
  show ?thesis by (auto simp: response_state_def)
qed

text \<open>
  Without a declared end the pieces decide: a response whose head fills the first read is complete
  with an empty body, although its body is still to come.
\<close>

lemma unknown_length_depends_on_pieces:
  assumes "parse_response_head httparse hd_bytes = Some h" and "parse_response_head httparse (hd_bytes @ b) = Some h"
    and "ps_header_len h = length hd_bytes" and "\<not> declares_end h" and "\<not> ps_is_chunked h" and "b \<noteq> []"
  shows "\<exists>p. response_feed_all httparse [(0, hd_bytes), (t, b)] response_parser_new = Returned p \<and> rp_complete p \<and> rp_body_received p = 0"
    and "\<exists>p. response_feed_all httparse [(0, hd_bytes @ b)] response_parser_new = Returned p \<and> \<not> rp_complete p"
  using assms by (auto simp: response_feed_def response_parser_new_def declares_end_def Let_def)

text \<open>The body that is kept is only what came with the head when the length is declared.\<close>

lemma later_body_not_kept:
  assumes "parse_response_head httparse hd_bytes = Some h" and "ps_header_len h = length hd_bytes"
    and "ps_content_length h = Some (length b)" and "\<not> ps_is_chunked h" and "\<not> ps_no_body h" and "b \<noteq> []"
  shows "\<exists>p. response_feed_all httparse [(0, hd_bytes), (t, b)] response_parser_new = Returned p \<and> rp_complete p \<and>
    rp_body_received p = length b \<and> response_body_data p = Returned (Some [])"
  using assms by (simp add: response_feed_def response_parser_new_def response_body_data_def Let_def)

end
