(* ===== verification/CliConfig.thy ===== *)
theory CliConfig
  imports ClientTunnel "HOL-Library.AList"
begin

text \<open>
  The files of the command line tool (\<open>crates/localup-cli\<close>): the project file \<open>.localup.yml\<close> with its
  discovery, validation and conversion to client configurations (\<open>project_config.rs\<close>), the saved
  token (\<open>config.rs\<close>), and the stored tunnels (\<open>localup_store.rs\<close>). YAML and JSON are parameters, and
  so are the environment and the failures of files.
\<close>

section \<open>Project configuration\<close>

record ProjectDefaults =
  pd_relay :: "string option"
  pd_token :: "string option"
  pd_transport :: "string option"
  pd_local_host :: string
  pd_timeout_seconds :: nat

record ProjectTunnel =
  pt_name :: string
  pt_port :: u16
  pt_protocol :: string
  pt_subdomain :: "string option"
  pt_custom_domain :: "string option"
  pt_remote_port :: "u16 option"
  pt_sni_hostnames :: "string list"
  pt_http_port :: "u16 option"
  pt_relay :: "string option"
  pt_token :: "string option"
  pt_transport :: "string option"
  pt_enabled :: bool
  pt_local_host :: "string option"
  pt_ip_allowlist :: "string list"

record ProjectConfig =
  pc_defaults :: ProjectDefaults
  pc_tunnels :: "ProjectTunnel list"

definition project_tunnel_default :: ProjectTunnel where
  "project_tunnel_default =
     \<lparr>pt_name = [], pt_port = 0, pt_protocol = ''http'', pt_subdomain = None, pt_custom_domain = None,
      pt_remote_port = None, pt_sni_hostnames = [], pt_http_port = None, pt_relay = None, pt_token = None,
      pt_transport = None, pt_enabled = True, pt_local_host = None, pt_ip_allowlist = []\<rparr>"

datatype ProjectError =
  ConfigUnreadable "string list \<times> string"
| ConfigNotYaml
| DuplicateName string
| InvalidName string
| InvalidTunnelProtocol string string
| UnknownProtocol string
| NoCurrentDirectory

definition is_valid_tunnel_name :: "string \<Rightarrow> bool" where
  "is_valid_tunnel_name name \<longleftrightarrow>
     name \<noteq> [] \<and> list_all (\<lambda>c. is_alphanumeric c \<or> c = CHR ''-'' \<or> c = CHR ''_'') name"

definition protocol_names :: "string list" where
  "protocol_names = [''http'', ''https'', ''tcp'', ''tls'']"

text \<open>The loop of \<open>validate\<close> with the set of names seen.\<close>

fun validate_tunnels :: "string set \<Rightarrow> ProjectTunnel list \<Rightarrow> (ProjectError, unit) result" where
  "validate_tunnels names [] = Ok ()"
| "validate_tunnels names (t # ts) =
     (if pt_name t \<in> names then Err (DuplicateName (pt_name t))
      else if \<not> is_valid_tunnel_name (pt_name t) then Err (InvalidName (pt_name t))
      else if to_lowercase (pt_protocol t) \<notin> set protocol_names then
        Err (InvalidTunnelProtocol (pt_protocol t) (pt_name t))
      else validate_tunnels (insert (pt_name t) names) ts)"

definition validate_config :: "ProjectConfig \<Rightarrow> (ProjectError, unit) result" where
  "validate_config c = validate_tunnels {} (pc_tunnels c)"

definition parse_config :: "(string \<Rightarrow> ProjectConfig option) \<Rightarrow> string \<Rightarrow> (ProjectError, ProjectConfig) result" where
  "parse_config yaml content =
     (case yaml content of
        None \<Rightarrow> Err ConfigNotYaml
      | Some c \<Rightarrow> (case validate_config c of Err e \<Rightarrow> Err e | Ok _ \<Rightarrow> Ok c))"

text \<open>
  A directory is the list of its components from the innermost one; \<open>files p\<close> tells whether the file
  exists and, if it can be read, its content.
\<close>

type_synonym path = "string list \<times> string"
type_synonym project_files = "path \<Rightarrow> string option option"

definition load_config ::
  "(string \<Rightarrow> ProjectConfig option) \<Rightarrow> project_files \<Rightarrow> path \<Rightarrow> (ProjectError, ProjectConfig) result" where
  "load_config yaml files p =
     (case files p of
        Some (Some content) \<Rightarrow> parse_config yaml content
      | _ \<Rightarrow> Err (ConfigUnreadable p))"

definition config_in :: "project_files \<Rightarrow> string list \<Rightarrow> path option" where
  "config_in files current =
     (if files (current, ''.localup.yml'') \<noteq> None then Some (current, ''.localup.yml'')
      else if files (current, ''.localup.yaml'') \<noteq> None then Some (current, ''.localup.yaml'')
      else None)"

fun discover_from ::
  "(string \<Rightarrow> ProjectConfig option) \<Rightarrow> project_files \<Rightarrow> string list \<Rightarrow> (ProjectError, (path \<times> ProjectConfig) option) result" where
  "discover_from yaml files current =
     (case config_in files current of
        Some p \<Rightarrow> (case load_config yaml files p of Err e \<Rightarrow> Err e | Ok c \<Rightarrow> Ok (Some (p, c)))
      | None \<Rightarrow> (case current of [] \<Rightarrow> Ok None | _ # parent \<Rightarrow> discover_from yaml files parent))"

declare discover_from.simps [simp del]

text \<open>\<open>discover\<close> starts from the current directory, if it can be determined.\<close>

definition discover_config ::
  "(string \<Rightarrow> ProjectConfig option) \<Rightarrow> project_files \<Rightarrow> string list option \<Rightarrow> (ProjectError, (path \<times> ProjectConfig) option) result" where
  "discover_config yaml files cwd =
     (case cwd of None \<Rightarrow> Err NoCurrentDirectory | Some d \<Rightarrow> discover_from yaml files d)"

definition save_config ::
  "(ProjectConfig \<Rightarrow> string) \<Rightarrow> path \<Rightarrow> ProjectConfig \<Rightarrow> project_files \<Rightarrow> project_files" where
  "save_config to_yaml p c files = files(p \<mapsto> Some (to_yaml c))"

definition enabled_tunnels :: "ProjectConfig \<Rightarrow> ProjectTunnel list" where
  "enabled_tunnels c = filter pt_enabled (pc_tunnels c)"

definition config_get_tunnel :: "ProjectConfig \<Rightarrow> string \<Rightarrow> ProjectTunnel option" where
  "config_get_tunnel c name = List.find (\<lambda>t. pt_name t = name) (pc_tunnels c)"

section \<open>Environment variables\<close>

text \<open>
  The captures of the expression for a dollar sign, a brace, one or more characters other than a
  closing brace, and a closing brace: the names, in order; matches do not overlap.
\<close>

definition var_at :: "string \<Rightarrow> (string \<times> string) option" where
  "var_at s =
     (case s of
        c # d # rest \<Rightarrow>
          if c = CHR ''$'' \<and> d = CHR ''{'' then
            (case split_once CHR ''}'' rest of
               Some (name, rest') \<Rightarrow> if name = [] then None else Some (name, rest')
             | None \<Rightarrow> None)
          else None
      | _ \<Rightarrow> None)"

lemma split_once_shorter: "split_once c s = Some (a, b) \<Longrightarrow> length b < length s"
  by (induction s arbitrary: a b) (fastforce split: if_splits)+

function captures :: "string \<Rightarrow> string list" where
  "captures [] = []"
| "captures (c # s) =
     (case var_at (c # s) of
        Some (name, rest) \<Rightarrow> name # captures rest
      | None \<Rightarrow> captures s)"
  by pat_completeness auto
termination
  by (relation "measure length")
     (auto simp: var_at_def split: list.splits if_splits option.splits dest!: split_once_shorter)

text \<open>\<open>str::replace\<close> of a pattern that is not empty.\<close>

function replace_all :: "string \<Rightarrow> string \<Rightarrow> string \<Rightarrow> string" where
  "replace_all p v s =
     (case s of
        [] \<Rightarrow> []
      | c # s' \<Rightarrow>
          if p \<noteq> [] \<and> starts_with s p then v @ replace_all p v (drop (length p) s)
          else c # replace_all p v s')"
  by pat_completeness auto
termination
  by (relation "measure (\<lambda>(p, v, s). length s)") auto

declare replace_all.simps [simp del]

definition var_text :: "string \<Rightarrow> string" where
  "var_text name = ''${'' @ name @ ''}''"

definition expand_env_vars :: "(string \<Rightarrow> string option) \<Rightarrow> string \<Rightarrow> string" where
  "expand_env_vars env input =
     foldl (\<lambda>result name. replace_all (var_text name) (case env name of Some v \<Rightarrow> v | None \<Rightarrow> []) result)
       input (captures input)"

section \<open>Client configuration of a tunnel\<close>

definition tunnel_protocol :: "ProjectTunnel \<Rightarrow> (ProjectError, ProtocolConfig) result" where
  "tunnel_protocol t =
     (let p = to_lowercase (pt_protocol t)
      in if p = ''http'' then Ok (PcHttp (pt_port t) (pt_subdomain t) (pt_custom_domain t))
         else if p = ''https'' then Ok (PcHttps (pt_port t) (pt_subdomain t) (pt_custom_domain t))
         else if p = ''tcp'' then Ok (PcTcp (pt_port t) (pt_remote_port t))
         else if p = ''tls'' then Ok (PcTls (pt_port t) (pt_sni_hostnames t) (pt_http_port t))
         else Err (UnknownProtocol (pt_protocol t)))"

definition transport_of_name :: "string \<Rightarrow> TransportProtocol option" where
  "transport_of_name s =
     (let l = to_lowercase s
      in if l = ''quic'' then Some Quic
         else if l = ''h2'' \<or> l = ''http2'' then Some H2
         else if l = ''websocket'' \<or> l = ''ws'' then Some WebSocket
         else None)"

definition or_else :: "'a option \<Rightarrow> 'a option \<Rightarrow> 'a option" where
  "or_else a b = (case a of Some x \<Rightarrow> Some x | None \<Rightarrow> b)"

text \<open>\<open>saved\<close> is the answer of \<open>ConfigManager::get_token\<close>, an error counting as none.\<close>

definition resolve_token :: "(string \<Rightarrow> string option) \<Rightarrow> string option \<Rightarrow> ProjectTunnel \<Rightarrow> ProjectDefaults \<Rightarrow> string" where
  "resolve_token env saved t ds =
     (let raw = (case or_else (pt_token t) (pd_token ds) of Some r \<Rightarrow> r | None \<Rightarrow> []);
          expanded = expand_env_vars env raw
      in if expanded = [] then (case saved of Some s \<Rightarrow> s | None \<Rightarrow> expanded) else expanded)"

definition to_tunnel_config ::
  "(string \<Rightarrow> string option) \<Rightarrow> string option \<Rightarrow> ProjectTunnel \<Rightarrow> ProjectDefaults \<Rightarrow> (ProjectError, ClientConfig) result" where
  "to_tunnel_config env saved t ds =
     (case tunnel_protocol t of
        Err e \<Rightarrow> Err e
      | Ok p \<Rightarrow>
          Ok \<lparr>cc_local_host = (case pt_local_host t of Some h \<Rightarrow> h | None \<Rightarrow> pd_local_host ds),
              cc_protocols = [p],
              cc_auth_token = resolve_token env saved t ds,
              cc_exit_node = Custom (case or_else (pt_relay t) (pd_relay ds) of Some r \<Rightarrow> r | None \<Rightarrow> ''localhost:4443''),
              cc_failover = True,
              cc_connection_timeout = pd_timeout_seconds ds * second,
              cc_preferred_transport = Option.bind (or_else (pt_transport t) (pd_transport ds)) transport_of_name,
              cc_http_auth = AuthNone,
              cc_ip_allowlist = pt_ip_allowlist t\<rparr>)"

section \<open>The saved token\<close>

text \<open>
  \<open>~/.localup/config.json\<close>: missing, unreadable, or a text. \<open>home\<close> tells whether there is a home
  directory; JSON of the one field is a parameter.
\<close>

record json_token =
  jt_parse :: "string \<Rightarrow> string option option"
  jt_print :: "string option \<Rightarrow> string"

definition load_saved :: "json_token \<Rightarrow> bool \<Rightarrow> string option option \<Rightarrow> (string, string option) result" where
  "load_saved J home file =
     (if \<not> home then Err ''Failed to get home directory''
      else case file of
        None \<Rightarrow> Ok None
      | Some None \<Rightarrow> Err ''Failed to read config file''
      | Some (Some json) \<Rightarrow> (case jt_parse J json of None \<Rightarrow> Err ''Failed to parse config file'' | Some tok \<Rightarrow> Ok tok))"

definition save_saved :: "json_token \<Rightarrow> bool \<Rightarrow> string option \<Rightarrow> string option option \<Rightarrow> (string, unit) result \<times> string option option" where
  "save_saved J home tok file =
     (if \<not> home then (Err ''Failed to get home directory'', file) else (Ok (), Some (Some (jt_print J tok))))"

definition update_saved ::
  "json_token \<Rightarrow> bool \<Rightarrow> string option \<Rightarrow> string option option \<Rightarrow> (string, unit) result \<times> string option option" where
  "update_saved J home tok file =
     (case load_saved J home file of Err e \<Rightarrow> (Err e, file) | Ok _ \<Rightarrow> save_saved J home tok file)"

definition set_token :: "json_token \<Rightarrow> bool \<Rightarrow> string \<Rightarrow> string option option \<Rightarrow> (string, unit) result \<times> string option option" where
  "set_token J home tok file = update_saved J home (Some tok) file"

definition clear_token :: "json_token \<Rightarrow> bool \<Rightarrow> string option option \<Rightarrow> (string, unit) result \<times> string option option" where
  "clear_token J home file = update_saved J home None file"

definition get_token :: "json_token \<Rightarrow> bool \<Rightarrow> string option option \<Rightarrow> (string, string option) result" where
  "get_token J home file = load_saved J home file"

section \<open>Stored tunnels\<close>

record StoredTunnel =
  sn_name :: string
  sn_enabled :: bool
  sn_config :: ClientConfig

datatype StoreError =
  NameEmpty
| NameCharacters
| TunnelFileUnreadable string
| TunnelFileInvalid string
| TunnelNotFound string

text \<open>
  The directory: its entries in the order in which it is read, names with contents. The contents
  are the texts of the JSON library, of a type of its own.
\<close>

type_synonym 'j tunnel_dir = "(string \<times> 'j) list"

record 'j json_tunnel =
  jn_parse :: "'j \<Rightarrow> StoredTunnel option"
  jn_print :: "StoredTunnel \<Rightarrow> 'j"

definition store_validate_name :: "string \<Rightarrow> (StoreError, unit) result" where
  "store_validate_name name =
     (if name = [] then Err NameEmpty
      else if \<not> list_all (\<lambda>c. is_alphanumeric c \<or> c = CHR ''-'' \<or> c = CHR ''_'') name then Err NameCharacters
      else Ok ())"

definition localup_path :: "string \<Rightarrow> string" where
  "localup_path name = name @ ''.json''"

definition store_save :: "'j json_tunnel \<Rightarrow> StoredTunnel \<Rightarrow> 'j tunnel_dir \<Rightarrow> (StoreError, unit) result \<times> 'j tunnel_dir" where
  "store_save J t dir =
     (case store_validate_name (sn_name t) of
        Err e \<Rightarrow> (Err e, dir)
      | Ok _ \<Rightarrow> (Ok (), AList.update (localup_path (sn_name t)) (jn_print J t) dir))"

definition store_load :: "'j json_tunnel \<Rightarrow> string \<Rightarrow> 'j tunnel_dir \<Rightarrow> (StoreError, StoredTunnel) result" where
  "store_load J name dir =
     (case store_validate_name name of
        Err e \<Rightarrow> Err e
      | Ok _ \<Rightarrow>
          (case map_of dir (localup_path name) of
             None \<Rightarrow> Err (TunnelFileUnreadable (localup_path name))
           | Some json \<Rightarrow>
               (case jn_parse J json of None \<Rightarrow> Err (TunnelFileInvalid (localup_path name)) | Some t \<Rightarrow> Ok t)))"

text \<open>\<open>Path::extension\<close> of a file name.\<close>

definition extension :: "string \<Rightarrow> string option" where
  "extension f = (case rsplit_once CHR ''.'' f of Some (a, b) \<Rightarrow> if a = [] then None else Some b | None \<Rightarrow> None)"

fun read_tunnels :: "'j json_tunnel \<Rightarrow> 'j tunnel_dir \<Rightarrow> (StoreError, StoredTunnel list) result" where
  "read_tunnels J [] = Ok []"
| "read_tunnels J ((f, json) # es) =
     (if extension f = Some ''json'' then
        (case jn_parse J json of
           None \<Rightarrow> Err (TunnelFileInvalid f)
         | Some t \<Rightarrow> (case read_tunnels J es of Err e \<Rightarrow> Err e | Ok ts \<Rightarrow> Ok (t # ts)))
      else read_tunnels J es)"

definition store_list :: "'j json_tunnel \<Rightarrow> 'j tunnel_dir \<Rightarrow> (StoreError, StoredTunnel list) result" where
  "store_list J dir = (case read_tunnels J dir of Err e \<Rightarrow> Err e | Ok ts \<Rightarrow> Ok (sort_key sn_name ts))"

definition list_enabled :: "'j json_tunnel \<Rightarrow> 'j tunnel_dir \<Rightarrow> (StoreError, StoredTunnel list) result" where
  "list_enabled J dir = (case store_list J dir of Err e \<Rightarrow> Err e | Ok ts \<Rightarrow> Ok (filter sn_enabled ts))"

definition store_exists :: "string \<Rightarrow> 'j tunnel_dir \<Rightarrow> bool" where
  "store_exists name dir \<longleftrightarrow> is_ok (store_validate_name name) \<and> map_of dir (localup_path name) \<noteq> None"

definition store_remove :: "string \<Rightarrow> 'j tunnel_dir \<Rightarrow> (StoreError, unit) result \<times> 'j tunnel_dir" where
  "store_remove name dir =
     (case store_validate_name name of
        Err e \<Rightarrow> (Err e, dir)
      | Ok _ \<Rightarrow>
          if map_of dir (localup_path name) = None then (Err (TunnelNotFound name), dir)
          else (Ok (), AList.delete (localup_path name) dir))"

definition set_enabled :: "'j json_tunnel \<Rightarrow> bool \<Rightarrow> string \<Rightarrow> 'j tunnel_dir \<Rightarrow> (StoreError, unit) result \<times> 'j tunnel_dir" where
  "set_enabled J b name dir =
     (case store_load J name dir of Err e \<Rightarrow> (Err e, dir) | Ok t \<Rightarrow> store_save J (t\<lparr>sn_enabled := b\<rparr>) dir)"

definition store_enable :: "'j json_tunnel \<Rightarrow> string \<Rightarrow> 'j tunnel_dir \<Rightarrow> (StoreError, unit) result \<times> 'j tunnel_dir" where
  "store_enable J name dir = set_enabled J True name dir"

definition store_disable :: "'j json_tunnel \<Rightarrow> string \<Rightarrow> 'j tunnel_dir \<Rightarrow> (StoreError, unit) result \<times> 'j tunnel_dir" where
  "store_disable J name dir = set_enabled J False name dir"

section \<open>Properties of the project file\<close>

lemma validate_tunnels_Ok:
  "validate_tunnels ns ts = Ok () \<longleftrightarrow>
     distinct (map pt_name ts) \<and> set (map pt_name ts) \<inter> ns = {} \<and>
     (\<forall>t \<in> set ts. is_valid_tunnel_name (pt_name t) \<and> to_lowercase (pt_protocol t) \<in> set protocol_names)"
  by (induction ns ts rule: validate_tunnels.induct) auto

lemma parse_config_Ok:
  "parse_config yaml content = Ok c \<longleftrightarrow> yaml content = Some c \<and> validate_config c = Ok ()"
  by (auto simp: parse_config_def split: option.splits sum.splits)

lemma load_config_valid: "load_config yaml files p = Ok c \<Longrightarrow> validate_config c = Ok ()"
  by (auto simp: load_config_def parse_config_Ok split: option.splits)

definition tunnel_fault :: "string set \<Rightarrow> ProjectTunnel \<Rightarrow> ProjectError option" where
  "tunnel_fault names t =
     (if pt_name t \<in> names then Some (DuplicateName (pt_name t))
      else if \<not> is_valid_tunnel_name (pt_name t) then Some (InvalidName (pt_name t))
      else if to_lowercase (pt_protocol t) \<notin> set protocol_names then
        Some (InvalidTunnelProtocol (pt_protocol t) (pt_name t))
      else None)"

lemma validate_tunnels_Err:
  "validate_tunnels ns ts = Err e \<longleftrightarrow>
     (\<exists>pre t post. ts = pre @ t # post \<and> validate_tunnels ns pre = Ok () \<and>
        tunnel_fault (ns \<union> pt_name ` set pre) t = Some e)"
proof (induction ns ts rule: validate_tunnels.induct)
  case (2 names t ts)
  show ?case
  proof (cases "tunnel_fault names t")
    case (Some e')
    then have err: "validate_tunnels names (t # us) = Err e'" for us by (auto simp: tunnel_fault_def split: if_splits)
    show ?thesis
    proof
      assume "validate_tunnels names (t # ts) = Err e"
      then show "\<exists>pre u post. t # ts = pre @ u # post \<and> validate_tunnels names pre = Ok () \<and>
          tunnel_fault (names \<union> pt_name ` set pre) u = Some e"
        using Some err by (intro exI [of _ "[]"] exI [of _ t] exI [of _ ts]) simp
    next
      assume "\<exists>pre u post. t # ts = pre @ u # post \<and> validate_tunnels names pre = Ok () \<and>
          tunnel_fault (names \<union> pt_name ` set pre) u = Some e"
      then obtain pre u post where "t # ts = pre @ u # post" "validate_tunnels names pre = Ok ()"
        "tunnel_fault (names \<union> pt_name ` set pre) u = Some e" by blast
      then show "validate_tunnels names (t # ts) = Err e"
        using err Some by (cases pre) (auto simp del: validate_tunnels.simps(2))
    qed
  next
    case None
    then have step: "validate_tunnels names (t # us) = validate_tunnels (insert (pt_name t) names) us" for us
      by (auto simp: tunnel_fault_def split: if_splits)
    have IH: "validate_tunnels (insert (pt_name t) names) ts = Err e \<longleftrightarrow>
        (\<exists>pre u post. ts = pre @ u # post \<and> validate_tunnels (insert (pt_name t) names) pre = Ok () \<and>
           tunnel_fault (insert (pt_name t) names \<union> pt_name ` set pre) u = Some e)"
      by (rule 2) (use None in \<open>auto simp: tunnel_fault_def split: if_splits\<close>)
    show ?thesis unfolding step IH
    proof (intro iffI; elim exE conjE)
      fix pre u post
      assume "ts = pre @ u # post" "validate_tunnels (insert (pt_name t) names) pre = Ok ()"
        "tunnel_fault (insert (pt_name t) names \<union> pt_name ` set pre) u = Some e"
      then show "\<exists>pre u post. t # ts = pre @ u # post \<and> validate_tunnels names pre = Ok () \<and>
          tunnel_fault (names \<union> pt_name ` set pre) u = Some e"
        by (intro exI [of _ "t # pre"] exI [of _ u] exI [of _ post]) (simp only: step append_Cons, simp)
    next
      fix pre u post
      assume "t # ts = pre @ u # post" "validate_tunnels names pre = Ok ()"
        "tunnel_fault (names \<union> pt_name ` set pre) u = Some e"
      with None show "\<exists>pre u post. ts = pre @ u # post \<and> validate_tunnels (insert (pt_name t) names) pre = Ok () \<and>
          tunnel_fault (insert (pt_name t) names \<union> pt_name ` set pre) u = Some e"
        by (cases pre) (auto simp: step simp del: validate_tunnels.simps(2))
    qed
  qed
qed simp

text \<open>
  C40 A project file is refused exactly when some tunnel is at fault, and the error is that of the
  first such tunnel: a name that an earlier tunnel has, else a name that is not allowed, else an
  unknown protocol. The tunnels before it have distinct and allowed names and known protocols.
\<close>

theorem first_fault_reported:
  "parse_config yaml content = Err e \<longleftrightarrow>
     (case yaml content of
        None \<Rightarrow> e = ConfigNotYaml
      | Some c \<Rightarrow>
          (\<exists>pre t post. pc_tunnels c = pre @ t # post \<and> distinct (map pt_name pre) \<and>
             list_all (\<lambda>u. is_valid_tunnel_name (pt_name u) \<and> to_lowercase (pt_protocol u) \<in> set protocol_names) pre \<and>
             tunnel_fault (pt_name ` set pre) t = Some e))"
proof (cases "yaml content")
  case (Some c)
  have "parse_config yaml content = Err e \<longleftrightarrow> validate_tunnels {} (pc_tunnels c) = Err e"
    by (auto simp: parse_config_def Some validate_config_def split: sum.split)
  then show ?thesis by (simp add: Some validate_tunnels_Err validate_tunnels_Ok list_all_iff)
qed (auto simp: parse_config_def)

lemma valid_protocol_converts:
  "to_lowercase (pt_protocol t) \<in> set protocol_names \<Longrightarrow> \<exists>p. tunnel_protocol t = Ok p"
  by (auto simp: tunnel_protocol_def protocol_names_def)

text \<open>
  Every tunnel of a configuration that was loaded can be converted, so the conversion error of the
  callers does not occur.
\<close>

lemma valid_config_converts:
  assumes "validate_config c = Ok ()" and "t \<in> set (pc_tunnels c)"
  shows "\<exists>cc. to_tunnel_config env saved t ds = Ok cc"
proof -
  have "to_lowercase (pt_protocol t) \<in> set protocol_names"
    using assms by (auto simp: validate_config_def validate_tunnels_Ok)
  from valid_protocol_converts [OF this] show ?thesis by (auto simp: to_tunnel_config_def)
qed

text \<open>The file that is found is in the nearest directory that has one.\<close>

lemma discover_from_skip:
  "(\<And>k. k < length pre \<Longrightarrow> config_in files (drop k (pre @ d)) = None) \<Longrightarrow>
     discover_from yaml files (pre @ d) = discover_from yaml files d"
proof (induction pre)
  case (Cons a pre)
  have "config_in files (a # pre @ d) = None" using Cons.prems [of 0] by simp
  moreover have "discover_from yaml files (pre @ d) = discover_from yaml files d"
    by (rule Cons.IH) (use Cons.prems [of "Suc k" for k] in simp)
  ultimately show ?case by (subst discover_from.simps) simp
qed simp

lemma discover_nearest:
  assumes "\<And>k. k < length pre \<Longrightarrow> config_in files (drop k (pre @ d)) = None" and "config_in files d = Some p"
    and "load_config yaml files p = Ok c"
  shows "discover_from yaml files (pre @ d) = Ok (Some (p, c))"
  using discover_from_skip [OF assms(1)] assms(2,3) by (subst (asm) (2) discover_from.simps) simp

lemma discover_None_iff:
  "discover_from yaml files cur = Ok None \<longleftrightarrow> (\<forall>k \<le> length cur. config_in files (drop k cur) = None)"
proof (induction cur)
  case Nil
  show ?case by (subst discover_from.simps) (auto split: option.splits sum.splits)
next
  case (Cons a cur)
  have "(\<forall>k \<le> length (a # cur). config_in files (drop k (a # cur)) = None) \<longleftrightarrow>
      config_in files (a # cur) = None \<and> (\<forall>k \<le> length cur. config_in files (drop k cur) = None)"
    by (simp only: less_Suc_eq_le [symmetric] list.size(4) add_Suc_right add_0_right All_less_Suc2 drop_0 drop_Suc_Cons)
  then show ?case using Cons.IH by (subst discover_from.simps) (auto split: option.splits sum.splits)
qed

text \<open>
  A variable is replaced by its value, or removed when it is not set, wherever it stands in a text
  with no other dollar sign.
\<close>

lemma var_at_other: "c \<noteq> CHR ''$'' \<Longrightarrow> var_at (c # s) = None"
  by (cases s) (simp_all add: var_at_def)

lemma captures_plain: "CHR ''$'' \<notin> set s \<Longrightarrow> captures (s @ r) = captures r"
  by (induction s) (auto simp: var_at_other)

lemma captures_var:
  assumes "name \<noteq> []" and "CHR ''}'' \<notin> set name"
  shows "captures (var_text name @ r) = name # captures r"
proof -
  have "split_once CHR ''}'' (name @ CHR ''}'' # r) = Some (name, r)" using assms(2) by (simp add: split_once_Some)
  then show ?thesis using assms(1) by (simp add: var_text_def var_at_def)
qed

lemma replace_all_skip:
  "p \<noteq> [] \<Longrightarrow> hd p \<notin> set s \<Longrightarrow> replace_all p v (s @ r) = s @ replace_all p v r"
proof (induction s)
  case (Cons c s)
  then have "\<not> starts_with (c # s @ r) p" by (cases p) (auto simp: starts_with_def)
  with Cons show ?case by (subst replace_all.simps) simp
qed simp

lemma replace_all_here: "p \<noteq> [] \<Longrightarrow> replace_all p v (p @ r) = v @ replace_all p v r"
  by (subst replace_all.simps) (cases p, auto simp: starts_with_def)

lemma expand_single_variable:
  assumes "CHR ''$'' \<notin> set pre" and "CHR ''$'' \<notin> set post" and "name \<noteq> []" and "CHR ''}'' \<notin> set name"
  shows "expand_env_vars env (pre @ var_text name @ post) = pre @ (case env name of Some v \<Rightarrow> v | None \<Rightarrow> []) @ post"
proof -
  have ne: "var_text name \<noteq> []" and hd: "hd (var_text name) = CHR ''$''" by (simp_all add: var_text_def)
  have "captures post = []" using captures_plain [of post "[]"] assms(2) by simp
  then have cap: "captures (pre @ var_text name @ post) = [name]"
    using assms by (simp add: captures_plain captures_var)
  have "replace_all (var_text name) v post = post" for v
    using replace_all_skip [of "var_text name" post v "[]"] ne hd assms(2) by (simp add: replace_all.simps)
  then show ?thesis using ne hd assms(1)
    by (simp add: expand_env_vars_def cap replace_all_skip replace_all_here)
qed

lemma expand_plain: "CHR ''$'' \<notin> set s \<Longrightarrow> expand_env_vars env s = s"
  using captures_plain [of s "[]"] by (simp add: expand_env_vars_def)

text \<open>The value of a variable is searched again for the variables that follow.\<close>

lemma expansion_is_expanded:
  "expand_env_vars [''A'' \<mapsto> ''${B}'', ''B'' \<mapsto> ''x''] ''${A}${B}'' = ''xx''"
  by code_simp

section \<open>Properties of the stored tunnels\<close>

definition store_inv :: "'j json_tunnel \<Rightarrow> 'j tunnel_dir \<Rightarrow> bool" where
  "store_inv J dir \<longleftrightarrow>
     distinct (map fst dir) \<and>
     list_all (\<lambda>(f, json). case jn_parse J json of
                 None \<Rightarrow> False
               | Some t \<Rightarrow> store_validate_name (sn_name t) = Ok () \<and> f = localup_path (sn_name t)) dir"

definition store_lookup :: "'j json_tunnel \<Rightarrow> 'j tunnel_dir \<Rightarrow> string \<Rightarrow> StoredTunnel option" where
  "store_lookup J dir name = (case store_load J name dir of Ok t \<Rightarrow> Some t | Err _ \<Rightarrow> None)"

text \<open>
  What the daemon and the commands rely on: a directory of tunnels behaves as a map from names,
  and lists the enabled ones.
\<close>

locale tunnel_repository =
  fixes inv :: "'d \<Rightarrow> bool"
    and lookup :: "'d \<Rightarrow> string \<Rightarrow> StoredTunnel option"
    and valid_name :: "string \<Rightarrow> bool"
    and save :: "StoredTunnel \<Rightarrow> 'd \<Rightarrow> 'd"
    and remove :: "string \<Rightarrow> 'd \<Rightarrow> 'd"
    and enabled :: "'d \<Rightarrow> StoredTunnel list"
  assumes lookup_name: "inv d \<Longrightarrow> lookup d n = Some t \<Longrightarrow> sn_name t = n \<and> valid_name n"
    and inv_save: "inv d \<Longrightarrow> valid_name (sn_name t) \<Longrightarrow> inv (save t d)"
    and lookup_save: "inv d \<Longrightarrow> valid_name (sn_name t) \<Longrightarrow> lookup (save t d) = (lookup d)(sn_name t \<mapsto> t)"
    and inv_remove: "inv d \<Longrightarrow> lookup d n \<noteq> None \<Longrightarrow> inv (remove n d)"
    and lookup_remove: "inv d \<Longrightarrow> lookup d n \<noteq> None \<Longrightarrow> lookup (remove n d) = (lookup d)(n := None)"
    and enabled_iff: "inv d \<Longrightarrow> t \<in> set (enabled d) \<longleftrightarrow> lookup d (sn_name t) = Some t \<and> sn_enabled t"
begin

lemma enabled_after_save:
  assumes "inv d" and "valid_name (sn_name t)"
  shows "set (enabled (save t d)) = {u \<in> set (enabled d). sn_name u \<noteq> sn_name t} \<union> (if sn_enabled t then {t} else {})"
proof (rule set_eqI)
  fix u
  have "u \<in> set (enabled (save t d)) \<longleftrightarrow> ((lookup d)(sn_name t \<mapsto> t)) (sn_name u) = Some u \<and> sn_enabled u"
    unfolding enabled_iff [OF inv_save [OF assms]] lookup_save [OF assms] ..
  also have "\<dots> \<longleftrightarrow> u \<in> {u \<in> set (enabled d). sn_name u \<noteq> sn_name t} \<union> (if sn_enabled t then {t} else {})"
    unfolding mem_Collect_eq Un_iff enabled_iff [OF assms(1)] by (cases "sn_name u = sn_name t") auto
  finally show "u \<in> set (enabled (save t d)) \<longleftrightarrow>
      u \<in> {u \<in> set (enabled d). sn_name u \<noteq> sn_name t} \<union> (if sn_enabled t then {t} else {})" .
qed

lemma enabled_after_remove:
  assumes "inv d" and "lookup d n \<noteq> None"
  shows "set (enabled (remove n d)) = {u \<in> set (enabled d). sn_name u \<noteq> n}"
proof (rule set_eqI)
  fix u
  show "u \<in> set (enabled (remove n d)) \<longleftrightarrow> u \<in> {u \<in> set (enabled d). sn_name u \<noteq> n}"
    unfolding enabled_iff [OF inv_remove [OF assms]] lookup_remove [OF assms] mem_Collect_eq enabled_iff [OF assms(1)]
    by (cases "sn_name u = n") auto
qed

lemma enabled_after_switch:
  assumes "inv d" and "lookup d n = Some t"
  shows "set (enabled (save (t\<lparr>sn_enabled := b\<rparr>) d)) =
     {u \<in> set (enabled d). sn_name u \<noteq> n} \<union> (if b then {t\<lparr>sn_enabled := True\<rparr>} else {})"
proof -
  have n: "sn_name t = n" "valid_name n" using lookup_name [OF assms] by auto
  show ?thesis using enabled_after_save [OF assms(1), of "t\<lparr>sn_enabled := b\<rparr>"] n by simp
qed

end

text \<open>The store implements it, when JSON is read back as it was written.\<close>

definition json_ok :: "'j json_tunnel \<Rightarrow> bool" where
  "json_ok J \<longleftrightarrow> (\<forall>t. jn_parse J (jn_print J t) = Some t)"

lemma localup_path_inject [simp]: "localup_path a = localup_path b \<longleftrightarrow> a = b"
  by (simp add: localup_path_def)

lemma extension_localup_path: "name \<noteq> [] \<Longrightarrow> extension (localup_path name) = Some ''json''"
  using rsplit_once_append [of "CHR ''.''" "''json''" name] by (simp add: extension_def localup_path_def)

lemma valid_name_not_Nil: "store_validate_name n = Ok () \<Longrightarrow> n \<noteq> []"
  by (auto simp: store_validate_name_def split: if_splits)

lemma store_lookup_valid:
  "store_validate_name n = Ok () \<Longrightarrow> store_lookup J dir n = Option.bind (map_of dir (localup_path n)) (jn_parse J)"
  by (simp add: store_lookup_def store_load_def split: option.split)

lemma store_lookup_invalid: "store_validate_name n \<noteq> Ok () \<Longrightarrow> store_lookup J dir n = None"
  by (cases "store_validate_name n") (auto simp: store_lookup_def store_load_def)

lemma store_inv_key:
  "store_inv J dir \<Longrightarrow> (f, json) \<in> set dir \<Longrightarrow> jn_parse J json = Some t \<Longrightarrow>
     store_validate_name (sn_name t) = Ok () \<and> f = localup_path (sn_name t)"
  by (fastforce simp: store_inv_def list_all_iff)

lemma store_lookup_iff:
  assumes "store_inv J dir"
  shows "store_lookup J dir n = Some t \<longleftrightarrow> (\<exists>json. (localup_path n, json) \<in> set dir \<and> jn_parse J json = Some t)"
proof (cases "store_validate_name n = Ok ()")
  case True
  have "distinct (map fst dir)" using assms by (simp add: store_inv_def)
  then show ?thesis using True by (auto simp: store_lookup_valid bind_eq_Some_conv)
next
  case False
  have "\<not> (localup_path n, json) \<in> set dir \<or> jn_parse J json \<noteq> Some t" for json
    using store_inv_key [OF assms, of "localup_path n" json t] False by auto
  then show ?thesis by (auto simp: store_lookup_invalid [OF False])
qed

lemma read_tunnels_Ok:
  assumes "list_all (\<lambda>(f, json). case jn_parse J json of
                 None \<Rightarrow> False
               | Some t \<Rightarrow> store_validate_name (sn_name t) = Ok () \<and> f = localup_path (sn_name t)) dir"
  shows "\<exists>ts. read_tunnels J dir = Ok ts \<and> set ts = {t. \<exists>f json. (f, json) \<in> set dir \<and> jn_parse J json = Some t}"
  using assms
proof (induction dir)
  case (Cons e dir)
  obtain f json where e: "e = (f, json)" by (cases e)
  with Cons.prems obtain t where t: "jn_parse J json = Some t" "store_validate_name (sn_name t) = Ok ()" "f = localup_path (sn_name t)"
    by (auto split: option.splits)
  from Cons obtain ts where "read_tunnels J dir = Ok ts" "set ts = {t. \<exists>f json. (f, json) \<in> set dir \<and> jn_parse J json = Some t}"
    by auto
  with t e show ?case by (auto simp: extension_localup_path valid_name_not_Nil)
qed simp

definition store_enabled :: "'j json_tunnel \<Rightarrow> 'j tunnel_dir \<Rightarrow> StoredTunnel list" where
  "store_enabled J dir = (case list_enabled J dir of Ok ts \<Rightarrow> ts | Err _ \<Rightarrow> [])"

lemma list_enabled_Ok:
  assumes "store_inv J dir"
  shows "\<exists>ts. list_enabled J dir = Ok ts \<and> set ts = {t. store_lookup J dir (sn_name t) = Some t \<and> sn_enabled t}"
proof -
  obtain ts where ts: "read_tunnels J dir = Ok ts" "set ts = {t. \<exists>f json. (f, json) \<in> set dir \<and> jn_parse J json = Some t}"
    using read_tunnels_Ok assms unfolding store_inv_def by blast
  have "set ts = {t. store_lookup J dir (sn_name t) = Some t}"
    unfolding ts(2) store_lookup_iff [OF assms] using store_inv_key [OF assms] by blast
  then show ?thesis by (auto simp: list_enabled_def store_list_def ts(1))
qed

lemma map_of_AList_update: "map_of (AList.update k v al) = (map_of al)(k \<mapsto> v)"
  by (rule update_conv')

lemma store_inv_save:
  assumes "json_ok J" and "store_inv J dir" and "store_validate_name (sn_name t) = Ok ()"
  shows "store_inv J (AList.update (localup_path (sn_name t)) (jn_print J t) dir)"
proof -
  have "set (AList.update k v al) \<subseteq> insert (k, v) (set al)" for k v and al :: "'j tunnel_dir"
    by (induction al) auto
  then show ?thesis using assms
    by (fastforce simp: store_inv_def list_all_iff json_ok_def distinct_update)
qed

lemma store_inv_delete: "store_inv J dir \<Longrightarrow> store_inv J (AList.delete f dir)"
  by (auto simp: store_inv_def list_all_iff AList.delete_eq distinct_map_filter)

interpretation stored: tunnel_repository
  "\<lambda>dir. json_ok J \<and> store_inv J dir" "store_lookup J" "\<lambda>n. store_validate_name n = Ok ()"
  "\<lambda>t dir. snd (store_save J t dir)" "\<lambda>n dir. snd (store_remove n dir)" "store_enabled J" for J
proof unfold_locales
  fix d n t
  assume inv: "json_ok J \<and> store_inv J d"
  show "sn_name t = n \<and> store_validate_name n = Ok ()" if look: "store_lookup J d n = Some t"
  proof -
    obtain json where "(localup_path n, json) \<in> set d" "jn_parse J json = Some t"
      using look inv store_lookup_iff [of J d n t] by blast
    then show ?thesis using store_inv_key [of J d "localup_path n" json t] inv by simp
  qed
  show "t \<in> set (store_enabled J d) \<longleftrightarrow> store_lookup J d (sn_name t) = Some t \<and> sn_enabled t"
  proof -
    obtain ts where "list_enabled J d = Ok ts" and "set ts = {t. store_lookup J d (sn_name t) = Some t \<and> sn_enabled t}"
      using list_enabled_Ok [of J d] inv by blast
    then show ?thesis by (simp add: store_enabled_def)
  qed
  show "json_ok J \<and> store_inv J (snd (store_save J t d))" if "store_validate_name (sn_name t) = Ok ()"
    using that inv by (simp add: store_save_def store_inv_save)
  show "store_lookup J (snd (store_save J t d)) = (store_lookup J d)(sn_name t \<mapsto> t)"
    if "store_validate_name (sn_name t) = Ok ()"
  proof
    fix m
    show "store_lookup J (snd (store_save J t d)) m = ((store_lookup J d)(sn_name t \<mapsto> t)) m"
      using that inv
      by (cases "store_validate_name m = Ok ()")
         (auto simp: store_save_def store_lookup_valid store_lookup_invalid map_of_AList_update json_ok_def)
  qed
next
  fix d n
  assume inv: "json_ok J \<and> store_inv J d" and n: "store_lookup J d n \<noteq> None"
  have valid: "store_validate_name n = Ok ()" by (rule ccontr) (use n in \<open>simp add: store_lookup_invalid\<close>)
  then have "map_of d (localup_path n) \<noteq> None" using n by (auto simp: store_lookup_valid bind_eq_Some_conv)
  then have rem: "snd (store_remove n d) = AList.delete (localup_path n) d" using valid by (auto simp: store_remove_def)
  show "json_ok J \<and> store_inv J (snd (store_remove n d))" using inv by (simp add: rem store_inv_delete)
  show "store_lookup J (snd (store_remove n d)) = (store_lookup J d)(n := None)"
  proof
    fix m
    show "store_lookup J (snd (store_remove n d)) m = ((store_lookup J d)(n := None)) m"
      unfolding rem using valid
      by (cases "store_validate_name m = Ok ()")
         (auto simp: store_lookup_valid store_lookup_invalid delete_conv')
  qed
qed


definition demo_tunnel :: "string \<Rightarrow> bool \<Rightarrow> StoredTunnel" where
  "demo_tunnel name b = \<lparr>sn_name = name, sn_enabled = b, sn_config = client_config_default\<rparr>"


text \<open>The saved token is what was set last, and none after it has been cleared.\<close>

lemma saved_token_roundtrip:
  assumes "\<And>tok. jt_parse J (jt_print J tok) = Some tok"
  shows "set_token J home tok file = (Ok (), file') \<Longrightarrow> get_token J home file' = Ok (Some tok)"
    and "clear_token J home file = (Ok (), file') \<Longrightarrow> get_token J home file' = Ok None"
  using assms
  by (auto simp: set_token_def clear_token_def get_token_def update_saved_def save_saved_def load_saved_def
      split: sum.splits if_splits)

text \<open>The token of a tunnel: its own, else the default's, expanded; the saved one only when nothing is left.\<close>

lemma resolve_token_cases:
  assumes "or_else (pt_token t) (pd_token ds) = Some raw"
  shows "resolve_token env saved t ds =
     (if expand_env_vars env raw \<noteq> [] then expand_env_vars env raw else (case saved of Some s \<Rightarrow> s | None \<Rightarrow> []))"
  using assms by (simp add: resolve_token_def Let_def split: option.split)

end
