(* ===== verification/Daemon.thy ===== *)
theory Daemon
  imports CliConfig
begin

text \<open>
  The daemon of the command line tool (\<open>crates/localup-cli/src/daemon.rs\<close>) and the requests it gets
  from other invocations (\<open>ipc.rs\<close>): the table of tunnels with their status, the commands that start,
  stop and reload them, the task that keeps one tunnel connected, and the lines exchanged over the
  local socket. The table is one record; the update of a status by a task is a step of its own.
  Files, environment and clock are arguments.
\<close>

section \<open>State\<close>

datatype DaemonStatus =
  DsStarting
| DsConnected "string option"
| DsReconnecting nat
| DsFailed string
| DsStopped

text \<open>\<open>hd_config\<close> is the configuration that was handed to the task of the tunnel.\<close>

record TunnelHandle =
  hd_status :: DaemonStatus
  hd_protocol :: string
  hd_local_port :: u16
  hd_connected_at :: "int option"
  hd_config :: ClientConfig

record daemon_state =
  dm_tunnels :: "string \<rightharpoonup> TunnelHandle"
  dm_project_tunnels :: "string \<rightharpoonup> ClientConfig"
  dm_config_path :: "path option"

definition daemon_new :: daemon_state where
  "daemon_new = \<lparr>dm_tunnels = Map.empty, dm_project_tunnels = Map.empty, dm_config_path = None\<rparr>"

record 'j surroundings =
  sv_yaml :: "string \<Rightarrow> ProjectConfig option"
  sv_files :: project_files
  sv_cwd :: "string list option"
  sv_env :: "string \<Rightarrow> string option"
  sv_saved :: "string option"
  sv_json :: "'j json_tunnel"
  sv_dir :: "'j tunnel_dir"

section \<open>Starting and stopping\<close>

definition display_protocol :: "ClientConfig \<Rightarrow> string \<times> u16" where
  "display_protocol c =
     (case cc_protocols c of
        [] \<Rightarrow> (''unknown'', 0)
      | p # _ \<Rightarrow>
          (case p of
             PcHttp port _ _ \<Rightarrow> (''http'', port)
           | PcHttps port _ _ \<Rightarrow> (''https'', port)
           | PcTcp port _ \<Rightarrow> (''tcp'', port)
           | PcTls port _ _ \<Rightarrow> (''tls'', port)))"

definition starting_handle :: "ClientConfig \<Rightarrow> TunnelHandle" where
  "starting_handle c =
     (case display_protocol c of (proto, port) \<Rightarrow>
        \<lparr>hd_status = DsStarting, hd_protocol = proto, hd_local_port = port, hd_connected_at = None, hd_config = c\<rparr>)"

definition start_tunnel :: "StoredTunnel \<Rightarrow> daemon_state \<Rightarrow> daemon_state" where
  "start_tunnel t d =
     (if dm_tunnels d (sn_name t) \<noteq> None then d
      else d\<lparr>dm_tunnels := (dm_tunnels d)(sn_name t \<mapsto> starting_handle (sn_config t))\<rparr>)"

definition stop_tunnel :: "string \<Rightarrow> daemon_state \<Rightarrow> (string, unit) result \<times> daemon_state" where
  "stop_tunnel name d =
     (if dm_tunnels d name = None then
        (Err (''Tunnel '' @ [CHR 0x27] @ name @ [CHR 0x27] @ '' is not running''), d)
      else (Ok (), d\<lparr>dm_tunnels := (dm_tunnels d)(name := None)\<rparr>))"

definition stop_all :: "daemon_state \<Rightarrow> daemon_state" where
  "stop_all d = d\<lparr>dm_tunnels := Map.empty\<rparr>"

definition get_status :: "daemon_state \<Rightarrow> (string \<rightharpoonup> DaemonStatus)" where
  "get_status d = map_option hd_status \<circ> dm_tunnels d"

definition update_status :: "int \<Rightarrow> string \<Rightarrow> DaemonStatus \<Rightarrow> daemon_state \<Rightarrow> daemon_state" where
  "update_status now name st d =
     (case dm_tunnels d name of
        None \<Rightarrow> d
      | Some h \<Rightarrow>
          d\<lparr>dm_tunnels := (dm_tunnels d)(name \<mapsto>
              h\<lparr>hd_status := st,
                hd_connected_at := (case st of
                    DsConnected _ \<Rightarrow> Some now
                  | DsReconnecting _ \<Rightarrow> hd_connected_at h
                  | _ \<Rightarrow> None)\<rparr>)\<rparr>)"

section \<open>Configuration\<close>

definition convert :: "'j surroundings \<Rightarrow> ProjectDefaults \<Rightarrow> ProjectTunnel \<Rightarrow> (ProjectError, ClientConfig) result" where
  "convert v ds t = to_tunnel_config (sv_env v) (sv_saved v) t ds"

text \<open>One tunnel of the project file: cached for later commands, and started unless it is running.\<close>

definition start_project_tunnel :: "'j surroundings \<Rightarrow> ProjectDefaults \<Rightarrow> daemon_state \<Rightarrow> ProjectTunnel \<Rightarrow> daemon_state" where
  "start_project_tunnel v ds d t =
     (case convert v ds t of
        Err _ \<Rightarrow> d
      | Ok cc \<Rightarrow>
          start_tunnel \<lparr>sn_name = pt_name t, sn_enabled = True, sn_config = cc\<rparr>
            (d\<lparr>dm_project_tunnels := (dm_project_tunnels d)(pt_name t \<mapsto> cc)\<rparr>))"

definition ok_or_none :: "('e, 'a) result \<Rightarrow> 'a option" where
  "ok_or_none r = (case r of Ok x \<Rightarrow> Some x | Err _ \<Rightarrow> None)"

text \<open>
  The file given on the command line, or the discovered one; its path is kept for reloads. A file
  that is given is kept even when it cannot be loaded.
\<close>

definition initial_config :: "'j surroundings \<Rightarrow> path option \<Rightarrow> daemon_state \<Rightarrow> ProjectConfig option \<times> daemon_state" where
  "initial_config v given d =
     (case given of
        Some p \<Rightarrow> (ok_or_none (load_config (sv_yaml v) (sv_files v) p), d\<lparr>dm_config_path := Some p\<rparr>)
      | None \<Rightarrow>
          (case discover_config (sv_yaml v) (sv_files v) (sv_cwd v) of
             Ok (Some (p, c)) \<Rightarrow> (Some c, d\<lparr>dm_config_path := Some p\<rparr>)
           | _ \<Rightarrow> (None, d)))"

definition daemon_start :: "'j surroundings \<Rightarrow> path option \<Rightarrow> daemon_state \<Rightarrow> daemon_state" where
  "daemon_start v given d =
     (case initial_config v given d of
        (Some c, d') \<Rightarrow> foldl (start_project_tunnel v (pc_defaults c)) d' (enabled_tunnels c)
      | (None, d') \<Rightarrow>
          (case list_enabled (sv_json v) (sv_dir v) of
             Err _ \<Rightarrow> d'
           | Ok ts \<Rightarrow> foldl (\<lambda>d t. start_tunnel t d) d' ts))"

section \<open>Commands\<close>

datatype DaemonCommand =
  CmdStart string
| CmdStop string
| CmdReloadTunnel string
| CmdGetStatus
| CmdReload
| CmdShutdown

datatype command_result = GoOn | Reply "string \<rightharpoonup> DaemonStatus" | Leave

definition start_command :: "'j surroundings \<Rightarrow> string \<Rightarrow> daemon_state \<Rightarrow> daemon_state" where
  "start_command v name d =
     (case dm_project_tunnels d name of
        Some cc \<Rightarrow> start_tunnel \<lparr>sn_name = name, sn_enabled = True, sn_config = cc\<rparr> d
      | None \<Rightarrow>
          (case store_load (sv_json v) name (sv_dir v) of
             Ok t \<Rightarrow> start_tunnel t d
           | Err _ \<Rightarrow> d))"

definition reload_tunnel :: "'j surroundings \<Rightarrow> string \<Rightarrow> daemon_state \<Rightarrow> daemon_state" where
  "reload_tunnel v name d =
     (case (case dm_config_path d of
              Some p \<Rightarrow> ok_or_none (load_config (sv_yaml v) (sv_files v) p)
            | None \<Rightarrow> map_option snd (Option.bind (ok_or_none (discover_config (sv_yaml v) (sv_files v) (sv_cwd v))) id)) of
        None \<Rightarrow> d
      | Some c \<Rightarrow>
          (case List.find (\<lambda>t. pt_name t = name \<and> pt_enabled t) (pc_tunnels c) of
             None \<Rightarrow> d
           | Some t \<Rightarrow>
               (case convert v (pc_defaults c) t of
                  Err _ \<Rightarrow> d
                | Ok cc \<Rightarrow>
                    start_tunnel \<lparr>sn_name = name, sn_enabled = True, sn_config = cc\<rparr>
                      (snd (stop_tunnel name (d\<lparr>dm_project_tunnels := (dm_project_tunnels d)(name \<mapsto> cc)\<rparr>))))))"

definition reload_source :: "'j surroundings \<Rightarrow> daemon_state \<Rightarrow> ProjectConfig option \<times> daemon_state" where
  "reload_source v d =
     (case dm_config_path d of
        Some p \<Rightarrow> (ok_or_none (load_config (sv_yaml v) (sv_files v) p), d)
      | None \<Rightarrow>
          (case discover_config (sv_yaml v) (sv_files v) (sv_cwd v) of
             Ok (Some (p, c)) \<Rightarrow> (Some c, d\<lparr>dm_config_path := Some p\<rparr>)
           | _ \<Rightarrow> (None, d)))"

text \<open>
  Running tunnels that the file no longer enables are stopped, then the enabled ones are visited.
  Both loops touch each name once: the names of a loaded file are distinct.
\<close>

definition stop_removed :: "string list \<Rightarrow> daemon_state \<Rightarrow> daemon_state" where
  "stop_removed names d = d\<lparr>dm_tunnels := (\<lambda>n. if n \<in> set names then dm_tunnels d n else None)\<rparr>"

definition reload_all :: "'j surroundings \<Rightarrow> daemon_state \<Rightarrow> daemon_state" where
  "reload_all v d =
     (case reload_source v d of
        (None, d') \<Rightarrow> d'
      | (Some c, d') \<Rightarrow>
          foldl (start_project_tunnel v (pc_defaults c))
            (stop_removed (map pt_name (enabled_tunnels c)) d') (enabled_tunnels c))"

definition daemon_command :: "'j surroundings \<Rightarrow> DaemonCommand \<Rightarrow> daemon_state \<Rightarrow> command_result \<times> daemon_state" where
  "daemon_command v cmd d =
     (case cmd of
        CmdStart name \<Rightarrow> (GoOn, start_command v name d)
      | CmdStop name \<Rightarrow> (GoOn, snd (stop_tunnel name d))
      | CmdReloadTunnel name \<Rightarrow> (GoOn, reload_tunnel v name d)
      | CmdGetStatus \<Rightarrow> (Reply (get_status d), d)
      | CmdReload \<Rightarrow> (GoOn, reload_all v d)
      | CmdShutdown \<Rightarrow> (Leave, d))"

text \<open>The main loop over the commands as they come; the files may change in between. At its end all tunnels are stopped.\<close>

fun daemon_loop :: "('j surroundings \<times> DaemonCommand) list \<Rightarrow> daemon_state \<Rightarrow> daemon_state" where
  "daemon_loop [] d = stop_all d"
| "daemon_loop ((v, cmd) # cmds) d =
     (case daemon_command v cmd d of
        (Leave, d') \<Rightarrow> stop_all d'
      | (_, d') \<Rightarrow> daemon_loop cmds d')"

section \<open>The task of a tunnel\<close>

fun tunnel_error_display :: "TunnelError \<Rightarrow> string" where
  "tunnel_error_display (ConnectionError e) = ''Connection error: '' @ e"
| "tunnel_error_display (ConfigError e) = ''Configuration error: '' @ e"
| "tunnel_error_display (TunnelAuthenticationFailed e) = ''Authentication failed: '' @ e"
| "tunnel_error_display (NetworkError e) = ''Network error: '' @ e"
| "tunnel_error_display (ProtocolError e) = ''Protocol error: '' @ e"
| "tunnel_error_display (TunnelClosed e) = ''Tunnel closed: '' @ e"

text \<open>\<open>2u64.pow(n - 1)\<close> overflows from the 65th attempt on.\<close>

definition backoff_seconds :: "nat \<Rightarrow> nat outcome" where
  "backoff_seconds n =
     (if n = 0 then Returned 0
      else if n - 1 \<ge> 64 then Panicked
      else Returned (min (2 ^ (n - 1)) 30))"

text \<open>
  One turn of the loop: whether a stop request has come before it, and how connecting went. A
  connection ends by itself or by a stop request; a failure may find a stop request.
\<close>

datatype connect_result = Connects "string option" bool | ConnectFails TunnelError bool

record turn =
  tn_stopped :: bool
  tn_result :: connect_result

datatype task_act = SetStatus DaemonStatus | Pause nat

datatype task_end = TaskRunning | TaskEnded | TaskPanicked

fun run_tunnel :: "nat \<Rightarrow> turn list \<Rightarrow> task_act list \<times> task_end" where
  "run_tunnel n [] = ([], TaskRunning)"
| "run_tunnel n (x # xs) =
     (case backoff_seconds n of
        Panicked \<Rightarrow> ([], TaskPanicked)
      | Returned b \<Rightarrow>
          (let pre = (if b > 0 then [SetStatus (DsReconnecting n), Pause b] else [])
           in if tn_stopped x then (pre @ [SetStatus DsStopped], TaskEnded)
              else case tn_result x of
                Connects public_url stop \<Rightarrow>
                  (let acts = pre @ [SetStatus (DsConnected public_url)]
                   in if stop then (acts @ [SetStatus DsStopped], TaskEnded)
                      else apfst ((@) acts) (run_tunnel 0 xs))
              | ConnectFails e stop \<Rightarrow>
                  (let acts = pre @ [SetStatus (DsFailed (tunnel_error_display e))]
                   in if is_non_recoverable e then (acts, TaskEnded)
                      else if stop then (acts @ [SetStatus DsStopped], TaskEnded)
                      else apfst ((@) acts) (run_tunnel (n + 1) xs))))"

section \<open>Requests over the local socket\<close>

datatype IpcRequest =
  IpcGetStatus
| IpcStartTunnel string
| IpcStopTunnel string
| IpcReloadTunnel string
| IpcPing
| IpcReload
| IpcShutdown

datatype TunnelStatusDisplay = ShowStarting | ShowConnected | ShowReconnecting nat | ShowFailed | ShowStopped

record TunnelStatusInfo =
  ti_name :: string
  ti_protocol :: string
  ti_local_port :: u16
  ti_public_url :: "string option"
  ti_status :: TunnelStatusDisplay
  ti_uptime_seconds :: "nat option"
  ti_last_error :: "string option"

datatype IpcResponse =
  IpcStatus "string \<rightharpoonup> TunnelStatusInfo"
| IpcOk "string option"
| IpcError string
| IpcPong

definition shown_status :: "DaemonStatus \<Rightarrow> TunnelStatusDisplay \<times> string option \<times> string option" where
  "shown_status st =
     (case st of
        DsStarting \<Rightarrow> (ShowStarting, None, None)
      | DsConnected public_url \<Rightarrow> (ShowConnected, public_url, None)
      | DsReconnecting n \<Rightarrow> (ShowReconnecting n, None, None)
      | DsFailed e \<Rightarrow> (ShowFailed, None, Some e)
      | DsStopped \<Rightarrow> (ShowStopped, None, None))"

definition status_info :: "int \<Rightarrow> string \<Rightarrow> TunnelHandle \<Rightarrow> TunnelStatusInfo" where
  "status_info now name h =
     (case shown_status (hd_status h) of (st, url, err) \<Rightarrow>
        \<lparr>ti_name = name, ti_protocol = hd_protocol h, ti_local_port = hd_local_port h, ti_public_url = url,
         ti_status = st, ti_uptime_seconds = map_option (\<lambda>t. nat ((now - t) div 1000000000)) (hd_connected_at h),
         ti_last_error = err\<rparr>)"

text \<open>
  \<open>tx\<close> is the channel of commands: absent, or whether the daemon still receives. The last component
  is the command that was queued.
\<close>

definition forward_command :: "bool option \<Rightarrow> string \<Rightarrow> string \<Rightarrow> DaemonCommand \<Rightarrow> IpcResponse \<times> DaemonCommand option" where
  "forward_command tx ok_text what cmd =
     (case tx of
        None \<Rightarrow> (IpcError ''Daemon command channel not available'', None)
      | Some True \<Rightarrow> (IpcOk (Some ok_text), Some cmd)
      | Some False \<Rightarrow> (IpcError (''Failed to send '' @ what @ '' command: channel closed''), None))"

definition quoted_name :: "string \<Rightarrow> string" where
  "quoted_name name = [CHR 0x27] @ name @ [CHR 0x27]"

definition handle_ipc_request ::
  "int \<Rightarrow> bool option \<Rightarrow> IpcRequest \<Rightarrow> daemon_state \<Rightarrow> IpcResponse \<times> DaemonCommand option" where
  "handle_ipc_request now tx req d =
     (case req of
        IpcPing \<Rightarrow> (IpcPong, None)
      | IpcGetStatus \<Rightarrow> (IpcStatus (\<lambda>n. map_option (status_info now n) (dm_tunnels d n)), None)
      | IpcStartTunnel name \<Rightarrow> forward_command tx (''Starting tunnel '' @ quoted_name name @ ''...'') ''start'' (CmdStart name)
      | IpcStopTunnel name \<Rightarrow> forward_command tx (''Stopping tunnel '' @ quoted_name name @ ''...'') ''stop'' (CmdStop name)
      | IpcReloadTunnel name \<Rightarrow>
          forward_command tx (''Reloading tunnel '' @ quoted_name name @ ''...'') ''reload'' (CmdReloadTunnel name)
      | IpcReload \<Rightarrow> forward_command tx ''Reloading configuration...'' ''reload'' CmdReload
      | IpcShutdown \<Rightarrow> forward_command tx ''Shutting down daemon...'' ''shutdown'' CmdShutdown)"

text \<open>\<open>read_line\<close>: up to and including the line feed, or to the end.\<close>

fun read_line :: "string \<Rightarrow> string \<times> string" where
  "read_line [] = ([], [])"
| "read_line (c # s) = (if c = LF then ([c], s) else apfst ((#) c) (read_line s))"

definition ipc_send :: "('a \<Rightarrow> string) \<Rightarrow> 'a \<Rightarrow> string" where
  "ipc_send print x = print x @ [LF]"

definition ipc_recv :: "(string \<Rightarrow> 'a option) \<Rightarrow> string \<Rightarrow> (string, 'a) result \<times> string" where
  "ipc_recv parse s =
     (case read_line s of (line, rest) \<Rightarrow>
        (if line = [] then Err ''Connection closed''
         else case parse line of None \<Rightarrow> Err ''Failed to parse request'' | Some x \<Rightarrow> Ok x, rest))"

text \<open>One connection of the server: a request is read, handled and answered, or the connection is dropped.\<close>

definition ipc_serve ::
  "(string \<Rightarrow> IpcRequest option) \<Rightarrow> (IpcResponse \<Rightarrow> string) \<Rightarrow> int \<Rightarrow> bool option \<Rightarrow> string \<Rightarrow> daemon_state
    \<Rightarrow> string \<times> DaemonCommand option" where
  "ipc_serve parse print now tx s d =
     (case ipc_recv parse s of
        (Err _, _) \<Rightarrow> ([], None)
      | (Ok req, _) \<Rightarrow> (case handle_ipc_request now tx req d of (resp, cmd) \<Rightarrow> (ipc_send print resp, cmd)))"

text \<open>The socket file when the daemon binds: absent, left behind, or of a running daemon.\<close>

datatype socket_file = NoSocket | StaleSocket | LiveSocket

definition ipc_bind :: "socket_file \<Rightarrow> (string, unit) result \<times> socket_file" where
  "ipc_bind f = (case f of LiveSocket \<Rightarrow> (Err ''Another daemon is already running'', f) | _ \<Rightarrow> (Ok (), LiveSocket))"

definition format_duration :: "nat \<Rightarrow> string" where
  "format_duration s =
     (if s < 60 then show_nat s @ ''s''
      else if s < 3600 then show_nat (s div 60) @ ''m '' @ show_nat (s mod 60) @ ''s''
      else show_nat (s div 3600) @ ''h '' @ show_nat ((s mod 3600) div 60) @ ''m'')"

section \<open>Properties of the commands\<close>

lemma start_tunnel_simps [simp]:
  "dm_tunnels (start_tunnel t d) n =
     (if n = sn_name t \<and> dm_tunnels d n = None then Some (starting_handle (sn_config t)) else dm_tunnels d n)"
  "dm_project_tunnels (start_tunnel t d) = dm_project_tunnels d"
  "dm_config_path (start_tunnel t d) = dm_config_path d"
  by (auto simp: start_tunnel_def)

lemma start_project_tunnel_Ok:
  assumes "convert v ds t = Ok cc"
  shows "dm_tunnels (start_project_tunnel v ds d t) n =
      (if n = pt_name t \<and> dm_tunnels d n = None then Some (starting_handle cc) else dm_tunnels d n)"
    and "dm_project_tunnels (start_project_tunnel v ds d t) = (dm_project_tunnels d)(pt_name t \<mapsto> cc)"
  using assms by (auto simp: start_project_tunnel_def)

lemma find_name_None: "List.find (\<lambda>t. pt_name t = n) ts = None \<longleftrightarrow> n \<notin> pt_name ` set ts"
  by (induction ts) auto

lemma find_name_Some: "distinct (map pt_name ts) \<Longrightarrow> t \<in> set ts \<Longrightarrow> List.find (\<lambda>u. pt_name u = pt_name t) ts = Some t"
  by (induction ts) force+

text \<open>Visiting the tunnels of a file, each of which can be converted by \<open>f\<close>.\<close>

lemma fold_start_project:
  assumes "distinct (map pt_name ts)" and "\<forall>t \<in> set ts. convert v ds t = Ok (f t)"
  shows "dm_tunnels (foldl (start_project_tunnel v ds) d ts) n =
      (case dm_tunnels d n of
         Some h \<Rightarrow> Some h
       | None \<Rightarrow> map_option (\<lambda>t. starting_handle (f t)) (List.find (\<lambda>t. pt_name t = n) ts)) \<and>
    dm_project_tunnels (foldl (start_project_tunnel v ds) d ts) n =
      (case List.find (\<lambda>t. pt_name t = n) ts of Some t \<Rightarrow> Some (f t) | None \<Rightarrow> dm_project_tunnels d n)"
  using assms
proof (induction ts arbitrary: d)
  case (Cons t ts)
  have ok: "convert v ds t = Ok (f t)" using Cons.prems by simp
  have "List.find (\<lambda>u. pt_name u = pt_name t) ts = None"
    using Cons.prems(1) by (simp add: find_name_None)
  then show ?case
    using Cons.IH [of "start_project_tunnel v ds d t"] Cons.prems start_project_tunnel_Ok [OF ok, of d]
    by (auto split: option.split)
qed (simp split: option.split)

lemma enabled_tunnels_valid:
  assumes "validate_config c = Ok ()"
  shows "distinct (map pt_name (enabled_tunnels c))"
    and "t \<in> set (enabled_tunnels c) \<Longrightarrow> \<exists>cc. convert v ds t = Ok cc"
  using assms valid_config_converts [OF assms]
  by (auto simp: enabled_tunnels_def validate_config_def validate_tunnels_Ok convert_def distinct_map_filter)


definition demo_defaults :: ProjectDefaults where
  "demo_defaults = \<lparr>pd_relay = None, pd_token = Some ''${T}'', pd_transport = None, pd_local_host = ''localhost'', pd_timeout_seconds = 30\<rparr>"

definition demo_project :: ProjectConfig where
  "demo_project = \<lparr>pc_defaults = demo_defaults,
     pc_tunnels = [project_tunnel_default\<lparr>pt_name := ''api'', pt_port := 3000\<rparr>,
                   project_tunnel_default\<lparr>pt_name := ''db'', pt_port := 5432, pt_protocol := ''tcp'', pt_enabled := False\<rparr>]\<rparr>"

definition demo_surroundings_cli :: "StoredTunnel surroundings" where
  "demo_surroundings_cli =
     \<lparr>sv_yaml = (\<lambda>_. Some demo_project), sv_files = [([''p''], ''.localup.yml'') \<mapsto> Some []], sv_cwd = Some [''p''],
      sv_env = [''T'' \<mapsto> ''secret''], sv_saved = None, sv_json = \<lparr>jn_parse = Some, jn_print = (\<lambda>t. t)\<rparr>, sv_dir = []\<rparr>"


text \<open>A running tunnel keeps its configuration over a reload, also when the file has changed it.\<close>

lemma reload_keeps_old_config:
  assumes "reload_source v d = (Some c, d0)" and "validate_config c = Ok ()"
    and "t \<in> set (enabled_tunnels c)" and "dm_tunnels d (pt_name t) = Some h"
  shows "dm_tunnels (snd (daemon_command v CmdReload d)) (pt_name t) = Some h"
proof -
  obtain f where f: "\<forall>t \<in> set (enabled_tunnels c). convert v (pc_defaults c) t = Ok (f t)"
    using enabled_tunnels_valid(2) [OF assms(2), of _ v "pc_defaults c"] by metis
  have "dm_tunnels d0 = dm_tunnels d"
    using assms(1) by (auto simp: reload_source_def split: option.splits sum.splits)
  then show ?thesis
    using fold_start_project [OF enabled_tunnels_valid(1) [OF assms(2)] f, of "stop_removed (map pt_name (enabled_tunnels c)) d0"] assms
    by (simp add: daemon_command_def reload_all_def stop_removed_def)
qed

text \<open>
  A tunnel whose task has given up stays in the table, so that starting it again changes nothing
  until it has been stopped.
\<close>

lemma start_refused_while_listed:
  assumes "dm_tunnels d name = Some h" and "dm_project_tunnels d name = Some cc"
  shows "daemon_command v (CmdStart name) d = (GoOn, d)"
  using assms by (simp add: daemon_command_def start_command_def start_tunnel_def)

lemma reload_tunnel_restarts:
  assumes "dm_config_path d = Some p" and "load_config (sv_yaml v) (sv_files v) p = Ok c"
    and "t \<in> set (enabled_tunnels c)" and "convert v (pc_defaults c) t = Ok cc"
  shows "dm_tunnels (snd (daemon_command v (CmdReloadTunnel (pt_name t)) d)) =
     (dm_tunnels d)(pt_name t \<mapsto> starting_handle cc)"
proof -
  have valid: "validate_config c = Ok ()" by (rule load_config_valid [OF assms(2)])
  then have dist: "distinct (map pt_name (pc_tunnels c))" by (simp add: validate_config_def validate_tunnels_Ok)
  have "List.find (\<lambda>u. pt_name u = pt_name t \<and> pt_enabled u) ts = Some t"
    if "distinct (map pt_name ts)" "t \<in> set ts" "pt_enabled t" for ts
    using that by (induction ts) force+
  from this [OF dist] have "List.find (\<lambda>u. pt_name u = pt_name t \<and> pt_enabled u) (pc_tunnels c) = Some t"
    using assms(3) by (simp add: enabled_tunnels_def)
  then show ?thesis using assms(1,2,4)
    by (auto simp: daemon_command_def reload_tunnel_def ok_or_none_def stop_tunnel_def fun_eq_iff)
qed

text \<open>However the main loop ends, no tunnel is left.\<close>

lemma daemon_loop_stops_all: "dm_tunnels (daemon_loop cmds d) = Map.empty"
  by (induction cmds d rule: daemon_loop.induct)
     (auto simp: stop_all_def split: prod.split command_result.split)

section \<open>The table of tunnels\<close>

text \<open>
  The table agrees with the tasks: what is shown of a tunnel are protocol and port of its
  configuration, a connected tunnel has a time of connection, and only a connected or reconnecting
  one has.
\<close>

definition handle_ok :: "TunnelHandle \<Rightarrow> bool" where
  "handle_ok h \<longleftrightarrow>
     (hd_protocol h, hd_local_port h) = display_protocol (hd_config h) \<and>
     (case hd_status h of
        DsConnected _ \<Rightarrow> hd_connected_at h \<noteq> None
      | DsReconnecting _ \<Rightarrow> True
      | _ \<Rightarrow> hd_connected_at h = None)"

definition table_ok :: "daemon_state \<Rightarrow> bool" where
  "table_ok d \<longleftrightarrow> (\<forall>n h. dm_tunnels d n = Some h \<longrightarrow> handle_ok h)"

lemma handle_ok_starting: "handle_ok (starting_handle c)"
  by (simp add: handle_ok_def starting_handle_def split: prod.split)

lemma table_ok_start: "table_ok d \<Longrightarrow> table_ok (start_tunnel t d)"
  by (auto simp: table_ok_def handle_ok_starting split: if_splits)

lemma table_ok_stop: "table_ok d \<Longrightarrow> table_ok (snd (stop_tunnel n d))"
  by (auto simp: table_ok_def stop_tunnel_def split: if_splits)

lemma table_ok_cong: "table_ok d \<Longrightarrow> dm_tunnels d' = dm_tunnels d \<Longrightarrow> table_ok d'"
  by (simp add: table_ok_def)

lemma table_ok_start_project: "table_ok d \<Longrightarrow> table_ok (start_project_tunnel v ds d t)"
  by (auto simp: start_project_tunnel_def intro!: table_ok_start elim: table_ok_cong split: sum.split)

lemma table_ok_fold: "table_ok d \<Longrightarrow> table_ok (foldl (start_project_tunnel v ds) d ts)"
  by (induction ts arbitrary: d) (simp_all add: table_ok_start_project)

lemma table_ok_update: "table_ok d \<Longrightarrow> table_ok (update_status now n st d)"
  by (cases st) (auto simp: table_ok_def update_status_def handle_ok_def split: option.splits if_splits)

lemma table_ok_reload_all: "table_ok d \<Longrightarrow> table_ok (reload_all v d)"
proof -
  assume ok: "table_ok d"
  obtain c d' where src: "reload_source v d = (c, d')" by (cases "reload_source v d")
  then have "dm_tunnels d' = dm_tunnels d" by (auto simp: reload_source_def split: option.splits sum.splits)
  with ok have "table_ok d'" and "table_ok (stop_removed ns d')" for ns
    by (auto simp: table_ok_def stop_removed_def)
  then show ?thesis by (auto simp: reload_all_def src intro: table_ok_fold split: option.split)
qed

lemma table_ok_reload_tunnel: "table_ok d \<Longrightarrow> table_ok (reload_tunnel v n d)"
  by (auto simp: reload_tunnel_def intro!: table_ok_start table_ok_stop elim: table_ok_cong split: option.split sum.split)

lemma table_ok_command: "table_ok d \<Longrightarrow> table_ok (snd (daemon_command v cmd d))"
  by (cases cmd)
     (auto simp: daemon_command_def start_command_def table_ok_start table_ok_stop table_ok_reload_all table_ok_reload_tunnel
       split: option.split sum.split)

text \<open>A step of the daemon: a command, with the files as they are then, or a task that reports its status.\<close>

inductive daemon_step :: "daemon_state \<Rightarrow> daemon_state \<Rightarrow> bool" where
  command: "daemon_step d (snd (daemon_command (v :: StoredTunnel surroundings) cmd d))"
| report: "daemon_step d (update_status now n st d)"

inductive_cases daemon_stepE: "daemon_step d d'"

lemma daemon_steps_table_ok: "daemon_step\<^sup>*\<^sup>* d d' \<Longrightarrow> table_ok d \<Longrightarrow> table_ok d'"
  by (induction rule: rtranclp_induct) (auto elim!: daemon_stepE simp: table_ok_command table_ok_update)

lemma table_ok_daemon_start: "table_ok (daemon_start v given daemon_new)"
proof -
  obtain c d where ini: "initial_config v given daemon_new = (c, d)" by (cases "initial_config v given daemon_new")
  then have "dm_tunnels d = Map.empty"
    by (auto simp: initial_config_def daemon_new_def split: option.splits sum.splits)
  then have "table_ok d" by (simp add: table_ok_def)
  moreover have "table_ok (foldl (\<lambda>d t. start_tunnel t d) d ts)" if "table_ok d" for d ts
    using that by (induction ts arbitrary: d) (simp_all add: table_ok_start)
  ultimately show ?thesis by (auto simp: daemon_start_def ini table_ok_fold split: option.split sum.split)
qed

text \<open>
  C38 In every state the daemon reaches, whatever commands come and whatever the tasks report, the
  status it answers over the socket names exactly the tunnels of the table; a tunnel shown as
  connected has an uptime, and one shown as starting, failed or stopped has none.
\<close>

theorem reported_status_consistent:
  assumes "daemon_step\<^sup>*\<^sup>* (daemon_start v given daemon_new) d"
    and "handle_ipc_request now tx IpcGetStatus d = (IpcStatus infos, cmd)"
  shows "cmd = None \<and> dom infos = dom (dm_tunnels d) \<and>
    (\<forall>n i. infos n = Some i \<longrightarrow> ti_name i = n \<and>
      (ti_status i = ShowConnected \<longrightarrow> ti_uptime_seconds i \<noteq> None) \<and>
      (ti_status i \<in> {ShowStarting, ShowFailed, ShowStopped} \<longrightarrow> ti_uptime_seconds i = None) \<and>
      (ti_last_error i \<noteq> None \<longleftrightarrow> ti_status i = ShowFailed))"
proof -
  have infos: "infos = (\<lambda>n. map_option (status_info now n) (dm_tunnels d n))" and "cmd = None"
    using assms(2) by (auto simp: handle_ipc_request_def)
  moreover have "dom infos = dom (dm_tunnels d)" by (auto simp: dom_def infos)
  moreover have "ti_name i = n \<and> (ti_status i = ShowConnected \<longrightarrow> ti_uptime_seconds i \<noteq> None) \<and>
      (ti_status i \<in> {ShowStarting, ShowFailed, ShowStopped} \<longrightarrow> ti_uptime_seconds i = None) \<and>
      (ti_last_error i \<noteq> None \<longleftrightarrow> ti_status i = ShowFailed)" if shown: "infos n = Some i" for n i
  proof -
    from shown obtain h where h: "dm_tunnels d n = Some h" "i = status_info now n h" by (auto simp: infos)
    have "handle_ok h" using daemon_steps_table_ok [OF assms(1) table_ok_daemon_start] h(1) by (simp add: table_ok_def)
    then show ?thesis
      unfolding h(2) by (cases "hd_status h") (simp_all add: status_info_def shown_status_def handle_ok_def)
  qed
  ultimately show ?thesis by blast
qed

definition demo_surroundings_store :: "StoredTunnel surroundings" where
  "demo_surroundings_store =
     \<lparr>sv_yaml = (\<lambda>_. None), sv_files = (\<lambda>_. None), sv_cwd = Some [], sv_env = (\<lambda>_. None), sv_saved = None,
      sv_json = \<lparr>jn_parse = Some, jn_print = (\<lambda>t. t)\<rparr>, sv_dir = [(''a.json'', demo_tunnel ''a'' True)]\<rparr>"

theorem reported_status_consistent_witness:
  "\<exists>infos i. handle_ipc_request 2000000000 None IpcGetStatus
       (update_status 0 ''a'' (DsConnected None) (daemon_start demo_surroundings_store None daemon_new)) = (IpcStatus infos, None) \<and>
     dom infos = {''a''} \<and> infos ''a'' = Some i \<and> ti_name i = ''a'' \<and> ti_status i = ShowConnected \<and> ti_uptime_seconds i \<noteq> None"
proof -
  let ?started = "daemon_start demo_surroundings_store None daemon_new"
  let ?conn = "update_status 0 ''a'' (DsConnected None) ?started"
  have ext: "extension ''a.json'' = Some ''json''"
    using extension_localup_path [of "''a''"] by (simp add: localup_path_def)
  have init: "dm_tunnels ?started = [''a'' \<mapsto> starting_handle client_config_default]"
    by (simp add: daemon_start_def initial_config_def demo_surroundings_store_def discover_config_def discover_from.simps config_in_def
        list_enabled_def store_list_def ext start_tunnel_def daemon_new_def demo_tunnel_def)
  have d: "dm_tunnels ?conn = [''a'' \<mapsto> (starting_handle client_config_default)\<lparr>hd_status := DsConnected None, hd_connected_at := Some 0\<rparr>]"
    by (simp add: update_status_def init)
  have steps: "daemon_step\<^sup>*\<^sup>* ?started ?conn" by (rule r_into_rtranclp) (rule report)
  define infos where "infos = (\<lambda>n. map_option (status_info 2000000000 n) (dm_tunnels ?conn n))"
  have req: "handle_ipc_request 2000000000 None IpcGetStatus ?conn = (IpcStatus infos, None)"
    by (simp add: handle_ipc_request_def infos_def)
  note ok = reported_status_consistent [OF steps req]
  have dom: "dom infos = {''a''}" using ok unfolding d by simp
  then obtain i where i: "infos ''a'' = Some i" by blast
  have "ti_status i = ShowConnected" using i by (auto simp: infos_def d status_info_def shown_status_def)
  with ok req dom i show ?thesis by blast
qed

section \<open>The retries of a tunnel\<close>

text \<open>A turn in which connecting fails, may be tried again, and no stop is requested.\<close>

definition failing :: "turn \<Rightarrow> bool" where
  "failing x \<longleftrightarrow> \<not> tn_stopped x \<and> (case tn_result x of ConnectFails e stop \<Rightarrow> \<not> is_non_recoverable e \<and> \<not> stop | _ \<Rightarrow> False)"

fun pauses :: "task_act list \<Rightarrow> nat list" where
  "pauses [] = []"
| "pauses (Pause b # acts) = b # pauses acts"
| "pauses (SetStatus _ # acts) = pauses acts"

lemma pauses_append [simp]: "pauses (a @ b) = pauses a @ pauses b"
  by (induction a rule: pauses.induct) simp_all

lemma run_tunnel_failing:
  assumes "failing x" and "n \<le> 64"
  shows "\<exists>acts. run_tunnel n (x # xs) = apfst ((@) acts) (run_tunnel (n + 1) xs) \<and>
     pauses acts = (if n = 0 then [] else [min (2 ^ (n - 1)) 30])"
proof -
  obtain e where e: "\<not> tn_stopped x" "tn_result x = ConnectFails e False" "\<not> is_non_recoverable e"
    using assms(1) by (auto simp: failing_def split: connect_result.splits)
  show ?thesis using e assms(2) by (cases "n = 0") (auto simp: backoff_seconds_def)
qed

lemma upt_max_one: "n < m \<Longrightarrow> [max 1 n..<m] = (if n = 0 then [] else [n]) @ [max 1 (n + 1)..<m]"
  by (cases "n = 0") (simp_all add: upt_conv_Cons max_def)

lemma run_tunnel_schedule:
  assumes "list_all failing xs" and "n \<le> 65"
  shows "pauses (fst (run_tunnel n xs)) = map (\<lambda>k. min (2 ^ (k - 1)) 30) [max 1 n..<min (n + length xs) 65] \<and>
     snd (run_tunnel n xs) = (if n + length xs \<le> 65 then TaskRunning else TaskPanicked)"
  using assms
proof (induction xs arbitrary: n)
  case (Cons x xs)
  show ?case
  proof (cases "n = 65")
    case True
    then show ?thesis by (simp add: backoff_seconds_def)
  next
    case False
    with Cons.prems have n: "n \<le> 64" by simp
    then obtain acts where "run_tunnel n (x # xs) = apfst ((@) acts) (run_tunnel (n + 1) xs)"
      and "pauses acts = (if n = 0 then [] else [min (2 ^ (n - 1)) 30])"
      using run_tunnel_failing [of x n xs] Cons.prems by auto
    moreover have "[max 1 n..<min (n + length (x # xs)) 65] =
        (if n = 0 then [] else [n]) @ [max 1 (n + 1)..<min (n + 1 + length xs) 65]"
      using upt_max_one [of n "min (n + length (x # xs)) 65"] n by simp
    ultimately show ?thesis using Cons.IH [of "n + 1"] Cons.prems n by simp
  qed
qed simp

text \<open>
  A tunnel that cannot be connected is tried again after 1, 2, 4, 8, 16 and then always 30 seconds,
  however often it fails, up to the 65th attempt; the computation of the next delay then overflows
  and the task ends by a panic.
\<close>

theorem retry_schedule:
  assumes "list_all failing xs"
  shows "pauses (fst (run_tunnel 0 xs)) = map (\<lambda>k. min (2 ^ k) 30) [0..<min (length xs - 1) 64]"
    and "snd (run_tunnel 0 xs) = (if length xs \<le> 65 then TaskRunning else TaskPanicked)"
proof -
  note r = run_tunnel_schedule [OF assms, of 0]
  have "[1..<min (length xs) 65] = map Suc [0..<min (length xs - 1) 64]"
  proof (cases xs)
    case (Cons x xs')
    then have m: "min (length xs) 65 = Suc (min (length xs - 1) 64)" by (simp add: min_def)
    show ?thesis unfolding m map_Suc_upt One_nat_def ..
  qed simp
  with r show "pauses (fst (run_tunnel 0 xs)) = map (\<lambda>k. min (2 ^ k) 30) [0..<min (length xs - 1) 64]" by simp
  show "snd (run_tunnel 0 xs) = (if length xs \<le> 65 then TaskRunning else TaskPanicked)" using r by simp
qed

theorem retry_schedule_witness:
  "let xs = replicate 66 \<lparr>tn_stopped = False, tn_result = ConnectFails (NetworkError ''refused'') False\<rparr>
   in take 7 (pauses (fst (run_tunnel 0 xs))) = [1, 2, 4, 8, 16, 30, 30] \<and> snd (run_tunnel 0 xs) = TaskPanicked"
proof -
  let ?xs = "replicate 66 \<lparr>tn_stopped = False, tn_result = ConnectFails (NetworkError ''refused'') False\<rparr>"
  have all: "list_all failing ?xs" unfolding list_all_iff set_replicate_conv_if by (simp add: failing_def is_non_recoverable_def)
  have "map (\<lambda>k. min (2 ^ k) 30) [0..<7] = [1, 2, 4, 8, 16, 30, 30 :: nat]" by code_simp
  then have "take 7 (map (\<lambda>k. min (2 ^ k) 30) [0..<64]) = [1, 2, 4, 8, 16, 30, 30 :: nat]"
    by (simp add: take_map take_upt)
  then show ?thesis using retry_schedule [OF all] unfolding Let_def length_replicate by simp
qed

text \<open>Between the loss of a connection and the result of the next attempt the status stays connected.\<close>

lemma lost_connection_unreported:
  assumes "\<not> tn_stopped x" and "tn_result x = Connects url False"
  shows "run_tunnel 0 (x # xs) = apfst ((#) (SetStatus (DsConnected url))) (run_tunnel 0 xs)"
  using assms by (simp add: backoff_seconds_def)

section \<open>Lines over the socket\<close>

lemma read_line_append: "LF \<notin> set l \<Longrightarrow> read_line (l @ LF # rest) = (l @ [LF], rest)"
  by (induction l) auto

text \<open>Requests written one after the other are read in order, when the JSON text is one line.\<close>

lemma ipc_recv_send:
  assumes "LF \<notin> set (print x)" and "parse (print x @ [LF]) = Some x"
  shows "ipc_recv parse (ipc_send print x @ rest) = (Ok x, rest)"
  using assms by (simp add: ipc_recv_def ipc_send_def read_line_append)

lemma ipc_command_queued:
  assumes "LF \<notin> set (print_req req)" and "parse_req (print_req req @ [LF]) = Some req"
    and "req \<notin> {IpcGetStatus, IpcPing}"
  shows "\<exists>m cmd. ipc_serve parse_req print now (Some True) (ipc_send print_req req) d = (ipc_send print (IpcOk (Some m)), Some cmd)"
  using assms ipc_recv_send [of print_req req parse_req "[]"]
  by (cases req) (auto simp: ipc_serve_def handle_ipc_request_def forward_command_def)

text \<open>A second daemon is told so when it binds, and goes on without the socket.\<close>

lemma second_daemon_has_no_socket: "fst (ipc_bind (snd (ipc_bind NoSocket))) = Err ''Another daemon is already running''"
  by (simp add: ipc_bind_def)

end
