(* ===== verification/DesktopTasks.thy ===== *)
theory DesktopTasks
  imports Daemon
begin

text \<open>
  The tasks in which the desktop application (\<open>apps/localup-desktop/src-tauri\<close>) runs tunnels, in its
  own process (\<open>state/app_state.rs\<close>) or in its daemon (\<open>daemon/service.rs\<close>). Both spawn a task per
  tunnel, keep a handle with the sender of its shutdown signal, and stop it by sending the signal and
  aborting. A task is the record of where in its loop it stands and what its receiver of the signal
  has seen; the two hosts share the operations on tasks and, as a locale, what holds of every host.
\<close>

section \<open>Tasks\<close>

text \<open>The receiver of a \<open>oneshot\<close> channel: nothing yet, the signal, or the sender was dropped without it.\<close>

datatype shutdown_signal = NotSent | Sent | SenderGone

text \<open>
  Before an attempt (with the number of failed ones), while connecting, connected with the metrics
  stored but the status not yet written, and connected.
\<close>

datatype task_phase = AtHead nat | Connecting nat | Attached "string option" | Holding

record tunnel_task =
  tk_tunnel :: string
  tk_config :: ClientConfig
  tk_phase :: task_phase
  tk_signal :: shutdown_signal

text \<open>The tasks that have not ended, by the number they were spawned with.\<close>

record task_pool =
  tp_tasks :: "nat \<rightharpoonup> tunnel_task"
  tp_next :: nat

definition no_tasks :: task_pool where
  "no_tasks = \<lparr>tp_tasks = Map.empty, tp_next = 0\<rparr>"

definition spawn_task :: "string \<Rightarrow> ClientConfig \<Rightarrow> task_pool \<Rightarrow> task_pool" where
  "spawn_task i c p =
     p\<lparr>tp_tasks := (tp_tasks p)(tp_next p \<mapsto> \<lparr>tk_tunnel = i, tk_config = c, tk_phase = AtHead 0, tk_signal = NotSent\<rparr>),
       tp_next := tp_next p + 1\<rparr>"

definition abort_task :: "nat \<Rightarrow> task_pool \<Rightarrow> task_pool" where
  "abort_task t p = p\<lparr>tp_tasks := (tp_tasks p)(t := None)\<rparr>"

definition change_task :: "(tunnel_task \<Rightarrow> tunnel_task) \<Rightarrow> nat \<Rightarrow> task_pool \<Rightarrow> task_pool" where
  "change_task f t p =
     (case tp_tasks p t of None \<Rightarrow> p | Some k \<Rightarrow> p\<lparr>tp_tasks := (tp_tasks p)(t \<mapsto> f k)\<rparr>)"

definition signal_task :: "shutdown_signal \<Rightarrow> nat \<Rightarrow> task_pool \<Rightarrow> task_pool" where
  "signal_task g = change_task (\<lambda>k. k\<lparr>tk_signal := g\<rparr>)"

definition set_phase :: "task_phase \<Rightarrow> nat \<Rightarrow> task_pool \<Rightarrow> task_pool" where
  "set_phase ph = change_task (\<lambda>k. k\<lparr>tk_phase := ph\<rparr>)"

text \<open>
  What lets a task go on: the pause before an attempt is over or the next lock was got, connecting
  ended with the tunnel's address and metrics or failed, the connection ended, the receiver woke up.
\<close>

datatype 'm task_event = Proceed | ConnectOk "string option" 'm | ConnectErr TunnelError | ConnectionEnds | SignalSeen

lemma pool_simps [simp]:
  "tp_next (abort_task t p) = tp_next p"
  "tp_tasks (abort_task t p) = (tp_tasks p)(t := None)"
  "tp_next (change_task f t p) = tp_next p"
  "tp_tasks (change_task f t p) u = (if u = t then map_option f (tp_tasks p t) else tp_tasks p u)"
  "tp_next (spawn_task i c p) = tp_next p + 1"
  "tp_tasks (spawn_task i c p) =
     (tp_tasks p)(tp_next p \<mapsto> \<lparr>tk_tunnel = i, tk_config = c, tk_phase = AtHead 0, tk_signal = NotSent\<rparr>)"
  by (simp_all add: abort_task_def change_task_def spawn_task_def split: option.split)

lemmas task_changes = signal_task_def set_phase_def

text \<open>A step of task \<open>t\<close> ends it or leaves its tunnel and its receiver alone.\<close>

definition task_moves :: "nat \<Rightarrow> task_pool \<Rightarrow> task_pool \<Rightarrow> bool" where
  "task_moves t p p' \<longleftrightarrow>
     tp_next p' = tp_next p \<and> (\<forall>u. u \<noteq> t \<longrightarrow> tp_tasks p' u = tp_tasks p u) \<and>
     (case tp_tasks p' t of
        None \<Rightarrow> True
      | Some k' \<Rightarrow>
          (case tp_tasks p t of
             None \<Rightarrow> False
           | Some k \<Rightarrow> tk_tunnel k' = tk_tunnel k \<and> tk_signal k' = tk_signal k \<and> tk_config k' = tk_config k))"

lemma task_moves_refl [simp]: "task_moves t p p"
  by (auto simp: task_moves_def split: option.split)

lemma task_moves_abort [simp]: "task_moves t p (abort_task t p)"
  by (auto simp: task_moves_def)

lemma task_moves_phase [simp]: "task_moves t p (set_phase ph t p)"
  by (auto simp: task_moves_def task_changes split: option.split)

section \<open>Hosts of tasks\<close>

text \<open>
  A host keeps for every tunnel at most one handle. Starting a tunnel spawns its task and replaces the
  handle, so the sender of the replaced one is dropped; stopping takes the handle away and sends the
  signal, and aborts the task later.
\<close>

locale tunnel_host =
  fixes pool :: "'s \<Rightarrow> task_pool"
    and handle :: "'s \<Rightarrow> string \<Rightarrow> nat option"
    and start :: "string \<Rightarrow> ClientConfig \<Rightarrow> 's \<Rightarrow> 's"
    and signal :: "string \<Rightarrow> 's \<Rightarrow> 's"
    and abort :: "nat \<Rightarrow> 's \<Rightarrow> 's"
    and task_step :: "'e \<Rightarrow> nat \<Rightarrow> 's \<Rightarrow> 's"
  assumes start_pool: "pool (start i c s) =
      spawn_task i c (case handle s i of None \<Rightarrow> pool s | Some t \<Rightarrow> signal_task SenderGone t (pool s))"
    and start_handle: "handle (start i c s) = (handle s)(i \<mapsto> tp_next (pool s))"
    and signal_pool: "pool (signal i s) = (case handle s i of None \<Rightarrow> pool s | Some t \<Rightarrow> signal_task Sent t (pool s))"
    and signal_handle: "handle (signal i s) = (handle s)(i := None)"
    and abort_pool: "pool (abort t s) = abort_task t (pool s)"
    and abort_handle: "handle (abort t s) = handle s"
    and step_handle: "handle (task_step e t s) = handle s"
    and step_moves: "task_moves t (pool s) (pool (task_step e t s))"
begin

text \<open>The tasks whose sender is still held are exactly those the handles name.\<close>

definition controlled :: "'s \<Rightarrow> bool" where
  "controlled s \<longleftrightarrow>
     (\<forall>t k. tp_tasks (pool s) t = Some k \<longrightarrow>
        t < tp_next (pool s) \<and> (tk_signal k = NotSent \<longleftrightarrow> handle s (tk_tunnel k) = Some t)) \<and>
     (\<forall>i t. handle s i = Some t \<longrightarrow>
        t < tp_next (pool s) \<and> (\<forall>k. tp_tasks (pool s) t = Some k \<longrightarrow> tk_tunnel k = i))"

definition run :: "('e \<times> nat) list \<Rightarrow> 's \<Rightarrow> 's" where
  "run evs s = foldl (\<lambda>s (e, t). task_step e t s) s evs"

text \<open>\<open>alive i s\<close>: the tasks of tunnel \<open>i\<close>; \<open>stray\<close> ones have lost their sender.\<close>

definition alive :: "string \<Rightarrow> 's \<Rightarrow> nat set" where
  "alive i s = {t. \<exists>k. tp_tasks (pool s) t = Some k \<and> tk_tunnel k = i}"

definition stray :: "string \<Rightarrow> 's \<Rightarrow> nat set" where
  "stray i s = {t. \<exists>k. tp_tasks (pool s) t = Some k \<and> tk_tunnel k = i \<and> tk_signal k \<noteq> NotSent}"

lemma controlledD:
  assumes "controlled s"
  shows "tp_tasks (pool s) t = Some k \<Longrightarrow> t < tp_next (pool s)"
    and "tp_tasks (pool s) t = Some k \<Longrightarrow> tk_signal k = NotSent \<longleftrightarrow> handle s (tk_tunnel k) = Some t"
    and "handle s i = Some t \<Longrightarrow> t < tp_next (pool s)"
    and "handle s i = Some t \<Longrightarrow> tp_tasks (pool s) t = Some k \<Longrightarrow> tk_tunnel k = i"
  using assms by (auto simp: controlled_def)

lemma controlledI:
  assumes "\<And>t k. tp_tasks (pool s) t = Some k \<Longrightarrow>
      t < tp_next (pool s) \<and> (tk_signal k = NotSent \<longleftrightarrow> handle s (tk_tunnel k) = Some t)"
    and "\<And>i t. handle s i = Some t \<Longrightarrow> t < tp_next (pool s)"
    and "\<And>i t k. handle s i = Some t \<Longrightarrow> tp_tasks (pool s) t = Some k \<Longrightarrow> tk_tunnel k = i"
  shows "controlled s"
  using assms by (simp add: controlled_def)

text \<open>A task of a state in which the handle of \<open>i\<close> was signalled.\<close>

lemma signalled_task:
  assumes "tp_tasks (case handle s i of None \<Rightarrow> pool s | Some t \<Rightarrow> signal_task g t (pool s)) u = Some k"
  obtains k0 where "tp_tasks (pool s) u = Some k0" "tk_tunnel k = tk_tunnel k0"
    "tk_signal k = (if handle s i = Some u then g else tk_signal k0)"
  using assms by (cases "handle s i") (auto simp: task_changes split: if_splits)

lemma signalled_next: "tp_next (case handle s i of None \<Rightarrow> pool s | Some t \<Rightarrow> signal_task g t (pool s)) = tp_next (pool s)"
  by (simp add: task_changes split: option.split)

lemma start_controlled:
  assumes "controlled s"
  shows "controlled (start i c s)"
proof (rule controlledI)
  let ?n = "tp_next (pool s)"
  fix t k
  assume k: "tp_tasks (pool (start i c s)) t = Some k"
  show "t < tp_next (pool (start i c s)) \<and> (tk_signal k = NotSent \<longleftrightarrow> handle (start i c s) (tk_tunnel k) = Some t)"
  proof (cases "t = ?n")
    case True
    then show ?thesis using k by (auto simp: start_pool start_handle signalled_next)
  next
    case False
    then have "tp_tasks (case handle s i of None \<Rightarrow> pool s | Some t \<Rightarrow> signal_task SenderGone t (pool s)) t = Some k"
      using k by (simp add: start_pool signalled_next)
    then obtain k0 where k0: "tp_tasks (pool s) t = Some k0" "tk_tunnel k = tk_tunnel k0"
      and sig: "tk_signal k = (if handle s i = Some t then SenderGone else tk_signal k0)"
      by (rule signalled_task)
    note D = controlledD(1,2) [OF assms k0(1)]
    have "handle s i = Some t \<Longrightarrow> tk_tunnel k0 = i" using controlledD(4) [OF assms _ k0(1)] by blast
    then show ?thesis using D False k0(2) sig by (auto simp: start_handle start_pool signalled_next)
  qed
next
  fix j t
  assume "handle (start i c s) j = Some t"
  then show "t < tp_next (pool (start i c s))"
    using controlledD(3) [OF assms, of j t] by (auto simp: start_handle start_pool signalled_next split: if_splits)
next
  fix j t k
  assume h: "handle (start i c s) j = Some t" and k: "tp_tasks (pool (start i c s)) t = Some k"
  show "tk_tunnel k = j"
  proof (cases "j = i")
    case True
    then show ?thesis using h k by (auto simp: start_handle start_pool signalled_next)
  next
    case False
    then have h': "handle s j = Some t" using h by (simp add: start_handle)
    then have "t \<noteq> tp_next (pool s)" using controlledD(3) [OF assms] by blast
    then have "tp_tasks (case handle s i of None \<Rightarrow> pool s | Some t \<Rightarrow> signal_task SenderGone t (pool s)) t = Some k"
      using k by (simp add: start_pool signalled_next)
    then obtain k0 where "tp_tasks (pool s) t = Some k0" "tk_tunnel k = tk_tunnel k0" by (rule signalled_task)
    then show ?thesis using controlledD(4) [OF assms h'] by simp
  qed
qed

lemma signal_controlled:
  assumes "controlled s"
  shows "controlled (signal i s)"
proof (rule controlledI)
  fix t k
  assume "tp_tasks (pool (signal i s)) t = Some k"
  then obtain k0 where k0: "tp_tasks (pool s) t = Some k0" "tk_tunnel k = tk_tunnel k0"
      and sig: "tk_signal k = (if handle s i = Some t then Sent else tk_signal k0)"
    unfolding signal_pool by (rule signalled_task)
  have "handle s i = Some t \<Longrightarrow> tk_tunnel k0 = i" using controlledD(4) [OF assms _ k0(1)] by blast
  then show "t < tp_next (pool (signal i s)) \<and> (tk_signal k = NotSent \<longleftrightarrow> handle (signal i s) (tk_tunnel k) = Some t)"
    using controlledD(1,2) [OF assms k0(1)] k0(2) sig by (auto simp: signal_pool signal_handle signalled_next)
next
  fix j t
  assume "handle (signal i s) j = Some t"
  then have h: "handle s j = Some t" by (simp add: signal_handle split: if_splits)
  then show "t < tp_next (pool (signal i s))" using controlledD(3) [OF assms h] by (simp add: signal_pool signalled_next)
  fix k
  assume "tp_tasks (pool (signal i s)) t = Some k"
  then obtain k0 where "tp_tasks (pool s) t = Some k0" "tk_tunnel k = tk_tunnel k0"
    unfolding signal_pool by (rule signalled_task)
  then show "tk_tunnel k = j" using controlledD(4) [OF assms h] by simp
qed

lemma abort_controlled: "controlled s \<Longrightarrow> controlled (abort t s)"
  by (auto simp: controlled_def abort_pool abort_handle)

lemma step_tasks:
  assumes "tp_tasks (pool (task_step e t s)) u = Some k'"
  obtains k where "tp_tasks (pool s) u = Some k" "tk_tunnel k' = tk_tunnel k" "tk_signal k' = tk_signal k"
  using step_moves [of t s e] assms
  by (cases "u = t") (auto simp: task_moves_def split: option.splits)

lemma step_controlled:
  assumes "controlled s"
  shows "controlled (task_step e t s)"
proof (rule controlledI)
  have nxt: "tp_next (pool (task_step e t s)) = tp_next (pool s)" using step_moves [of t s e] by (simp add: task_moves_def)
  fix u k
  assume "tp_tasks (pool (task_step e t s)) u = Some k"
  then obtain k0 where k0: "tp_tasks (pool s) u = Some k0" "tk_tunnel k = tk_tunnel k0" "tk_signal k = tk_signal k0"
    by (rule step_tasks)
  then show "u < tp_next (pool (task_step e t s)) \<and> (tk_signal k = NotSent \<longleftrightarrow> handle (task_step e t s) (tk_tunnel k) = Some u)"
    using controlledD(1,2) [OF assms k0(1)] by (simp add: nxt step_handle)
  fix i
  assume "handle (task_step e t s) i = Some u"
  then show "tk_tunnel k = i" using controlledD(4) [OF assms _ k0(1)] k0(2) by (simp add: step_handle)
next
  fix i u
  assume "handle (task_step e t s) i = Some u"
  then show "u < tp_next (pool (task_step e t s))"
    using controlledD(3) [OF assms] step_moves [of t s e] by (simp add: step_handle task_moves_def)
qed

lemma run_controlled: "controlled s \<Longrightarrow> controlled (run evs s)"
  unfolding run_def by (induction evs arbitrary: s) (auto intro: step_controlled)

lemma run_handle: "handle (run evs s) = handle s"
  unfolding run_def by (induction evs arbitrary: s) (auto simp: step_handle)

lemma run_stray: "stray i (run evs s) \<subseteq> stray i s"
  unfolding run_def
proof (induction evs arbitrary: s)
  case (Cons ev evs)
  have "stray i (task_step e t s) \<subseteq> stray i s" for e t by (auto simp: stray_def elim!: step_tasks)
  with Cons show ?case by (cases ev) fastforce
qed simp

lemma controlled_handle:
  assumes "controlled s" and "t \<in> alive i s - stray i s"
  shows "handle s i = Some t"
proof -
  obtain k where "tp_tasks (pool s) t = Some k" "tk_tunnel k = i" "tk_signal k = NotSent"
    using assms(2) unfolding alive_def stray_def by blast
  then show ?thesis using controlledD(2) [OF assms(1)] by blast
qed

lemma controlled_unique:
  "controlled s \<Longrightarrow> t \<in> alive i s - stray i s \<Longrightarrow> u \<in> alive i s - stray i s \<Longrightarrow> t = u"
  using controlled_handle [of s t i] controlled_handle [of s u i] by simp

text \<open>Stopping a tunnel leaves only tasks that had lost their sender before.\<close>

lemma stop_leaves_stray:
  assumes "controlled s" and "handle s i = Some t"
  shows "alive i (abort t (run evs (signal i s))) \<subseteq> stray i s"
proof
  fix u
  assume "u \<in> alive i (abort t (run evs (signal i s)))"
  then obtain k where k: "tp_tasks (pool (run evs (signal i s))) u = Some k" "tk_tunnel k = i" and "u \<noteq> t"
    by (auto simp: alive_def abort_pool split: if_splits)
  have "tk_signal k \<noteq> NotSent"
    using controlledD(2) [OF run_controlled [OF signal_controlled [OF assms(1)]] k(1)] k(2)
    by (simp add: run_handle signal_handle)
  then have "u \<in> stray i (run evs (signal i s))" using k by (auto simp: stray_def)
  then have "u \<in> stray i (signal i s)" using run_stray by blast
  then show "u \<in> stray i s"
    using \<open>u \<noteq> t\<close> assms(2) by (auto simp: stray_def signal_pool task_changes split: if_splits)
qed

lemma stop_without_handle: "controlled s \<Longrightarrow> handle s i = None \<Longrightarrow> alive i s \<subseteq> stray i s"
  using controlled_handle by fastforce

text \<open>Starting a tunnel that has a task leaves that task behind without a sender.\<close>

lemma start_over_alive:
  assumes "controlled s" and "handle s i = Some t" and "t \<in> alive i s"
  shows "t \<in> stray i (start i c s) \<and> tp_next (pool s) \<in> alive i (start i c s)"
proof -
  have "t < tp_next (pool s)" using controlledD(3) [OF assms(1,2)] .
  then show ?thesis using assms(2,3) by (auto simp: alive_def stray_def start_pool task_changes)
qed

lemma start_fresh_stray:
  assumes "controlled s" and "alive i s = {}"
  shows "stray i (start i c s) = {} \<and> alive i (start i c s) = {tp_next (pool s)}"
proof -
  have none: "tp_tasks (pool s) u \<noteq> Some k \<or> tk_tunnel k \<noteq> i" for u k using assms(2) by (auto simp: alive_def)
  have gone: "tp_tasks (pool s) t = None" if "handle s i = Some t" for t
    using controlledD(4) [OF assms(1) that] none by (cases "tp_tasks (pool s) t") blast+
  then have tasks: "tp_tasks (pool (start i c s)) = (tp_tasks (pool s))(tp_next (pool s) \<mapsto>
      \<lparr>tk_tunnel = i, tk_config = c, tk_phase = AtHead 0, tk_signal = NotSent\<rparr>)"
    by (cases "handle s i") (auto simp: start_pool task_changes fun_eq_iff)
  show ?thesis using none unfolding alive_def stray_def tasks by (auto split: if_splits)
qed

end

end
