(* ===== verification/Desktop.thy ===== *)
theory Desktop
  imports DesktopTasks Metrics
begin

text \<open>
  The desktop application (\<open>apps/localup-desktop/src-tauri/src\<close>) with its tunnels in process: the tables
  of relays and tunnels, the manager that holds the status of each tunnel (\<open>state/tunnel_manager.rs\<close>),
  the tasks that run them (\<open>state/app_state.rs\<close>) and the commands of the user interface
  (\<open>commands/tunnels.rs\<close>, \<open>commands/relays.rs\<close>). Commands come one after the other, tasks take their
  steps in between; where a command sleeps, the steps taken meanwhile are its argument \<open>evs\<close>. \<open>dbf n\<close> is
  the error of the \<open>n\<close>-th database call of a command; JSON, clock and new identifiers are parameters.
\<close>

section \<open>State\<close>

record tunnel_config_row =
  tc_id :: string
  tc_name :: string
  tc_relay_server_id :: string
  tc_local_host :: string
  tc_local_port :: "32 word"
  tc_protocol :: string
  tc_subdomain :: "string option"
  tc_custom_domain :: "string option"
  tc_auto_start :: bool
  tc_enabled :: bool
  tc_ip_allowlist :: "string option"
  tc_created_at :: int
  tc_updated_at :: int

record relay_server_row =
  rs_id :: string
  rs_name :: string
  rs_address :: string
  rs_jwt_token :: "string option"
  rs_protocol :: string
  rs_insecure :: bool
  rs_is_default :: bool
  rs_supported_protocols :: string
  rs_created_at :: int
  rs_updated_at :: int

record captured_row =
  cp_id :: string
  cp_tunnel_session_id :: string
  cp_localup_id :: string
  cp_method :: string
  cp_path :: string
  cp_host :: "string option"
  cp_headers :: string
  cp_body :: "string option"
  cp_status :: "32 word option"
  cp_response_headers :: "string option"
  cp_response_body :: "string option"
  cp_created_at :: int
  cp_latency_ms :: "32 word option"

datatype ManagedStatus = MsConnecting | MsConnected | MsDisconnected | MsError

fun managed_status_str :: "ManagedStatus \<Rightarrow> string" where
  "managed_status_str MsConnecting = ''connecting''"
| "managed_status_str MsConnected = ''connected''"
| "managed_status_str MsDisconnected = ''disconnected''"
| "managed_status_str MsError = ''error''"

record ManagedTunnel =
  mt_config_id :: string
  mt_status :: ManagedStatus
  mt_public_url :: "string option"
  mt_localup_id :: "string option"
  mt_error_message :: "string option"

type_synonym tunnel_manager = "string \<rightharpoonup> ManagedTunnel"

record ('j, 'h) app_state =
  ap_tunnels :: "tunnel_config_row list"
  ap_relays :: "relay_server_row list"
  ap_captured :: "captured_row list"
  ap_manager :: tunnel_manager
  ap_handles :: "string \<rightharpoonup> nat"
  ap_metrics :: "string \<rightharpoonup> ('j, 'h) MetricsStore"
  ap_pool :: task_pool

definition app_new :: "tunnel_config_row list \<Rightarrow> relay_server_row list \<Rightarrow> captured_row list \<Rightarrow> ('j, 'h) app_state" where
  "app_new ts rs cs =
     \<lparr>ap_tunnels = ts, ap_relays = rs, ap_captured = cs, ap_manager = Map.empty, ap_handles = Map.empty,
      ap_metrics = Map.empty, ap_pool = no_tasks\<rparr>"

section \<open>The manager\<close>

definition manager_is_running :: "string \<Rightarrow> tunnel_manager \<Rightarrow> bool" where
  "manager_is_running i m =
     (case m i of None \<Rightarrow> False | Some t \<Rightarrow> mt_status t = MsConnected \<or> mt_status t = MsConnecting)"

definition manager_update_status ::
  "string \<Rightarrow> ManagedStatus \<Rightarrow> string option \<Rightarrow> string option \<Rightarrow> string option \<Rightarrow> tunnel_manager \<Rightarrow> tunnel_manager" where
  "manager_update_status i st url lid err m =
     (case m i of
        Some t \<Rightarrow> m(i \<mapsto> t\<lparr>mt_status := st, mt_public_url := url, mt_localup_id := lid, mt_error_message := err\<rparr>)
      | None \<Rightarrow> m(i \<mapsto> \<lparr>mt_config_id = i, mt_status = st, mt_public_url = url, mt_localup_id = lid, mt_error_message = err\<rparr>))"

definition manager_remove :: "string \<Rightarrow> tunnel_manager \<Rightarrow> tunnel_manager" where
  "manager_remove i m = m(i := None)"

text \<open>The application never passes the identifier of the tunnel on.\<close>

definition set_status :: "string \<Rightarrow> ManagedStatus \<Rightarrow> string option \<Rightarrow> string option \<Rightarrow> ('j, 'h) app_state \<Rightarrow> ('j, 'h) app_state" where
  "set_status i st url err s = s\<lparr>ap_manager := manager_update_status i st url None err (ap_manager s)\<rparr>"

definition drop_metrics :: "string \<Rightarrow> ('j, 'h) app_state \<Rightarrow> ('j, 'h) app_state" where
  "drop_metrics i s = s\<lparr>ap_metrics := (ap_metrics s)(i := None)\<rparr>"

section \<open>The task of a tunnel\<close>

definition app_set_phase :: "task_phase \<Rightarrow> nat \<Rightarrow> ('j, 'h) app_state \<Rightarrow> ('j, 'h) app_state" where
  "app_set_phase ph t s = s\<lparr>ap_pool := set_phase ph t (ap_pool s)\<rparr>"

definition app_abort :: "nat \<Rightarrow> ('j, 'h) app_state \<Rightarrow> ('j, 'h) app_state" where
  "app_abort t s = s\<lparr>ap_pool := abort_task t (ap_pool s)\<rparr>"

definition halt_task :: "nat \<Rightarrow> string \<Rightarrow> ('j, 'h) app_state \<Rightarrow> ('j, 'h) app_state" where
  "halt_task t i s = app_abort t (drop_metrics i (set_status i MsDisconnected None None s))"

text \<open>
  One step of \<open>run_tunnel\<close>, as far as the next lock or wait. \<open>try_recv\<close> succeeds only when the signal was
  sent; the branch of \<open>select!\<close> on the receiver is taken for a dropped sender as well. The 65th failure
  in a row overflows the computation of the pause and the task panics.
\<close>

definition app_task_step :: "('j, 'h) MetricsStore task_event \<Rightarrow> nat \<Rightarrow> ('j, 'h) app_state \<Rightarrow> ('j, 'h) app_state" where
  "app_task_step ev t s =
     (case tp_tasks (ap_pool s) t of
        None \<Rightarrow> s
      | Some k \<Rightarrow>
          (let i = tk_tunnel k in
           case (tk_phase k, ev) of
             (AtHead n, Proceed) \<Rightarrow>
               (case backoff_seconds n of
                  Panicked \<Rightarrow> app_abort t s
                | Returned _ \<Rightarrow>
                    if tk_signal k = Sent then halt_task t i s
                    else app_set_phase (Connecting n) t (set_status i MsConnecting None None s))
           | (Connecting n, ConnectOk url m) \<Rightarrow>
               app_set_phase (Attached url) t (s\<lparr>ap_metrics := (ap_metrics s)(i \<mapsto> m)\<rparr>)
           | (Connecting n, ConnectErr e) \<Rightarrow>
               (let s1 = set_status i MsError None (Some (tunnel_error_display e)) s
                in if is_non_recoverable e then app_abort t (drop_metrics i s1)
                   else if tk_signal k = Sent then halt_task t i s1
                   else app_set_phase (AtHead (n + 1)) t s1)
           | (Attached url, Proceed) \<Rightarrow> app_set_phase Holding t (set_status i MsConnected url None s)
           | (Holding, ConnectionEnds) \<Rightarrow> app_set_phase (AtHead 1) t (set_status i MsDisconnected None None s)
           | (Holding, SignalSeen) \<Rightarrow> if tk_signal k = NotSent then s else halt_task t i s
           | _ \<Rightarrow> s))"

definition app_run :: "(('j, 'h) MetricsStore task_event \<times> nat) list \<Rightarrow> ('j, 'h) app_state \<Rightarrow> ('j, 'h) app_state" where
  "app_run evs s = foldl (\<lambda>s (e, t). app_task_step e t s) s evs"

section \<open>Starting and stopping\<close>

definition app_protocol_config :: "tunnel_config_row \<Rightarrow> (string, ProtocolConfig) result" where
  "app_protocol_config c =
     (let port = ucast (tc_local_port c) in
      if tc_protocol c = ''http'' then Ok (PcHttp port (tc_subdomain c) (tc_custom_domain c))
      else if tc_protocol c = ''https'' then Ok (PcHttps port (tc_subdomain c) (tc_custom_domain c))
      else if tc_protocol c = ''tcp'' then Ok (PcTcp port None)
      else if tc_protocol c = ''tls'' then
        Ok (PcTls port (case tc_custom_domain c of Some d \<Rightarrow> [d] | None \<Rightarrow> []) None)
      else Err (''Unknown protocol: '' @ tc_protocol c))"

record list_json =
  lj_parse :: "string \<Rightarrow> string list option"
  lj_print :: "string list \<Rightarrow> string"

definition parse_ip_allowlist :: "list_json \<Rightarrow> string option \<Rightarrow> string list" where
  "parse_ip_allowlist J txt_opt = (case Option.bind txt_opt (lj_parse J) of Some l \<Rightarrow> l | None \<Rightarrow> [])"

definition serialize_ip_allowlist :: "list_json \<Rightarrow> string list option \<Rightarrow> string option" where
  "serialize_ip_allowlist J l = map_option (lj_print J) l"

definition app_client_config :: "list_json \<Rightarrow> tunnel_config_row \<Rightarrow> relay_server_row \<Rightarrow> ProtocolConfig \<Rightarrow> ClientConfig" where
  "app_client_config J c r p =
     client_config_default\<lparr>cc_local_host := tc_local_host c, cc_protocols := [p],
       cc_auth_token := (case rs_jwt_token r of Some t \<Rightarrow> t | None \<Rightarrow> []),
       cc_exit_node := Custom (rs_address r), cc_ip_allowlist := parse_ip_allowlist J (tc_ip_allowlist c)\<rparr>"

text \<open>Storing the handle drops the one that was there.\<close>

definition app_spawn :: "string \<Rightarrow> ClientConfig \<Rightarrow> ('j, 'h) app_state \<Rightarrow> ('j, 'h) app_state" where
  "app_spawn i c s =
     s\<lparr>ap_handles := (ap_handles s)(i \<mapsto> tp_next (ap_pool s)),
       ap_pool := spawn_task i c
         (case ap_handles s i of None \<Rightarrow> ap_pool s | Some t \<Rightarrow> signal_task SenderGone t (ap_pool s))\<rparr>"

definition start_tunnel_in_process ::
  "list_json \<Rightarrow> string \<Rightarrow> tunnel_config_row \<Rightarrow> relay_server_row \<Rightarrow> ('j, 'h) app_state \<Rightarrow> (string, unit) result \<times> ('j, 'h) app_state" where
  "start_tunnel_in_process J i c r s =
     (let s1 = set_status i MsConnecting None None s in
      case app_protocol_config c of
        Err e \<Rightarrow> (Err e, s1)
      | Ok p \<Rightarrow> (Ok (), app_spawn i (app_client_config J c r p) s1))"

definition app_signal :: "string \<Rightarrow> ('j, 'h) app_state \<Rightarrow> ('j, 'h) app_state" where
  "app_signal i s =
     s\<lparr>ap_handles := (ap_handles s)(i := None),
       ap_pool := (case ap_handles s i of None \<Rightarrow> ap_pool s | Some t \<Rightarrow> signal_task Sent t (ap_pool s))\<rparr>"

definition stop_tunnel_internal ::
  "(('j, 'h) MetricsStore task_event \<times> nat) list \<Rightarrow> string \<Rightarrow> ('j, 'h) app_state \<Rightarrow> ('j, 'h) app_state" where
  "stop_tunnel_internal evs i s =
     drop_metrics i (set_status i MsDisconnected None None
       (case ap_handles s i of None \<Rightarrow> s | Some t \<Rightarrow> app_abort t (app_run evs (app_signal i s))))"

text \<open>At launch: a tunnel that cannot be configured is skipped.\<close>

definition find_tunnel_row :: "string \<Rightarrow> ('j, 'h) app_state \<Rightarrow> tunnel_config_row option" where
  "find_tunnel_row i s = List.find (\<lambda>c. tc_id c = i) (ap_tunnels s)"

definition find_relay_row :: "string \<Rightarrow> ('j, 'h) app_state \<Rightarrow> relay_server_row option" where
  "find_relay_row i s = List.find (\<lambda>r. rs_id r = i) (ap_relays s)"

definition auto_start_one :: "list_json \<Rightarrow> ('j, 'h) app_state \<Rightarrow> tunnel_config_row \<Rightarrow> ('j, 'h) app_state" where
  "auto_start_one J s c =
     (case find_relay_row (tc_relay_server_id c) s of
        None \<Rightarrow> s
      | Some r \<Rightarrow>
          (case app_protocol_config c of
             Err _ \<Rightarrow> s
           | Ok p \<Rightarrow> app_spawn (tc_id c) (app_client_config J c r p) (set_status (tc_id c) MsConnecting None None s)))"

definition start_auto_start_tunnels :: "list_json \<Rightarrow> (nat \<Rightarrow> string option) \<Rightarrow> ('j, 'h) app_state \<Rightarrow> ('j, 'h) app_state" where
  "start_auto_start_tunnels J dbf s =
     (if dbf 0 \<noteq> None then s
      else let ts = filter (\<lambda>c. tc_auto_start c \<and> tc_enabled c) (ap_tunnels s)
           in if ts = [] \<or> dbf 1 \<noteq> None then s else foldl (auto_start_one J) s ts)"

section \<open>Views\<close>

text \<open>The status of the local service, from the metrics of the last minute; times in milliseconds.\<close>

definition app_metrics_paginated :: "string \<Rightarrow> nat \<Rightarrow> nat \<Rightarrow> ('j, 'h) app_state \<Rightarrow> 'j HttpMetric list \<times> nat" where
  "app_metrics_paginated i offset limit s =
     (case ap_metrics s i of
        Some m \<Rightarrow> (get_paginated offset limit m, length (metrics m))
      | None \<Rightarrow> ([], 0))"

definition app_tcp_paginated :: "string \<Rightarrow> nat \<Rightarrow> nat \<Rightarrow> ('j, 'h) app_state \<Rightarrow> TcpMetric list \<times> nat" where
  "app_tcp_paginated i offset limit s =
     (case ap_metrics s i of
        Some m \<Rightarrow> (take limit (drop offset (rev (tcp_connections m))), length (tcp_connections m))
      | None \<Rightarrow> ([], 0))"

record UpstreamInfo =
  ui_status :: string
  ui_recent_502_count :: "nat option"
  ui_total_count :: "nat option"

definition app_upstream_status :: "u64 \<Rightarrow> string \<Rightarrow> ('j, 'h) app_state \<Rightarrow> UpstreamInfo" where
  "app_upstream_status now i s =
     (let ms = filter (\<lambda>m. hm_timestamp m \<ge> now - 60000) (fst (app_metrics_paginated i 0 100 s));
          tot = length ms;
          bad = length (filter (\<lambda>m. hm_response_status m = Some 502) ms);
          pending = length (filter (\<lambda>m. hm_response_status m = None \<and> hm_error m = None) ms)
      in case ms of
           [] \<Rightarrow> \<lparr>ui_status = ''unknown'', ui_recent_502_count = None, ui_total_count = None\<rparr>
         | m # _ \<Rightarrow>
             \<lparr>ui_status =
                (if bad > 0 then
                   (if hm_response_status m = Some 502 then ''down''
                    else if hm_response_status m = None \<and> hm_error m = None then ''down''
                    else if bad * 2 > tot then ''down'' else ''up'')
                 else if pending > 0 \<and> pending = tot then ''down''
                 else ''up''),
              ui_recent_502_count = Some bad, ui_total_count = Some tot\<rparr>)"

record TunnelResponse =
  dv_id :: string
  dv_name :: string
  dv_relay_id :: string
  dv_relay_name :: "string option"
  dv_local_host :: string
  dv_local_port :: u16
  dv_protocol :: string
  dv_subdomain :: "string option"
  dv_custom_domain :: "string option"
  dv_auto_start :: bool
  dv_enabled :: bool
  dv_ip_allowlist :: "string list"
  dv_status :: string
  dv_public_url :: "string option"
  dv_localup_id :: "string option"
  dv_error_message :: "string option"
  dv_upstream_status :: string
  dv_recent_upstream_errors :: "nat option"
  dv_recent_request_count :: "nat option"
  dv_created_at :: int
  dv_updated_at :: int

type_synonym shown = "string \<times> string option \<times> string option \<times> string option"

definition managed_view :: "ManagedTunnel \<Rightarrow> shown" where
  "managed_view t = (managed_status_str (mt_status t), mt_public_url t, mt_localup_id t, mt_error_message t)"

definition shown_state :: "string \<Rightarrow> ('j, 'h) app_state \<Rightarrow> shown" where
  "shown_state i s = (case ap_manager s i of Some t \<Rightarrow> managed_view t | None \<Rightarrow> (''disconnected'', None, None, None))"

definition tunnel_response ::
  "list_json \<Rightarrow> tunnel_config_row \<Rightarrow> string option \<Rightarrow> shown \<Rightarrow> UpstreamInfo \<Rightarrow> TunnelResponse" where
  "tunnel_response J c relay_name sh up =
     (case sh of (st, url, lid, err) \<Rightarrow>
        \<lparr>dv_id = tc_id c, dv_name = tc_name c, dv_relay_id = tc_relay_server_id c, dv_relay_name = relay_name,
         dv_local_host = tc_local_host c, dv_local_port = ucast (tc_local_port c), dv_protocol = tc_protocol c,
         dv_subdomain = tc_subdomain c, dv_custom_domain = tc_custom_domain c, dv_auto_start = tc_auto_start c,
         dv_enabled = tc_enabled c, dv_ip_allowlist = parse_ip_allowlist J (tc_ip_allowlist c),
         dv_status = st, dv_public_url = url, dv_localup_id = lid, dv_error_message = err,
         dv_upstream_status = ui_status up, dv_recent_upstream_errors = ui_recent_502_count up,
         dv_recent_request_count = ui_total_count up, dv_created_at = tc_created_at c, dv_updated_at = tc_updated_at c\<rparr>)"

definition app_list_tunnels :: "list_json \<Rightarrow> (nat \<Rightarrow> string option) \<Rightarrow> u64 \<Rightarrow> ('j, 'h) app_state \<Rightarrow> (string, TunnelResponse list) result" where
  "app_list_tunnels J dbf now s =
     (case dbf 0 of
        Some e \<Rightarrow> Err (''Failed to list tunnels: '' @ e)
      | None \<Rightarrow>
          (case dbf 1 of
             Some e \<Rightarrow> Err (''Failed to list relays: '' @ e)
           | None \<Rightarrow>
               Ok (map (\<lambda>c. tunnel_response J c (map_option rs_name (find_relay_row (tc_relay_server_id c) s))
                              (shown_state (tc_id c) s) (app_upstream_status now (tc_id c) s)) (ap_tunnels s))))"

definition app_get_tunnel :: "list_json \<Rightarrow> (nat \<Rightarrow> string option) \<Rightarrow> u64 \<Rightarrow> string \<Rightarrow> ('j, 'h) app_state \<Rightarrow> (string, TunnelResponse option) result" where
  "app_get_tunnel J dbf now i s =
     (case dbf 0 of
        Some e \<Rightarrow> Err (''Failed to get tunnel: '' @ e)
      | None \<Rightarrow>
          (case find_tunnel_row i s of
             None \<Rightarrow> Ok None
           | Some c \<Rightarrow>
               (case dbf 1 of
                  Some e \<Rightarrow> Err (''Failed to get relay: '' @ e)
                | None \<Rightarrow>
                    Ok (Some (tunnel_response J c (map_option rs_name (find_relay_row (tc_relay_server_id c) s))
                                (shown_state (tc_id c) s) (app_upstream_status now i s))))))"

text \<open>\<open>get_tunnel(state, id).await?.ok_or_else(..)\<close> at the end of a command; its database calls follow the command's.\<close>

definition answer_tunnel ::
  "list_json \<Rightarrow> (nat \<Rightarrow> string option) \<Rightarrow> u64 \<Rightarrow> string \<Rightarrow> ('j, 'h) app_state \<Rightarrow> (string, TunnelResponse) result" where
  "answer_tunnel J dbf now i s =
     (case app_get_tunnel J dbf now i s of
        Err e \<Rightarrow> Err e
      | Ok None \<Rightarrow> Err ''Tunnel not found''
      | Ok (Some r) \<Rightarrow> Ok r)"


section \<open>Commands on tunnels\<close>

record CreateTunnelRequest =
  ct_name :: string
  ct_relay_id :: string
  ct_local_host :: "string option"
  ct_local_port :: u16
  ct_protocol :: string
  ct_subdomain :: "string option"
  ct_custom_domain :: "string option"
  ct_auto_start :: "bool option"
  ct_ip_allowlist :: "string list option"

record UpdateTunnelRequest =
  ut_name :: "string option"
  ut_relay_id :: "string option"
  ut_local_host :: "string option"
  ut_local_port :: "u16 option"
  ut_protocol :: "string option"
  ut_subdomain :: "string option"
  ut_custom_domain :: "string option"
  ut_auto_start :: "bool option"
  ut_enabled :: "bool option"
  ut_ip_allowlist :: "string list option"

definition or_default :: "'a option \<Rightarrow> 'a \<Rightarrow> 'a" where
  "or_default x d = (case x of Some v \<Rightarrow> v | None \<Rightarrow> d)"

definition created_row :: "list_json \<Rightarrow> int \<Rightarrow> string \<Rightarrow> CreateTunnelRequest \<Rightarrow> tunnel_config_row" where
  "created_row J now i q =
     \<lparr>tc_id = i, tc_name = ct_name q, tc_relay_server_id = ct_relay_id q,
      tc_local_host = or_default (ct_local_host q) ''localhost'', tc_local_port = ucast (ct_local_port q),
      tc_protocol = ct_protocol q, tc_subdomain = ct_subdomain q, tc_custom_domain = ct_custom_domain q,
      tc_auto_start = or_default (ct_auto_start q) False, tc_enabled = True,
      tc_ip_allowlist = serialize_ip_allowlist J (ct_ip_allowlist q), tc_created_at = now, tc_updated_at = now\<rparr>"

definition insert_tunnel_row :: "string option \<Rightarrow> tunnel_config_row \<Rightarrow> ('j, 'h) app_state \<Rightarrow> (string, ('j, 'h) app_state) result" where
  "insert_tunnel_row failure c s =
     (case failure of
        Some e \<Rightarrow> Err e
      | None \<Rightarrow>
          if find_tunnel_row (tc_id c) s \<noteq> None then Err ''UNIQUE constraint failed: tunnel_configs.id''
          else Ok (s\<lparr>ap_tunnels := ap_tunnels s @ [c]\<rparr>))"

definition unknown_upstream :: UpstreamInfo where
  "unknown_upstream = \<lparr>ui_status = ''unknown'', ui_recent_502_count = None, ui_total_count = None\<rparr>"

definition app_create_tunnel ::
  "list_json \<Rightarrow> (nat \<Rightarrow> string option) \<Rightarrow> int \<Rightarrow> string \<Rightarrow> (('j, 'h) MetricsStore task_event \<times> nat) list \<Rightarrow> CreateTunnelRequest
    \<Rightarrow> ('j, 'h) app_state \<Rightarrow> (string, TunnelResponse) result \<times> ('j, 'h) app_state" where
  "app_create_tunnel J dbf now i evs q s =
     (case dbf 0 of
        Some e \<Rightarrow> (Err (''Failed to find relay: '' @ e), s)
      | None \<Rightarrow>
          (case find_relay_row (ct_relay_id q) s of
             None \<Rightarrow> (Err (''Relay not found: '' @ ct_relay_id q), s)
           | Some r \<Rightarrow>
               (let c = created_row J now i q;
                    answer = (\<lambda>sh. Ok (tunnel_response J c (Some (rs_name r)) sh unknown_upstream))
                in case insert_tunnel_row (dbf 1) c s of
                     Err e \<Rightarrow> (Err (''Failed to create tunnel: '' @ e), s)
                   | Ok s1 \<Rightarrow>
                       if \<not> tc_auto_start c then (answer (''disconnected'', None, None, None), s1)
                       else case start_tunnel_in_process J i c r s1 of
                              (Err e, s2) \<Rightarrow> (answer (''error'', None, None, Some e), s2)
                            | (Ok _, s2) \<Rightarrow>
                                (let s3 = app_run evs s2
                                 in (answer (case ap_manager s3 i of
                                               Some t \<Rightarrow> managed_view t
                                             | None \<Rightarrow> (''connecting'', None, None, None)), s3)))))"

text \<open>The fields a request names are replaced; an optional field cannot be emptied.\<close>

definition update_fields :: "list_json \<Rightarrow> int \<Rightarrow> UpdateTunnelRequest \<Rightarrow> tunnel_config_row \<Rightarrow> tunnel_config_row" where
  "update_fields J now q c =
     c\<lparr>tc_name := or_default (ut_name q) (tc_name c),
       tc_relay_server_id := or_default (ut_relay_id q) (tc_relay_server_id c),
       tc_local_host := or_default (ut_local_host q) (tc_local_host c),
       tc_local_port := or_default (map_option ucast (ut_local_port q)) (tc_local_port c),
       tc_protocol := or_default (ut_protocol q) (tc_protocol c),
       tc_subdomain := or_default (map_option Some (ut_subdomain q)) (tc_subdomain c),
       tc_custom_domain := or_default (map_option Some (ut_custom_domain q)) (tc_custom_domain c),
       tc_auto_start := or_default (ut_auto_start q) (tc_auto_start c),
       tc_enabled := or_default (ut_enabled q) (tc_enabled c),
       tc_ip_allowlist := or_default (map_option (\<lambda>l. Some (lj_print J l)) (ut_ip_allowlist q)) (tc_ip_allowlist c),
       tc_updated_at := now\<rparr>"

definition app_update_tunnel ::
  "list_json \<Rightarrow> (nat \<Rightarrow> string option) \<Rightarrow> int \<Rightarrow> u64 \<Rightarrow> string \<Rightarrow> UpdateTunnelRequest
    \<Rightarrow> ('j, 'h) app_state \<Rightarrow> (string, TunnelResponse) result \<times> ('j, 'h) app_state" where
  "app_update_tunnel J dbf now clock i q s =
     (case dbf 0 of
        Some e \<Rightarrow> (Err (''Failed to find tunnel: '' @ e), s)
      | None \<Rightarrow>
          (case find_tunnel_row i s of
             None \<Rightarrow> (Err (''Tunnel not found: '' @ i), s)
           | Some c \<Rightarrow>
               (case (case ut_relay_id q of
                        None \<Rightarrow> Ok ()
                      | Some rid \<Rightarrow>
                          (case dbf 1 of
                             Some e \<Rightarrow> Err (''Failed to find relay: '' @ e)
                           | None \<Rightarrow> if find_relay_row rid s = None then Err (''Relay not found: '' @ rid) else Ok ())) of
                  Err e \<Rightarrow> (Err e, s)
                | Ok _ \<Rightarrow>
                    (case dbf 2 of
                       Some e \<Rightarrow> (Err (''Failed to update tunnel: '' @ e), s)
                     | None \<Rightarrow>
                         (let c' = update_fields J now q c;
                              s1 = s\<lparr>ap_tunnels := map (\<lambda>d. if tc_id d = i then c' else d) (ap_tunnels s)\<rparr>
                          in case dbf 3 of
                               Some e \<Rightarrow> (Err (''Failed to get relay: '' @ e), s1)
                             | None \<Rightarrow>
                                 (Ok (tunnel_response J c' (map_option rs_name (find_relay_row (tc_relay_server_id c') s1))
                                        (shown_state (tc_id c') s1) (app_upstream_status clock (tc_id c') s1)), s1))))))"

definition app_delete_tunnel ::
  "(nat \<Rightarrow> string option) \<Rightarrow> (('j, 'h) MetricsStore task_event \<times> nat) list \<Rightarrow> string
    \<Rightarrow> ('j, 'h) app_state \<Rightarrow> (string, unit) result \<times> ('j, 'h) app_state" where
  "app_delete_tunnel dbf evs i s =
     (let s1 = stop_tunnel_internal evs i s
      in case dbf 0 of
           Some e \<Rightarrow> (Err (''Failed to delete tunnel: '' @ e), s1)
         | None \<Rightarrow> (Ok (), s1\<lparr>ap_tunnels := filter (\<lambda>c. tc_id c \<noteq> i) (ap_tunnels s1)\<rparr>))"

definition app_start_tunnel ::
  "list_json \<Rightarrow> (nat \<Rightarrow> string option) \<Rightarrow> u64 \<Rightarrow> string
    \<Rightarrow> ('j, 'h) app_state \<Rightarrow> (string, TunnelResponse) result \<times> ('j, 'h) app_state" where
  "app_start_tunnel J dbf clock i s =
     (case dbf 0 of
        Some e \<Rightarrow> (Err (''Failed to find tunnel: '' @ e), s)
      | None \<Rightarrow>
          (case find_tunnel_row i s of
             None \<Rightarrow> (Err (''Tunnel not found: '' @ i), s)
           | Some c \<Rightarrow>
               (case dbf 1 of
                  Some e \<Rightarrow> (Err (''Failed to find relay: '' @ e), s)
                | None \<Rightarrow>
                    (case find_relay_row (tc_relay_server_id c) s of
                       None \<Rightarrow> (Err (''Relay not found: '' @ tc_relay_server_id c), s)
                     | Some r \<Rightarrow>
                         if manager_is_running i (ap_manager s) then (Err ''Tunnel is already running'', s)
                         else case start_tunnel_in_process J i c r s of
                                (Err e, s1) \<Rightarrow> (Err e, s1)
                              | (Ok _, s1) \<Rightarrow> (answer_tunnel J (\<lambda>n. dbf (n + 2)) clock i s1, s1)))))"

definition app_stop_tunnel ::
  "list_json \<Rightarrow> (nat \<Rightarrow> string option) \<Rightarrow> u64 \<Rightarrow> (('j, 'h) MetricsStore task_event \<times> nat) list \<Rightarrow> string
    \<Rightarrow> ('j, 'h) app_state \<Rightarrow> (string, TunnelResponse) result \<times> ('j, 'h) app_state" where
  "app_stop_tunnel J dbf clock evs i s =
     (let s1 = stop_tunnel_internal evs i s in (answer_tunnel J dbf clock i s1, s1))"

definition app_get_tunnel_metrics ::
  "string \<Rightarrow> nat option \<Rightarrow> nat option \<Rightarrow> ('j, 'h) app_state \<Rightarrow> 'j HttpMetric list \<times> nat \<times> nat \<times> nat" where
  "app_get_tunnel_metrics i offset limit s =
     (let ofs = or_default offset 0; lim = min (or_default limit 50) 100
      in case app_metrics_paginated i ofs lim s of (items, tot) \<Rightarrow> (items, tot, ofs, lim))"

definition app_get_tcp_connections ::
  "string \<Rightarrow> nat option \<Rightarrow> nat option \<Rightarrow> ('j, 'h) app_state \<Rightarrow> TcpMetric list \<times> nat \<times> nat \<times> nat" where
  "app_get_tcp_connections i offset limit s =
     (let ofs = or_default offset 0; lim = min (or_default limit 50) 100
      in case app_tcp_paginated i ofs lim s of (items, tot) \<Rightarrow> (items, tot, ofs, lim))"

definition app_clear_tunnel_metrics :: "'h histogram \<Rightarrow> string \<Rightarrow> ('j, 'h) app_state \<Rightarrow> ('j, 'h) app_state" where
  "app_clear_tunnel_metrics h i s =
     (case ap_metrics s i of Some m \<Rightarrow> s\<lparr>ap_metrics := (ap_metrics s)(i \<mapsto> metrics_clear h m)\<rparr> | None \<Rightarrow> s)"

text \<open>\<open>newest\<close> is the database's order by descending creation time.\<close>

definition app_get_captured_requests ::
  "(captured_row list \<Rightarrow> captured_row list) \<Rightarrow> (nat \<Rightarrow> string option) \<Rightarrow> string \<Rightarrow> ('j, 'h) app_state
    \<Rightarrow> (string, captured_row list) result" where
  "app_get_captured_requests newest dbf i s =
     (case Option.bind (ap_manager s i) mt_localup_id of
        None \<Rightarrow> Ok []
      | Some lid \<Rightarrow>
          (case dbf 0 of
             Some e \<Rightarrow> Err (''Failed to get captured requests: '' @ e)
           | None \<Rightarrow> Ok (take 100 (newest (filter (\<lambda>c. cp_localup_id c = lid) (ap_captured s))))))"

section \<open>Commands on relays\<close>

record CreateRelayRequest =
  cq_name :: string
  cq_address :: string
  cq_jwt_token :: "string option"
  cq_protocol :: "string option"
  cq_insecure :: "bool option"
  cq_is_default :: "bool option"
  cq_supported_protocols :: "string list option"

record UpdateRelayRequest =
  uq_name :: "string option"
  uq_address :: "string option"
  uq_jwt_token :: "string option"
  uq_protocol :: "string option"
  uq_insecure :: "bool option"
  uq_is_default :: "bool option"
  uq_supported_protocols :: "string list option"

definition default_supported :: "string list" where
  "default_supported = [''http'', ''https'', ''tcp'', ''tls'']"

definition relay_supported_protocols :: "list_json \<Rightarrow> relay_server_row \<Rightarrow> string list" where
  "relay_supported_protocols J r = or_default (lj_parse J (rs_supported_protocols r)) default_supported"

text \<open>
  The default relays are read by call \<open>k\<close> and reset one by one by the calls after it; a failure ends
  the loop and leaves the rest.
\<close>

fun clear_defaults :: "(nat \<Rightarrow> string option) \<Rightarrow> nat \<Rightarrow> int \<Rightarrow> relay_server_row list \<Rightarrow> (string, unit) result \<times> relay_server_row list" where
  "clear_defaults dbf k now [] = (Ok (), [])"
| "clear_defaults dbf k now (r # rs) =
     (if \<not> rs_is_default r then apsnd ((#) r) (clear_defaults dbf k now rs)
      else case dbf k of
             Some e \<Rightarrow> (Err (''Failed to clear default relay: '' @ e), r # rs)
           | None \<Rightarrow> apsnd ((#) (r\<lparr>rs_is_default := False, rs_updated_at := now\<rparr>)) (clear_defaults dbf (k + 1) now rs))"

definition clear_default_relay ::
  "(nat \<Rightarrow> string option) \<Rightarrow> nat \<Rightarrow> int \<Rightarrow> ('j, 'h) app_state \<Rightarrow> (string, unit) result \<times> ('j, 'h) app_state" where
  "clear_default_relay dbf k now s =
     (case dbf k of
        Some e \<Rightarrow> (Err (''Failed to find default relays: '' @ e), s)
      | None \<Rightarrow> apsnd (\<lambda>rs. s\<lparr>ap_relays := rs\<rparr>) (clear_defaults dbf (k + 1) now (ap_relays s)))"

text \<open>The call that inserts or updates is numbered 0, those that clear the defaults come from 10 on.\<close>

definition add_relay ::
  "list_json \<Rightarrow> (nat \<Rightarrow> string option) \<Rightarrow> int \<Rightarrow> string \<Rightarrow> CreateRelayRequest
    \<Rightarrow> ('j, 'h) app_state \<Rightarrow> (string, relay_server_row) result \<times> ('j, 'h) app_state" where
  "add_relay J dbf now i q s =
     (case (if or_default (cq_is_default q) False then clear_default_relay dbf 10 now s else (Ok (), s)) of
        (Err e, s1) \<Rightarrow> (Err e, s1)
      | (Ok _, s1) \<Rightarrow>
          (let r = \<lparr>rs_id = i, rs_name = cq_name q, rs_address = cq_address q, rs_jwt_token = cq_jwt_token q,
                    rs_protocol = or_default (cq_protocol q) ''quic'', rs_insecure = or_default (cq_insecure q) False,
                    rs_is_default = or_default (cq_is_default q) False,
                    rs_supported_protocols = lj_print J (or_default (cq_supported_protocols q) default_supported),
                    rs_created_at = now, rs_updated_at = now\<rparr>
           in case dbf 0 of
                Some e \<Rightarrow> (Err (''Failed to add relay: '' @ e), s1)
              | None \<Rightarrow>
                  if find_relay_row i s1 \<noteq> None
                  then (Err (''Failed to add relay: '' @ ''UNIQUE constraint failed: relay_servers.id''), s1)
                  else (Ok r, s1\<lparr>ap_relays := ap_relays s1 @ [r]\<rparr>)))"

definition update_relay_fields :: "list_json \<Rightarrow> int \<Rightarrow> UpdateRelayRequest \<Rightarrow> relay_server_row \<Rightarrow> relay_server_row" where
  "update_relay_fields J now q r =
     r\<lparr>rs_name := or_default (uq_name q) (rs_name r), rs_address := or_default (uq_address q) (rs_address r),
       rs_jwt_token := or_default (map_option Some (uq_jwt_token q)) (rs_jwt_token r),
       rs_protocol := or_default (uq_protocol q) (rs_protocol r), rs_insecure := or_default (uq_insecure q) (rs_insecure r),
       rs_is_default := or_default (uq_is_default q) (rs_is_default r),
       rs_supported_protocols := or_default (map_option (lj_print J) (uq_supported_protocols q)) (rs_supported_protocols r),
       rs_updated_at := now\<rparr>"

definition update_relay ::
  "list_json \<Rightarrow> (nat \<Rightarrow> string option) \<Rightarrow> int \<Rightarrow> string \<Rightarrow> UpdateRelayRequest
    \<Rightarrow> ('j, 'h) app_state \<Rightarrow> (string, relay_server_row) result \<times> ('j, 'h) app_state" where
  "update_relay J dbf now i q s =
     (case dbf 1 of
        Some e \<Rightarrow> (Err (''Failed to find relay: '' @ e), s)
      | None \<Rightarrow>
          (case find_relay_row i s of
             None \<Rightarrow> (Err (''Relay not found: '' @ i), s)
           | Some r \<Rightarrow>
               (case (if or_default (uq_is_default q) False \<and> \<not> rs_is_default r then clear_default_relay dbf 10 now s
                      else (Ok (), s)) of
                  (Err e, s1) \<Rightarrow> (Err e, s1)
                | (Ok _, s1) \<Rightarrow>
                    (case dbf 0 of
                       Some e \<Rightarrow> (Err (''Failed to update relay: '' @ e), s1)
                     | None \<Rightarrow>
                         (let r' = update_relay_fields J now q r
                          in (Ok r', s1\<lparr>ap_relays := map (\<lambda>x. if rs_id x = i then r' else x) (ap_relays s1)\<rparr>))))))"

text \<open>The foreign keys of the schema delete the tunnels of a relay with it.\<close>

definition delete_relay :: "(nat \<Rightarrow> string option) \<Rightarrow> string \<Rightarrow> ('j, 'h) app_state \<Rightarrow> (string, unit) result \<times> ('j, 'h) app_state" where
  "delete_relay dbf i s =
     (case dbf 0 of
        Some e \<Rightarrow> (Err (''Failed to delete relay: '' @ e), s)
      | None \<Rightarrow>
          (Ok (), s\<lparr>ap_relays := filter (\<lambda>r. rs_id r \<noteq> i) (ap_relays s),
                    ap_tunnels := filter (\<lambda>c. tc_relay_server_id c \<noteq> i) (ap_tunnels s)\<rparr>))"

section \<open>Steps of the application\<close>

inductive app_step :: "('j, 'h) app_state \<Rightarrow> ('j, 'h) app_state \<Rightarrow> bool" where
  task: "app_step s (app_task_step ev t s)"
| launch: "app_step s (start_auto_start_tunnels J dbf s)"
| create: "app_step s (snd (app_create_tunnel J dbf now i evs q s))"
| update: "app_step s (snd (app_update_tunnel J dbf now clock i uq s))"
| delete: "app_step s (snd (app_delete_tunnel dbf evs i s))"
| start: "app_step s (snd (app_start_tunnel J dbf clock i s))"
| stop: "app_step s (snd (app_stop_tunnel J dbf clock evs i s))"
| clear: "app_step s (app_clear_tunnel_metrics h i s)"
| add: "app_step s (snd (add_relay J dbf now i cr s))"
| change: "app_step s (snd (update_relay J dbf now i ur s))"
| remove: "app_step s (snd (delete_relay dbf i s))"


section \<open>Tasks and handles\<close>

lemma app_frame [simp]:
  "ap_pool (set_status i st url err s) = ap_pool s" "ap_handles (set_status i st url err s) = ap_handles s"
  "ap_tunnels (set_status i st url err s) = ap_tunnels s" "ap_relays (set_status i st url err s) = ap_relays s"
  "ap_metrics (set_status i st url err s) = ap_metrics s"
  "ap_pool (drop_metrics i s) = ap_pool s" "ap_handles (drop_metrics i s) = ap_handles s"
  "ap_tunnels (drop_metrics i s) = ap_tunnels s" "ap_relays (drop_metrics i s) = ap_relays s"
  "ap_manager (drop_metrics i s) = ap_manager s"
  "ap_pool (app_set_phase ph t s) = set_phase ph t (ap_pool s)" "ap_handles (app_set_phase ph t s) = ap_handles s"
  "ap_tunnels (app_set_phase ph t s) = ap_tunnels s" "ap_relays (app_set_phase ph t s) = ap_relays s"
  "ap_manager (app_set_phase ph t s) = ap_manager s"
  "ap_pool (app_abort t s) = abort_task t (ap_pool s)" "ap_handles (app_abort t s) = ap_handles s"
  "ap_tunnels (app_abort t s) = ap_tunnels s" "ap_relays (app_abort t s) = ap_relays s"
  "ap_manager (app_abort t s) = ap_manager s"
  "ap_handles (app_spawn i c s) = (ap_handles s)(i \<mapsto> tp_next (ap_pool s))"
  "ap_tunnels (app_spawn i c s) = ap_tunnels s" "ap_relays (app_spawn i c s) = ap_relays s"
  "ap_manager (app_spawn i c s) = ap_manager s"
  "ap_handles (app_signal i s) = (ap_handles s)(i := None)" "ap_manager (app_signal i s) = ap_manager s"
  "ap_tunnels (app_signal i s) = ap_tunnels s" "ap_relays (app_signal i s) = ap_relays s"
  by (simp_all add: set_status_def drop_metrics_def app_set_phase_def app_abort_def app_spawn_def app_signal_def)

lemma app_task_step_frame:
  "ap_handles (app_task_step ev t s) = ap_handles s"
  "ap_tunnels (app_task_step ev t s) = ap_tunnels s"
  "ap_relays (app_task_step ev t s) = ap_relays s"
  "task_moves t (ap_pool s) (ap_pool (app_task_step ev t s))"
  by (auto simp: app_task_step_def halt_task_def Let_def
      split: option.split task_phase.split task_event.split outcome.split)

interpretation in_process: tunnel_host ap_pool ap_handles app_spawn app_signal app_abort app_task_step
  by unfold_locales (simp_all add: app_task_step_frame, simp_all add: app_spawn_def app_signal_def)

lemma app_run_eq: "app_run = in_process.run"
  by (simp add: fun_eq_iff app_run_def in_process.run_def)

lemma controlled_cong:
  "ap_pool s' = ap_pool s \<Longrightarrow> ap_handles s' = ap_handles s \<Longrightarrow> in_process.controlled s' = in_process.controlled s"
  by (simp add: in_process.controlled_def)

lemma controlled_status [simp]:
  "in_process.controlled (set_status i st url err s) = in_process.controlled s"
  "in_process.controlled (drop_metrics i s) = in_process.controlled s"
  "in_process.controlled (s\<lparr>ap_tunnels := ts\<rparr>) = in_process.controlled s"
  "in_process.controlled (s\<lparr>ap_metrics := ms\<rparr>) = in_process.controlled s"
  by (rule controlled_cong; simp)+

lemma start_in_process_controlled:
  "in_process.controlled s \<Longrightarrow> in_process.controlled (snd (start_tunnel_in_process J i c r s))"
  by (auto simp: start_tunnel_in_process_def Let_def in_process.start_controlled split: sum.split)

lemma stop_internal_controlled: "in_process.controlled s \<Longrightarrow> in_process.controlled (stop_tunnel_internal evs i s)"
  by (auto simp: stop_tunnel_internal_def app_run_eq
      intro!: in_process.abort_controlled in_process.run_controlled in_process.signal_controlled split: option.split)

lemma auto_start_controlled:
  "in_process.controlled s \<Longrightarrow> in_process.controlled (foldl (auto_start_one J) s ts)"
  by (induction ts arbitrary: s)
    (auto simp: auto_start_one_def in_process.start_controlled split: option.split sum.split)

lemma clear_default_frame:
  "ap_pool (snd (clear_default_relay dbf k now s)) = ap_pool s"
  "ap_handles (snd (clear_default_relay dbf k now s)) = ap_handles s"
  "ap_manager (snd (clear_default_relay dbf k now s)) = ap_manager s"
  by (simp_all add: clear_default_relay_def split: option.split)

text \<open>A command on relays leaves manager, handles and tasks alone.\<close>

definition same_run :: "('j, 'h) app_state \<Rightarrow> ('j, 'h) app_state \<Rightarrow> bool" where
  "same_run s s' \<longleftrightarrow> ap_pool s' = ap_pool s \<and> ap_handles s' = ap_handles s \<and> ap_manager s' = ap_manager s"

lemma same_run_simps [simp]:
  "same_run s s" "same_run s (s'\<lparr>ap_relays := rs\<rparr>) = same_run s s'" "same_run s (s'\<lparr>ap_tunnels := ts\<rparr>) = same_run s s'"
  by (simp_all add: same_run_def)

lemma clear_default_same: "(if b then clear_default_relay dbf k now s else (Ok (), s)) = (res, s1) \<Longrightarrow> same_run s s1"
  using clear_default_frame [of dbf k now s] by (cases b) (auto simp: same_run_def)

lemma relay_commands_same:
  "same_run s (snd (add_relay J dbf now i cr s))"
  "same_run s (snd (update_relay J dbf now i ur s))"
  "same_run s (snd (delete_relay dbf i s))"
proof -
  obtain res s1 where r: "(if or_default (cq_is_default cr) False then clear_default_relay dbf 10 now s else (Ok (), s)) = (res, s1)"
    by fastforce
  from clear_default_same [OF r] show "same_run s (snd (add_relay J dbf now i cr s))"
    unfolding add_relay_def r by (simp add: Let_def split: sum.split option.split)
next
  show "same_run s (snd (update_relay J dbf now i ur s))"
  proof (cases "dbf 1 = None \<and> find_relay_row i s \<noteq> None")
    case True
    then obtain r where r: "dbf 1 = None" "find_relay_row i s = Some r" by blast
    obtain res s1 where c: "(if or_default (uq_is_default ur) False \<and> \<not> rs_is_default r then clear_default_relay dbf 10 now s
        else (Ok (), s)) = (res, s1)" by fastforce
    from clear_default_same [OF c] show ?thesis
      unfolding update_relay_def r option.case c by (simp add: Let_def split: sum.split option.split)
  qed (auto simp: update_relay_def split: option.split)
qed (simp add: delete_relay_def same_run_def split: option.split)

lemma same_run_controlled: "same_run s s' \<Longrightarrow> in_process.controlled s \<Longrightarrow> in_process.controlled s'"
  using controlled_cong by (auto simp: same_run_def)

text \<open>What starting, running tasks and changing tables keep, the commands keep.\<close>

lemma start_keeps:
  assumes "P s" and "\<And>c r. P (snd (start_tunnel_in_process J i c r s))"
  shows "P (snd (app_start_tunnel J dbf clock i s))"
proof -
  have "P (snd (case start_tunnel_in_process J i c r s of
      (Err e, s1) \<Rightarrow> (Err e, s1)
    | (Ok _, s1) \<Rightarrow> (answer_tunnel J (\<lambda>n. dbf (n + 2)) clock i s1, s1)))" for c r
    using assms(2) [of c r] by (cases "start_tunnel_in_process J i c r s"; cases "fst (start_tunnel_in_process J i c r s)") auto
  then show ?thesis using assms(1) by (simp add: app_start_tunnel_def split: option.split)
qed

lemma create_keeps:
  assumes "P s" and "\<And>ts. P (s\<lparr>ap_tunnels := ts\<rparr>)"
    and "\<And>ts c r. P (snd (start_tunnel_in_process J i c r (s\<lparr>ap_tunnels := ts\<rparr>)))"
    and "\<And>s. P s \<Longrightarrow> P (app_run evs s)"
  shows "P (snd (app_create_tunnel J dbf now i evs q s))"
proof -
  show ?thesis
  proof (cases "dbf 0 = None \<and> find_relay_row (ct_relay_id q) s \<noteq> None")
    case True
    then obtain r where r: "dbf 0 = None" "find_relay_row (ct_relay_id q) s = Some r" by blast
    let ?c = "created_row J now i q"
    show ?thesis
    proof (cases "insert_tunnel_row (dbf 1) ?c s")
      case (Inl e)
      then show ?thesis using assms(1) by (simp add: app_create_tunnel_def r Let_def)
    next
      case (Inr s1)
      then have "s1 = s\<lparr>ap_tunnels := ap_tunnels s @ [?c]\<rparr>"
        by (auto simp: insert_tunnel_row_def split: option.splits if_splits)
      moreover obtain res s2 where "start_tunnel_in_process J i ?c r (s\<lparr>ap_tunnels := ap_tunnels s @ [?c]\<rparr>) = (res, s2)" "P s2"
        using assms(3) [of ?c r "ap_tunnels s @ [?c]"] by (metis prod.collapse)
      ultimately show ?thesis
        using Inr assms(2) assms(4) by (cases res) (simp_all add: app_create_tunnel_def r Let_def)
    qed
  qed (use assms(1) in \<open>auto simp: app_create_tunnel_def split: option.split\<close>)
qed

lemma update_keeps:
  assumes "P s" and "\<And>ts. P (s\<lparr>ap_tunnels := ts\<rparr>)"
  shows "P (snd (app_update_tunnel J dbf now clock i uq s))"
  using assms by (auto simp: app_update_tunnel_def Let_def split: option.split sum.split)

lemma app_step_controlled:
  assumes "app_step s s'" and "in_process.controlled s"
  shows "in_process.controlled s'"
  using assms
proof induction
  case (create s J dbf now i evs q)
  show ?case by (rule create_keeps [where P = in_process.controlled])
      (auto simp: create app_run_eq intro: start_in_process_controlled in_process.run_controlled)
next
  case (update s J dbf now clock i uq)
  then show ?case by (intro update_keeps [where P = in_process.controlled]) simp_all
next
  case (delete s dbf evs i)
  then show ?case
    using stop_internal_controlled [OF delete]
    by (auto simp: app_delete_tunnel_def Let_def split: option.split)
next
  case (start s J dbf clock i)
  show ?case by (rule start_keeps [where P = in_process.controlled]) (auto simp: start intro: start_in_process_controlled)
next
  case (clear s h i)
  then show ?case by (auto simp: app_clear_tunnel_metrics_def split: option.split)
qed (auto simp: in_process.step_controlled start_auto_start_tunnels_def Let_def auto_start_controlled
      app_stop_tunnel_def stop_internal_controlled same_run_controlled [OF relay_commands_same(1)]
      same_run_controlled [OF relay_commands_same(2)] same_run_controlled [OF relay_commands_same(3)])

lemma app_new_controlled: "in_process.controlled (app_new ts rs cs)"
  by (simp add: in_process.controlled_def app_new_def no_tasks_def)

lemma app_steps_controlled: "app_step\<^sup>*\<^sup>* (app_new ts rs cs) s \<Longrightarrow> in_process.controlled s"
  by (induction rule: rtranclp_induct) (auto simp: app_new_controlled intro: app_step_controlled)


lemma app_alive_iff: "t \<in> in_process.alive i s \<longleftrightarrow> (\<exists>k. tp_tasks (ap_pool s) t = Some k \<and> tk_tunnel k = i)"
  by (simp add: in_process.alive_def)

lemma app_stray_iff:
  "t \<in> in_process.stray i s \<longleftrightarrow> (\<exists>k. tp_tasks (ap_pool s) t = Some k \<and> tk_tunnel k = i \<and> tk_signal k \<noteq> NotSent)"
  by (simp add: in_process.stray_def)

lemma stop_internal_alive:
  assumes "in_process.controlled s"
  shows "in_process.alive i (stop_tunnel_internal evs i s) \<subseteq> in_process.stray i s"
proof -
  have frame: "in_process.alive i (drop_metrics i (set_status i st url err s')) = in_process.alive i s'" for st url err s'
    by (simp add: in_process.alive_def)
  show ?thesis
  proof (cases "ap_handles s i")
    case None
    then show ?thesis using in_process.stop_without_handle [OF assms] by (simp add: stop_tunnel_internal_def frame)
  next
    case (Some t)
    then show ?thesis
      using in_process.stop_leaves_stray [OF assms Some] by (simp add: stop_tunnel_internal_def frame app_run_eq)
  qed
qed

lemma stop_internal_state:
  "ap_handles (stop_tunnel_internal evs i s) i = None"
  "ap_metrics (stop_tunnel_internal evs i s) i = None"
  "shown_state i (stop_tunnel_internal evs i s) = (''disconnected'', None, None, None)"
  by (auto simp: stop_tunnel_internal_def app_run_eq in_process.run_handle drop_metrics_def set_status_def shown_state_def
      manager_update_status_def managed_view_def split: option.split)

text \<open>
  C35 The button that stops a tunnel works: in every state the application can reach, unless an earlier
  task of the tunnel has lost its handle, no task of the tunnel is left after the command, whatever
  the tasks do while it waits; the tunnel is shown as disconnected and its metrics are gone.
\<close>

theorem stop_ends_tunnel:
  assumes "app_step\<^sup>*\<^sup>* (app_new ts rs cs) s"
    and "\<forall>t k. tp_tasks (ap_pool s) t = Some k \<and> tk_tunnel k = i \<longrightarrow> tk_signal k = NotSent"
  shows "let s' = snd (app_stop_tunnel J dbf clock evs i s) in
    (\<forall>t k. tp_tasks (ap_pool s') t = Some k \<longrightarrow> tk_tunnel k \<noteq> i) \<and> ap_handles s' i = None \<and> ap_metrics s' i = None \<and>
    shown_state i s' = (''disconnected'', None, None, None)"
proof -
  have "in_process.stray i s = {}" using assms(2) app_stray_iff by fastforce
  then have "in_process.alive i (stop_tunnel_internal evs i s) = {}"
    using stop_internal_alive [OF app_steps_controlled [OF assms(1)], of i evs] by simp
  then have "\<forall>t k. tp_tasks (ap_pool (stop_tunnel_internal evs i s)) t = Some k \<longrightarrow> tk_tunnel k \<noteq> i"
    using app_alive_iff by blast
  then show ?thesis by (simp add: app_stop_tunnel_def Let_def stop_internal_state)
qed

text \<open>
  A tunnel that is shown with an error may still be retrying. Starting it again then replaces the
  handle: the old task goes on beside the new one, and stopping the tunnel does not end it.
\<close>

theorem restart_leaks_task:
  assumes "in_process.controlled s" and "ap_handles s i = Some t" and "tp_tasks (ap_pool s) t = Some k"
    and "\<not> manager_is_running i (ap_manager s)" and "dbf = (\<lambda>_. None)"
    and "find_tunnel_row i s = Some c" and "find_relay_row (tc_relay_server_id c) s = Some r"
    and "app_protocol_config c = Ok p"
  shows "let s1 = snd (app_start_tunnel J dbf clock i s); s2 = snd (app_stop_tunnel J dbf clock [] i s1) in
    tp_tasks (ap_pool s1) t = Some (k\<lparr>tk_signal := SenderGone\<rparr>) \<and>
    (\<exists>u k'. u \<noteq> t \<and> tp_tasks (ap_pool s1) u = Some k' \<and> tk_tunnel k' = i) \<and>
    tp_tasks (ap_pool s2) t = Some (k\<lparr>tk_signal := SenderGone\<rparr>)"
proof -
  let ?s1 = "app_spawn i (app_client_config J c r p) (set_status i MsConnecting None None s)"
  have s1: "snd (app_start_tunnel J dbf clock i s) = ?s1"
    using assms(4-8) by (simp add: app_start_tunnel_def start_tunnel_in_process_def Let_def)
  have neq: "t \<noteq> tp_next (ap_pool s)" using in_process.controlledD(3) [OF assms(1,2)] by simp
  have pool: "ap_pool ?s1 = spawn_task i (app_client_config J c r p) (signal_task SenderGone t (ap_pool s))"
    using assms(2) by (simp add: app_spawn_def)
  have handle: "ap_handles ?s1 i = Some (tp_next (ap_pool s))" by simp
  have "ap_pool (stop_tunnel_internal [] i ?s1) = abort_task (tp_next (ap_pool s)) (signal_task Sent (tp_next (ap_pool s)) (ap_pool ?s1))"
    by (simp add: stop_tunnel_internal_def handle app_run_def app_signal_def)
  then show ?thesis
    using assms(3) neq by (auto simp: s1 Let_def app_stop_tunnel_def pool task_changes)
qed

text \<open>Such a task, once connected, ends by itself: it marks the tunnel as disconnected and drops its metrics.\<close>

lemma stray_task_disconnects:
  assumes "tp_tasks (ap_pool s) t = Some k" and "tk_signal k = SenderGone" and "tk_phase k = Holding"
  shows "shown_state (tk_tunnel k) (app_task_step SignalSeen t s) = (''disconnected'', None, None, None) \<and>
    ap_metrics (app_task_step SignalSeen t s) (tk_tunnel k) = None"
  using assms
  by (simp add: app_task_step_def Let_def halt_task_def shown_state_def set_status_def drop_metrics_def app_abort_def
      manager_update_status_def managed_view_def split: option.split)

text \<open>
  A tunnel with an unknown protocol: starting it fails, but it is shown as connecting from then on and
  every further start is refused as if it were running.
\<close>

theorem unknown_protocol_stuck:
  assumes "dbf = (\<lambda>_. None)" and "find_tunnel_row i s = Some c" and "find_relay_row (tc_relay_server_id c) s = Some r"
    and "app_protocol_config c = Err e" and "\<not> manager_is_running i (ap_manager s)"
  shows "let (res, s1) = app_start_tunnel J dbf clock i s in
    res = Err e \<and> ap_pool s1 = ap_pool s \<and> fst (shown_state i s1) = ''connecting'' \<and>
    app_start_tunnel J dbf clock i s1 = (Err ''Tunnel is already running'', s1)"
proof -
  let ?s1 = "set_status i MsConnecting None None s"
  have "app_start_tunnel J dbf clock i s = (Err e, ?s1)"
    using assms by (simp add: app_start_tunnel_def start_tunnel_in_process_def Let_def)
  moreover have "find_tunnel_row i ?s1 = Some c" "find_relay_row (tc_relay_server_id c) ?s1 = Some r"
    using assms(2,3) by (simp_all add: find_tunnel_row_def find_relay_row_def)
  moreover have "manager_is_running i (ap_manager ?s1)" "fst (shown_state i ?s1) = ''connecting''"
    by (auto simp: set_status_def manager_is_running_def manager_update_status_def shown_state_def managed_view_def
        split: option.split)
  ultimately show ?thesis using assms(1) by (simp add: app_start_tunnel_def)
qed

section \<open>What is shown of a tunnel\<close>

definition managed_ok :: "string \<Rightarrow> ManagedTunnel \<Rightarrow> bool" where
  "managed_ok i t \<longleftrightarrow> mt_config_id t = i \<and> mt_localup_id t = None \<and>
     (mt_public_url t \<noteq> None \<longrightarrow> mt_status t = MsConnected) \<and> (mt_error_message t \<noteq> None \<longleftrightarrow> mt_status t = MsError)"

definition manager_ok :: "('j, 'h) app_state \<Rightarrow> bool" where
  "manager_ok s \<longleftrightarrow> (\<forall>i t. ap_manager s i = Some t \<longrightarrow> managed_ok i t)"

lemma manager_ok_simps [simp]:
  "manager_ok (drop_metrics i s) = manager_ok s" "manager_ok (app_abort t s) = manager_ok s"
  "manager_ok (app_set_phase ph t s) = manager_ok s" "manager_ok (app_spawn i c s) = manager_ok s"
  "manager_ok (app_signal i s) = manager_ok s" "manager_ok (s\<lparr>ap_tunnels := tns\<rparr>) = manager_ok s"
  "manager_ok (s\<lparr>ap_metrics := ms\<rparr>) = manager_ok s"
  by (simp_all add: manager_ok_def)

lemma manager_ok_set_status [simp]:
  assumes "manager_ok s" and "url = None \<or> st = MsConnected" and "(err = None) = (st \<noteq> MsError)"
  shows "manager_ok (set_status i st url err s)"
  using assms by (fastforce simp: manager_ok_def managed_ok_def set_status_def manager_update_status_def split: option.splits if_splits)

lemma manager_ok_task_step: "manager_ok s \<Longrightarrow> manager_ok (app_task_step ev t s)"
  by (simp add: app_task_step_def halt_task_def Let_def split: option.split task_phase.split task_event.split outcome.split)

lemma manager_ok_run: "manager_ok s \<Longrightarrow> manager_ok (app_run evs s)"
  unfolding app_run_def by (induction evs arbitrary: s) (auto simp: manager_ok_task_step)

lemma manager_ok_start: "manager_ok s \<Longrightarrow> manager_ok (snd (start_tunnel_in_process J i c r s))"
  by (simp add: start_tunnel_in_process_def Let_def split: sum.split)

lemma manager_ok_stop: "manager_ok s \<Longrightarrow> manager_ok (stop_tunnel_internal evs i s)"
  by (simp add: stop_tunnel_internal_def manager_ok_run split: option.split)

lemma manager_ok_auto_start: "manager_ok s \<Longrightarrow> manager_ok (foldl (auto_start_one J) s tns)"
  by (induction tns arbitrary: s) (simp_all add: auto_start_one_def split: option.split sum.split)

lemma same_run_manager_ok: "same_run s s' \<Longrightarrow> manager_ok s \<Longrightarrow> manager_ok s'"
  by (simp add: same_run_def manager_ok_def)

lemma app_step_manager_ok:
  assumes "app_step s s'" and "manager_ok s"
  shows "manager_ok s'"
  using assms
proof induction
  case (create s J dbf now i evs q)
  then show ?case by (intro create_keeps [where P = manager_ok]) (simp_all add: manager_ok_start manager_ok_run)
next
  case (update s J dbf now clock i uq)
  then show ?case by (intro update_keeps [where P = manager_ok]) simp_all
next
  case (start s J dbf clock i)
  then show ?case by (intro start_keeps [where P = manager_ok]) (simp_all add: manager_ok_start)
next
  case (delete s dbf evs i)
  then show ?case by (auto simp: app_delete_tunnel_def Let_def manager_ok_stop split: option.split)
qed (auto simp: manager_ok_task_step start_auto_start_tunnels_def Let_def manager_ok_auto_start app_stop_tunnel_def manager_ok_stop
      app_clear_tunnel_metrics_def same_run_manager_ok [OF relay_commands_same(1)]
      same_run_manager_ok [OF relay_commands_same(2)] same_run_manager_ok [OF relay_commands_same(3)] split: option.split)

lemma app_steps_manager_ok: "app_step\<^sup>*\<^sup>* (app_new ts rs cs) s \<Longrightarrow> manager_ok s"
proof (induction rule: rtranclp_induct)
  case base
  show ?case by (simp add: app_new_def manager_ok_def)
qed (rule app_step_manager_ok)

text \<open>
  In every reachable state a tunnel is shown with an address only while it is connected and with an
  error message exactly when it failed; but its identifier is never known, and so the list of its
  captured requests is empty whatever the database holds.
\<close>

theorem shown_state_consistent:
  assumes "app_step\<^sup>*\<^sup>* (app_new ts rs cs) s"
  shows "case shown_state i s of (st, url, lid, err) \<Rightarrow>
    (url \<noteq> None \<longrightarrow> st = ''connected'') \<and> (err \<noteq> None \<longleftrightarrow> st = ''error'') \<and> lid = None \<and>
    app_get_captured_requests newest dbf i s = Ok []"
proof (cases "ap_manager s i")
  case None
  then show ?thesis by (simp add: shown_state_def app_get_captured_requests_def)
next
  case (Some m)
  then have "managed_ok i m" using app_steps_manager_ok [OF assms] by (simp add: manager_ok_def)
  then show ?thesis using Some
    by (cases "mt_status m") (auto simp: shown_state_def managed_view_def managed_ok_def app_get_captured_requests_def)
qed


section \<open>The default relay\<close>

definition relays_ok :: "relay_server_row list \<Rightarrow> bool" where
  "relays_ok rs \<longleftrightarrow> distinct (map rs_id rs) \<and> length (filter rs_is_default rs) \<le> 1"

lemma clear_defaults_props:
  assumes "clear_defaults dbf k now rs = (res, rs')"
  shows "map rs_id rs' = map rs_id rs" and "length (filter rs_is_default rs') \<le> length (filter rs_is_default rs)"
    and "res = Ok () \<Longrightarrow> filter rs_is_default rs' = []"
proof -
  have "map rs_id (snd (clear_defaults dbf k now rs)) = map rs_id rs \<and>
      length (filter rs_is_default (snd (clear_defaults dbf k now rs))) \<le> length (filter rs_is_default rs) \<and>
      (fst (clear_defaults dbf k now rs) = Ok () \<longrightarrow> filter rs_is_default (snd (clear_defaults dbf k now rs)) = [])"
    by (induction dbf k now rs rule: clear_defaults.induct) (auto split: option.split)
  then show "map rs_id rs' = map rs_id rs" "length (filter rs_is_default rs') \<le> length (filter rs_is_default rs)"
    "res = Ok () \<Longrightarrow> filter rs_is_default rs' = []"
    using assms by simp_all
qed

lemma clear_default_relay_props:
  assumes "(if b then clear_default_relay dbf k now s else (Ok (), s)) = (res, s1)" and "relays_ok (ap_relays s)"
  shows "relays_ok (ap_relays s1)" and "map rs_id (ap_relays s1) = map rs_id (ap_relays s)"
    and "b \<Longrightarrow> res = Ok () \<Longrightarrow> filter rs_is_default (ap_relays s1) = []"
proof -
  have "relays_ok (ap_relays s1) \<and> map rs_id (ap_relays s1) = map rs_id (ap_relays s) \<and>
      (b \<longrightarrow> res = Ok () \<longrightarrow> filter rs_is_default (ap_relays s1) = [])"
  proof (cases "b \<and> dbf k = None")
    case True
    then obtain rs' where rs': "clear_defaults dbf (k + 1) now (ap_relays s) = (res, rs')" "s1 = s\<lparr>ap_relays := rs'\<rparr>"
      using assms(1) by (cases "clear_defaults dbf (k + 1) now (ap_relays s)") (auto simp: clear_default_relay_def)
    then show ?thesis using clear_defaults_props [OF rs'(1)] assms(2) by (auto simp: relays_ok_def)
  next
    case False
    then show ?thesis using assms by (auto simp: clear_default_relay_def split: option.splits if_splits)
  qed
  then show "relays_ok (ap_relays s1)" "map rs_id (ap_relays s1) = map rs_id (ap_relays s)"
    "b \<Longrightarrow> res = Ok () \<Longrightarrow> filter rs_is_default (ap_relays s1) = []"
    by simp_all
qed

lemma find_relay_row_ids: "find_relay_row i s = None \<longleftrightarrow> i \<notin> set (map rs_id (ap_relays s))"
  by (auto simp: find_relay_row_def find_None_iff)

lemma replaced_defaults:
  assumes "distinct (map rs_id rs)" and "r \<in> set rs" and "rs_id r = i" and "rs_is_default r' \<Longrightarrow> rs_is_default r"
  shows "length (filter rs_is_default (map (\<lambda>x. if rs_id x = i then r' else x) rs)) \<le> length (filter rs_is_default rs)"
  using assms
proof (induction rs)
  case (Cons x rs)
  show ?case
  proof (cases "rs_id x = i")
    case True
    then have "x = r" using Cons.prems by (force simp: image_iff)
    moreover have "map (\<lambda>y. if rs_id y = i then r' else y) rs = rs"
      using Cons.prems(1) True by (intro map_idI) (auto simp: image_iff)
    ultimately show ?thesis using Cons.prems(4) True by auto
  next
    case False
    then show ?thesis using Cons by auto
  qed
qed simp

lemma replaced_single:
  assumes "distinct (map rs_id rs)" and "filter rs_is_default rs = []"
  shows "length (filter rs_is_default (map (\<lambda>x. if rs_id x = i then r' else x) rs)) \<le> 1"
  using assms
proof (induction rs)
  case (Cons x rs)
  show ?case
  proof (cases "rs_id x = i")
    case True
    then have "map (\<lambda>y. if rs_id y = i then r' else y) rs = rs"
      using Cons.prems(1) by (intro map_idI) (auto simp: image_iff)
    then show ?thesis using Cons.prems(2) True by (auto split: if_splits)
  next
    case False
    then show ?thesis using Cons by (auto split: if_splits)
  qed
qed simp

lemma map_replace_ids: "rs_id r' = i \<Longrightarrow> map rs_id (map (\<lambda>x. if rs_id x = i then r' else x) rs) = map rs_id rs"
  by simp

lemma add_relay_ok:
  assumes "relays_ok (ap_relays s)"
  shows "relays_ok (ap_relays (snd (add_relay J dbf now i cr s)))"
proof -
  obtain res s1 where c: "(if or_default (cq_is_default cr) False then clear_default_relay dbf 10 now s else (Ok (), s)) = (res, s1)"
    by fastforce
  note props = clear_default_relay_props [OF c assms]
  show ?thesis
    unfolding add_relay_def c using props
    by (auto simp: relays_ok_def find_relay_row_ids Let_def split: sum.split option.split)
qed

lemma update_relay_ok:
  assumes "relays_ok (ap_relays s)"
  shows "relays_ok (ap_relays (snd (update_relay J dbf now i ur s)))"
proof (cases "dbf 1 = None \<and> find_relay_row i s \<noteq> None")
  case True
  then obtain r where r: "dbf 1 = None" "find_relay_row i s = Some r" by blast
  let ?b = "or_default (uq_is_default ur) False \<and> \<not> rs_is_default r" and ?r' = "update_relay_fields J now ur r"
  obtain res s1 where c: "(if ?b then clear_default_relay dbf 10 now s else (Ok (), s)) = (res, s1)" by fastforce
  note props = clear_default_relay_props [OF c assms]
  have rin: "r \<in> set (ap_relays s)" "rs_id r = i" using r(2) by (auto simp: find_relay_row_def find_Some_iff)
  have id': "rs_id ?r' = i" using rin by (simp add: update_relay_fields_def)
  have d: "distinct (map rs_id (ap_relays s1))" using props(1) by (simp add: relays_ok_def)
  have "length (filter rs_is_default (map (\<lambda>x. if rs_id x = i then ?r' else x) (ap_relays s1))) \<le> 1" if "res = Ok ()"
  proof (cases ?b)
    case True
    then show ?thesis using replaced_single [OF d props(3) [OF True that]] by simp
  next
    case False
    then have s1: "s1 = s" using c by auto
    have "rs_is_default ?r' \<Longrightarrow> rs_is_default r"
      using False by (auto simp: update_relay_fields_def or_default_def split: option.splits)
    then show ?thesis
      using replaced_defaults [OF d, of r i ?r'] rin assms unfolding s1 relays_ok_def by fastforce
  qed
  then show ?thesis
    unfolding update_relay_def r option.case c using props(1)
    by (auto simp: Let_def relays_ok_def map_replace_ids [OF id'] split: sum.split option.split simp del: map_map)
qed (use assms in \<open>auto simp: update_relay_def split: option.split\<close>)

lemma distinct_ids_filter: "distinct (map rs_id rs) \<Longrightarrow> distinct (map rs_id (filter P rs))"
  by (induction rs) auto

lemma delete_relay_ok: "relays_ok (ap_relays s) \<Longrightarrow> relays_ok (ap_relays (snd (delete_relay dbf i s)))"
proof -
  assume ok: "relays_ok (ap_relays s)"
  have "length (filter rs_is_default (filter (\<lambda>r. rs_id r \<noteq> i) rs)) \<le> length (filter rs_is_default rs)" for rs
    by (induction rs) auto
  from this [of "ap_relays s"] show ?thesis
    using ok by (auto simp: delete_relay_def relays_ok_def distinct_ids_filter split: option.split)
qed


lemma app_run_relays: "ap_relays (app_run evs s) = ap_relays s"
  unfolding app_run_def by (induction evs arbitrary: s) (auto simp: app_task_step_frame)

lemma start_in_process_relays: "ap_relays (snd (start_tunnel_in_process J i c r s)) = ap_relays s"
  by (simp add: start_tunnel_in_process_def Let_def split: sum.split)

lemma stop_internal_relays: "ap_relays (stop_tunnel_internal evs i s) = ap_relays s"
  by (simp add: stop_tunnel_internal_def app_run_relays split: option.split)

lemma auto_start_relays: "ap_relays (foldl (auto_start_one J) s tns) = ap_relays s"
proof (induction tns arbitrary: s)
  case (Cons c tns)
  have "ap_relays (auto_start_one J s c) = ap_relays s" by (simp add: auto_start_one_def split: option.split sum.split)
  with Cons show ?case by simp
qed simp

lemma app_step_relays_ok:
  assumes "app_step s s'" and "relays_ok (ap_relays s)"
  shows "relays_ok (ap_relays s')"
  using assms
proof induction
  case (create s J dbf now i evs q)
  then show ?case
    by (intro create_keeps [where P = "\<lambda>s. relays_ok (ap_relays s)"]) (simp_all add: app_run_relays start_in_process_relays)
next
  case (update s J dbf now clock i uq)
  then show ?case by (intro update_keeps [where P = "\<lambda>s. relays_ok (ap_relays s)"]) simp_all
next
  case (start s J dbf clock i)
  then show ?case by (intro start_keeps [where P = "\<lambda>s. relays_ok (ap_relays s)"]) (simp_all add: start_in_process_relays)
next
  case (delete s dbf evs i)
  then show ?case by (auto simp: app_delete_tunnel_def Let_def stop_internal_relays split: option.split)
qed (auto simp: app_task_step_frame start_auto_start_tunnels_def Let_def auto_start_relays app_stop_tunnel_def stop_internal_relays
      app_clear_tunnel_metrics_def add_relay_ok update_relay_ok delete_relay_ok split: option.split)

text \<open>
  However relays and tunnels are added, changed and removed, and also when the database fails in the
  middle of a command, at most one relay is the default one.
\<close>

theorem one_default_relay:
  assumes "app_step\<^sup>*\<^sup>* (app_new ts rs cs) s" and "relays_ok rs"
  shows "distinct (map rs_id (ap_relays s)) \<and> length (filter rs_is_default (ap_relays s)) \<le> 1"
proof -
  have "relays_ok (ap_relays s)" using assms(1)
  proof (induction rule: rtranclp_induct)
    case base
    show ?case using assms(2) by (simp add: app_new_def)
  qed (rule app_step_relays_ok)
  then show ?thesis by (simp add: relays_ok_def)
qed

section \<open>From the request to the client's configuration\<close>

lemma find_snoc: "List.find P xs = None \<Longrightarrow> P x \<Longrightarrow> List.find P (xs @ [x]) = Some x"
  by (induction xs) (auto split: if_splits)

text \<open>
  A tunnel that is created to start at once: when the relay exists and the protocol is one of the
  four, a task has been spawned with exactly the host, port, names and address list of the request
  and the relay's address and token; the row stored for the next launch gives the same configuration.
\<close>

theorem created_tunnel_configured:
  assumes "\<And>l. lj_parse J (lj_print J l) = Some l" and "dbf = (\<lambda>_. None)"
    and "find_relay_row (ct_relay_id q) s = Some r" and "find_tunnel_row i s = None" and "ct_auto_start q = Some True"
    and "ct_protocol q \<in> {''http'', ''https'', ''tcp'', ''tls''}"
    and "app_create_tunnel J dbf now i [] q s = (res, s')"
  shows "\<exists>k c. tp_tasks (ap_pool s') (tp_next (ap_pool s)) = Some k \<and> ap_handles s' i = Some (tp_next (ap_pool s)) \<and>
    tk_tunnel k = i \<and> tk_phase k = AtHead 0 \<and>
    tk_config k = client_config_default\<lparr>cc_local_host := or_default (ct_local_host q) ''localhost'',
      cc_protocols := [if ct_protocol q = ''http'' then PcHttp (ct_local_port q) (ct_subdomain q) (ct_custom_domain q)
                       else if ct_protocol q = ''https'' then PcHttps (ct_local_port q) (ct_subdomain q) (ct_custom_domain q)
                       else if ct_protocol q = ''tcp'' then PcTcp (ct_local_port q) None
                       else PcTls (ct_local_port q) (case ct_custom_domain q of Some d \<Rightarrow> [d] | None \<Rightarrow> []) None],
      cc_auth_token := (case rs_jwt_token r of Some tok \<Rightarrow> tok | None \<Rightarrow> []), cc_exit_node := Custom (rs_address r),
      cc_ip_allowlist := or_default (ct_ip_allowlist q) []\<rparr> \<and>
    find_tunnel_row i s' = Some c \<and> app_protocol_config c = Ok (hd (cc_protocols (tk_config k))) \<and>
    app_client_config J c r (hd (cc_protocols (tk_config k))) = tk_config k \<and> fst (shown_state i s') = ''connecting''"
proof -
  let ?c = "created_row J now i q" and ?s1 = "s\<lparr>ap_tunnels := ap_tunnels s @ [created_row J now i q]\<rparr>"
  have port: "(ucast (ucast (w :: u16) :: 32 word) :: u16) = w" for w by (simp add: ucast_down_ucast_id is_down)
  have allow: "parse_ip_allowlist J (tc_ip_allowlist ?c) = or_default (ct_ip_allowlist q) []"
    using assms(1) by (simp add: parse_ip_allowlist_def created_row_def serialize_ip_allowlist_def or_default_def split: option.split)
  obtain p where p: "app_protocol_config ?c = Ok p" and p_eq: "p =
      (if ct_protocol q = ''http'' then PcHttp (ct_local_port q) (ct_subdomain q) (ct_custom_domain q)
       else if ct_protocol q = ''https'' then PcHttps (ct_local_port q) (ct_subdomain q) (ct_custom_domain q)
       else if ct_protocol q = ''tcp'' then PcTcp (ct_local_port q) None
       else PcTls (ct_local_port q) (case ct_custom_domain q of Some d \<Rightarrow> [d] | None \<Rightarrow> []) None)"
    using assms(6) by (auto simp: app_protocol_config_def created_row_def port)
  let ?s2 = "app_spawn i (app_client_config J ?c r p) (set_status i MsConnecting None None ?s1)"
  have "insert_tunnel_row (dbf 1) ?c s = Ok ?s1"
    using assms(2,4) by (simp add: insert_tunnel_row_def created_row_def)
  then have s': "s' = ?s2"
    using assms(2,3,5,7) p
    by (auto simp: app_create_tunnel_def Let_def start_tunnel_in_process_def created_row_def or_default_def app_run_def)
  let ?k = "\<lparr>tk_tunnel = i, tk_config = app_client_config J ?c r p, tk_phase = AtHead 0, tk_signal = NotSent\<rparr>"
  have k: "tp_tasks (ap_pool s') (tp_next (ap_pool s)) = Some ?k"
    unfolding s' by (cases "ap_handles s i") (simp_all add: app_spawn_def task_changes)
  have conf: "app_client_config J ?c r p = client_config_default\<lparr>cc_local_host := or_default (ct_local_host q) ''localhost'',
      cc_protocols := [p], cc_auth_token := (case rs_jwt_token r of Some tok \<Rightarrow> tok | None \<Rightarrow> []),
      cc_exit_node := Custom (rs_address r), cc_ip_allowlist := or_default (ct_ip_allowlist q) []\<rparr>"
    unfolding app_client_config_def allow by (simp add: created_row_def)
  have row: "find_tunnel_row i s' = Some ?c"
    using assms(4) find_snoc [of "\<lambda>c. tc_id c = i" "ap_tunnels s" ?c] unfolding s' by (simp add: find_tunnel_row_def created_row_def)
  have shown: "fst (shown_state i s') = ''connecting''"
    unfolding s' by (auto simp: shown_state_def set_status_def manager_update_status_def managed_view_def split: option.split)
  have handle: "ap_handles s' i = Some (tp_next (ap_pool s))" unfolding s' by simp
  show ?thesis unfolding p_eq [symmetric]
    by (intro exI [of _ ?k] exI [of _ ?c]) (simp add: k handle row shown p conf)
qed


definition demo_relay_row :: "string \<Rightarrow> bool \<Rightarrow> relay_server_row" where
  "demo_relay_row i b = \<lparr>rs_id = i, rs_name = ''r'', rs_address = ''r:4443'', rs_jwt_token = None, rs_protocol = ''quic'', rs_insecure = False,
     rs_is_default = b, rs_supported_protocols = ''[]'', rs_created_at = 0, rs_updated_at = 0\<rparr>"

definition demo_tunnel_row :: tunnel_config_row where
  "demo_tunnel_row = \<lparr>tc_id = ''t'', tc_name = ''web'', tc_relay_server_id = ''r'', tc_local_host = ''localhost'', tc_local_port = 3000,
     tc_protocol = ''http'', tc_subdomain = None, tc_custom_domain = None, tc_auto_start = False, tc_enabled = True,
     tc_ip_allowlist = None, tc_created_at = 0, tc_updated_at = 0\<rparr>"

definition demo_list_json :: list_json where
  "demo_list_json = \<lparr>lj_parse = (\<lambda>_. Some []), lj_print = (\<lambda>_. [])\<rparr>"

theorem stop_ends_tunnel_witness:
  "let s = snd (app_start_tunnel demo_list_json (\<lambda>_. None) 0 ''t''
             (app_new [demo_tunnel_row] [demo_relay_row ''r'' True] [] :: (unit, unit) app_state));
       s' = snd (app_stop_tunnel demo_list_json (\<lambda>_. None) 0 [(Proceed, 0)] ''t'' s) in
    tp_tasks (ap_pool s) 0 \<noteq> None \<and>
    (\<forall>t k. tp_tasks (ap_pool s') t = Some k \<longrightarrow> tk_tunnel k \<noteq> ''t'') \<and> ap_handles s' ''t'' = None \<and> ap_metrics s' ''t'' = None \<and>
    shown_state ''t'' s' = (''disconnected'', None, None, None)"
proof -
  let ?init = "app_new [demo_tunnel_row] [demo_relay_row ''r'' True] [] :: (unit, unit) app_state"
  let ?s = "snd (app_start_tunnel demo_list_json (\<lambda>_. None) 0 ''t'' ?init)"
  have reach: "app_step\<^sup>*\<^sup>* ?init ?s" by (rule r_into_rtranclp) (rule start)
  have tasks: "tp_tasks (ap_pool ?s) t = (if t = 0 then Some \<lparr>tk_tunnel = ''t'', tk_config =
        app_client_config demo_list_json demo_tunnel_row (demo_relay_row ''r'' True) (PcHttp 3000 None None),
        tk_phase = AtHead 0, tk_signal = NotSent\<rparr> else None)" for t
    by (simp add: app_start_tunnel_def app_new_def find_tunnel_row_def find_relay_row_def demo_tunnel_row_def demo_relay_row_def
        manager_is_running_def start_tunnel_in_process_def app_protocol_config_def Let_def app_spawn_def no_tasks_def)
  then have "\<forall>t k. tp_tasks (ap_pool ?s) t = Some k \<and> tk_tunnel k = ''t'' \<longrightarrow> tk_signal k = NotSent" by simp
  from stop_ends_tunnel [OF reach this, of demo_list_json "\<lambda>_. None" 0 "[(Proceed, 0)]"] tasks [of 0]
  show ?thesis by (simp add: Let_def)
qed

theorem one_default_relay_witness:
  "let cr = \<lparr>cq_name = ''b'', cq_address = ''b:1'', cq_jwt_token = None, cq_protocol = None, cq_insecure = None,
       cq_is_default = Some True, cq_supported_protocols = None\<rparr>;
       s = snd (add_relay demo_list_json (\<lambda>_. None) 5 ''b'' cr (app_new [] [demo_relay_row ''a'' True] [] :: (unit, unit) app_state))
   in length (ap_relays s) = 2 \<and> length (filter rs_is_default (ap_relays s)) \<le> 1"
proof -
  let ?cr = "\<lparr>cq_name = ''b'', cq_address = ''b:1'', cq_jwt_token = None, cq_protocol = None, cq_insecure = None,
       cq_is_default = Some True, cq_supported_protocols = None\<rparr>"
  let ?init = "app_new [] [demo_relay_row ''a'' True] [] :: (unit, unit) app_state"
  let ?s = "snd (add_relay demo_list_json (\<lambda>_. None) 5 ''b'' ?cr ?init)"
  have reach: "app_step\<^sup>*\<^sup>* ?init ?s" by (rule r_into_rtranclp) (rule add)
  have "relays_ok [demo_relay_row ''a'' True]" by (simp add: relays_ok_def)
  from one_default_relay [OF reach this]
  have "length (filter rs_is_default (ap_relays ?s)) \<le> 1" by blast
  moreover have "length (ap_relays ?s) = 2"
    by (simp add: add_relay_def or_default_def clear_default_relay_def app_new_def demo_relay_row_def Let_def find_relay_row_def)
  ultimately show ?thesis by (simp only: Let_def simp_thms)
qed

end
