(* ===== verification/DesktopReplay.thy ===== *)
theory DesktopReplay
  imports Desktop ClientHttp
begin

text \<open>
  Replaying a captured request from the desktop application (\<open>replay_request\<close> in
  \<open>apps/localup-desktop/src-tauri/src/commands/tunnels.rs\<close>): the request that is written to the local
  service, the loop that reads the response, and what is shown of it. The loop waits at most 30
  seconds; \<open>LocalTimeout\<close> is the end of that time.
\<close>

record ReplayRequest =
  ry_method :: string
  ry_uri :: string
  ry_headers :: headers
  ry_body :: "string option"

record ReplayResponse =
  ra_status :: u16
  ra_headers :: headers
  ra_body :: "string option"

definition replay_addr :: "tunnel_config_row \<Rightarrow> string" where
  "replay_addr c =
     tc_local_host c @ '':'' @ (if sint (tc_local_port c) < 0 then ''-'' else []) @ show_nat (nat \<bar>sint (tc_local_port c)\<bar>)"

definition has_header :: "string \<Rightarrow> headers \<Rightarrow> bool" where
  "has_header name hs = list_ex (\<lambda>(n, _). to_lowercase n = name) hs"

definition replay_bytes :: "string \<Rightarrow> ReplayRequest \<Rightarrow> bytes" where
  "replay_bytes target q =
     as_bytes (ry_method q @ '' '' @ ry_uri q @ '' HTTP/1.1'' @ crlf
       @ concat (map (\<lambda>(n, v). n @ '': '' @ v @ crlf) (ry_headers q))
       @ (if has_header ''host'' (ry_headers q) then [] else ''Host: '' @ target @ crlf)
       @ (case ry_body q of
            Some b \<Rightarrow> if has_header ''content-length'' (ry_headers q) then []
                      else ''Content-Length: '' @ show_nat (length b) @ crlf
          | None \<Rightarrow> [])
       @ crlf)
     @ (case ry_body q of Some b \<Rightarrow> as_bytes b | None \<Rightarrow> [])"

text \<open>Whether what has been read looks like the whole response.\<close>

definition replay_enough :: "bytes \<Rightarrow> bool" where
  "replay_enough data =
     (let s = from_utf8_lossy data in
      case find_sub (crlf @ crlf) s of
        None \<Rightarrow> False
      | Some header_end \<Rightarrow>
          (let head = take header_end s in
           case List.find (\<lambda>l. starts_with (to_lowercase l) ''content-length:'') (str_lines head) of
             Some l \<Rightarrow>
               (case parse_uint 64 (trim (case split_char CHR '':'' l of _ # v # _ \<Rightarrow> v | _ \<Rightarrow> ''0'')) of
                  Some n \<Rightarrow> length data \<ge> header_end + 4 + n
                | None \<Rightarrow> False)
           | None \<Rightarrow>
               if contains_sub (to_lowercase head) ''transfer-encoding: chunked''
               then contains_sub s (crlf @ ''0'' @ crlf) else True))"

fun replay_read :: "local_read list \<Rightarrow> bytes \<Rightarrow> (string, bytes) result option" where
  "replay_read [] data = None"
| "replay_read (LocalBytes b # rs) data =
     (if b = [] then Some (Ok data)
      else if replay_enough (data @ b) then Some (Ok (data @ b))
      else replay_read rs (data @ b))"
| "replay_read (LocalError e # rs) data = Some (Err (''Read error: '' @ e))"
| "replay_read (LocalTimeout # rs) data = Some (Err ''Request timed out'')"

definition replay_parse :: "bytes \<Rightarrow> ReplayResponse" where
  "replay_parse data =
     (let s = from_utf8_lossy data in
      \<lparr>ra_status =
         (case str_lines s of
            line # _ \<Rightarrow> (case split_whitespace line of _ # c # _ \<Rightarrow> (case parse_u16 c of Some n \<Rightarrow> n | None \<Rightarrow> 0) | _ \<Rightarrow> 0)
          | [] \<Rightarrow> 0),
       ra_headers = (case str_lines s of _ # ls \<Rightarrow> header_lines ls | [] \<Rightarrow> []),
       ra_body =
         (case find_sub (crlf @ crlf) s of
            Some pos \<Rightarrow> (case drop (pos + 4) s of [] \<Rightarrow> None | b \<Rightarrow> Some b)
          | None \<Rightarrow> None)\<rparr>)"

definition app_replay_request ::
  "(nat \<Rightarrow> string option) \<Rightarrow> (string \<Rightarrow> (string, unit) result) \<Rightarrow> (string, unit) result \<Rightarrow> (string, unit) result \<Rightarrow> local_read list
    \<Rightarrow> string \<Rightarrow> ReplayRequest \<Rightarrow> ('j, 'h) app_state \<Rightarrow> (string, bytes \<times> ReplayResponse) result option" where
  "app_replay_request dbf connect wrote_head wrote_body reads i q s =
     (case dbf 0 of
        Some e \<Rightarrow> Some (Err (''Failed to find tunnel: '' @ e))
      | None \<Rightarrow>
          (case find_tunnel_row i s of
             None \<Rightarrow> Some (Err (''Tunnel not found: '' @ i))
           | Some c \<Rightarrow>
               (let target = replay_addr c in
                case connect target of
                  Err e \<Rightarrow> Some (Err (''Failed to connect to '' @ target @ '': '' @ e))
                | Ok _ \<Rightarrow>
                    (case wrote_head of
                       Err e \<Rightarrow> Some (Err (''Failed to write request: '' @ e))
                     | Ok _ \<Rightarrow>
                         (case (if ry_body q = None then Ok () else wrote_body) of
                            Err e \<Rightarrow> Some (Err (''Failed to write body: '' @ e))
                          | Ok _ \<Rightarrow>
                              map_option (\<lambda>r. case r of
                                  Err e \<Rightarrow> Err e
                                | Ok data \<Rightarrow> Ok (replay_bytes target q, replay_parse data)) (replay_read reads []))))))"

section \<open>The request\<close>

definition replayed_headers :: "string \<Rightarrow> ReplayRequest \<Rightarrow> headers" where
  "replayed_headers target q =
     ry_headers q @ (if has_header ''host'' (ry_headers q) then [] else [(''Host'', target)])
     @ (case ry_body q of
          Some b \<Rightarrow> if has_header ''content-length'' (ry_headers q) then [] else [(''Content-Length'', show_nat (length b))]
        | None \<Rightarrow> [])"

lemma replay_bytes_render:
  "replay_bytes target q =
     render_request (request_line (ry_method q) (ry_uri q)) (replayed_headers target q) (case ry_body q of Some b \<Rightarrow> as_bytes b | None \<Rightarrow> [])"
  by (simp add: replay_bytes_def render_request_def request_line_def replayed_headers_def render_headers_def as_bytes_def split: option.split)

text \<open>
  The local service reads the captured headers in their order, followed by a host and, when there is a
  body, its length, each only if the captured request had none.
\<close>

theorem replayed_request_read:
  assumes "header_text (request_line (ry_method q) (ry_uri q))" and "list_all plain_header (ry_headers q)" and "plain_header (''Host'', target)"
  shows "parse_headers_from_request (replay_bytes target q) = replayed_headers target q \<and>
    has_header ''host'' (replayed_headers target q) \<and> (ry_body q \<noteq> None \<longrightarrow> has_header ''content-length'' (replayed_headers target q))"
proof -
  have "to_lowercase ''Host'' = ''host''" "to_lowercase ''Content-Length'' = ''content-length''" by code_simp+
  then have "has_header ''host'' (replayed_headers target q)" "ry_body q \<noteq> None \<Longrightarrow> has_header ''content-length'' (replayed_headers target q)"
    by (auto simp: replayed_headers_def has_header_def split: if_splits)
  moreover have "list_all plain_header (replayed_headers target q)"
    using assms(2,3) length_header_plain by (simp add: replayed_headers_def split: option.split)
  ultimately show ?thesis unfolding replay_bytes_render using parse_headers_roundtrip [OF assms(1)] by simp
qed

section \<open>The response\<close>

text \<open>Whatever comes, the loop ends with the first read that fails, closes the connection or completes the response.\<close>

lemma replay_read_ends:
  assumes "\<exists>r \<in> set rs. r = LocalBytes [] \<or> (\<exists>e. r = LocalError e) \<or> r = LocalTimeout"
  shows "\<exists>res. replay_read rs data = Some res"
  using assms by (induction rs data rule: replay_read.induct) auto

text \<open>The headers of a well-formed response are shown as they were sent, whatever its body.\<close>

lemma replay_parse_headers:
  assumes "header_text line" and "list_all plain_header hs"
  shows "ra_headers (replay_parse (render_request line hs body)) = hs"
proof -
  have "header_lines (drop 1 (str_lines (from_utf8_lossy (render_request line hs body)))) = hs"
    using parse_headers_roundtrip [OF assms, of body] by (simp add: parse_headers_from_request_def)
  then show ?thesis
    by (cases "str_lines (from_utf8_lossy (render_request line hs body))") (simp_all add: replay_parse_def Let_def)
qed

end
