(* ===== verification/DesktopDaemon.thy ===== *)
theory DesktopDaemon
  imports DesktopTasks Metrics
begin

text \<open>
  The daemon of the desktop application (\<open>apps/localup-desktop/src-tauri/src/daemon\<close>): the requests and
  responses of \<open>protocol.rs\<close>, the service that runs tunnels (\<open>service.rs\<close>), and the client that talks to
  it (\<open>client.rs\<close>). Messages are JSON with a length of four bytes before them. JSON, the clock, the order
  in which a hash map is listed, and the file system are parameters.
\<close>

section \<open>Protocol\<close>

record start_request =
  sq_id :: string
  sq_name :: string
  sq_relay_address :: string
  sq_auth_token :: string
  sq_local_host :: string
  sq_local_port :: u16
  sq_protocol :: string
  sq_subdomain :: "string option"
  sq_custom_domain :: "string option"

record update_request =
  up_id :: string
  up_name :: "string option"
  up_relay_address :: "string option"
  up_auth_token :: "string option"
  up_local_host :: "string option"
  up_local_port :: "u16 option"
  up_protocol :: "string option"
  up_subdomain :: "string option"
  up_custom_domain :: "string option"

datatype DaemonRequest =
  DqPing
| DqListTunnels
| DqGetTunnel string
| DqStartTunnel start_request
| DqStopTunnel string
| DqUpdateTunnel update_request
| DqDeleteTunnel string
| DqGetTunnelMetrics string "nat option" "nat option"
| DqClearTunnelMetrics string
| DqGetTcpConnections string "nat option" "nat option"
| DqSubscribeMetrics string
| DqUnsubscribeMetrics string
| DqShutdown

record DaemonTunnelInfo =
  di_id :: string
  di_name :: string
  di_relay_address :: string
  di_local_host :: string
  di_local_port :: u16
  di_protocol :: string
  di_subdomain :: "string option"
  di_custom_domain :: "string option"
  di_status :: string
  di_public_url :: "string option"
  di_localup_id :: "string option"
  di_error_message :: "string option"
  di_started_at :: "string option"

definition info_is_connected :: "DaemonTunnelInfo \<Rightarrow> bool" where
  "info_is_connected i \<longleftrightarrow> di_status i = ''connected''"

definition info_is_connecting :: "DaemonTunnelInfo \<Rightarrow> bool" where
  "info_is_connecting i \<longleftrightarrow> di_status i = ''connecting''"

datatype 'j DaemonResponse =
  DrOk
| DrPong string nat nat
| DrError string
| DrTunnel DaemonTunnelInfo
| DrTunnels "DaemonTunnelInfo list"
| DrMetrics "'j HttpMetric list" nat nat nat
| DrTcpConnections "TcpMetric list" nat nat nat
| DrMetricsEvent string "'j MetricsEvent"
| DrSubscribed string

section \<open>The service\<close>

record ('j, 'h) DaemonRunning =
  rn_info :: DaemonTunnelInfo
  rn_task :: nat
  rn_metrics :: "('j, 'h) MetricsStore option"

record ('j, 'h) service_state =
  sc_tunnels :: "string \<rightharpoonup> ('j, 'h) DaemonRunning"
  sc_pool :: task_pool
  sc_exiting :: bool

definition service_new :: "('j, 'h) service_state" where
  "service_new = \<lparr>sc_tunnels = Map.empty, sc_pool = no_tasks, sc_exiting = False\<rparr>"

definition service_handle :: "('j, 'h) service_state \<Rightarrow> string \<Rightarrow> nat option" where
  "service_handle s i = map_option rn_task (sc_tunnels s i)"

definition update_tunnel_status ::
  "string \<Rightarrow> string \<Rightarrow> string option \<Rightarrow> string option \<Rightarrow> ('j, 'h) service_state \<Rightarrow> ('j, 'h) service_state" where
  "update_tunnel_status i st url err s =
     (case sc_tunnels s i of
        None \<Rightarrow> s
      | Some r \<Rightarrow>
          s\<lparr>sc_tunnels := (sc_tunnels s)(i \<mapsto>
              r\<lparr>rn_info := (rn_info r)\<lparr>di_status := st, di_public_url := url, di_error_message := err\<rparr>\<rparr>)\<rparr>)"

definition set_tunnel_metrics :: "string \<Rightarrow> ('j, 'h) MetricsStore \<Rightarrow> ('j, 'h) service_state \<Rightarrow> ('j, 'h) service_state" where
  "set_tunnel_metrics i m s =
     (case sc_tunnels s i of
        None \<Rightarrow> s
      | Some r \<Rightarrow> s\<lparr>sc_tunnels := (sc_tunnels s)(i \<mapsto> r\<lparr>rn_metrics := Some m\<rparr>)\<rparr>)"

definition service_set_phase :: "task_phase \<Rightarrow> nat \<Rightarrow> ('j, 'h) service_state \<Rightarrow> ('j, 'h) service_state" where
  "service_set_phase ph t s = s\<lparr>sc_pool := set_phase ph t (sc_pool s)\<rparr>"

definition service_abort :: "nat \<Rightarrow> ('j, 'h) service_state \<Rightarrow> ('j, 'h) service_state" where
  "service_abort t s = s\<lparr>sc_pool := abort_task t (sc_pool s)\<rparr>"

text \<open>
  One step of \<open>run_tunnel_task\<close>. Unlike the application's, it does not report an attempt to connect or
  the loss of a connection, and after a loss it counts its attempts from zero.
\<close>

definition service_task_step :: "('j, 'h) MetricsStore task_event \<Rightarrow> nat \<Rightarrow> ('j, 'h) service_state \<Rightarrow> ('j, 'h) service_state" where
  "service_task_step ev t s =
     (case tp_tasks (sc_pool s) t of
        None \<Rightarrow> s
      | Some k \<Rightarrow>
          (let i = tk_tunnel k;
               stopped = (\<lambda>s. service_abort t (update_tunnel_status i ''disconnected'' None None s)) in
           case (tk_phase k, ev) of
             (AtHead n, Proceed) \<Rightarrow>
               (case backoff_seconds n of
                  Panicked \<Rightarrow> service_abort t s
                | Returned _ \<Rightarrow> if tk_signal k = Sent then stopped s else service_set_phase (Connecting n) t s)
           | (Connecting n, ConnectOk url m) \<Rightarrow> service_set_phase (Attached url) t (set_tunnel_metrics i m s)
           | (Connecting n, ConnectErr e) \<Rightarrow>
               (let s1 = update_tunnel_status i ''error'' None (Some (tunnel_error_display e)) s
                in if is_non_recoverable e then service_abort t s1
                   else if tk_signal k = Sent then stopped s1
                   else service_set_phase (AtHead (n + 1)) t s1)
           | (Attached url, Proceed) \<Rightarrow> service_set_phase Holding t (update_tunnel_status i ''connected'' url None s)
           | (Holding, ConnectionEnds) \<Rightarrow> service_set_phase (AtHead 0) t s
           | (Holding, SignalSeen) \<Rightarrow> if tk_signal k = NotSent then s else stopped s
           | _ \<Rightarrow> s))"

definition service_protocol_config :: "start_request \<Rightarrow> (string, ProtocolConfig) result" where
  "service_protocol_config q =
     (if sq_protocol q = ''http'' then Ok (PcHttp (sq_local_port q) (sq_subdomain q) (sq_custom_domain q))
      else if sq_protocol q = ''https'' then Ok (PcHttps (sq_local_port q) (sq_subdomain q) (sq_custom_domain q))
      else if sq_protocol q = ''tcp'' then Ok (PcTcp (sq_local_port q) None)
      else if sq_protocol q = ''tls'' then
        Ok (PcTls (sq_local_port q) (case sq_custom_domain q of Some d \<Rightarrow> [d] | None \<Rightarrow> []) None)
      else Err (''Unknown protocol: '' @ sq_protocol q))"

definition service_client_config :: "start_request \<Rightarrow> ProtocolConfig \<Rightarrow> ClientConfig" where
  "service_client_config q p =
     client_config_default\<lparr>cc_local_host := sq_local_host q, cc_protocols := [p], cc_auth_token := sq_auth_token q,
       cc_exit_node := Custom (sq_relay_address q)\<rparr>"

definition connecting_info :: "string \<Rightarrow> start_request \<Rightarrow> DaemonTunnelInfo" where
  "connecting_info now q =
     \<lparr>di_id = sq_id q, di_name = sq_name q, di_relay_address = sq_relay_address q, di_local_host = sq_local_host q,
      di_local_port = sq_local_port q, di_protocol = sq_protocol q, di_subdomain = sq_subdomain q,
      di_custom_domain = sq_custom_domain q, di_status = ''connecting'', di_public_url = None, di_localup_id = None,
      di_error_message = None, di_started_at = Some now\<rparr>"

text \<open>The task is spawned and its entry replaces the one that was there, whose sender is dropped.\<close>

definition service_register :: "DaemonTunnelInfo \<Rightarrow> string \<Rightarrow> ClientConfig \<Rightarrow> ('j, 'h) service_state \<Rightarrow> ('j, 'h) service_state" where
  "service_register info i c s =
     s\<lparr>sc_tunnels := (sc_tunnels s)(i \<mapsto> \<lparr>rn_info = info, rn_task = tp_next (sc_pool s), rn_metrics = None\<rparr>),
       sc_pool := spawn_task i c
         (case service_handle s i of None \<Rightarrow> sc_pool s | Some t \<Rightarrow> signal_task SenderGone t (sc_pool s))\<rparr>"

definition service_start :: "string \<Rightarrow> start_request \<Rightarrow> ('j, 'h) service_state \<Rightarrow> 'j DaemonResponse \<times> ('j, 'h) service_state" where
  "service_start now q s =
     (if (case sc_tunnels s (sq_id q) of
            Some r \<Rightarrow> info_is_connected (rn_info r) \<or> info_is_connecting (rn_info r)
          | None \<Rightarrow> False)
      then (DrError ''Tunnel is already running'', s)
      else case service_protocol_config q of
             Err e \<Rightarrow> (DrError e, s)
           | Ok p \<Rightarrow>
               (let info = connecting_info now q
                in (DrTunnel info, service_register info (sq_id q) (service_client_config q p) s)))"

definition service_signal :: "string \<Rightarrow> ('j, 'h) service_state \<Rightarrow> ('j, 'h) service_state" where
  "service_signal i s =
     s\<lparr>sc_tunnels := (sc_tunnels s)(i := None),
       sc_pool := (case service_handle s i of None \<Rightarrow> sc_pool s | Some t \<Rightarrow> signal_task Sent t (sc_pool s))\<rparr>"

definition service_remove :: "string \<Rightarrow> ('j, 'h) service_state \<Rightarrow> ('j, 'h) service_state" where
  "service_remove i s =
     (case service_handle s i of None \<Rightarrow> s | Some t \<Rightarrow> service_abort t (service_signal i s))"

definition not_found :: "string \<Rightarrow> 'j DaemonResponse" where
  "not_found i = DrError (''Tunnel not found: '' @ i)"

definition given_or :: "'a option \<Rightarrow> 'a \<Rightarrow> 'a" where
  "given_or x d = (case x of Some v \<Rightarrow> v | None \<Rightarrow> d)"

definition service_metrics_page :: "string \<Rightarrow> nat option \<Rightarrow> nat option \<Rightarrow> ('j, 'h) service_state \<Rightarrow> 'j DaemonResponse" where
  "service_metrics_page i offset limit s =
     (case sc_tunnels s i of
        None \<Rightarrow> not_found i
      | Some r \<Rightarrow>
          (case rn_metrics r of
             Some m \<Rightarrow> DrMetrics (get_paginated (given_or offset 0) (given_or limit 100) m) (length (metrics m))
                        (given_or offset 0) (given_or limit 100)
           | None \<Rightarrow> DrMetrics [] 0 (given_or offset 0) (given_or limit 100)))"

definition service_tcp_page :: "string \<Rightarrow> nat option \<Rightarrow> nat option \<Rightarrow> ('j, 'h) service_state \<Rightarrow> 'j DaemonResponse" where
  "service_tcp_page i offset limit s =
     (case sc_tunnels s i of
        None \<Rightarrow> not_found i
      | Some r \<Rightarrow>
          (let ofs = given_or offset 0; lim = given_or limit 100 in
           case rn_metrics r of
             Some m \<Rightarrow>
               if ofs = 0 \<and> lim \<ge> 100 then DrTcpConnections (tcp_connections m) (length (tcp_connections m)) 0 lim
               else DrTcpConnections (take lim (drop ofs (rev (tcp_connections m)))) (length (tcp_connections m)) ofs lim
           | None \<Rightarrow> DrTcpConnections [] 0 ofs lim))"

definition service_clear_metrics :: "'h histogram \<Rightarrow> string \<Rightarrow> ('j, 'h) service_state \<Rightarrow> 'j DaemonResponse \<times> ('j, 'h) service_state" where
  "service_clear_metrics h i s =
     (case sc_tunnels s i of
        None \<Rightarrow> (not_found i, s)
      | Some r \<Rightarrow>
          (case rn_metrics r of
             Some m \<Rightarrow> (DrOk, s\<lparr>sc_tunnels := (sc_tunnels s)(i \<mapsto> r\<lparr>rn_metrics := Some (metrics_clear h m)\<rparr>)\<rparr>)
           | None \<Rightarrow> (DrOk, s)))"

text \<open>\<open>listing\<close> enumerates the keys of the table in the order of the hash map.\<close>

record ('j, 'h) service_env =
  en_listing :: "(string \<rightharpoonup> ('j, 'h) DaemonRunning) \<Rightarrow> string list"
  en_version :: string
  en_uptime :: nat
  en_now :: string
  en_histogram :: "'h histogram"

definition service_infos :: "('j, 'h) service_env \<Rightarrow> ('j, 'h) service_state \<Rightarrow> DaemonTunnelInfo list" where
  "service_infos E s = map (\<lambda>i. rn_info (the (sc_tunnels s i))) (en_listing E (sc_tunnels s))"

definition handle_request ::
  "('j, 'h) service_env \<Rightarrow> DaemonRequest \<Rightarrow> ('j, 'h) service_state \<Rightarrow> 'j DaemonResponse \<times> ('j, 'h) service_state" where
  "handle_request E req s =
     (case req of
        DqPing \<Rightarrow> (DrPong (en_version E) (en_uptime E) (length (en_listing E (sc_tunnels s))), s)
      | DqListTunnels \<Rightarrow> (DrTunnels (service_infos E s), s)
      | DqGetTunnel i \<Rightarrow> (case sc_tunnels s i of Some r \<Rightarrow> DrTunnel (rn_info r) | None \<Rightarrow> not_found i, s)
      | DqStartTunnel q \<Rightarrow> service_start (en_now E) q s
      | DqStopTunnel i \<Rightarrow> (if sc_tunnels s i = None then not_found i else DrOk, service_remove i s)
      | DqUpdateTunnel u \<Rightarrow>
          (if sc_tunnels s (up_id u) = None then not_found (up_id u)
           else DrError ''Update requires stopping and restarting the tunnel'', s)
      | DqDeleteTunnel i \<Rightarrow> (DrOk, service_remove i s)
      | DqGetTunnelMetrics i offset limit \<Rightarrow> (service_metrics_page i offset limit s, s)
      | DqClearTunnelMetrics i \<Rightarrow> service_clear_metrics (en_histogram E) i s
      | DqGetTcpConnections i offset limit \<Rightarrow> (service_tcp_page i offset limit s, s)
      | DqSubscribeMetrics _ \<Rightarrow> (DrError ''SubscribeMetrics should be handled in streaming context'', s)
      | DqUnsubscribeMetrics _ \<Rightarrow> (DrError ''No active subscription to unsubscribe from'', s)
      | DqShutdown \<Rightarrow> (DrOk, (fold service_remove (en_listing E (sc_tunnels s)) s)\<lparr>sc_exiting := True\<rparr>))"

section \<open>The wire\<close>

record 'j wire_json =
  wj_print_request :: "DaemonRequest \<Rightarrow> bytes"
  wj_parse_request :: "bytes \<Rightarrow> DaemonRequest option"
  wj_print_response :: "'j DaemonResponse \<Rightarrow> bytes"
  wj_parse_response :: "bytes \<Rightarrow> 'j DaemonResponse option"

text \<open>The length is cut to 32 bits.\<close>

definition wire_frame :: "bytes \<Rightarrow> bytes" where
  "wire_frame b = u32_to_be_bytes (of_nat (length b)) @ b"

datatype frame_read = FrameEof | FrameCut | FrameBody bytes bytes

definition read_frame :: "bytes \<Rightarrow> frame_read" where
  "read_frame s =
     (if length s < 4 then FrameEof
      else let n = unat (u32_from_be_bytes (take 4 s)); rest = drop 4 s
           in if length rest < n then FrameCut else FrameBody (take n rest) (drop n rest))"

definition read_message :: "(bytes \<Rightarrow> 'a option) \<Rightarrow> bytes \<Rightarrow> (string, ('a \<times> bytes) option) result" where
  "read_message parse s =
     (case read_frame s of
        FrameEof \<Rightarrow> Ok None
      | FrameCut \<Rightarrow> Err ''early eof''
      | FrameBody b rest \<Rightarrow> (case parse b of Some q \<Rightarrow> Ok (Some (q, rest)) | None \<Rightarrow> Err ''invalid request''))"

text \<open>
  A subscription: each turn of \<open>select!\<close> reads a message or takes an event from the broadcast channel.
  When it ends, the bytes its own reader has read ahead are lost with the reader: \<open>ahead\<close> of them.
\<close>

datatype 'j sub_turn = TurnRead nat | TurnEvent "'j MetricsEvent" | TurnLagged | TurnClosed nat

datatype conn_end = ConnOpen | ConnClosed | ConnFailed string

fun subscription_loop ::
  "'j wire_json \<Rightarrow> string \<Rightarrow> 'j sub_turn list \<Rightarrow> bytes \<Rightarrow> bytes \<times> (bytes \<times> 'j sub_turn list) option" where
  "subscription_loop J i [] s = ([], None)"
| "subscription_loop J i (TurnRead ahead # ts) s =
     (case read_message (wj_parse_request J) s of
        Ok (Some (q, rest)) \<Rightarrow>
          if q = DqUnsubscribeMetrics i then (wire_frame (wj_print_response J DrOk), Some (drop ahead rest, ts))
          else subscription_loop J i ts rest
      | Ok None \<Rightarrow> ([], Some ([], ts))
      | Err _ \<Rightarrow> ([], Some ([], ts)))"
| "subscription_loop J i (TurnEvent e # ts) s =
     apfst ((@) (wire_frame (wj_print_response J (DrMetricsEvent i e)))) (subscription_loop J i ts s)"
| "subscription_loop J i (TurnLagged # ts) s = subscription_loop J i ts s"
| "subscription_loop J i (TurnClosed ahead # ts) s = ([], Some (drop ahead s, ts))"

definition handle_metrics_subscription ::
  "'j wire_json \<Rightarrow> string \<Rightarrow> 'j sub_turn list \<Rightarrow> bytes \<Rightarrow> ('j, 'h) service_state
    \<Rightarrow> bytes \<times> (bytes \<times> 'j sub_turn list) option" where
  "handle_metrics_subscription J i ts b s =
     (if Option.bind (sc_tunnels s i) rn_metrics = None
      then (wire_frame (wj_print_response J (DrError (''Tunnel not found or not connected: '' @ i))), Some (b, ts))
      else apfst ((@) (wire_frame (wj_print_response J (DrSubscribed i)))) (subscription_loop J i ts b))"

lemma read_message_shorter: "read_message parse s = Ok (Some (q, rest)) \<Longrightarrow> length rest < length s"
  by (auto simp: read_message_def read_frame_def Let_def split: frame_read.splits option.splits if_splits)

lemma subscription_loop_shorter: "subscription_loop J i ts s = (out, Some (rest, ts')) \<Longrightarrow> length rest \<le> length s"
proof (induction J i ts s arbitrary: out rule: subscription_loop.induct)
  case (2 J i ahead ts s)
  show ?case
  proof (cases "\<exists>q r. read_message (wj_parse_request J) s = Ok (Some (q, r)) \<and> q \<noteq> DqUnsubscribeMetrics i")
    case True
    then obtain q r where qr: "read_message (wj_parse_request J) s = Ok (Some (q, r))" "q \<noteq> DqUnsubscribeMetrics i" by blast
    then have "subscription_loop J i ts r = (out, Some (rest, ts'))" using "2.prems" by simp
    then have "length rest \<le> length r" using "2.IH" [OF qr(1) refl refl qr(2)] by blast
    then show ?thesis using read_message_shorter [OF qr(1)] by simp
  next
    case False
    then show ?thesis using "2.prems" by (auto split: sum.splits option.splits if_splits dest!: read_message_shorter)
  qed
qed (auto simp: apfst_def map_prod_def split: prod.splits)

lemma metrics_subscription_shorter:
  "handle_metrics_subscription J i ts b s = (out, Some (rest, ts')) \<Longrightarrow> length rest \<le> length b"
  by (cases "subscription_loop J i ts b")
    (auto simp: handle_metrics_subscription_def dest: subscription_loop_shorter split: if_splits)

definition subscribed_id :: "DaemonRequest \<Rightarrow> string option" where
  "subscribed_id q = (case q of DqSubscribeMetrics i \<Rightarrow> Some i | _ \<Rightarrow> None)"

text \<open>
  One connection, over the bytes the client sends. \<open>turns\<close> are the turns of its subscriptions, one after
  the other; a subscription that has not ended keeps the connection open.
\<close>

function handle_connection ::
  "'j wire_json \<Rightarrow> ('j, 'h) service_env \<Rightarrow> 'j sub_turn list \<Rightarrow> bytes \<Rightarrow> ('j, 'h) service_state
    \<Rightarrow> bytes \<times> conn_end \<times> ('j, 'h) service_state" where
  "handle_connection J E turns b s =
     (case read_message (wj_parse_request J) b of
        Err e \<Rightarrow> ([], ConnFailed e, s)
      | Ok None \<Rightarrow> ([], ConnClosed, s)
      | Ok (Some (q, rest)) \<Rightarrow>
          (case subscribed_id q of
             Some i \<Rightarrow>
               (case handle_metrics_subscription J i turns rest s of
                  (out, None) \<Rightarrow> (out, ConnOpen, s)
                | (out, Some (rest', turns')) \<Rightarrow> apfst ((@) out) (handle_connection J E turns' rest' s))
           | None \<Rightarrow>
               (case handle_request E q s of
                  (resp, s') \<Rightarrow>
                    apfst ((@) (wire_frame (wj_print_response J resp))) (handle_connection J E turns rest s'))))"
  by pat_completeness auto
termination
  by (relation "measure (\<lambda>(J, E, turns, b, s). length b)")
    (auto dest!: read_message_shorter metrics_subscription_shorter [OF sym])

declare handle_connection.simps [simp del]


section \<open>The client\<close>

datatype DaemonError =
  DeConnectionFailed string
| DeStartupFailed string
| DeSerializationFailed string
| DeDeserializationFailed string
| DeSendFailed string
| DeReceiveFailed string
| DeServerError string
| DeUnexpectedResponse
| DeTimeout

text \<open>The bytes a request is sent as, and the response read from the bytes that come back.\<close>

definition request_bytes :: "'j wire_json \<Rightarrow> DaemonRequest \<Rightarrow> bytes" where
  "request_bytes J q = wire_frame (wj_print_request J q)"

definition read_response :: "'j wire_json \<Rightarrow> bytes \<Rightarrow> (DaemonError, 'j DaemonResponse \<times> bytes) result" where
  "read_response J b =
     (case read_frame b of
        FrameBody m rest \<Rightarrow>
          (case wj_parse_response J m of
             Some r \<Rightarrow> Ok (r, rest)
           | None \<Rightarrow> Err (DeDeserializationFailed ''invalid response''))
      | _ \<Rightarrow> Err (DeReceiveFailed ''early eof''))"

text \<open>The end of every operation: the expected variant, the server's error, or anything else.\<close>

definition expect :: "('j DaemonResponse \<Rightarrow> 'a option) \<Rightarrow> 'j DaemonResponse \<Rightarrow> (DaemonError, 'a) result" where
  "expect f r =
     (case f r of
        Some x \<Rightarrow> Ok x
      | None \<Rightarrow> (case r of DrError m \<Rightarrow> Err (DeServerError m) | _ \<Rightarrow> Err DeUnexpectedResponse))"

definition ok_answer :: "'j DaemonResponse \<Rightarrow> unit option" where
  "ok_answer r = (case r of DrOk \<Rightarrow> Some () | _ \<Rightarrow> None)"

definition pong_answer :: "'j DaemonResponse \<Rightarrow> (string \<times> nat \<times> nat) option" where
  "pong_answer r = (case r of DrPong v u n \<Rightarrow> Some (v, u, n) | _ \<Rightarrow> None)"

definition tunnels_answer :: "'j DaemonResponse \<Rightarrow> DaemonTunnelInfo list option" where
  "tunnels_answer r = (case r of DrTunnels is \<Rightarrow> Some is | _ \<Rightarrow> None)"

definition tunnel_answer :: "'j DaemonResponse \<Rightarrow> DaemonTunnelInfo option" where
  "tunnel_answer r = (case r of DrTunnel i \<Rightarrow> Some i | _ \<Rightarrow> None)"

definition metrics_answer :: "'j DaemonResponse \<Rightarrow> ('j HttpMetric list \<times> nat) option" where
  "metrics_answer r = (case r of DrMetrics items n _ _ \<Rightarrow> Some (items, n) | _ \<Rightarrow> None)"

definition tcp_answer :: "'j DaemonResponse \<Rightarrow> (TcpMetric list \<times> nat) option" where
  "tcp_answer r = (case r of DrTcpConnections items n _ _ \<Rightarrow> Some (items, n) | _ \<Rightarrow> None)"

text \<open>\<open>server\<close> maps the bytes sent to the bytes that come back in time.\<close>

definition client_call ::
  "'j wire_json \<Rightarrow> (bytes \<Rightarrow> bytes) \<Rightarrow> ('j DaemonResponse \<Rightarrow> 'a option) \<Rightarrow> DaemonRequest \<Rightarrow> (DaemonError, 'a) result" where
  "client_call J server f q =
     (case read_response J (server (request_bytes J q)) of
        Err e \<Rightarrow> Err e
      | Ok (r, _) \<Rightarrow> expect f r)"

definition client_ping where "client_ping J server = client_call J server pong_answer DqPing"
definition client_list_tunnels where "client_list_tunnels J server = client_call J server tunnels_answer DqListTunnels"
definition client_get_tunnel where "client_get_tunnel J server i = client_call J server tunnel_answer (DqGetTunnel i)"
definition client_start_tunnel where "client_start_tunnel J server q = client_call J server tunnel_answer (DqStartTunnel q)"
definition client_stop_tunnel where "client_stop_tunnel J server i = client_call J server ok_answer (DqStopTunnel i)"
definition client_delete_tunnel where "client_delete_tunnel J server i = client_call J server ok_answer (DqDeleteTunnel i)"

definition client_get_tunnel_metrics where
  "client_get_tunnel_metrics J server i offset limit =
     client_call J server metrics_answer (DqGetTunnelMetrics i offset limit)"

definition client_clear_tunnel_metrics where
  "client_clear_tunnel_metrics J server i = client_call J server ok_answer (DqClearTunnelMetrics i)"

definition client_get_tcp_connections where
  "client_get_tcp_connections J server i offset limit =
     client_call J server tcp_answer (DqGetTcpConnections i offset limit)"

text \<open>A subscription on the client's side.\<close>

definition subscription_new :: "'j wire_json \<Rightarrow> bytes \<Rightarrow> (DaemonError, bytes) result" where
  "subscription_new J b =
     (case read_response J b of
        Err e \<Rightarrow> Err e
      | Ok (DrSubscribed _, rest) \<Rightarrow> Ok rest
      | Ok (DrError m, _) \<Rightarrow> Err (DeServerError m)
      | Ok _ \<Rightarrow> Err DeUnexpectedResponse)"

definition subscription_recv :: "'j wire_json \<Rightarrow> bytes \<Rightarrow> ('j MetricsEvent \<times> bytes) option" where
  "subscription_recv J b =
     (case read_response J b of
        Ok (DrMetricsEvent _ e, rest) \<Rightarrow> Some (e, rest)
      | _ \<Rightarrow> None)"

lemma read_response_shorter: "read_response J b = Ok (r, rest) \<Longrightarrow> length rest < length b"
  by (auto simp: read_response_def read_frame_def Let_def split: frame_read.splits option.splits if_splits)

lemma subscription_recv_shorter: "subscription_recv J b = Some (e, rest) \<Longrightarrow> length rest < length b"
  by (auto simp: subscription_recv_def read_response_shorter split: sum.splits DaemonResponse.splits)

text \<open>Receiving until there is no further event.\<close>

function recv_events :: "'j wire_json \<Rightarrow> bytes \<Rightarrow> 'j MetricsEvent list" where
  "recv_events J b = (case subscription_recv J b of None \<Rightarrow> [] | Some (e, rest) \<Rightarrow> e # recv_events J rest)"
  by pat_completeness auto
termination by (relation "measure (\<lambda>(J, b). length b)") (auto dest: subscription_recv_shorter)

declare recv_events.simps [simp del]

text \<open>
  Finding and starting the daemon, on Unix. \<open>tries\<close> tells for each of the attempts after the start whether
  it connects; the result is the number of the attempt, 0 for a daemon that was running.
\<close>

fun first_connect :: "nat \<Rightarrow> bool list \<Rightarrow> nat option" where
  "first_connect n [] = None"
| "first_connect n (b # bs) = (if b then Some n else first_connect (n + 1) bs)"

definition connect_or_start :: "bool \<Rightarrow> (string, unit) result \<Rightarrow> bool list \<Rightarrow> (DaemonError, nat) result" where
  "connect_or_start running started tries =
     (if running then Ok 0
      else case started of
             Err e \<Rightarrow> Err (DeStartupFailed e)
           | Ok _ \<Rightarrow>
               (case first_connect 1 (take 50 tries) of
                  Some n \<Rightarrow> Ok n
                | None \<Rightarrow> Err (DeStartupFailed ''Daemon did not start in time'')))"

definition find_daemon_binary ::
  "(string, string option) result \<Rightarrow> string \<Rightarrow> (string \<Rightarrow> bool) \<Rightarrow> string option \<Rightarrow> string option \<Rightarrow> (DaemonError, string) result" where
  "find_daemon_binary exe_dir triple exists home which =
     (case exe_dir of
        Err e \<Rightarrow> Err (DeStartupFailed e)
      | Ok dir \<Rightarrow>
          (let beside = (case dir of
                 None \<Rightarrow> []
               | Some d \<Rightarrow> [d @ ''/localup-daemon-'' @ triple, d @ ''/localup-daemon'']);
               candidates = beside @ [(case home of Some h \<Rightarrow> h | None \<Rightarrow> ''/tmp'') @ ''/.local/bin/localup-daemon'']
           in case List.find exists candidates of
                Some p \<Rightarrow> Ok p
              | None \<Rightarrow>
                  (case map_option trim which of
                     Some (c # p) \<Rightarrow> Ok (c # p)
                   | _ \<Rightarrow> Err (DeStartupFailed ''Could not find localup-daemon binary. Please ensure it's installed.''))))"

definition is_daemon_running :: "string option \<Rightarrow> (nat \<Rightarrow> bool) \<Rightarrow> bool" where
  "is_daemon_running pid_file process_exists =
     (case Option.bind pid_file (\<lambda>s. parse_uint 32 (trim s)) of Some pid \<Rightarrow> process_exists pid | None \<Rightarrow> False)"

text \<open>Whether the PID file is there afterwards comes with the result; without a daemon it is removed at once.\<close>

definition stop_daemon :: "(DaemonError, 'j DaemonResponse) result option \<Rightarrow> bool \<Rightarrow> (DaemonError, unit) result \<times> bool" where
  "stop_daemon shutdown pid_file =
     (case shutdown of
        Some (Err e) \<Rightarrow> (Err e, pid_file)
      | _ \<Rightarrow> (Ok (), False))"

section \<open>Steps of the service\<close>

inductive service_step :: "('j, 'h) service_state \<Rightarrow> ('j, 'h) service_state \<Rightarrow> bool" where
  service_task: "service_step s (service_task_step ev t s)"
| service_request: "service_step s (snd (handle_request E q s))"

lemma service_frame [simp]:
  "sc_pool (update_tunnel_status i st url err s) = sc_pool s"
  "service_handle (update_tunnel_status i st url err s) = service_handle s"
  "sc_pool (set_tunnel_metrics i m s) = sc_pool s"
  "service_handle (set_tunnel_metrics i m s) = service_handle s"
  "sc_pool (service_set_phase ph t s) = set_phase ph t (sc_pool s)"
  "service_handle (service_set_phase ph t s) = service_handle s"
  "sc_pool (service_abort t s) = abort_task t (sc_pool s)"
  "service_handle (service_abort t s) = service_handle s"
  by (auto simp: update_tunnel_status_def set_tunnel_metrics_def service_set_phase_def service_abort_def service_handle_def fun_eq_iff
      split: option.split)

lemma service_task_step_frame:
  "service_handle (service_task_step ev t s) = service_handle s"
  "task_moves t (sc_pool s) (sc_pool (service_task_step ev t s))"
  by (auto simp: service_task_step_def Let_def split: option.split task_phase.split task_event.split outcome.split)

interpretation service: tunnel_host sc_pool service_handle "service_register info" service_signal service_abort service_task_step
  by unfold_locales
    (simp_all add: service_task_step_frame, simp_all add: service_register_def service_signal_def service_handle_def fun_eq_iff)


lemma service_remove_controlled: "service.controlled s \<Longrightarrow> service.controlled (service_remove i s)"
  by (simp add: service_remove_def service.abort_controlled service.signal_controlled split: option.split)

lemma service_remove_fold_controlled: "service.controlled s \<Longrightarrow> service.controlled (fold service_remove is s)"
  by (induction "is" arbitrary: s) (simp_all add: service_remove_controlled)

lemma service_controlled_cong:
  "sc_pool s' = sc_pool s \<Longrightarrow> service_handle s' = service_handle s \<Longrightarrow> service.controlled s' = service.controlled s"
  by (simp add: service.controlled_def)

lemma service_exit_controlled: "service.controlled (s\<lparr>sc_exiting := b\<rparr>) = service.controlled s"
  by (rule service_controlled_cong) (simp_all add: service_handle_def fun_eq_iff)

lemma service_clear_frame:
  "sc_pool (snd (service_clear_metrics h i s)) = sc_pool s" "service_handle (snd (service_clear_metrics h i s)) = service_handle s"
  by (auto simp: service_clear_metrics_def service_handle_def fun_eq_iff split: option.split)

lemma service_clear_controlled: "service.controlled (snd (service_clear_metrics h i s)) = service.controlled s"
  by (rule service_controlled_cong) (simp_all add: service_clear_frame)

lemma handle_request_controlled: "service.controlled s \<Longrightarrow> service.controlled (snd (handle_request E q s))"
  by (cases q)
    (auto simp: handle_request_def service_start_def Let_def service.start_controlled service_remove_controlled
      service_remove_fold_controlled service_exit_controlled service_clear_controlled split: sum.split)

lemma service_step_controlled: "service_step s s' \<Longrightarrow> service.controlled s \<Longrightarrow> service.controlled s'"
  by (induction rule: service_step.induct) (auto simp: service.step_controlled handle_request_controlled)

lemma service_steps_controlled:
  assumes "service_step\<^sup>*\<^sup>* service_new s"
  shows "service.controlled s"
  using assms
proof (induction rule: rtranclp_induct)
  case base
  show ?case by (rule service.controlledI) (simp_all add: service_new_def service_handle_def no_tasks_def)
qed (rule service_step_controlled)

text \<open>
  After a request to stop or delete a tunnel the daemon knows it no more, and no task of it is left but
  those that had lost their entry before; every other tunnel is untouched.
\<close>

lemma service_stop:
  assumes "service_step\<^sup>*\<^sup>* service_new s" and "q = DqStopTunnel i \<or> q = DqDeleteTunnel i"
    and s'_def: "s' = snd (handle_request E q s)"
  shows "sc_tunnels s' = (sc_tunnels s)(i := None)" and "service.alive i s' \<subseteq> service.stray i s"
    and "j \<noteq> i \<Longrightarrow> service.alive j s' = service.alive j s"
proof -
  have s': "s' = service_remove i s" using assms(2) by (auto simp: s'_def handle_request_def)
  note ctl = service_steps_controlled [OF assms(1)]
  show "sc_tunnels s' = (sc_tunnels s)(i := None)"
    by (cases "sc_tunnels s i") (simp_all add: s' service_remove_def service_handle_def service_abort_def service_signal_def fun_upd_idem)
  show "service.alive i s' \<subseteq> service.stray i s"
  proof (cases "service_handle s i")
    case None
    then show ?thesis using service.stop_without_handle [OF ctl] by (simp add: s' service_remove_def)
  next
    case (Some t)
    then show ?thesis using service.stop_leaves_stray [OF ctl Some, of "[]"] by (simp add: s' service_remove_def service.run_def)
  qed
  assume "j \<noteq> i"
  then show "service.alive j s' = service.alive j s"
    using service.controlledD(4) [OF ctl]
    by (fastforce simp: s' service_remove_def service.alive_def service_signal_def task_changes split: option.splits if_splits)
qed

text \<open>A connection that is lost is still shown as connected, with its address, until the next attempt fails.\<close>

lemma lost_connection_still_shown:
  assumes "tp_tasks (sc_pool s) t = Some k" and "tk_phase k = Holding"
  shows "sc_tunnels (service_task_step ConnectionEnds t s) = sc_tunnels s"
  using assms by (simp add: service_task_step_def Let_def service_set_phase_def)

text \<open>The first hundred connections are listed oldest first and without a limit, every other page newest first.\<close>

lemma tcp_pages_disagree:
  assumes "sc_tunnels s i = Some r" and "rn_metrics r = Some m" and "tcp_connections m = xs" and "length xs \<le> n" and "n < 100"
  shows "service_tcp_page i None (Some n) s = DrTcpConnections (rev xs) (length xs) 0 n \<and>
    service_tcp_page i None (Some (n + 100)) s = DrTcpConnections xs (length xs) 0 (n + 100)"
  using assms by (simp add: service_tcp_page_def given_or_def Let_def)

section \<open>Conversations\<close>

text \<open>What is needed of the messages exchanged: JSON reads them back, and they are below four gigabytes.\<close>

definition request_ok :: "'j wire_json \<Rightarrow> DaemonRequest \<Rightarrow> bool" where
  "request_ok J q \<longleftrightarrow> wj_parse_request J (wj_print_request J q) = Some q \<and> length (wj_print_request J q) < 2 ^ 32"

definition response_ok :: "'j wire_json \<Rightarrow> 'j DaemonResponse \<Rightarrow> bool" where
  "response_ok J r \<longleftrightarrow> wj_parse_response J (wj_print_response J r) = Some r \<and> length (wj_print_response J r) < 2 ^ 32"

lemma read_frame_wire:
  assumes "length b < 2 ^ 32"
  shows "read_frame (wire_frame b @ rest) = FrameBody b rest"
proof -
  have "unat (of_nat (length b) :: u32) = length b" using assms by (simp add: unat_of_nat)
  then show ?thesis by (simp add: read_frame_def wire_frame_def Let_def)
qed

lemma read_request_wire:
  "request_ok J q \<Longrightarrow> read_message (wj_parse_request J) (wire_frame (wj_print_request J q) @ rest) = Ok (Some (q, rest))"
  by (simp add: request_ok_def read_message_def read_frame_wire)

lemma read_response_wire: "response_ok J r \<Longrightarrow> read_response J (wire_frame (wj_print_response J r) @ rest) = Ok (r, rest)"
  by (simp add: response_ok_def read_response_def read_frame_wire)

lemmas read_request_end = read_request_wire [where rest = "[]", simplified]
lemmas read_response_end = read_response_wire [where rest = "[]", simplified]

fun serve :: "('j, 'h) service_env \<Rightarrow> DaemonRequest list \<Rightarrow> ('j, 'h) service_state \<Rightarrow> 'j DaemonResponse list \<times> ('j, 'h) service_state" where
  "serve E [] s = ([], s)"
| "serve E (q # qs) s = (case handle_request E q s of (r, s') \<Rightarrow> apfst ((#) r) (serve E qs s'))"

fun read_responses :: "'j wire_json \<Rightarrow> nat \<Rightarrow> bytes \<Rightarrow> (DaemonError, 'j DaemonResponse list) result" where
  "read_responses J 0 b = Ok []"
| "read_responses J (Suc n) b =
     (case read_response J b of
        Err e \<Rightarrow> Err e
      | Ok (r, rest) \<Rightarrow> (case read_responses J n rest of Err e \<Rightarrow> Err e | Ok rs \<Rightarrow> Ok (r # rs)))"

lemma handle_connection_request:
  assumes "request_ok J q" and "subscribed_id q = None"
  shows "handle_connection J E turns (request_bytes J q @ rest) s =
    (case handle_request E q s of
       (r, s') \<Rightarrow> apfst ((@) (wire_frame (wj_print_response J r))) (handle_connection J E turns rest s'))"
  using assms by (subst handle_connection.simps) (simp add: request_bytes_def read_request_wire)

lemma handle_connection_Nil: "handle_connection J E turns [] s = ([], ConnClosed, s)"
  by (subst handle_connection.simps) (simp add: read_message_def read_frame_def)


definition demo_wire :: "unit wire_json" where
  "demo_wire = \<lparr>wj_print_request = (\<lambda>q. if q = DqPing then [1] else [2]),
     wj_parse_request = (\<lambda>b. if b = [1] then Some DqPing else Some (DqStopTunnel ''x'')),
     wj_print_response = (\<lambda>r. case r of DrError _ \<Rightarrow> [3] | _ \<Rightarrow> [4]),
     wj_parse_response = (\<lambda>b. if b = [3] then Some (DrError ''Tunnel not found: x'') else Some (DrPong ''1'' 7 0))\<rparr>"

definition demo_service_env :: "(unit, unit) service_env" where
  "demo_service_env = \<lparr>en_listing = (\<lambda>_. []), en_version = ''1'', en_uptime = 7, en_now = [], en_histogram = demo_hist\<rparr>"


text \<open>One operation of the client against the service: it returns what the service's answer says.\<close>

lemma client_call_service:
  assumes "request_ok J q" and "response_ok J (fst (handle_request E q s))" and "subscribed_id q = None"
  shows "client_call J (\<lambda>b. fst (handle_connection J E turns b s)) f q = expect f (fst (handle_request E q s))"
  using handle_connection_request [OF assms(1,3), of E turns "[]" s] assms(2)
  by (cases "handle_request E q s") (simp add: client_call_def handle_connection_Nil read_response_end)

lemma client_get_tunnel_service:
  assumes "request_ok J (DqGetTunnel i)" and "response_ok J (fst (handle_request E (DqGetTunnel i) s))"
  shows "client_get_tunnel J (\<lambda>b. fst (handle_connection J E turns b s)) i =
    (case sc_tunnels s i of Some r \<Rightarrow> Ok (rn_info r) | None \<Rightarrow> Err (DeServerError (''Tunnel not found: '' @ i)))"
  using client_call_service [OF assms, where f = tunnel_answer and turns = turns]
  by (simp add: client_get_tunnel_def subscribed_id_def handle_request_def expect_def tunnel_answer_def not_found_def split: option.split)

text \<open>Starting a tunnel over the wire: the client gets the new entry and finds it afterwards.\<close>

lemma client_start_then_get:
  assumes "request_ok J (DqStartTunnel q)" and "response_ok J (DrTunnel (connecting_info (en_now E) q))"
    and "sc_tunnels s (sq_id q) = None" and "service_protocol_config q = Ok p" and "request_ok J (DqGetTunnel (sq_id q))"
  shows "client_start_tunnel J (\<lambda>b. fst (handle_connection J E turns b s)) q = Ok (connecting_info (en_now E) q) \<and>
    client_get_tunnel J (\<lambda>b. fst (handle_connection J E turns b (snd (handle_request E (DqStartTunnel q) s)))) (sq_id q) =
      Ok (connecting_info (en_now E) q)"
proof -
  have start: "handle_request E (DqStartTunnel q) s = (DrTunnel (connecting_info (en_now E) q),
      service_register (connecting_info (en_now E) q) (sq_id q) (service_client_config q p) s)"
    using assms(3,4) by (simp add: handle_request_def service_start_def Let_def)
  have "client_start_tunnel J (\<lambda>b. fst (handle_connection J E turns b s)) q = Ok (connecting_info (en_now E) q)"
    using client_call_service [OF assms(1), where f = tunnel_answer and E = E and s = s and turns = turns] assms(2)
    by (simp add: client_start_tunnel_def start subscribed_id_def expect_def tunnel_answer_def)
  moreover have "sc_tunnels (snd (handle_request E (DqStartTunnel q) s)) (sq_id q) =
      Some \<lparr>rn_info = connecting_info (en_now E) q, rn_task = tp_next (sc_pool s), rn_metrics = None\<rparr>"
    by (simp add: start service_register_def)
  moreover from this have "response_ok J (fst (handle_request E (DqGetTunnel (sq_id q)) (snd (handle_request E (DqStartTunnel q) s))))"
    using assms(2) by (simp add: handle_request_def [of E "DqGetTunnel (sq_id q)"])
  ultimately show ?thesis by (simp add: client_get_tunnel_service [OF assms(5)])
qed

fun turn_events :: "'j sub_turn list \<Rightarrow> 'j MetricsEvent list" where
  "turn_events [] = []"
| "turn_events (TurnEvent e # ts) = e # turn_events ts"
| "turn_events (_ # ts) = turn_events ts"

definition delivers :: "'j sub_turn \<Rightarrow> bool" where
  "delivers t = (case t of TurnEvent _ \<Rightarrow> True | TurnLagged \<Rightarrow> True | _ \<Rightarrow> False)"

lemma subscription_loop_delivers:
  assumes "list_all delivers ts"
  shows "subscription_loop J i (ts @ ts') b =
    apfst ((@) (concat (map (\<lambda>e. wire_frame (wj_print_response J (DrMetricsEvent i e))) (turn_events ts)))) (subscription_loop J i ts' b)"
  using assms
proof (induction ts)
  case (Cons t ts)
  then show ?case by (cases t) (auto simp: delivers_def apfst_def map_prod_def split: prod.splits)
qed (simp add: apfst_def map_prod_def split: prod.splits)

lemma recv_events_wire:
  assumes "response_ok J DrOk" and "\<forall>e \<in> set es. response_ok J (DrMetricsEvent i e)"
  shows "recv_events J (concat (map (\<lambda>e. wire_frame (wj_print_response J (DrMetricsEvent i e))) es) @ wire_frame (wj_print_response J DrOk)) = es"
  using assms(2)
proof (induction es)
  case Nil
  show ?case by (subst recv_events.simps) (simp add: subscription_recv_def read_response_end [OF assms(1)])
next
  case (Cons e es)
  then show ?case by (subst recv_events.simps) (simp add: subscription_recv_def read_response_wire)
qed

text \<open>
  A subscription delivers to the client exactly the events of the tunnel, in order, from the
  confirmation to the request that ends it; only events the channel dropped itself are missing.
\<close>

theorem subscription_delivers:
  assumes "request_ok J (DqSubscribeMetrics i)" and "request_ok J (DqUnsubscribeMetrics i)"
    and "response_ok J DrOk" and "response_ok J (DrSubscribed i)" and "\<forall>e \<in> set (turn_events ts). response_ok J (DrMetricsEvent i e)"
    and "sc_tunnels s i = Some r" and "rn_metrics r = Some m" and "list_all delivers ts"
  shows "\<exists>out rest. handle_connection J E (ts @ [TurnRead 0])
      (request_bytes J (DqSubscribeMetrics i) @ request_bytes J (DqUnsubscribeMetrics i)) s = (out, ConnClosed, s) \<and>
    subscription_new J out = Ok rest \<and> recv_events J rest = turn_events ts"
proof -
  let ?evs = "concat (map (\<lambda>e. wire_frame (wj_print_response J (DrMetricsEvent i e))) (turn_events ts))"
  let ?ok = "wire_frame (wj_print_response J DrOk)"
  have "subscription_loop J i (ts @ [TurnRead 0]) (request_bytes J (DqUnsubscribeMetrics i)) = (?evs @ ?ok, Some ([], []))"
    by (simp add: subscription_loop_delivers [OF assms(8)] request_bytes_def read_request_end [OF assms(2)])
  then have sub: "handle_metrics_subscription J i (ts @ [TurnRead 0]) (request_bytes J (DqUnsubscribeMetrics i)) s =
      (wire_frame (wj_print_response J (DrSubscribed i)) @ ?evs @ ?ok, Some ([], []))"
    using assms(6,7) by (simp add: handle_metrics_subscription_def)
  have "handle_connection J E (ts @ [TurnRead 0])
      (request_bytes J (DqSubscribeMetrics i) @ request_bytes J (DqUnsubscribeMetrics i)) s =
      (wire_frame (wj_print_response J (DrSubscribed i)) @ ?evs @ ?ok, ConnClosed, s)"
    by (subst handle_connection.simps)
      (simp add: request_bytes_def [of J "DqSubscribeMetrics i"] read_request_wire [OF assms(1)] subscribed_id_def sub handle_connection_Nil)
  moreover have "subscription_new J (wire_frame (wj_print_response J (DrSubscribed i)) @ ?evs @ ?ok) = Ok (?evs @ ?ok)"
    by (simp add: subscription_new_def read_response_wire [OF assms(4)])
  ultimately show ?thesis using recv_events_wire [OF assms(3,5)] by blast
qed

text \<open>A request that comes right behind the one that ends a subscription may be lost with the reader's buffer.\<close>

lemma pipelined_request_lost:
  assumes "request_ok J (DqSubscribeMetrics i)" and "request_ok J (DqUnsubscribeMetrics i)"
    and "sc_tunnels s i = Some r" and "rn_metrics r = Some m"
  shows "handle_connection J E [TurnRead (length (request_bytes J q))]
      (request_bytes J (DqSubscribeMetrics i) @ request_bytes J (DqUnsubscribeMetrics i) @ request_bytes J q) s =
    (wire_frame (wj_print_response J (DrSubscribed i)) @ wire_frame (wj_print_response J DrOk), ConnClosed, s)"
  using assms(3,4)
  by (subst handle_connection.simps)
    (simp add: request_bytes_def read_request_wire [OF assms(1)] read_request_wire [OF assms(2)] subscribed_id_def
      handle_metrics_subscription_def handle_connection_Nil)

end
