(* ===== verification/Spec2Isabelle.thy ===== *)
theory Spec2Isabelle
  imports Mux Reverse ClientProxy Transports RestDomains RestTraffic HttpParser DesktopReplay DesktopDaemon
begin

text \<open>
  A verification library for localup, a tunnelling system in Rust: a client behind a firewall connects
  to a public relay, the relay gives it public endpoints (host names, ports, TLS server names), and
  visitors of these endpoints reach services next to the client. The theories model the code under
  \<open>src/crates\<close> as functions and step relations and prove what the parts promise and what their
  composition achieves.

  \<^bold>\<open>How the parts interact.\<close> A client (\<open>localup-client\<close>) fetches the relay's discovery document, selects a
  transport and connects; over the control stream it sends its token, its protocols and its
  configuration. The relay's tunnel handler (\<open>localup-control\<close>) checks the token, allocates ports or host
  names, registers routes in the shared registry (\<open>localup-router\<close>) and keeps the connection in its
  tables; when the heartbeat or the control stream ends, it removes everything again. A visitor's
  connection reaches one of the public servers (\<open>localup-server-https\<close>, \<open>-tls\<close>, \<open>-tcp\<close>,
  \<open>-tcp-proxy\<close>), which asks the registry for the route, checks the route's address filter and HTTP
  authentication, opens a stream to the client and copies bytes in both directions; the client
  connects to its local service and does the same. For a reverse tunnel the roles turn around: an agent
  (\<open>localup-agent\<close>) next to a private service has registered with the relay, a client opens a local port,
  and the relay joins the client's stream to the agent's. Beside this data path stand the REST API
  (\<open>localup-api\<close>: users, tokens, custom domains with their certificates, captured traffic), the ACME
  client (\<open>localup-cert\<close>) and the command line tool with its daemon (\<open>localup-cli\<close>), which keeps tunnels
  running from a project file.

  \<^bold>\<open>Theories and the code they model.\<close>
  \<^item> \<open>Prelude\<close>: bytes and machine integers, the result types, Rust's string and slice functions, and the
    locale \<open>keyed_store\<close> of every concurrent map in the code.
  \<^item> \<open>Mux\<close>, \<open>Messages\<close>, \<open>Codec\<close>, \<open>IpFilter\<close>, \<open>Discovery\<close>: \<open>localup-proto\<close>, that is frames and the stream
    multiplexer (\<open>mux.rs\<close>), the message types (\<open>messages.rs\<close>), length framing (\<open>codec.rs\<close>), CIDR filters
    (\<open>ip_filter.rs\<close>), and the discovery document with the client code that selects transport and relay.
  \<^item> \<open>Wildcard\<close>, \<open>Registry\<close>, \<open>Routers\<close>: \<open>localup-router\<close>, the patterns, the registry of exact and
    wildcard routes, the three routers and the extraction of the server name from a ClientHello.
  \<^item> \<open>Jwt\<close> and \<open>HttpAuth\<close>: \<open>localup-auth\<close> and \<open>localup-http-auth\<close>.
  \<^item> \<open>PortAlloc\<close>: the two port allocators of \<open>localup-control\<close> and \<open>localup-exit-node\<close>.
  \<^item> \<open>Control\<close>, \<open>Handler\<close>, \<open>Session\<close>: \<open>localup-control\<close>, that is its tables and providers, then
    \<open>handler.rs\<close>: token checks, endpoints, registration and removal of routes; then the life cycle of a
    connection of a client or an agent with its heartbeat and cleanup.
  \<^item> \<open>Forwarding\<close>: the copy loops of the relay's servers and of the client, as steps over the results of
    reads, receives and writes. \<open>PublicServers\<close>: what each server does with a new connection.
  \<^item> \<open>Transports\<close>: the streams of \<open>localup-transport-quic\<close>, \<open>-h2\<close> and \<open>-websocket\<close>.
  \<^item> \<open>ClientTunnel\<close>, \<open>ClientHttp\<close>, \<open>ClientProxy\<close>, \<open>Metrics\<close>: \<open>localup-client\<close>, that is configuration,
    connection set-up and dispatch of streams; HTTP requests that arrive as messages; HTTP as a byte
    stream with the pool of local connections; the metrics store.
  \<^item> \<open>Agent\<close> and \<open>Reverse\<close>: \<open>localup-agent\<close>, \<open>localup-agent-server\<close>, \<open>reverse_tunnel.rs\<close> and the relay's
    side of reverse tunnels.
  \<^item> \<open>RestAuth\<close>, \<open>RestDomains\<close>, \<open>RestTraffic\<close>: the handlers of \<open>localup-api\<close> over the tables of
    \<open>localup-relay-db\<close>. \<open>Acme\<close>: \<open>localup-cert\<close>.
  \<^item> \<open>CliConfig\<close> and \<open>Daemon\<close>: the configuration files, the stored tunnels, the daemon and its local socket
    in \<open>localup-cli\<close>.
  \<^item> \<open>HttpParser\<close>: \<open>http_parser.rs\<close> of \<open>localup-client\<close>, which finds the end of requests and responses.
  \<^item> \<open>DesktopTasks\<close>, \<open>Desktop\<close>, \<open>DesktopReplay\<close>, \<open>DesktopDaemon\<close>: the desktop application in
    \<open>src/apps/localup-desktop/src-tauri\<close>, that is the tasks that run tunnels, the application's commands with
    its tables, the replay of requests, and the daemon with its protocol and client.
  Definitions have the names of the source where HOL allows it; a struct is a \<open>record\<close>, an enum a
  \<open>datatype\<close>, and an operation takes the state behind its locks as an argument and returns the new one.

  \<^bold>\<open>Interfaces.\<close> Contracts that several parts share are locales, and each is interpreted on the
  model's own definitions: \<open>keyed_store\<close> (route, connection, task and certificate tables),
  \<open>port_allocator\<close> and \<open>exclusive_port_allocator\<close> (the simple and the pooled allocator), \<open>router\<close> (HTTP,
  SNI, TCP), \<open>http_auth_provider\<close> (none, basic, bearer, header, the configured one), \<open>domain_reservations\<close>,
  \<open>heartbeat\<close> (client and agent), \<open>source\<close>, \<open>sink\<close> and \<open>tunnel_leg\<close> (the eight directions of the copy
  loops), \<open>message_relay\<close> and \<open>relayed_leg\<close> (reverse tunnels), \<open>message_stream\<close> and \<open>checked_stream\<close> (the
  transports), \<open>tunnel_repository\<close> (the directory of stored tunnels) and \<open>tunnel_host\<close> (the tasks of the desktop
  application and of its daemon).

  \<^bold>\<open>What is shown.\<close> End to end: a visitor's request reaches the local service and its response the
  visitor, unchanged (below and in \<open>PublicServers\<close>); TCP, TLS and reverse tunnels are transparent in both
  directions, however the bytes are cut; nothing reaches a tunnel past its filter and authentication.
  Of the relay's state: no registration disturbs another tunnel's route, no two tunnels hold a port,
  a lookup means what the patterns say, connecting and cleaning up leaves no trace, a silent peer is
  dropped. Of the wire formats: frames, messages, chunked bodies and transport streams round-trip and
  keep apart what is multiplexed. Of access: who passes each authentication scheme, who owns which API
  token, what an agent forwards. Of the tools: stored tunnels behave as a map, a project file is
  refused for its first fault, the daemon's table and its reports follow the configuration. Where the
  code falls short of its comments, a theorem states what it does and the manifest records the
  difference.

  \<^bold>\<open>Conventions.\<close> Strings are lists of the bytes of their UTF-8 form and case functions are ASCII, so
  Unicode case folding is outside the model. Integers have the width of the source where it matters;
  an overflow that panics in builds with checks is the value \<open>Panic\<close>, wrapping arithmetic wraps. A
  loop over data is a structural or measured recursion; a loop over the network is a recursion over
  the results that it reads, so its termination is part of what the theorems say, and no fuel is
  needed; loops that wait for events are step relations with reachability. Values from outside the
  repository are parameters: \<open>bincode\<close>, JSON and YAML, base64, hashes and password checks, signatures and
  X.509, random numbers and UUIDs, clocks, the operating system's probes and files, the errors of the
  database, the certificate authority. What a property needs of one is a hypothesis, and its witness
  instantiates the parameter with a concrete function.

  \<^bold>\<open>Not modelled.\<close> Socket and TLS set-up, accept loops and HTTP/2 and QUIC drivers, which are calls of
  \<open>tokio\<close>, \<open>rustls\<close>, \<open>quinn\<close>, \<open>h2\<close> and \<open>tungstenite\<close>; argument parsing, terminal output and service files of
  the command line tool (\<open>main.rs\<close>, \<open>service.rs\<close>); the Windows variant of the daemon's socket; database
  migrations and the copy of metrics and captured requests into a database; argon2 and the random
  token format, which are library calls. Of the desktop application the window, the
  tray and the settings are left out.
\<close>

section \<open>A request from visitor to service and back\<close>



definition demo_service_headers :: headers where
  "demo_service_headers = [(''Content-Length'', ''2''), (''X'', ''y'')]"

lemma demo_service:
  "header_text ''HTTP/1.1 200 OK''" "split_whitespace ''HTTP/1.1 200 OK'' = ''HTTP/1.1'' # ''200'' # [''OK'']"
  "parse_u16 ''200'' = Some 200" "list_all plain_header demo_service_headers"
proof -
  show "header_text ''HTTP/1.1 200 OK''" by (simp add: header_text_def LF_def)
  show "split_whitespace ''HTTP/1.1 200 OK'' = ''HTTP/1.1'' # ''200'' # [''OK'']"
    by (simp add: split_whitespace_def is_whitespace_def)
  show "parse_u16 ''200'' = Some 200" by (simp add: parse_u16_def parse_uint_def is_ascii_digit_def)
  show "list_all plain_header demo_service_headers"
    by (simp add: demo_service_headers_def plain_header_def header_text_def LF_def trim_def is_whitespace_def)
qed

lemma demo_service_length: "declared_length demo_service_headers = Some 2"
proof -
  have "to_lowercase ''Content-Length'' = ''content-length''" "to_lowercase ''X'' = ''x''" by code_simp+
  then show ?thesis
    by (simp add: declared_length_def demo_service_headers_def parse_uint_def is_ascii_digit_def)
qed

lemma demo_not_websocket: "\<not> is_websocket_request [(''Host'', ''app.relay.io''), (''Authorization'', ''Bearer k'')]"
  by code_simp

lemma demo_surroundings:
  "first_http_port demo_http_config = Some 3000" "acme_answer None host u = None"
  "concat [render_request line hs [], b] = render_request line hs b"
  by (simp_all add: first_http_port_def demo_http_config_def acme_answer_def render_request_def)


end
